(* ===== verification/Prelude.thy ===== *)
theory Prelude
  imports Complex_Main "HOL-Library.Word" "HOL-Library.AList"
begin

text \<open>
  Vocabulary shared by every component: the types that stand for JavaScript values
  (\<open>js_str\<close>, \<open>bytes\<close>, \<open>js_number\<close>, \<open>json\<close>), the string methods the sources call,
  exceptions as the left summand of a sum, and the generic lemmas on these.

  A \<open>js_str\<close> is a list of characters; the code units a \<open>char\<close> can hold are those below 256,
  which covers every string the sources build or compare; dashes, arrows and ellipses in their
  messages are written in ASCII. A \<open>bytes\<close> is the content of a
  \<open>Uint8Array\<close>. A JavaScript number is \<open>NaN\<close>, an infinity or an exact rational; a \<open>bigint\<close>
  is an \<open>int\<close>.
\<close>

named_theorems js_string_simps \<open>unfolding of the string methods of JavaScript\<close>
named_theorems hex_simps \<open>hexadecimal digits, bytes and strings\<close>
named_theorems err_simps \<open>equations for sequencing computations that may throw\<close>

subsection \<open>Types\<close>

type_synonym js_str = string
type_synonym byte = "8 word"
type_synonym bytes = "byte list"
type_synonym bigint = int

datatype js_number = NaN | PosInfinity | NegInfinity | Finite rat

datatype json =
    JNull
  | JBool bool
  | JNum js_number
  | JStr js_str
  | JArr "json list"
  | JObj "(js_str \<times> json) list"

text \<open>
  Property access \<open>v[k]\<close> on an unknown value: \<open>None\<close> is \<open>undefined\<close>. Only objects made by
  \<open>JSON.parse\<close> have the properties the sources read.
\<close>

fun json_get :: "json \<Rightarrow> js_str \<Rightarrow> json option" where
  "json_get (JObj kvs) k = map_of kvs k"
| "json_get _ k = None"

text \<open>A value the truth test of the source takes for false: absent, \<open>null\<close>, \<open>false\<close>, 0, empty.\<close>

fun json_false :: "json option \<Rightarrow> bool" where
  "json_false None \<longleftrightarrow> True"
| "json_false (Some JNull) \<longleftrightarrow> True"
| "json_false (Some (JBool b)) \<longleftrightarrow> \<not> b"
| "json_false (Some (JNum n)) \<longleftrightarrow> n = Finite 0 \<or> n = NaN"
| "json_false (Some (JStr s)) \<longleftrightarrow> s = []"
| "json_false (Some _) \<longleftrightarrow> False"

text \<open>An undefined property is left out by \<open>JSON.stringify\<close>.\<close>

definition opt_field :: "js_str \<Rightarrow> json option \<Rightarrow> (js_str \<times> json) list" where
  "opt_field k v = (case v of None \<Rightarrow> [] | Some j \<Rightarrow> [(k, j)])"

definition json_int :: "int \<Rightarrow> json" where
  "json_int n = JNum (Finite (of_int n))"

text \<open>
  The exceptions the executor can meet. The constructor is what \<open>instanceof\<close> tells apart, the
  string is the \<open>message\<close>.
\<close>

datatype js_error =
    JsError js_str
  | VerifierNotReadyError js_str
  | DaLayerNotReadyError js_str

primrec err_message :: "js_error \<Rightarrow> js_str" where
  "err_message (JsError m) = m"
| "err_message (VerifierNotReadyError m) = m"
| "err_message (DaLayerNotReadyError m) = m"

subsection \<open>Computations that may throw\<close>

text \<open>\<open>bind_err m f\<close>: run \<open>m\<close>; an exception (\<open>Inl\<close>) leaves at once.\<close>

fun bind_err :: "'e + 'a \<Rightarrow> ('a \<Rightarrow> 'e + 'b) \<Rightarrow> 'e + 'b" where
  bind_err_Inl: "bind_err (Inl e) f = Inl e"
| bind_err_Inr: "bind_err (Inr a) f = f a"

declare bind_err_Inl [err_simps] bind_err_Inr [err_simps]

lemma bind_err_eq_Inr [simp, err_simps]:
  "bind_err m f = Inr b \<longleftrightarrow> (\<exists>a. m = Inr a \<and> f a = Inr b)"
  by (cases m) auto

lemma bind_err_eq_Inl [err_simps]:
  "bind_err m f = Inl e \<longleftrightarrow> m = Inl e \<or> (\<exists>a. m = Inr a \<and> f a = Inl e)"
  by (cases m) auto

definition is_ok :: "'e + 'a \<Rightarrow> bool" where
  "is_ok r \<longleftrightarrow> (case r of Inl _ \<Rightarrow> False | Inr _ \<Rightarrow> True)"

lemma is_ok_simps [simp, err_simps]: "is_ok (Inr a)" "\<not> is_ok (Inl e)"
  by (simp_all add: is_ok_def)

lemma is_ok_iff: "is_ok r \<longleftrightarrow> (\<exists>a. r = Inr a)"
  by (cases r) auto

lemma is_ok_bind [err_simps]: "is_ok (bind_err m f) \<longleftrightarrow> (\<exists>a. m = Inr a \<and> is_ok (f a))"
  by (cases m) auto

subsection \<open>String methods\<close>

text \<open>\<open>s.slice(i, j)\<close> and \<open>s.slice(i)\<close> for indices that are not negative.\<close>

definition js_slice :: "nat \<Rightarrow> nat \<Rightarrow> 'a list \<Rightarrow> 'a list" where
  "js_slice i j s = take (j - i) (drop i s)"

definition js_slice_from :: "nat \<Rightarrow> 'a list \<Rightarrow> 'a list" where
  "js_slice_from i s = drop i s"

definition js_startsWith :: "js_str \<Rightarrow> js_str \<Rightarrow> bool" where
  "js_startsWith p s \<longleftrightarrow> take (length p) s = p"

fun js_includes :: "js_str \<Rightarrow> js_str \<Rightarrow> bool" where
  "js_includes p [] \<longleftrightarrow> p = []"
| "js_includes p (c # s) \<longleftrightarrow> js_startsWith p (c # s) \<or> js_includes p s"

definition js_padStart :: "nat \<Rightarrow> char \<Rightarrow> js_str \<Rightarrow> js_str" where
  "js_padStart n c s = replicate (n - length s) c @ s"

definition js_padEnd :: "nat \<Rightarrow> char \<Rightarrow> js_str \<Rightarrow> js_str" where
  "js_padEnd n c s = s @ replicate (n - length s) c"

text \<open>
  \<open>toLowerCase\<close> on code units below 256: the ASCII capitals and the Latin-1 capitals except the
  multiplication sign. \<open>toUpperCase\<close> is given on ASCII letters: the sources apply it to
  hexadecimal text.
\<close>

definition lower_char :: "char \<Rightarrow> char" where
  "lower_char c = (let n = of_char c :: nat in
     if 65 \<le> n \<and> n \<le> 90 \<or> 192 \<le> n \<and> n \<le> 222 \<and> n \<noteq> 215 then char_of (n + 32) else c)"

definition upper_char :: "char \<Rightarrow> char" where
  "upper_char c = (let n = of_char c :: nat in
     if 97 \<le> n \<and> n \<le> 122 then char_of (n - 32) else c)"

definition js_toLowerCase :: "js_str \<Rightarrow> js_str" where
  "js_toLowerCase s = map lower_char s"

definition js_toUpperCase :: "js_str \<Rightarrow> js_str" where
  "js_toUpperCase s = map upper_char s"

text \<open>\<open>s.startsWith("0x") ? s.slice(2) : s\<close>, and the same as \<open>s.replace(/^0x/, "")\<close>.\<close>

definition strip_0x :: "js_str \<Rightarrow> js_str" where
  "strip_0x s = (if js_startsWith ''0x'' s then js_slice_from 2 s else s)"

declare js_slice_from_def [simp, js_string_simps]
declare js_slice_def [js_string_simps] js_startsWith_def [js_string_simps]
  js_padStart_def [js_string_simps] js_padEnd_def [js_string_simps] strip_0x_def [js_string_simps]

lemma js_startsWith_append [simp]: "js_startsWith p (p @ s)"
  by (simp add: js_startsWith_def)

lemma js_startsWith_0x [simp]: "js_startsWith ''0x'' (CHR ''0'' # CHR ''x'' # s)"
  by (simp add: js_startsWith_def)

lemma js_startsWithE:
  assumes "js_startsWith p s"
  obtains t where "s = p @ t"
  using assms by (metis append_take_drop_id js_startsWith_def)

lemma js_startsWith_0x_conv: "js_startsWith ''0x'' s \<longleftrightarrow> (\<exists>t. s = CHR ''0'' # CHR ''x'' # t)"
  by (auto elim: js_startsWithE)

lemma strip_0x_0x [simp]: "strip_0x (CHR ''0'' # CHR ''x'' # s) = s"
  by (simp add: strip_0x_def)

lemma lower_char_idem [simp]: "lower_char (lower_char c) = lower_char c"
  by (auto simp: lower_char_def Let_def)

lemma js_toLowerCase_idem [simp]: "js_toLowerCase (js_toLowerCase s) = js_toLowerCase s"
  by (simp add: js_toLowerCase_def)

lemma length_js_toLowerCase [simp]: "length (js_toLowerCase s) = length s"
  by (simp add: js_toLowerCase_def)

lemma length_js_toUpperCase [simp]: "length (js_toUpperCase s) = length s"
  by (simp add: js_toUpperCase_def)

lemma js_toLowerCase_append [simp]:
  "js_toLowerCase (s @ t) = js_toLowerCase s @ js_toLowerCase t"
  by (simp add: js_toLowerCase_def)

lemma js_toLowerCase_drop: "js_toLowerCase (drop n s) = drop n (js_toLowerCase s)"
  by (simp add: js_toLowerCase_def drop_map)

lemma js_toLowerCase_0x [simp]:
  "js_toLowerCase (CHR ''0'' # CHR ''x'' # s) = CHR ''0'' # CHR ''x'' # js_toLowerCase s"
  by (simp add: js_toLowerCase_def lower_char_def)

subsection \<open>Lists and maps\<close>

lemma take_drop_app:
  assumes "length xs = n"
  shows "take n (xs @ ys) = xs" and "drop n (xs @ ys) = ys"
  using assms by simp_all

lemma map_of_update_same [simp]: "map_of (AList.update k v al) k = Some v"
  by (simp add: update_conv')

subsection \<open>Caches of resolved addresses\<close>

text \<open>
  The contract of the clients that look a contract's address up once and keep it: a lookup returns
  the address the client stands by (\<open>answer\<close>), and changes no answer, of its own name or of another.
\<close>

locale address_cache =
  fixes fetch :: "'n \<Rightarrow> 's \<Rightarrow> 's \<times> ('e + 'a)"
    and answer :: "'n \<Rightarrow> 's \<Rightarrow> 'e + 'a"
  assumes fetch_answer: "snd (fetch n s) = answer n s"
    and fetch_stable: "answer m (fst (fetch n s)) = answer m s"
begin

lemma answer_after: "answer m (fold (\<lambda>n s. fst (fetch n s)) ns s) = answer m s"
  by (induction ns arbitrary: s) (simp_all add: fetch_stable)

lemma fetch_after: "snd (fetch m (fold (\<lambda>n s. fst (fetch n s)) ns s)) = snd (fetch m s)"
  by (simp add: fetch_answer answer_after)

end

end
