(* ===== verification/Hex.thy ===== *)
theory Hex
  imports Prelude
begin

text \<open>
  Bytes and hexadecimal text: \<open>packages/sdk/src/memo.ts\<close> (\<open>toHex\<close>, \<open>toXrplMemoHex\<close>, the byte
  order of \<open>DataView\<close>) and \<open>extension/typescript/src/base/encoding.ts\<close>. The lemmas are the
  round trips in both directions.
\<close>

subsection \<open>Digits\<close>

text \<open>The digit a \<open>toString(16)\<close> prints, and the value of a digit in \<open>[0-9a-fA-F]\<close>.\<close>

definition hex_digit :: "nat \<Rightarrow> char" where
  "hex_digit n = (if n < 10 then char_of (48 + n) else char_of (87 + n))"

definition hex_val :: "char \<Rightarrow> nat option" where
  "hex_val c = (let n = of_char c :: nat in
     if 48 \<le> n \<and> n \<le> 57 then Some (n - 48)
     else if 97 \<le> n \<and> n \<le> 102 then Some (n - 87)
     else if 65 \<le> n \<and> n \<le> 70 then Some (n - 55)
     else None)"

definition is_hex_char :: "char \<Rightarrow> bool" where
  "is_hex_char c \<longleftrightarrow> hex_val c \<noteq> None"

text \<open>\<open>/^[0-9a-fA-F]*$/\<close> and \<open>/^0x[0-9a-fA-F]*$/\<close>.\<close>

definition hex_body :: "js_str \<Rightarrow> bool" where
  "hex_body s \<longleftrightarrow> list_all is_hex_char s"

definition hex_string :: "js_str \<Rightarrow> bool" where
  "hex_string s \<longleftrightarrow> js_startsWith ''0x'' s \<and> hex_body (js_slice_from 2 s)"

lemma hex_val_digit [simp, hex_simps]: "n < 16 \<Longrightarrow> hex_val (hex_digit n) = Some n"
  by (auto simp: hex_val_def hex_digit_def Let_def)

lemma is_hex_digit [simp, hex_simps]: "n < 16 \<Longrightarrow> is_hex_char (hex_digit n)"
  by (simp add: is_hex_char_def)

lemma hex_digit_zero: "hex_digit 0 = CHR ''0''"
  by code_simp

lemma hex_val_bound: "hex_val c = Some n \<Longrightarrow> n < 16"
  by (auto simp: hex_val_def Let_def split: if_splits)

lemma hex_val_upper [simp, hex_simps]: "is_hex_char c \<Longrightarrow> hex_val (upper_char c) = hex_val c"
  by (auto simp: is_hex_char_def hex_val_def upper_char_def Let_def split: if_splits)

lemma hex_val_lower [simp, hex_simps]: "is_hex_char c \<Longrightarrow> hex_val (lower_char c) = hex_val c"
  by (auto simp: is_hex_char_def hex_val_def lower_char_def Let_def split: if_splits)

lemma is_hex_upper [simp]: "is_hex_char c \<Longrightarrow> is_hex_char (upper_char c)"
  using hex_val_upper [of c] by (simp add: is_hex_char_def)

lemma is_hex_lower [simp]: "is_hex_char c \<Longrightarrow> is_hex_char (lower_char c)"
  using hex_val_lower [of c] by (simp add: is_hex_char_def)

lemma lower_hex_digit [simp, hex_simps]: "n < 16 \<Longrightarrow> lower_char (hex_digit n) = hex_digit n"
  by (auto simp: hex_digit_def lower_char_def Let_def)

text \<open>Lower-case hexadecimal digits are printed back from their value.\<close>

lemma hex_digit_val:
  assumes "hex_val c = Some n"
  shows "hex_digit n = lower_char c"
proof -
  have "char_of (of_char c :: nat) = c" by simp
  with assms show ?thesis
    by (auto simp: hex_val_def hex_digit_def lower_char_def Let_def split: if_splits)
qed

lemma hex_body_simps [simp, hex_simps]:
  "hex_body []"
  "hex_body (c # s) \<longleftrightarrow> is_hex_char c \<and> hex_body s"
  "hex_body (s @ t) \<longleftrightarrow> hex_body s \<and> hex_body t"
  by (simp_all add: hex_body_def)

lemma hex_body_upper [simp]: "hex_body s \<Longrightarrow> hex_body (js_toUpperCase s)"
  by (induction s) (simp_all add: js_toUpperCase_def)

lemma hex_body_lower [simp]: "hex_body s \<Longrightarrow> hex_body (js_toLowerCase s)"
  by (induction s) (simp_all add: js_toLowerCase_def)

lemma hex_string_0x [simp, hex_simps]: "hex_string (CHR ''0'' # CHR ''x'' # s) \<longleftrightarrow> hex_body s"
  by (simp add: hex_string_def)

lemma hex_stringE:
  assumes "hex_string s"
  obtains b where "s = CHR ''0'' # CHR ''x'' # b" and "hex_body b"
  using assms by (auto simp: hex_string_def js_startsWith_0x_conv)

subsection \<open>Bytes to text\<close>

text \<open>\<open>n.toString(16)\<close> of a number that is a natural.\<close>

fun to_string16 :: "nat \<Rightarrow> js_str" where
  "to_string16 n = (if n < 16 then [hex_digit n] else to_string16 (n div 16) @ [hex_digit (n mod 16)])"

declare to_string16.simps [simp del]

text \<open>\<open>b.toString(16).padStart(2, "0")\<close>.\<close>

definition byte_hex :: "byte \<Rightarrow> js_str" where
  "byte_hex b = js_padStart 2 (CHR ''0'') (to_string16 (unat b))"

text \<open>\<open>Array.from(b, ...).join("")\<close>.\<close>

definition bytes_hex :: "bytes \<Rightarrow> js_str" where
  "bytes_hex bs = concat (map byte_hex bs)"

text \<open>\<open>toHex\<close> of \<open>memo.ts\<close> and \<open>toXrplMemoHex\<close>.\<close>

definition toHex :: "bytes \<Rightarrow> js_str" where
  "toHex b = ''0x'' @ bytes_hex b"

definition toXrplMemoHex :: "bytes \<Rightarrow> js_str" where
  "toXrplMemoHex memo = js_toUpperCase (bytes_hex memo)"

lemma unat_byte_less [simp]: "unat (b :: byte) < 256"
  using unsigned_less [of b, where 'a = nat] by simp

lemma byte_hex_eq [hex_simps]: "byte_hex b = [hex_digit (unat b div 16), hex_digit (unat b mod 16)]"
proof -
  have "unat b div 16 < 16" using unat_byte_less [of b] by linarith
  then show ?thesis
    by (auto simp: byte_hex_def js_padStart_def to_string16.simps [of "unat b"]
        to_string16.simps [of "unat b div 16"] hex_digit_zero)
qed

lemma unat_byte_nibbles [simp]: "unat (b :: byte) div 16 < 16" "unat (b :: byte) mod 16 < 16"
  using unat_byte_less [of b] by linarith+

lemma length_byte_hex [simp]: "length (byte_hex b) = 2"
  by (simp add: byte_hex_eq)

lemma bytes_hex_simps [simp]:
  "bytes_hex [] = []"
  "bytes_hex (b # bs) = hex_digit (unat b div 16) # hex_digit (unat b mod 16) # bytes_hex bs"
  "bytes_hex (bs @ cs) = bytes_hex bs @ bytes_hex cs"
  by (simp_all add: bytes_hex_def byte_hex_eq)

lemma length_bytes_hex [simp]: "length (bytes_hex bs) = 2 * length bs"
  by (induction bs) simp_all

lemma hex_body_bytes_hex [simp]: "hex_body (bytes_hex bs)"
  by (induction bs) simp_all

lemma js_toLowerCase_bytes_hex [simp]: "js_toLowerCase (bytes_hex bs) = bytes_hex bs"
  by (induction bs) (simp_all add: js_toLowerCase_def)

lemma hex_string_toHex [simp]: "hex_string (toHex bs)"
  by (simp add: toHex_def)

lemma length_toHex [simp]: "length (toHex bs) = 2 + 2 * length bs"
  by (simp add: toHex_def)

lemma js_toLowerCase_toHex [simp]: "js_toLowerCase (toHex bs) = toHex bs"
  by (simp add: toHex_def)

lemma length_toXrplMemoHex [simp]: "length (toXrplMemoHex m) = 2 * length m"
  by (simp add: toXrplMemoHex_def)

subsection \<open>Text to bytes\<close>

text \<open>
  \<open>Number.parseInt(s, 16)\<close> stored into a \<open>Uint8Array\<close>: the longest prefix of digits, modulo 256;
  no digit at all is \<open>NaN\<close>, which is stored as 0. The callers have checked that \<open>s\<close> is made of
  digits, so a sign, white space or a second \<open>0x\<close> never reaches it.
\<close>

definition digits_val :: "js_str \<Rightarrow> nat" where
  "digits_val s = foldl (\<lambda>acc c. 16 * acc + (case hex_val c of Some d \<Rightarrow> d | None \<Rightarrow> 0)) 0 s"

definition parse_byte16 :: "js_str \<Rightarrow> byte" where
  "parse_byte16 s = of_nat (digits_val (takeWhile is_hex_char s))"

text \<open>
  The loop \<open>for (i = 0; i < bytes.length; i++) bytes[i] = parseInt(body.slice(2i, 2i + 2), 16)\<close>,
  with its index, on an array that starts as zeros.
\<close>

fun fill_bytes :: "js_str \<Rightarrow> nat \<Rightarrow> nat \<Rightarrow> bytes \<Rightarrow> bytes" where
  "fill_bytes body 0 i out = out"
| "fill_bytes body (Suc k) i out =
     fill_bytes body k (Suc i) (out[i := parse_byte16 (js_slice (i * 2) (i * 2 + 2) body)])"

definition body_bytes :: "js_str \<Rightarrow> bytes" where
  "body_bytes body = (let n = length body div 2 in fill_bytes body n 0 (replicate n 0))"

lemma parse_byte16_pair:
  assumes "hex_val c = Some m" and "hex_val d = Some n"
  shows "parse_byte16 [c, d] = of_nat (16 * m + n)"
  using assms by (simp add: parse_byte16_def digits_val_def is_hex_char_def)

lemma fill_bytes_map:
  assumes "length out = i + k"
  shows "fill_bytes body k i out =
    take i out @ map (\<lambda>j. parse_byte16 (js_slice (j * 2) (j * 2 + 2) body)) [i..<i + k]"
  using assms
proof (induction k arbitrary: i out)
  case 0
  then show ?case by simp
next
  case (Suc k)
  let ?v = "\<lambda>j. parse_byte16 (js_slice (j * 2) (j * 2 + 2) body)"
  have "fill_bytes body (Suc k) i out = fill_bytes body k (Suc i) (out[i := ?v i])" by simp
  also have "\<dots> = take (Suc i) (out[i := ?v i]) @ map ?v [Suc i..<Suc i + k]"
    using Suc.prems by (intro Suc.IH) simp
  also have "take (Suc i) (out[i := ?v i]) = take i out @ [?v i]"
    using Suc.prems by (simp add: take_Suc_conv_app_nth)
  finally show ?case by (simp add: upt_conv_Cons del: upt_Suc)
qed

lemma body_bytes_map:
  "body_bytes body =
    map (\<lambda>j. parse_byte16 (js_slice (j * 2) (j * 2 + 2) body)) [0..<length body div 2]"
  by (simp add: body_bytes_def Let_def fill_bytes_map)

lemma body_bytes_simps [simp, hex_simps]:
  "body_bytes [] = []"
  "body_bytes (c # d # s) = parse_byte16 [c, d] # body_bytes s"
proof -
  show "body_bytes [] = []" by (simp add: body_bytes_map)
  have "[0..<Suc (length s div 2)] = 0 # map Suc [0..<length s div 2]"
    by (simp add: map_Suc_upt upt_conv_Cons del: upt_Suc)
  then show "body_bytes (c # d # s) = parse_byte16 [c, d] # body_bytes s"
    by (simp add: body_bytes_map js_slice_def comp_def del: upt_Suc)
qed

lemma length_body_bytes [simp]: "length (body_bytes s) = length s div 2"
  by (simp add: body_bytes_map)

text \<open>Printing, then reading: the identity on bytes, in either case of the letters.\<close>

lemma byte_of_nibbles: "(of_nat (16 * (unat b div 16) + unat b mod 16) :: byte) = b"
  by (simp only: mult_div_mod_eq of_nat_unat ucast_id)

lemma body_bytes_hex [simp, hex_simps]: "body_bytes (bytes_hex bs) = bs"
proof (induction bs)
  case (Cons b bs)
  then show ?case
    using byte_of_nibbles [of b] by (simp add: parse_byte16_pair)
qed simp

lemma body_bytes_upper [simp, hex_simps]: "body_bytes (js_toUpperCase (bytes_hex bs)) = bs"
proof (induction bs)
  case (Cons b bs)
  have "parse_byte16 [upper_char (hex_digit (unat b div 16)), upper_char (hex_digit (unat b mod 16))]
      = of_nat (16 * (unat b div 16) + unat b mod 16)"
    by (rule parse_byte16_pair) simp_all
  with Cons show ?case
    using byte_of_nibbles [of b] by (simp add: js_toUpperCase_def)
qed (simp add: js_toUpperCase_def)

text \<open>Reading, then printing: the text in lower case.\<close>

lemma bytes_hex_body:
  assumes "hex_body s" and "even (length s)"
  shows "bytes_hex (body_bytes s) = js_toLowerCase s"
  using assms
proof (induction s rule: induct_list012)
  case (3 c d s)
  then obtain m n where mn: "hex_val c = Some m" "hex_val d = Some n"
    by (auto simp: is_hex_char_def)
  then have lt: "m < 16" "n < 16" by (auto dest: hex_val_bound)
  then have "unat (of_nat (16 * m + n) :: byte) = 16 * m + n"
    by (subst unat_of_nat) simp
  with lt mn have "byte_hex (parse_byte16 [c, d]) = [lower_char c, lower_char d]"
    by (simp add: byte_hex_eq parse_byte16_pair hex_digit_val del: of_nat_add of_nat_mult)
  with 3 show ?case by (simp add: bytes_hex_def js_toLowerCase_def)
qed (simp_all add: js_toLowerCase_def)

subsection \<open>\<open>Buffer.from(s, "hex")\<close>\<close>

text \<open>
  \<open>Buffer.from(data, "hex")\<close> takes pairs of digits while there are any and ignores the rest.
\<close>

fun buffer_from_hex :: "js_str \<Rightarrow> bytes" where
  "buffer_from_hex (a # b # r) =
    (case (hex_val a, hex_val b) of
       (Some x, Some y) \<Rightarrow> of_nat (16 * x + y) # buffer_from_hex r
     | _ \<Rightarrow> [])"
| "buffer_from_hex _ = []"

lemma buffer_from_hex_body:
  assumes "hex_body s"
  shows "buffer_from_hex s = body_bytes s"
  using assms
proof (induction s rule: buffer_from_hex.induct)
  case (1 a b r)
  then obtain x y where "hex_val a = Some x" "hex_val b = Some y" "hex_body r"
    by (auto simp: hex_body_def is_hex_char_def)
  with 1 show ?case by (simp add: parse_byte16_pair)
qed (simp_all add: body_bytes_map)

end
