(* ===== verification/Numbers.thy ===== *)
theory Numbers
  imports Hex
begin

text \<open>
  Integers as text and as bytes: \<open>n.toString()\<close> and \<open>BigInt(s)\<close> of JavaScript, and the big-endian
  fields that \<open>DataView.setBigUint64\<close> and \<open>getBigUint64\<close> write and read. Each pair comes with
  its round trip.
\<close>

named_theorems be_simps \<open>big-endian encoding and decoding\<close>

subsection \<open>Decimal text\<close>

definition dec_digit :: "nat \<Rightarrow> char" where
  "dec_digit n = char_of (48 + n)"

definition dec_val :: "char \<Rightarrow> nat option" where
  "dec_val c = (let n = of_char c :: nat in if 48 \<le> n \<and> n \<le> 57 then Some (n - 48) else None)"

definition is_dec_char :: "char \<Rightarrow> bool" where
  "is_dec_char c \<longleftrightarrow> dec_val c \<noteq> None"

fun nat_to_dec :: "nat \<Rightarrow> js_str" where
  "nat_to_dec n = (if n < 10 then [dec_digit n] else nat_to_dec (n div 10) @ [dec_digit (n mod 10)])"

declare nat_to_dec.simps [simp del]

text \<open>\<open>n.toString()\<close> of a \<open>bigint\<close>.\<close>

definition bigint_toString :: "bigint \<Rightarrow> js_str" where
  "bigint_toString n = (if n < 0 then CHR ''-'' # nat_to_dec (nat (- n)) else nat_to_dec (nat n))"

definition dec_value :: "js_str \<Rightarrow> nat" where
  "dec_value s = foldl (\<lambda>acc c. 10 * acc + the (dec_val c)) 0 s"

definition is_dec :: "js_str \<Rightarrow> bool" where
  "is_dec s \<longleftrightarrow> s \<noteq> [] \<and> list_all is_dec_char s"

lemma dec_val_digit [simp]: "n < 10 \<Longrightarrow> dec_val (dec_digit n) = Some n"
  by (auto simp: dec_val_def dec_digit_def Let_def)

lemma is_dec_digit [simp]: "n < 10 \<Longrightarrow> is_dec_char (dec_digit n)"
  by (simp add: is_dec_char_def)

lemma dec_value_snoc: "dec_value (s @ [c]) = 10 * dec_value s + the (dec_val c)"
  by (simp add: dec_value_def)

lemma dec_value_nat_to_dec [simp]: "dec_value (nat_to_dec n) = n"
proof (induction n rule: nat_to_dec.induct)
  case (1 n)
  show ?case
  proof (cases "n < 10")
    case True
    then show ?thesis by (simp add: nat_to_dec.simps [of n] dec_value_def)
  next
    case False
    with 1 have "dec_value (nat_to_dec (n div 10)) = n div 10" by simp
    with False show ?thesis by (simp add: nat_to_dec.simps [of n] dec_value_snoc)
  qed
qed

lemma is_dec_nat_to_dec [simp]: "is_dec (nat_to_dec n)"
proof (induction n rule: nat_to_dec.induct)
  case (1 n)
  then show ?case by (cases "n < 10") (auto simp: nat_to_dec.simps [of n] is_dec_def)
qed

subsection \<open>\<open>BigInt(s)\<close>\<close>

text \<open>White space is trimmed; the empty text is 0; \<open>0x\<close>, \<open>0o\<close> and \<open>0b\<close> take no sign.\<close>

definition is_ws :: "char \<Rightarrow> bool" where
  "is_ws c \<longleftrightarrow> (of_char c :: nat) \<in> {9, 10, 11, 12, 13, 32, 160}"

definition js_trim :: "js_str \<Rightarrow> js_str" where
  "js_trim s = rev (dropWhile is_ws (rev (dropWhile is_ws s)))"

definition small_digits :: "nat \<Rightarrow> js_str \<Rightarrow> bool" where
  "small_digits b s \<longleftrightarrow> is_dec s \<and> list_all (\<lambda>c. the (dec_val c) < b) s"

definition base_value :: "nat \<Rightarrow> js_str \<Rightarrow> nat" where
  "base_value b s = foldl (\<lambda>acc c. b * acc + the (dec_val c)) 0 s"

definition prefixed :: "char \<Rightarrow> js_str \<Rightarrow> js_str \<Rightarrow> bool" where
  "prefixed x t body \<longleftrightarrow> t = CHR ''0'' # x # body \<or> t = CHR ''0'' # upper_char x # body"

definition js_BigInt :: "js_str \<Rightarrow> js_error + bigint" where
  "js_BigInt s = (let t = js_trim s; body = drop 2 t in
     if t = [] then Inr 0
     else if is_dec t then Inr (int (dec_value t))
     else if hd t = CHR ''-'' \<and> is_dec (tl t) then Inr (- int (dec_value (tl t)))
     else if hd t = CHR ''+'' \<and> is_dec (tl t) then Inr (int (dec_value (tl t)))
     else if prefixed (CHR ''x'') t body \<and> body \<noteq> [] \<and> hex_body body then Inr (int (digits_val body))
     else if prefixed (CHR ''o'') t body \<and> small_digits 8 body then Inr (int (base_value 8 body))
     else if prefixed (CHR ''b'') t body \<and> small_digits 2 body then Inr (int (base_value 2 body))
     else Inl (JsError (''Cannot convert '' @ s @ '' to a BigInt'')))"

lemma is_ws_not_dec: "is_dec_char c \<Longrightarrow> \<not> is_ws c"
  by (auto simp: is_dec_char_def dec_val_def is_ws_def Let_def split: if_splits)

lemma is_ws_not_hex: "is_hex_char c \<Longrightarrow> \<not> is_ws c"
  by (auto simp: is_hex_char_def hex_val_def is_ws_def Let_def split: if_splits)

lemma js_trim_id:
  assumes "s \<noteq> [] \<Longrightarrow> \<not> is_ws (hd s)" and "s \<noteq> [] \<Longrightarrow> \<not> is_ws (last s)"
  shows "js_trim s = s"
proof (cases "s = []")
  case False
  then have "dropWhile is_ws s = s" using assms(1) by (cases s) simp_all
  moreover have "dropWhile is_ws (rev s) = rev s"
    using False assms(2) by (cases s rule: rev_cases) simp_all
  ultimately show ?thesis by (simp add: js_trim_def)
qed (simp add: js_trim_def)

lemma is_dec_ends: "is_dec s \<Longrightarrow> \<not> is_ws (hd s) \<and> \<not> is_ws (last s)"
  by (auto simp: is_dec_def list_all_iff is_ws_not_dec)

lemma js_trim_dec [simp]: "is_dec s \<Longrightarrow> js_trim s = s"
  using is_dec_ends by (intro js_trim_id) auto

lemma js_trim_neg [simp]:
  assumes "is_dec s"
  shows "js_trim (CHR ''-'' # s) = CHR ''-'' # s"
proof (rule js_trim_id)
  show "\<not> is_ws (hd (CHR ''-'' # s))" by (simp add: is_ws_def)
  show "\<not> is_ws (last (CHR ''-'' # s))"
    using assms is_dec_ends [OF assms] by (auto simp: is_dec_def)
qed

lemma minus_not_dec: "\<not> is_dec (CHR ''-'' # s)"
  by (simp add: is_dec_def is_dec_char_def dec_val_def)

lemma js_BigInt_dec: "is_dec s \<Longrightarrow> js_BigInt s = Inr (int (dec_value s))"
  by (auto simp: js_BigInt_def Let_def is_dec_def)

text \<open>Printing a \<open>bigint\<close> and parsing it back is the identity.\<close>

lemma js_BigInt_toString [simp]: "js_BigInt (bigint_toString n) = Inr n"
proof (cases "n < 0")
  case True
  then have "js_BigInt (CHR ''-'' # nat_to_dec (nat (- n))) = Inr n"
    by (simp add: js_BigInt_def Let_def minus_not_dec)
  with True show ?thesis by (simp add: bigint_toString_def)
next
  case False
  then show ?thesis by (simp add: bigint_toString_def js_BigInt_dec)
qed

lemma bigint_toString_inj: "bigint_toString m = bigint_toString n \<longleftrightarrow> m = n"
  by (metis js_BigInt_toString sum.inject(2))

text \<open>\<open>BigInt("0x...")\<close> of hexadecimal digits.\<close>

lemma js_BigInt_hex:
  assumes "hex_body b" and "b \<noteq> []"
  shows "js_BigInt (CHR ''0'' # CHR ''x'' # b) = Inr (int (digits_val b))"
proof -
  have "js_trim (CHR ''0'' # CHR ''x'' # b) = CHR ''0'' # CHR ''x'' # b"
  proof (rule js_trim_id)
    show "\<not> is_ws (hd (CHR ''0'' # CHR ''x'' # b))" by (simp add: is_ws_def)
    have "is_hex_char (last b)" using assms by (simp add: hex_body_def list_all_iff)
    then show "\<not> is_ws (last (CHR ''0'' # CHR ''x'' # b))" using assms(2) by (simp add: is_ws_not_hex)
  qed
  moreover have "\<not> is_dec (CHR ''0'' # CHR ''x'' # b)"
    by (simp add: is_dec_def is_dec_char_def dec_val_def)
  ultimately show ?thesis
    using assms by (simp add: js_BigInt_def Let_def prefixed_def)
qed

subsection \<open>Big-endian fields\<close>

text \<open>The \<open>n\<close> bytes of \<open>v\<close>, most significant first, and the value of a run of bytes.\<close>

fun be_bytes :: "nat \<Rightarrow> bigint \<Rightarrow> bytes" where
  "be_bytes 0 v = []"
| "be_bytes (Suc n) v = be_bytes n (v div 256) @ [of_int v]"

definition be_value :: "bytes \<Rightarrow> bigint" where
  "be_value bs = foldl (\<lambda>acc b. 256 * acc + uint b) 0 bs"

text \<open>\<open>view.setBigUint64(off, v, false)\<close> and \<open>view.getBigUint64(off, false)\<close>.\<close>

definition setBigUint64 :: "nat \<Rightarrow> bigint \<Rightarrow> bytes \<Rightarrow> bytes" where
  "setBigUint64 off v a = take off a @ be_bytes 8 v @ drop (off + 8) a"

definition getBigUint64 :: "nat \<Rightarrow> bytes \<Rightarrow> bigint" where
  "getBigUint64 off a = be_value (js_slice off (off + 8) a)"

lemma length_be_bytes [simp]: "length (be_bytes n v) = n"
  by (induction n arbitrary: v) simp_all

lemma be_value_snoc [simp]: "be_value (bs @ [b]) = 256 * be_value bs + uint b"
  by (simp add: be_value_def)

lemma be_value_Nil [simp]: "be_value [] = 0"
  by (simp add: be_value_def)

lemma uint_byte_bounds [simp]: "0 \<le> uint (b :: byte)" "uint (b :: byte) < 256"
  using unsigned_less [of b, where 'a = int] by simp_all

lemma uint_of_int_byte: "uint (of_int v :: byte) = v mod 256"
  by (simp add: unsigned_of_int take_bit_eq_mod)

lemma be_value_be_bytes [be_simps]: "be_value (be_bytes n v) = v mod 256 ^ n"
proof (induction n arbitrary: v)
  case (Suc n)
  have "v mod (256 ^ n * 256) = 256 * (v div 256 mod 256 ^ n) + v mod 256"
    using zmod_zmult2_eq [of "256 ^ n" v 256] by (simp add: mult.commute)
  with Suc show ?case by (simp add: uint_of_int_byte mult.commute)
qed simp

lemma be_value_bounds: "0 \<le> be_value bs \<and> be_value bs < 256 ^ length bs"
proof (induction bs rule: rev_induct)
  case (snoc b bs)
  then have "256 * be_value bs + uint b < 256 * 256 ^ length bs"
    using uint_byte_bounds(2) [of b] by linarith
  with snoc show ?case by simp
qed simp

lemma be_bytes_be_value [be_simps]: "be_bytes (length bs) (be_value bs) = bs"
proof (induction bs rule: rev_induct)
  case (snoc b bs)
  have "(256 * be_value bs + uint b) div 256 = be_value bs"
    using uint_byte_bounds [of b] by simp
  moreover have "(of_int (256 * be_value bs + uint b) :: byte) = b"
  proof -
    have "uint (of_int (256 * be_value bs + uint b) :: byte) = uint b"
      using uint_byte_bounds [of b] by (simp only: uint_of_int_byte) simp
    then show ?thesis by (simp only: word_uint_eq_iff)
  qed
  ultimately show ?case using snoc by (simp del: of_int_add of_int_mult)
qed simp

lemma setBigUint64_length [simp]: "off + 8 \<le> length a \<Longrightarrow> length (setBigUint64 off v a) = length a"
  by (simp add: setBigUint64_def)

lemma getBigUint64_set [be_simps]:
  assumes "off + 8 \<le> length a" and "0 \<le> v" and "v < 2 ^ 64"
  shows "getBigUint64 off (setBigUint64 off v a) = v"
  using assms by (simp add: getBigUint64_def setBigUint64_def js_slice_def be_value_be_bytes)

text \<open>The hexadecimal text of bytes denotes the same number as the bytes.\<close>

lemma digits_val_snoc: "digits_val (s @ [c]) = 16 * digits_val s + (case hex_val c of Some d \<Rightarrow> d | None \<Rightarrow> 0)"
  by (simp add: digits_val_def)

lemma digits_val_bytes_hex [be_simps]: "int (digits_val (bytes_hex bs)) = be_value bs"
proof (induction bs rule: rev_induct)
  case (snoc b bs)
  have "digits_val (bytes_hex (bs @ [b])) = 256 * digits_val (bytes_hex bs) + unat b"
  proof -
    have "bytes_hex (bs @ [b]) = (bytes_hex bs @ [hex_digit (unat b div 16)]) @ [hex_digit (unat b mod 16)]"
      by simp
    then have "digits_val (bytes_hex (bs @ [b]))
        = 16 * (16 * digits_val (bytes_hex bs) + unat b div 16) + unat b mod 16"
      by (simp only: digits_val_snoc) simp
    then show ?thesis by simp
  qed
  with snoc show ?case by simp
qed (simp add: digits_val_def)

subsection \<open>Integers as doubles\<close>

text \<open>
  \<open>Number(n)\<close> of a \<open>bigint\<close>: the nearest double, 53 significant bits, ties to even.
\<close>

fun bit_count :: "nat \<Rightarrow> nat" where
  "bit_count n = (if n = 0 then 0 else Suc (bit_count (n div 2)))"

declare bit_count.simps [simp del]

definition round_53 :: "nat \<Rightarrow> nat" where
  "round_53 n = (let e = bit_count n - 53; q = n div 2 ^ e; r = n mod 2 ^ e in
     (if 2 ^ e < 2 * r \<or> (2 * r = 2 ^ e \<and> odd q) then q + 1 else q) * 2 ^ e)"

definition number_of_bigint :: "bigint \<Rightarrow> int" where
  "number_of_bigint n = (if n < 0 then - int (round_53 (nat (- n))) else int (round_53 (nat n)))"

lemma bit_count_le: "n < 2 ^ k \<Longrightarrow> bit_count n \<le> k"
proof (induction k arbitrary: n)
  case (Suc k)
  then have "n div 2 < 2 ^ k" by simp
  with Suc.IH show ?case by (simp add: bit_count.simps [of n])
qed (simp add: bit_count.simps)

text \<open>Integers of at most 53 bits are exact.\<close>

lemma number_of_bigint_exact:
  assumes "- (2 ^ 53) < n" and "n < 2 ^ 53"
  shows "number_of_bigint n = n"
proof -
  have "round_53 m = m" if "m < 2 ^ 53" for m
    using bit_count_le [OF that] by (simp add: round_53_def)
  from this [of "nat n"] this [of "nat (- n)"] assms show ?thesis
    by (simp add: number_of_bigint_def)
qed

end
