(* ===== verification/Encoding.thy ===== *)
theory Encoding
  imports Numbers
begin

text \<open>
  \<open>extension/typescript/src/base/encoding.ts\<close>: hexadecimal text and \<open>bytes32\<close> identifiers on the
  wire of the enclave, with the exceptions the enclave can throw. UTF-8 is written out for encoding;
  what decoding makes of arbitrary bytes, and \<open>JSON\<close>, belong to the platform and are the fields of
  the record \<open>platform\<close>, with their documented round trips as predicates.
\<close>

subsection \<open>Exceptions\<close>

datatype exn = Error js_str | TypeError js_str | SyntaxError js_str | RangeError js_str

primrec exn_message :: "exn \<Rightarrow> js_str" where
  "exn_message (Error m) = m"
| "exn_message (TypeError m) = m"
| "exn_message (SyntaxError m) = m"
| "exn_message (RangeError m) = m"

text \<open>\<open>String(e)\<close>.\<close>

primrec exn_String :: "exn \<Rightarrow> js_str" where
  "exn_String (Error m) = ''Error: '' @ m"
| "exn_String (TypeError m) = ''TypeError: '' @ m"
| "exn_String (SyntaxError m) = ''SyntaxError: '' @ m"
| "exn_String (RangeError m) = ''RangeError: '' @ m"

subsection \<open>The platform\<close>

text \<open>UTF-8 of the code units a \<open>char\<close> can hold, as \<open>TextEncoder\<close> and \<open>Buffer.from(s, "utf-8")\<close> write it.\<close>

definition utf8_char :: "char \<Rightarrow> bytes" where
  "utf8_char c = (let n = of_char c :: nat in
     if n < 128 then [of_nat n] else [of_nat (192 + n div 64), of_nat (128 + n mod 64)])"

definition utf8_encode :: "js_str \<Rightarrow> bytes" where
  "utf8_encode s = concat (map utf8_char s)"

record platform =
  buffer_toString :: "bytes \<Rightarrow> js_str"
  text_decode :: "bytes \<Rightarrow> js_str"
  json_parse :: "js_str \<Rightarrow> exn + json"
  json_stringify :: "json \<Rightarrow> js_str"
  number_toString :: "js_number \<Rightarrow> js_str"
  toISOString :: "rat \<Rightarrow> js_str"

definition utf8_doc :: "platform \<Rightarrow> bool" where
  "utf8_doc T \<longleftrightarrow> (\<forall>s. buffer_toString T (utf8_encode s) = s \<and> text_decode T (utf8_encode s) = s)"

text \<open>Numbers that are not finite print as \<open>null\<close>; anything else reads back.\<close>

fun json_plain :: "json \<Rightarrow> bool" where
  "json_plain (JNum n) \<longleftrightarrow> (case n of Finite _ \<Rightarrow> True | _ \<Rightarrow> False)"
| "json_plain (JArr vs) \<longleftrightarrow> list_all json_plain vs"
| "json_plain (JObj kvs) \<longleftrightarrow> list_all (\<lambda>kv. json_plain (snd kv)) kvs"
| "json_plain _ \<longleftrightarrow> True"

definition json_doc :: "platform \<Rightarrow> bool" where
  "json_doc T \<longleftrightarrow> (\<forall>v. json_plain v \<longrightarrow>
    json_parse T (json_stringify T v) = Inr v \<and> json_stringify T v \<noteq> [])"

lemma utf8_docD:
  assumes "utf8_doc T"
  shows "buffer_toString T (utf8_encode s) = s" and "text_decode T (utf8_encode s) = s"
  using assms unfolding utf8_doc_def by blast+

lemma json_docD:
  assumes "json_doc T" and "json_plain v"
  shows "json_parse T (json_stringify T v) = Inr v" and "json_stringify T v \<noteq> []"
  using assms unfolding json_doc_def by blast+

text \<open>
  \<open>String(v)\<close>: arrays are joined, \<open>null\<close> and \<open>undefined\<close> as nothing; an object with a property
  \<open>toString\<close> of its own, which JSON cannot make a function, cannot be converted.
\<close>

fun join_texts :: "(exn + js_str) list \<Rightarrow> exn + js_str" where
  "join_texts [] = Inr []"
| "join_texts [r] = r"
| "join_texts (r # rs) = bind_err r (\<lambda>s. bind_err (join_texts rs) (\<lambda>t. Inr (s @ '','' @ t)))"

fun js_String :: "platform \<Rightarrow> json \<Rightarrow> exn + js_str" where
  "js_String T JNull = Inr ''null''"
| "js_String T (JBool b) = Inr (if b then ''true'' else ''false'')"
| "js_String T (JNum n) = Inr (number_toString T n)"
| "js_String T (JStr s) = Inr s"
| "js_String T (JArr vs) = join_texts (map (\<lambda>v. if v = JNull then Inr [] else js_String T v) vs)"
| "js_String T (JObj kvs) =
    (if map_of kvs ''toString'' = None then Inr ''[object Object]''
     else Inl (TypeError ''Cannot convert object to primitive value''))"

definition js_String_opt :: "platform \<Rightarrow> json option \<Rightarrow> exn + js_str" where
  "js_String_opt T v = (case v of None \<Rightarrow> Inr ''undefined'' | Some v \<Rightarrow> js_String T v)"

text \<open>\<open>typeof v === "string"\<close>, \<open>typeof v === "object"\<close> (of what is not \<open>null\<close>) and \<open>v ?? d\<close>.\<close>

fun as_text :: "json option \<Rightarrow> js_str option" where
  "as_text (Some (JStr s)) = Some s"
| "as_text _ = None"

fun is_object :: "json option \<Rightarrow> bool" where
  "is_object (Some (JObj _)) \<longleftrightarrow> True"
| "is_object (Some (JArr _)) \<longleftrightarrow> True"
| "is_object _ \<longleftrightarrow> False"

fun json_or :: "json option \<Rightarrow> json \<Rightarrow> json" where
  "json_or None d = d"
| "json_or (Some JNull) d = d"
| "json_or (Some v) d = v"

subsection \<open>Bytes\<close>

text \<open>
  \<open>hexToBytes\<close> is called on values of unchecked type: \<open>null\<close> and \<open>undefined\<close> (\<open>None\<close>) are empty, and
  what is not text has no \<open>startsWith\<close>. Both spellings of the prefix are cut off.
\<close>

definition ext_strip :: "js_str \<Rightarrow> js_str" where
  "ext_strip h = (if js_startsWith ''0x'' h \<or> js_startsWith ''0X'' h then js_slice_from 2 h else h)"

definition ext_hexToBytes_text :: "js_str \<Rightarrow> exn + bytes" where
  "ext_hexToBytes_text h =
    (let s = ext_strip h in
     if length s = 0 then Inr []
     else if length s mod 2 \<noteq> 0
     then Inl (Error (''invalid hex: odd length ('' @ nat_to_dec (length s) @ '')''))
     else if \<not> hex_body s then Inl (Error ''invalid hex: non-hex characters'')
     else Inr (body_bytes s))"

fun ext_hexToBytes :: "json option \<Rightarrow> exn + bytes" where
  "ext_hexToBytes None = Inr []"
| "ext_hexToBytes (Some JNull) = Inr []"
| "ext_hexToBytes (Some (JStr h)) = ext_hexToBytes_text h"
| "ext_hexToBytes (Some _) = Inl (TypeError ''s.startsWith is not a function'')"

fun hex_loop :: "js_str \<Rightarrow> bytes \<Rightarrow> js_str" where
  "hex_loop s [] = s"
| "hex_loop s (b # bs) = hex_loop (s @ js_padStart 2 (CHR ''0'') (to_string16 (unat b))) bs"

definition bytesToHex :: "bytes \<Rightarrow> js_str" where
  "bytesToHex b = hex_loop ''0x'' b"

definition stringToBytes32Hex :: "js_str \<Rightarrow> exn + js_str" where
  "stringToBytes32Hex s =
    (let encoded = utf8_encode s in
     if length encoded > 32
     then Inl (Error (''string too long for bytes32 ('' @ nat_to_dec (length encoded) @ '' bytes): '' @ s))
     else
       let padded = encoded @ drop (length encoded) (replicate 32 0)
       in Inr (bytesToHex padded))"

text \<open>\<open>while (end > 0 && b[end - 1] === 0) end--\<close>.\<close>

fun trim_end :: "nat \<Rightarrow> bytes \<Rightarrow> nat" where
  "trim_end 0 b = 0"
| "trim_end (Suc n) b = (if b ! n = 0 then trim_end n b else Suc n)"

definition bytes32HexToString :: "platform \<Rightarrow> json option \<Rightarrow> js_str" where
  "bytes32HexToString T h = (case ext_hexToBytes h of
     Inl _ \<Rightarrow> []
   | Inr b \<Rightarrow> text_decode T (js_slice 0 (trim_end (length b) b) b))"

subsection \<open>Round trips\<close>

lemma hex_loop_eq: "hex_loop s bs = s @ bytes_hex bs"
  by (induction bs arbitrary: s) (simp_all add: byte_hex_def [symmetric] byte_hex_eq)

lemma bytesToHex_eq [hex_simps]: "bytesToHex bs = toHex bs"
  by (simp add: bytesToHex_def hex_loop_eq toHex_def)

lemma ext_strip_0x [simp]: "ext_strip (CHR ''0'' # CHR ''x'' # s) = s"
  by (simp add: ext_strip_def)

lemma ext_hexToBytes_hex:
  assumes "hex_body s" and "even (length s)"
  shows "ext_hexToBytes_text (CHR ''0'' # CHR ''x'' # s) = Inr (body_bytes s)"
  using assms by (auto simp: ext_hexToBytes_text_def Let_def)

lemma ext_hexToBytes_bytesToHex [simp]: "ext_hexToBytes_text (bytesToHex bs) = Inr bs"
  by (simp add: bytesToHex_eq toHex_def ext_hexToBytes_hex)

text \<open>Text that decodes prints back, in lower case and with its prefix.\<close>

lemma ext_hexToBytes_text_eq_Inr:
  assumes "ext_hexToBytes_text h = Inr bs"
  shows "bytesToHex bs = ''0x'' @ js_toLowerCase (ext_strip h)" and "length (ext_strip h) = 2 * length bs"
proof -
  let ?s = "ext_strip h"
  have "hex_body ?s \<and> even (length ?s) \<and> bs = body_bytes ?s"
    using assms by (auto simp: ext_hexToBytes_text_def Let_def even_iff_mod_2_eq_zero split: if_splits)
  then show "bytesToHex bs = ''0x'' @ js_toLowerCase ?s" and "length ?s = 2 * length bs"
    by (auto simp: bytesToHex_eq toHex_def bytes_hex_body)
qed

lemma bytesToHex_inj [simp]: "bytesToHex a = bytesToHex b \<longleftrightarrow> a = b"
  by (metis ext_hexToBytes_bytesToHex sum.inject(2))

lemma trim_end_le: "trim_end n b \<le> n"
  by (induction n) auto

lemma trim_end_padded:
  assumes "bs = [] \<or> last bs \<noteq> 0"
  shows "trim_end (length bs + k) (bs @ replicate k 0) = length bs"
proof (induction k)
  case 0
  then show ?case using assms
    by (cases bs rule: rev_cases) (simp_all add: nth_append)
next
  case (Suc k)
  have "trim_end n (bs @ replicate (Suc k) 0) = trim_end n (bs @ replicate k 0)"
    if "n \<le> length bs + k" for n
    using that by (induction n) (auto simp: nth_append simp del: replicate_Suc)
  with Suc show ?case by (simp add: nth_append del: replicate_Suc)
qed

definition fits_bytes32 :: "js_str \<Rightarrow> bool" where
  "fits_bytes32 s \<longleftrightarrow> length (utf8_encode s) \<le> 32"

lemma stringToBytes32Hex_ok:
  assumes "fits_bytes32 s"
  shows "stringToBytes32Hex s =
    Inr (bytesToHex (utf8_encode s @ replicate (32 - length (utf8_encode s)) 0))"
  using assms by (simp add: stringToBytes32Hex_def fits_bytes32_def Let_def)

lemma stringToBytes32Hex_eq_Inr:
  "stringToBytes32Hex s = Inr h \<longleftrightarrow>
    fits_bytes32 s \<and> h = bytesToHex (utf8_encode s @ replicate (32 - length (utf8_encode s)) 0)"
  by (auto simp: stringToBytes32Hex_def fits_bytes32_def Let_def)

lemma length_stringToBytes32Hex:
  assumes "stringToBytes32Hex s = Inr h"
  shows "length h = 66" and "hex_string h" and "js_toLowerCase h = h"
  using assms by (auto simp: stringToBytes32Hex_eq_Inr bytesToHex_eq fits_bytes32_def)

text \<open>A text whose encoding does not end in a zero byte is read back.\<close>

lemma bytes32_roundtrip:
  assumes "utf8_doc T" and "stringToBytes32Hex s = Inr h" and "s = [] \<or> last (utf8_encode s) \<noteq> 0"
  shows "bytes32HexToString T (Some (JStr h)) = s"
proof -
  let ?e = "utf8_encode s" and ?k = "32 - length (utf8_encode s)"
  have "?e = [] \<or> last ?e \<noteq> 0" using assms(3) by (auto simp: utf8_encode_def)
  then have "trim_end (length ?e + ?k) (?e @ replicate ?k 0) = length ?e" by (rule trim_end_padded)
  moreover have "h = bytesToHex (?e @ replicate ?k 0)"
    using assms(2) by (simp add: stringToBytes32Hex_eq_Inr)
  ultimately have "bytes32HexToString T (Some (JStr h)) = text_decode T ?e"
    by (simp add: bytes32HexToString_def js_slice_def)
  with utf8_docD [OF assms(1)] show ?thesis by simp
qed

end
