(* ===== verification/Framework.thy ===== *)
theory Framework
  imports Encoding
begin

text \<open>
  \<open>extension/typescript/src/base/types.ts\<close>: the registry that maps the two \<open>bytes32\<close> identifiers of
  an action to a handler. The identifiers reach \<open>lookup\<close> from parsed JSON of unchecked type. The
  lemmas give what a lookup finds after registrations, as the laws of a locale that the server's
  proofs use.
\<close>

definition EMPTY_BYTES32 :: js_str where
  "EMPTY_BYTES32 = bytesToHex (replicate 32 0)"

lemma EMPTY_BYTES32_ok: "stringToBytes32Hex [] = Inr EMPTY_BYTES32"
  by (simp add: stringToBytes32Hex_eq_Inr fits_bytes32_def EMPTY_BYTES32_def utf8_encode_def)

type_synonym 'h framework = "(js_str \<times> js_str \<times> 'h) list"

text \<open>\<open>HandlerResult\<close>: the data, the status and the error.\<close>

type_synonym handler_result = "js_str option \<times> int \<times> js_str option"

definition framework_handle :: "js_str \<Rightarrow> js_str \<Rightarrow> 'h \<Rightarrow> 'h framework \<Rightarrow> exn + 'h framework" where
  "framework_handle opType opCommand h f =
    bind_err (stringToBytes32Hex opType) (\<lambda>t.
    bind_err (stringToBytes32Hex opCommand) (\<lambda>c.
    Inr (f @ [(t, c, h)])))"

definition normalize :: "json option \<Rightarrow> exn + js_str" where
  "normalize h =
    (if json_false h then Inr EMPTY_BYTES32
     else (case h of
        Some (JStr s) \<Rightarrow>
          (let lower = js_toLowerCase s
           in Inr (if js_startsWith ''0x'' lower then lower else ''0x'' @ lower))
      | _ \<Rightarrow> Inl (TypeError ''h.toLowerCase is not a function'')))"

fun find_exact :: "js_str \<Rightarrow> js_str \<Rightarrow> 'h framework \<Rightarrow> 'h option" where
  "find_exact t c [] = None"
| "find_exact t c ((regType, regCmd, handler) # f) =
    (if regType = t \<and> regCmd = c then Some handler else find_exact t c f)"

definition lookup :: "json option \<Rightarrow> json option \<Rightarrow> 'h framework \<Rightarrow> exn + 'h option" where
  "lookup opType opCommand f =
    bind_err (normalize opType) (\<lambda>t.
    bind_err (normalize opCommand) (\<lambda>c.
    Inr (case find_exact t c f of
        Some handler \<Rightarrow> Some handler
      | None \<Rightarrow> find_exact t EMPTY_BYTES32 f)))"

subsection \<open>Laws\<close>

lemma find_exact_append:
  "find_exact t c (f @ g) = (case find_exact t c f of None \<Rightarrow> find_exact t c g | Some h \<Rightarrow> Some h)"
  by (induction f) auto

lemma find_exact_None: "find_exact t c f = None \<longleftrightarrow> (\<forall>h. (t, c, h) \<notin> set f)"
  by (induction f) (auto split: if_splits)

lemma normalize_bytes32:
  assumes "stringToBytes32Hex s = Inr h"
  shows "normalize (Some (JStr h)) = Inr h" and "normalize (Some (JStr (js_toLowerCase h))) = Inr h"
proof -
  have "hex_string h" "js_toLowerCase h = h" using assms by (rule length_stringToBytes32Hex)+
  then show "normalize (Some (JStr h)) = Inr h" and "normalize (Some (JStr (js_toLowerCase h))) = Inr h"
    by (auto simp: normalize_def elim!: hex_stringE)
qed

text \<open>Any spelling of the letters finds the same handler.\<close>

lemma normalize_case:
  assumes "js_toLowerCase a = js_toLowerCase b"
  shows "normalize (Some (JStr a)) = normalize (Some (JStr b))"
proof -
  have "a = [] \<longleftrightarrow> b = []" using assms by (auto simp: js_toLowerCase_def)
  with assms show ?thesis by (simp add: normalize_def)
qed

lemma normalize_absent [simp]: "normalize None = Inr EMPTY_BYTES32" "normalize (Some JNull) = Inr EMPTY_BYTES32"
  "normalize (Some (JStr [])) = Inr EMPTY_BYTES32"
  by (simp_all add: normalize_def)

lemma normalize_text: "is_ok (normalize (Some (JStr s)))"
  by (simp add: normalize_def Let_def)

lemma normalize_throws: "normalize h = Inl e \<Longrightarrow> \<not> json_false h \<and> (\<forall>s. h \<noteq> Some (JStr s))"
  by (auto simp: normalize_def Let_def split: if_splits)

text \<open>
  The contract of a registry of handlers: what is registered is found under its own identifiers, the
  first registration wins, other identifiers are not affected, and the empty command catches what no
  exact entry does.
\<close>

locale registry =
  fixes enter :: "'k \<Rightarrow> 'k \<Rightarrow> 'h \<Rightarrow> 'r \<Rightarrow> 'r"
    and find :: "'k \<Rightarrow> 'k \<Rightarrow> 'r \<Rightarrow> 'h option"
    and exact :: "'k \<Rightarrow> 'k \<Rightarrow> 'r \<Rightarrow> 'h option"
    and none :: 'r and wild :: 'k
  assumes exact_none: "exact t c none = None"
    and exact_enter: "exact t c (enter t' c' h r) =
      (if t = t' \<and> c = c' \<and> exact t c r = None then Some h else exact t c r)"
    and find_exact_first: "find t c r = (case exact t c r of Some h \<Rightarrow> Some h | None \<Rightarrow> exact t wild r)"
begin

definition enter_all :: "('k \<times> 'k \<times> 'h) list \<Rightarrow> 'r" where
  "enter_all es = foldl (\<lambda>r (t, c, h). enter t c h r) none es"

lemma enter_all_snoc: "enter_all (es @ [(t, c, h)]) = enter t c h (enter_all es)"
  by (simp add: enter_all_def)

lemma exact_enter_all:
  assumes "distinct (map (\<lambda>(t, c, h). (t, c)) es)"
  shows "exact t c (enter_all es) = Some h \<longleftrightarrow> (t, c, h) \<in> set es"
  using assms
proof (induction es arbitrary: h rule: rev_induct)
  case Nil
  then show ?case by (simp add: enter_all_def exact_none)
next
  case (snoc e es)
  obtain t' c' h' where e: "e = (t', c', h')" by (cases e)
  from snoc.prems have d: "distinct (map (\<lambda>(t, c, h). (t, c)) es)"
    and new: "\<And>h. (t', c', h) \<notin> set es"
    by (force simp: e)+
  from snoc.IH [OF d] new show ?case
    by (cases "exact t c (enter_all es)") (auto simp: e enter_all_snoc exact_enter)
qed

text \<open>A table without wildcards answers for its own entries and for nothing else.\<close>

lemma find_enter_all:
  assumes "distinct (map (\<lambda>(t, c, h). (t, c)) es)" and "\<And>t h. (t, wild, h) \<notin> set es"
  shows "find t c (enter_all es) = Some h \<longleftrightarrow> (t, c, h) \<in> set es"
proof -
  have "exact t wild (enter_all es) = None"
    using exact_enter_all [OF assms(1), of t wild] assms(2)
    by (cases "exact t wild (enter_all es)") auto
  then have "find t c (enter_all es) = exact t c (enter_all es)"
    by (simp add: find_exact_first split: option.split)
  then show ?thesis by (simp add: exact_enter_all [OF assms(1)])
qed

end

definition registry_enter :: "js_str \<Rightarrow> js_str \<Rightarrow> 'h \<Rightarrow> 'h framework \<Rightarrow> 'h framework" where
  "registry_enter t c h f = f @ [(t, c, h)]"

definition registry_find :: "js_str \<Rightarrow> js_str \<Rightarrow> 'h framework \<Rightarrow> 'h option" where
  "registry_find t c f = (case find_exact t c f of Some h \<Rightarrow> Some h | None \<Rightarrow> find_exact t EMPTY_BYTES32 f)"

interpretation reg: registry registry_enter registry_find find_exact "[]" EMPTY_BYTES32
  by unfold_locales
    (auto simp: registry_enter_def registry_find_def find_exact_append split: option.split)

lemma framework_handle_eq:
  assumes "stringToBytes32Hex opType = Inr t" and "stringToBytes32Hex opCommand = Inr c"
  shows "framework_handle opType opCommand h f = Inr (registry_enter t c h f)"
  using assms by (simp add: framework_handle_def registry_enter_def)

lemma lookup_eq:
  assumes "normalize opType = Inr t" and "normalize opCommand = Inr c"
  shows "lookup opType opCommand f = Inr (registry_find t c f)"
  using assms by (simp add: lookup_def registry_find_def)

lemma enter_all_list: "reg.enter_all es = es"
proof (induction es rule: rev_induct)
  case Nil
  show ?case by (simp add: reg.enter_all_def)
next
  case (snoc e es)
  obtain t c h where e: "e = (t, c, h)" by (cases e)
  have "reg.enter_all (es @ [e]) = registry_enter t c h (reg.enter_all es)"
    unfolding e by (rule reg.enter_all_snoc)
  also have "\<dots> = es @ [e]" unfolding snoc.IH by (simp add: registry_enter_def e)
  finally show ?case .
qed

lemma lookup_table:
  assumes "distinct (map (\<lambda>(t, c, h). (t, c)) f)" and "\<And>t h. (t, EMPTY_BYTES32, h) \<notin> set f"
    and "normalize opType = Inr t" and "normalize opCommand = Inr c"
  shows "lookup opType opCommand f = Inr (Some h) \<longleftrightarrow> (t, c, h) \<in> set f"
  using reg.find_enter_all [of f t c h] assms by (simp add: lookup_eq enter_all_list)

end
