(* ===== verification/Server.thy ===== *)
theory Server
  imports Framework
begin

text \<open>
  \<open>extension/typescript/src/base/server.ts\<close>: the HTTP surface of the enclave. The server is
  parametric in the handlers: \<open>run h msg s\<close> is what the handler registered as \<open>h\<close> does to the
  state and what it returns or throws, \<open>report\<close> the state report. The queue of the source runs one
  handler at a time in the order of arrival and goes on after one that threw, which is a list of requests
  processed from the left. A rejected promise is \<open>Inl\<close>.
\<close>

subsection \<open>Definitions\<close>

type_synonym ('h, 's) handlers = "'h \<Rightarrow> json \<Rightarrow> 's \<Rightarrow> 's \<times> (exn + handler_result)"

datatype payload = Text js_str | Json json

type_synonym reply = "int \<times> payload"

record 'h server =
  sv_version :: js_str
  sv_stateVersionHex :: js_str
  sv_framework :: "'h framework"

definition new_Server :: "js_str \<Rightarrow> (exn + 'h framework) \<Rightarrow> exn + 'h server" where
  "new_Server version registered =
    bind_err (stringToBytes32Hex version) (\<lambda>h.
    bind_err registered (\<lambda>f.
    Inr \<lparr>sv_version = version, sv_stateVersionHex = h, sv_framework = f\<rparr>))"

definition error_reply :: "js_str \<Rightarrow> reply" where
  "error_reply m = (400, Json (JObj [(''error'', JStr m)]))"

definition result_log :: "int \<Rightarrow> js_str option \<Rightarrow> js_str" where
  "result_log status err =
    (if status = 0 then (case err of None \<Rightarrow> ''error: unknown''
        | Some m \<Rightarrow> if m = [] then ''error: unknown'' else ''error: '' @ m)
     else if status = 1 then ''ok'' else ''pending'')"

definition action_result :: "js_str \<Rightarrow> json \<Rightarrow> json \<Rightarrow> handler_result \<Rightarrow> json" where
  "action_result version data df r = (case r of (bytes, status, err) \<Rightarrow>
     JObj (opt_field ''id'' (json_get data ''id'') @ opt_field ''submissionTag'' (json_get data ''submissionTag'') @
       [(''status'', json_int status), (''log'', JStr (result_log status err))] @
       opt_field ''opType'' (json_get df ''opType'') @ opt_field ''opCommand'' (json_get df ''opCommand'') @
       [(''additionalResultStatus'', JStr ''0x''), (''version'', JStr version),
        (''data'', JStr (case bytes of None \<Rightarrow> ''0x'' | Some b \<Rightarrow> b))]))"

text \<open>The two layers of JSON around a request: \<open>Inl\<close> is the reply to a malformed one.\<close>

definition read_action :: "platform \<Rightarrow> js_str \<Rightarrow> reply + json" where
  "read_action T body =
    (case json_parse T body of
       Inl e \<Rightarrow> Inl (error_reply (''invalid action JSON: '' @ exn_String e))
     | Inr action \<Rightarrow>
        if json_false (Some action) \<or> \<not> is_object (Some action) \<or> json_false (json_get action ''data'')
        then Inl (error_reply ''invalid action structure: missing data'')
        else Inr (the (json_get action ''data'')))"

definition read_data_fixed :: "platform \<Rightarrow> json \<Rightarrow> reply + json" where
  "read_data_fixed T data =
    (case ext_hexToBytes (json_get data ''message'') of
       Inl e \<Rightarrow> Inl (error_reply (''invalid hex in message: '' @ exn_String e))
     | Inr msgBytes \<Rightarrow>
        (case json_parse T (buffer_toString T msgBytes) of
           Inl e \<Rightarrow> Inl (error_reply (''invalid DataFixed JSON in message: '' @ exn_String e))
         | Inr df \<Rightarrow>
            if json_false (Some df) \<or> \<not> is_object (Some df) \<or> json_false (json_get df ''opType'')
            then Inl (error_reply ''invalid DataFixed: missing opType'')
            else Inr df))"

text \<open>
  The line that is logged converts the identifier of the action to text, which can throw; the handler
  has run by then.
\<close>

definition run_action ::
    "platform \<Rightarrow> ('h, 's) handlers \<Rightarrow> js_str \<Rightarrow> json \<Rightarrow> json \<Rightarrow> 'h \<Rightarrow> 's \<Rightarrow> 's \<times> (exn + reply)" where
  "run_action T run version data df h s =
    (case run h (json_or (json_get df ''originalMessage'') (JStr ''0x'')) s of
       (s', Inl e) \<Rightarrow> (s', Inl e)
     | (s', Inr r) \<Rightarrow>
        (s', bind_err (js_String_opt T (json_get data ''id'')) (\<lambda>_.
             Inr (200, Json (action_result version data df r)))))"

definition processAction ::
    "platform \<Rightarrow> ('h, 's) handlers \<Rightarrow> 'h server \<Rightarrow> js_str \<Rightarrow> 's \<Rightarrow> 's \<times> (exn + reply)" where
  "processAction T run sv body s =
    (case read_action T body of
       Inl r \<Rightarrow> (s, Inr r)
     | Inr data \<Rightarrow>
        (case read_data_fixed T data of
           Inl r \<Rightarrow> (s, Inr r)
         | Inr df \<Rightarrow>
            (case lookup (json_get df ''opType'') (Some (json_or (json_get df ''opCommand'') (JStr [])))
                (sv_framework sv) of
               Inl e \<Rightarrow> (s, Inl e)
             | Inr None \<Rightarrow> (s, Inr (501, Text ''unsupported op type''))
             | Inr (Some h) \<Rightarrow> run_action T run (sv_version sv) data df h s)))"

definition processState :: "('s \<Rightarrow> json) \<Rightarrow> 'h server \<Rightarrow> 's \<Rightarrow> reply" where
  "processState report sv s =
    (200, Json (JObj [(''stateVersion'', JStr (sv_stateVersionHex sv)), (''state'', report s)]))"

definition clean_path :: "js_str \<Rightarrow> js_str" where
  "clean_path path = takeWhile (\<lambda>c. c \<noteq> CHR ''?'') path"

definition handleRequest ::
    "platform \<Rightarrow> ('h, 's) handlers \<Rightarrow> ('s \<Rightarrow> json) \<Rightarrow> 'h server \<Rightarrow> js_str \<Rightarrow> js_str \<Rightarrow> js_str \<Rightarrow> 's \<Rightarrow>
     's \<times> (exn + reply)" where
  "handleRequest T run report sv method path body s =
    (let clean = clean_path path in
     if clean = ''/action'' then
       (if method = ''POST'' then processAction T run sv body s
        else (s, Inr (405, Text ''method not allowed'')))
     else if clean = ''/state'' then
       (if method = ''GET'' then (s, Inr (processState report sv s))
        else (s, Inr (405, Text ''method not allowed'')))
     else (s, Inr (404, Text ''not found'')))"

text \<open>\<open>send\<close>: the content type and the body of a reply.\<close>

definition send :: "platform \<Rightarrow> reply \<Rightarrow> int \<times> js_str \<times> js_str" where
  "send T r = (case r of
     (status, Text t) \<Rightarrow> (status, ''text/plain'', t)
   | (status, Json v) \<Rightarrow> (status, ''application/json'', json_stringify T v))"

text \<open>\<open>serve\<close>: \<open>None\<close> for a body that could not be read. A rejection has no handler.\<close>

definition serve ::
    "platform \<Rightarrow> ('h, 's) handlers \<Rightarrow> ('s \<Rightarrow> json) \<Rightarrow> 'h server \<Rightarrow> js_str \<times> js_str \<times> js_str option \<Rightarrow> 's \<Rightarrow>
     's \<times> (exn + int \<times> js_str \<times> js_str)" where
  "serve T run report sv req s = (case req of
     (method, url, None) \<Rightarrow>
      (s, Inr (send T (400, Json (JObj [(''error'', JStr ''failed to read body'')]))))
   | (method, url, Some body) \<Rightarrow>
      (case handleRequest T run report sv method url body s of
         (s', r) \<Rightarrow> (s', bind_err r (\<lambda>r. Inr (send T r)))))"

fun serve_all ::
    "platform \<Rightarrow> ('h, 's) handlers \<Rightarrow> ('s \<Rightarrow> json) \<Rightarrow> 'h server \<Rightarrow>
     (js_str \<times> js_str \<times> js_str option) list \<Rightarrow> 's \<Rightarrow> 's \<times> (exn + int \<times> js_str \<times> js_str) list" where
  "serve_all T run report sv [] s = (s, [])"
| "serve_all T run report sv (req # reqs) s =
    (case serve T run report sv req s of (s1, r) \<Rightarrow>
     (case serve_all T run report sv reqs s1 of (s2, rs) \<Rightarrow> (s2, r # rs)))"

subsection \<open>Replies\<close>

text \<open>A well-formed action: both layers decode, and its operation has a handler.\<close>

definition dispatches ::
    "platform \<Rightarrow> 'h server \<Rightarrow> js_str \<Rightarrow> json \<Rightarrow> json \<Rightarrow> 'h \<Rightarrow> bool" where
  "dispatches T sv body data df h \<longleftrightarrow>
     read_action T body = Inr data \<and> read_data_fixed T data = Inr df \<and>
     lookup (json_get df ''opType'') (Some (json_or (json_get df ''opCommand'') (JStr []))) (sv_framework sv) =
       Inr (Some h)"

lemma processAction_dispatches:
  assumes "dispatches T sv body data df h"
  shows "processAction T run sv body s = run_action T run (sv_version sv) data df h s"
  using assms by (simp add: processAction_def dispatches_def)

lemma processAction_idle:
  assumes "\<nexists>data df h. dispatches T sv body data df h"
  shows "fst (processAction T run sv body s) = s"
  using assms by (auto simp: processAction_def dispatches_def split: sum.split option.split)

lemma run_action_state: "fst (run_action T run v data df h s) =
    fst (run h (json_or (json_get df ''originalMessage'') (JStr ''0x'')) s)"
  by (auto simp: run_action_def split: prod.split sum.split)

text \<open>Who can change the state: only a handler, and only by a POST of a well-formed action.\<close>

lemma handleRequest_changes:
  assumes "fst (handleRequest T run report sv method path body s) \<noteq> s"
  obtains data df h where "method = ''POST''" "clean_path path = ''/action''" "dispatches T sv body data df h"
    "fst (handleRequest T run report sv method path body s) =
      fst (run h (json_or (json_get df ''originalMessage'') (JStr ''0x'')) s)"
proof -
  from assms have r: "method = ''POST''" "clean_path path = ''/action''"
    and ne: "fst (processAction T run sv body s) \<noteq> s"
    by (auto simp: handleRequest_def Let_def split: if_splits)
  from ne processAction_idle obtain data df h where d: "dispatches T sv body data df h" by metis
  with that r show thesis
    by (simp add: handleRequest_def processAction_dispatches run_action_state)
qed

text \<open>When the promise of a request is rejected.\<close>

lemma read_data_fixed_opType: "read_data_fixed T data = Inr df \<Longrightarrow> \<not> json_false (json_get df ''opType'')"
  by (auto simp: read_data_fixed_def split: sum.splits if_splits)

definition action_throws ::
    "platform \<Rightarrow> ('h, 's) handlers \<Rightarrow> 'h server \<Rightarrow> js_str \<Rightarrow> 's \<Rightarrow> bool" where
  "action_throws T run sv body s \<longleftrightarrow> (\<exists>data df. read_action T body = Inr data \<and> read_data_fixed T data = Inr df \<and>
     (as_text (json_get df ''opType'') = None \<or>
      (let c = json_or (json_get df ''opCommand'') (JStr []) in \<not> json_false (Some c) \<and> as_text (Some c) = None) \<or>
      (\<exists>h. dispatches T sv body data df h \<and>
        (\<not> is_ok (snd (run h (json_or (json_get df ''originalMessage'') (JStr ''0x'')) s)) \<or>
         \<not> is_ok (js_String_opt T (json_get data ''id''))))))"

lemma normalize_ok: "is_ok (normalize v) \<longleftrightarrow> json_false v \<or> as_text v \<noteq> None"
  by (cases v rule: as_text.cases) (auto simp: normalize_def Let_def split: option.splits)

lemma lookup_ok: "is_ok (lookup t c f) \<longleftrightarrow> is_ok (normalize t) \<and> is_ok (normalize c)"
  by (auto simp: lookup_def is_ok_bind is_ok_iff)

lemma processAction_throws:
  "is_ok (snd (processAction T run sv body s)) \<longleftrightarrow> \<not> action_throws T run sv body s"
proof (cases "read_action T body")
  case (Inr data)
  show ?thesis
  proof (cases "read_data_fixed T data")
    case df: (Inr df)
    let ?c = "Some (json_or (json_get df ''opCommand'') (JStr []))"
    have ne: "\<not> json_false (json_get df ''opType'')" by (rule read_data_fixed_opType [OF df])
    show ?thesis
    proof (cases "lookup (json_get df ''opType'') ?c (sv_framework sv)")
      case (Inl e)
      then have "\<not> is_ok (lookup (json_get df ''opType'') ?c (sv_framework sv))" by simp
      with ne have "as_text (json_get df ''opType'') = None \<or> \<not> json_false ?c \<and> as_text ?c = None"
        by (auto simp: lookup_ok normalize_ok)
      then show ?thesis by (auto simp: processAction_def action_throws_def Inr df Inl Let_def)
    next
      case found: (Inr r)
      then have "is_ok (lookup (json_get df ''opType'') ?c (sv_framework sv))" by simp
      with ne have t: "as_text (json_get df ''opType'') \<noteq> None" "json_false ?c \<or> as_text ?c \<noteq> None"
        by (auto simp: lookup_ok normalize_ok)
      show ?thesis
      proof (cases r)
        case None
        with t show ?thesis
          by (auto simp: processAction_def action_throws_def dispatches_def Inr df found Let_def)
      next
        case (Some h)
        let ?r = "run h (json_or (json_get df ''originalMessage'') (JStr ''0x'')) s"
        have d: "dispatches T sv body data df h' \<longleftrightarrow> h' = h" for h'
          by (auto simp: dispatches_def Inr df found Some)
        have "is_ok (snd (run_action T run (sv_version sv) data df h s)) \<longleftrightarrow>
            is_ok (snd ?r) \<and> is_ok (js_String_opt T (json_get data ''id''))"
          by (cases ?r; cases "snd ?r") (auto simp: run_action_def is_ok_bind is_ok_iff)
        then show ?thesis
          using t by (simp add: processAction_dispatches [OF d [THEN iffD2, OF refl]]
              action_throws_def Inr df d Let_def)
      qed
    qed
  qed (simp add: processAction_def action_throws_def Inr)
qed (simp add: processAction_def action_throws_def)

subsection \<open>Properties\<close>

text \<open>
  (C30) Only handlers change the state: whatever the method, the path and the body of a request, the
  state after it is the state before it, unless the request is a POST to the action path whose two
  envelopes decode to an operation with a registered handler; then it is what that handler made of it.
\<close>

theorem server_state_changes:
  assumes "fst (handleRequest T run report sv method path body s) \<noteq> s"
  shows "method = ''POST'' \<and> clean_path path = ''/action'' \<and>
    (\<exists>d df h. read_action T body = Inr d \<and> read_data_fixed T d = Inr df \<and>
      lookup (json_get df ''opType'') (Some (json_or (json_get df ''opCommand'') (JStr []))) (sv_framework sv) =
        Inr (Some h) \<and>
      fst (handleRequest T run report sv method path body s) =
        fst (run h (json_or (json_get df ''originalMessage'') (JStr ''0x'')) s))"
  using assms by (rule handleRequest_changes) (auto simp: dispatches_def)

text \<open>
  A request is answered unless one of these happens: the operation type or a given operation
  command of a decoded action is not text, its handler throws, or the identifier of the action cannot
  be converted to text. Each of these rejects the promise, for which \<open>serve\<close> has no handler.
\<close>

theorem server_rejects_exactly:
  "is_ok (snd (serve T run report sv (method, url, Some body) s)) =
    (\<not> (method = ''POST'' \<and> clean_path url = ''/action'' \<and>
      (\<exists>d df. read_action T body = Inr d \<and> read_data_fixed T d = Inr df \<and>
        (as_text (json_get df ''opType'') = None \<or>
         (let c = json_or (json_get df ''opCommand'') (JStr []) in \<not> json_false (Some c) \<and> as_text (Some c) = None) \<or>
         (\<exists>h. dispatches T sv body d df h \<and>
           (\<not> is_ok (snd (run h (json_or (json_get df ''originalMessage'') (JStr ''0x'')) s)) \<or>
            \<not> is_ok (js_String_opt T (json_get d ''id''))))))))"
proof -
  have "is_ok (snd (serve T run report sv (method, url, Some body) s)) \<longleftrightarrow>
      is_ok (snd (handleRequest T run report sv method url body s))"
    by (cases "handleRequest T run report sv method url body s"; cases "snd (handleRequest T run report sv method url body s)")
      (auto simp: serve_def)
  also have "\<dots> \<longleftrightarrow> \<not> (method = ''POST'' \<and> clean_path url = ''/action'' \<and> action_throws T run sv body s)"
    by (auto simp: handleRequest_def Let_def processAction_throws)
  finally show ?thesis unfolding action_throws_def .
qed

end
