(* ===== verification/Triggers.thy ===== *)
theory Triggers
  imports Encoding
begin

text \<open>
  \<open>extension/typescript/src/app/triggers.ts\<close>: the condition of an intent, its validation, the price
  feed read from the chain, and the decision to fire. Times are milliseconds; the clock is an
  integer, the times of a caller are any finite number.
\<close>

definition FTSO_V2 :: js_str where
  "FTSO_V2 = ''0xC4e9c78EA53db782E28f28Fdf80BaF59336B304d''"

datatype comparator = GTE | LTE

datatype trigger = PriceTrigger (tr_feedId: js_str) (tr_op: comparator) (tr_value: js_str)
  | TimeTrigger (tr_notBefore: rat)

record feed_reading =
  fr_value :: bigint
  fr_decimals :: int
  fr_timestamp :: int

subsection \<open>Validation\<close>

text \<open>\<open>/^0x[0-9a-fA-F]{42}$/\<close> and \<open>/^\d+$/\<close>.\<close>

definition feed_id_ok :: "js_str \<Rightarrow> bool" where
  "feed_id_ok s \<longleftrightarrow> hex_string s \<and> length s = 44"

fun as_finite :: "json option \<Rightarrow> rat option" where
  "as_finite (Some (JNum (Finite r))) = Some r"
| "as_finite _ = None"

definition parse_price :: "json \<Rightarrow> js_str + trigger" where
  "parse_price t =
    (case as_text (json_get t ''feedId'') of
       None \<Rightarrow> Inl ''trigger.feedId must be a 21-byte hex feed id''
     | Some feedId \<Rightarrow>
        if \<not> feed_id_ok feedId then Inl ''trigger.feedId must be a 21-byte hex feed id''
        else
          let op = json_get t ''op'' in
          if op \<noteq> Some (JStr ''GTE'') \<and> op \<noteq> Some (JStr ''LTE'') then Inl ''trigger.op must be GTE or LTE''
          else (case as_text (json_get t ''value'') of
              None \<Rightarrow> Inl ''trigger.value must be a decimal string in the feed's units''
            | Some v \<Rightarrow>
               if \<not> is_dec v then Inl ''trigger.value must be a decimal string in the feed's units''
               else Inr (PriceTrigger feedId (if op = Some (JStr ''GTE'') then GTE else LTE) v)))"

definition parse_time :: "json \<Rightarrow> js_str + trigger" where
  "parse_time t =
    (case as_finite (json_get t ''notBefore'') of
       None \<Rightarrow> Inl ''trigger.notBefore must be unix milliseconds''
     | Some notBefore \<Rightarrow>
        if notBefore \<le> 0 then Inl ''trigger.notBefore must be unix milliseconds''
        else Inr (TimeTrigger notBefore))"

text \<open>The message of the last error converts the kind to text, which can throw.\<close>

definition parseTrigger :: "platform \<Rightarrow> json option \<Rightarrow> exn + (js_str + trigger)" where
  "parseTrigger T raw =
    (if \<not> is_object raw then Inr (Inl ''trigger must be an object'')
     else
       let t = the raw; kind = json_get t ''kind'' in
       if kind = Some (JStr ''PRICE'') then Inr (parse_price t)
       else if kind = Some (JStr ''TIME'') then Inr (parse_time t)
       else bind_err (js_String_opt T kind) (\<lambda>s. Inr (Inl (''unsupported trigger kind: '' @ s))))"

subsection \<open>The price feed\<close>

definition selector :: js_str where
  "selector = ''0x93e9f806''"

definition feed_arg :: "js_str \<Rightarrow> js_str" where
  "feed_arg feedId = js_padEnd 64 (CHR ''0'') (strip_0x feedId)"

definition feed_request :: "js_str \<Rightarrow> json" where
  "feed_request feedId = JObj [(''jsonrpc'', JStr ''2.0''), (''id'', json_int 1),
     (''method'', JStr ''eth_call''),
     (''params'', JArr [JObj [(''to'', JStr FTSO_V2), (''data'', JStr (selector @ feed_arg feedId))],
        JStr ''latest''])]"

text \<open>The words of the answer: a value, an \<open>int8\<close> in two's complement, a time; 0 stands for now.\<close>

definition decode_feed :: "js_str \<Rightarrow> int \<Rightarrow> js_error + feed_reading" where
  "decode_feed hex now =
    bind_err (js_BigInt (''0x'' @ js_slice 0 64 hex)) (\<lambda>v.
    bind_err (js_BigInt (''0x'' @ js_slice 64 128 hex)) (\<lambda>rawDecimals.
    bind_err (js_BigInt (''0x'' @ js_slice 128 192 hex)) (\<lambda>t.
    let timestamp = number_of_bigint t in
    Inr \<lparr>fr_value = v,
      fr_decimals = (if rawDecimals > 0x7f then number_of_bigint (rawDecimals - 2 ^ 256)
        else number_of_bigint rawDecimals),
      fr_timestamp = (if timestamp \<noteq> 0 then timestamp else now div 1000)\<rparr>)))"

text \<open>\<open>net\<close> is the POST to the chain's endpoint with the reading of its JSON.\<close>

definition readFeed :: "(json \<Rightarrow> exn + json) \<Rightarrow> js_str \<Rightarrow> int \<Rightarrow> feed_reading option" where
  "readFeed net feedId now =
    (case net (feed_request feedId) of
       Inl _ \<Rightarrow> None
     | Inr body \<Rightarrow>
        (case json_get body ''result'' of
           Some (JStr result) \<Rightarrow>
            if result = [] \<or> result = ''0x'' then None
            else
              let hex = strip_0x result in
              if length hex < 192 then None
              else (case decode_feed hex now of Inl _ \<Rightarrow> None | Inr r \<Rightarrow> Some r)
         | _ \<Rightarrow> None))"

subsection \<open>The decision\<close>

definition compare_prices :: "comparator \<Rightarrow> bigint \<Rightarrow> bigint \<Rightarrow> bool" where
  "compare_prices op v threshold = (if op = GTE then v \<ge> threshold else v \<le> threshold)"

definition isTriggered ::
    "trigger \<Rightarrow> int \<Rightarrow> (js_str \<Rightarrow> int \<Rightarrow> feed_reading option) \<Rightarrow> js_error + bool \<times> feed_reading option" where
  "isTriggered t now read = (case t of
     TimeTrigger notBefore \<Rightarrow> Inr (notBefore \<le> of_int now, None)
   | PriceTrigger feedId op v \<Rightarrow>
      (case read feedId now of
         None \<Rightarrow> Inr (False, None)
       | Some reading \<Rightarrow>
          bind_err (js_BigInt v) (\<lambda>threshold.
          Inr (compare_prices op (fr_value reading) threshold, Some reading))))"

text \<open>\<open>new Date(t).toISOString()\<close> throws on a time outside the range of dates.\<close>

definition MAX_DATE :: rat where
  "MAX_DATE = 8640000000000000"

definition op_name :: "comparator \<Rightarrow> js_str" where
  "op_name op = (if op = GTE then ''GTE'' else ''LTE'')"

definition describeTrigger :: "platform \<Rightarrow> trigger \<Rightarrow> exn + js_str" where
  "describeTrigger T t = (case t of
     TimeTrigger n \<Rightarrow>
      if \<bar>n\<bar> > MAX_DATE then Inl (RangeError ''Invalid time value'')
      else Inr (''TIME >= '' @ toISOString T n)
   | PriceTrigger feedId op v \<Rightarrow>
      Inr (''PRICE '' @ js_slice 0 12 feedId @ ''... '' @ op_name op @ '' '' @ v))"

subsection \<open>What validation guarantees\<close>

fun trigger_ok :: "trigger \<Rightarrow> bool" where
  "trigger_ok (PriceTrigger feedId op v) \<longleftrightarrow> feed_id_ok feedId \<and> is_dec v"
| "trigger_ok (TimeTrigger n) \<longleftrightarrow> 0 < n"

lemma parse_price_ok: "parse_price t = Inr tr \<Longrightarrow> trigger_ok tr \<and> (\<exists>f op v. tr = PriceTrigger f op v)"
  by (auto simp: parse_price_def Let_def split: option.splits if_splits)

lemma parse_time_ok: "parse_time t = Inr tr \<Longrightarrow> trigger_ok tr \<and> (\<exists>n. tr = TimeTrigger n)"
  by (auto simp: parse_time_def split: option.splits if_splits)

lemma parseTrigger_ok: "parseTrigger T raw = Inr (Inr tr) \<Longrightarrow> trigger_ok tr"
  by (auto simp: parseTrigger_def Let_def dest: parse_price_ok parse_time_ok split: if_splits)

text \<open>A validated trigger prints back as the JSON it was read from.\<close>

definition trigger_json :: "trigger \<Rightarrow> json" where
  "trigger_json t = (case t of
     PriceTrigger feedId op v \<Rightarrow> JObj [(''kind'', JStr ''PRICE''), (''feedId'', JStr feedId),
       (''op'', JStr (op_name op)), (''value'', JStr v)]
   | TimeTrigger n \<Rightarrow> JObj [(''kind'', JStr ''TIME''), (''notBefore'', JNum (Finite n))])"

lemma parseTrigger_json: "trigger_ok t \<Longrightarrow> parseTrigger T (Some (trigger_json t)) = Inr (Inr t)"
  by (cases t) (auto simp: parseTrigger_def trigger_json_def Let_def parse_price_def parse_time_def op_name_def
      comparator.exhaust intro: comparator.exhaust)

text \<open>The decision of a validated trigger never throws, and is this comparison.\<close>

definition condition_met :: "trigger \<Rightarrow> int \<Rightarrow> (js_str \<Rightarrow> int \<Rightarrow> feed_reading option) \<Rightarrow> bool" where
  "condition_met t now read = (case t of
     TimeTrigger n \<Rightarrow> n \<le> of_int now
   | PriceTrigger feedId op v \<Rightarrow>
      (case read feedId now of None \<Rightarrow> False
       | Some r \<Rightarrow> compare_prices op (fr_value r) (int (dec_value v))))"

lemma isTriggered_ok:
  assumes "trigger_ok t"
  shows "\<exists>reading. isTriggered t now read = Inr (condition_met t now read, reading)"
  using assms
  by (cases t) (auto simp: isTriggered_def condition_met_def js_BigInt_dec err_simps split: option.split)

subsection \<open>The words of the answer\<close>

text \<open>The ABI encoding of a feed: a \<open>uint256\<close>, an \<open>int8\<close> and a \<open>uint64\<close>, a word of 32 bytes each.\<close>

definition abi_feed :: "bigint \<Rightarrow> bigint \<Rightarrow> bigint \<Rightarrow> js_str" where
  "abi_feed v d t = toHex (be_bytes 32 v @ be_bytes 32 d @ be_bytes 32 t)"

lemma js_BigInt_word: "js_BigInt (CHR ''0'' # CHR ''x'' # bytes_hex (be_bytes 32 v)) = Inr (v mod 2 ^ 256)"
proof -
  have "bytes_hex (be_bytes 32 v) \<noteq> []"
    by (metis length_bytes_hex length_be_bytes list.size(3) mult_eq_0_iff zero_neq_numeral)
  then have "js_BigInt (CHR ''0'' # CHR ''x'' # bytes_hex (be_bytes 32 v)) =
      Inr (int (digits_val (bytes_hex (be_bytes 32 v))))"
    by (simp add: js_BigInt_hex)
  also have "int (digits_val (bytes_hex (be_bytes 32 v))) = v mod 2 ^ 256"
    unfolding digits_val_bytes_hex be_value_be_bytes by (simp add: power_mult [symmetric, of 2 8, simplified])
  finally show ?thesis .
qed

lemma decode_abi_feed:
  assumes "0 \<le> v" "v < 2 ^ 256" "- 128 \<le> d" "d \<le> 127" "0 \<le> t" "t < 2 ^ 53"
  shows "decode_feed (drop 2 (abi_feed v d t)) now =
    Inr \<lparr>fr_value = v, fr_decimals = d, fr_timestamp = (if t \<noteq> 0 then t else now div 1000)\<rparr>"
proof -
  let ?h = "\<lambda>n. bytes_hex (be_bytes 32 n)"
  have hex: "drop 2 (abi_feed v d t) = ?h v @ ?h d @ ?h t" by (simp add: abi_feed_def toHex_def)
  have sl: "js_slice 0 64 (?h v @ ?h d @ ?h t) = ?h v" "js_slice 64 128 (?h v @ ?h d @ ?h t) = ?h d"
    "js_slice 128 192 (?h v @ ?h d @ ?h t) = ?h t"
    by (simp_all add: js_slice_def)
  have v: "v mod 2 ^ 256 = v" and t: "t mod 2 ^ 256 = t" "number_of_bigint t = t"
    using assms by (simp_all add: number_of_bigint_exact)
  have d: "(if d mod 2 ^ 256 > 0x7f then number_of_bigint (d mod 2 ^ 256 - 2 ^ 256)
      else number_of_bigint (d mod 2 ^ 256)) = d"
  proof (cases "d < 0")
    case True
    then have "d mod 2 ^ 256 = d + 2 ^ 256" using assms(3)
      by (subst mod_add_self2 [symmetric], subst mod_pos_pos_trivial) simp_all
    with True assms(3) show ?thesis by (simp add: number_of_bigint_exact)
  next
    case False
    with assms(4) show ?thesis by (simp add: number_of_bigint_exact)
  qed
  show ?thesis
    unfolding hex decode_feed_def sl
    by (simp only: append_Cons append_Nil js_BigInt_word bind_err_Inr Let_def v t d)
qed

text \<open>
  The enclave reads from the chain exactly what the oracle published: the ABI encoding of a
  feed's value, its signed decimals and its time is read back, for every value and every exponent the
  contract's types can hold, and a missing time is replaced by the current second.
\<close>

theorem feed_read_exact:
  assumes "net (feed_request feedId) = Inr (JObj [(''jsonrpc'', JStr ''2.0''), (''id'', json_int 1),
      (''result'', JStr (abi_feed v d t))])"
    and "0 \<le> v" "v < 2 ^ 256" "- 128 \<le> d" "d \<le> 127" "0 \<le> t" "t < 2 ^ 53"
  shows "readFeed net feedId now =
    Some \<lparr>fr_value = v, fr_decimals = d, fr_timestamp = (if t \<noteq> 0 then t else now div 1000)\<rparr>"
proof -
  obtain h where h: "abi_feed v d t = CHR ''0'' # CHR ''x'' # h" "length h = 192"
    by (simp add: abi_feed_def toHex_def)
  then have "decode_feed h now = Inr \<lparr>fr_value = v, fr_decimals = d,
      fr_timestamp = (if t \<noteq> 0 then t else now div 1000)\<rparr>"
    using decode_abi_feed [OF assms(2-), of now] by simp
  then show ?thesis using assms(1) h by (auto simp: readFeed_def Let_def)
qed

theorem feed_read_exact_witness:
  "readFeed (\<lambda>_. Inr (JObj [(''jsonrpc'', JStr ''2.0''), (''id'', json_int 1),
      (''result'', JStr (abi_feed 4200000000 (- 8) 1700000000))])) ''0x01'' 1 =
    Some \<lparr>fr_value = 4200000000, fr_decimals = - 8, fr_timestamp = 1700000000\<rparr>"
  using feed_read_exact [of "\<lambda>_. Inr (JObj [(''jsonrpc'', JStr ''2.0''), (''id'', json_int 1),
      (''result'', JStr (abi_feed 4200000000 (- 8) 1700000000))])" "''0x01''" 4200000000 "- 8" 1700000000 1]
  by simp

end
