(* ===== verification/Viem.thy ===== *)
theory Viem
  imports Numbers
begin

text \<open>
  The functions of the third-party package \<open>viem\<close> the sources call, as the fields of a record that
  the definitions take as an argument, and what its documentation says of them, as named
  predicates. The two data types it is called with, \<open>Call\<close> and \<open>PackedUserOperation\<close>, are those of
  \<open>packages/sdk/src/userop.ts\<close>.
\<close>

record call =
  target :: js_str
  val :: bigint
  data :: js_str

record packed_user_operation =
  sender :: js_str
  nonce :: bigint
  initCode :: js_str
  callData :: js_str
  accountGasLimits :: js_str
  preVerificationGas :: bigint
  gasFees :: js_str
  paymasterAndData :: js_str
  signature :: js_str

record viem =
  isHex :: "js_str \<Rightarrow> bool"
  isAddress :: "js_str \<Rightarrow> bool"
  keccak256 :: "js_str \<Rightarrow> js_error + js_str"
  encodeFunctionData :: "call list \<Rightarrow> js_error + js_str"
  encodeAbiParameters :: "packed_user_operation \<Rightarrow> js_error + js_str"

text \<open>\<open>isHex\<close>: text of the form \<open>0x[0-9a-fA-F]*\<close>.\<close>

definition isHex_doc :: "viem \<Rightarrow> bool" where
  "isHex_doc V \<longleftrightarrow> (\<forall>s. isHex V s = hex_string s)"

text \<open>
  \<open>isAddress\<close>: 20 bytes of hexadecimal text; all-lower-case text needs no checksum.
\<close>

definition isAddress_doc :: "viem \<Rightarrow> bool" where
  "isAddress_doc V \<longleftrightarrow>
    (\<forall>s. isAddress V s \<longrightarrow> hex_string s \<and> length s = 42) \<and>
    (\<forall>s. hex_string s \<and> length s = 42 \<and> js_toLowerCase s = s \<longrightarrow> isAddress V s)"

lemma isAddress_docD: "isAddress_doc V \<Longrightarrow> isAddress V s \<Longrightarrow> hex_string s \<and> length s = 42"
  unfolding isAddress_doc_def by blast

lemma isAddress_docI:
  "isAddress_doc V \<Longrightarrow> hex_string s \<Longrightarrow> length s = 42 \<Longrightarrow> js_toLowerCase s = s \<Longrightarrow> isAddress V s"
  unfolding isAddress_doc_def by blast

text \<open>
  \<open>keccak256\<close>: a result is 32 bytes, as lower-case hexadecimal text, and hexadecimal text has one.
\<close>

definition keccak256_doc :: "viem \<Rightarrow> bool" where
  "keccak256_doc V \<longleftrightarrow>
    (\<forall>s h. keccak256 V s = Inr h \<longrightarrow> hex_string h \<and> length h = 66 \<and> js_toLowerCase h = h) \<and>
    (\<forall>s. hex_string s \<longrightarrow> is_ok (keccak256 V s))"

lemma keccak256_docD:
  assumes "keccak256_doc V" and "keccak256 V s = Inr h"
  shows "hex_string h" and "length h = 66" and "js_toLowerCase h = h"
  using assms unfolding keccak256_doc_def by blast+

lemma keccak256_docE:
  assumes "keccak256_doc V" and "hex_string s"
  obtains h where "keccak256 V s = Inr h" and "hex_string h" and "length h = 66" and "js_toLowerCase h = h"
  using assms unfolding keccak256_doc_def is_ok_iff by blast

text \<open>\<open>encodeAbiParameters\<close> returns hexadecimal text.\<close>

definition encodeAbiParameters_doc :: "viem \<Rightarrow> bool" where
  "encodeAbiParameters_doc V \<longleftrightarrow> (\<forall>u d. encodeAbiParameters V u = Inr d \<longrightarrow> hex_string d)"

subsection \<open>A concrete instance\<close>

text \<open>
  An instance that satisfies the documented behaviour, for the witnesses: its \<open>keccak256\<close> pads or
  cuts the text to 32 bytes, its encoders print a digest of their argument.
\<close>

definition demo_keccak :: "js_str \<Rightarrow> js_error + js_str" where
  "demo_keccak s =
    (if hex_string s
     then Inr (''0x'' @ take 64 (js_toLowerCase (drop 2 s) @ replicate 64 (CHR ''0'')))
     else Inl (JsError ''invalid hex''))"

definition demo_viem :: viem where
  "demo_viem = \<lparr>
     isHex = hex_string,
     isAddress = (\<lambda>s. hex_string s \<and> length s = 42),
     keccak256 = demo_keccak,
     encodeFunctionData = (\<lambda>cs. Inr (''0x'' @ concat (map (\<lambda>c. drop 2 (data c)) cs))),
     encodeAbiParameters = (\<lambda>u. Inr (toHex (be_bytes 32 (nonce u))))\<rparr>"

lemma js_toLowerCase_zeros [simp]:
  "js_toLowerCase (replicate n (CHR ''0'')) = replicate n (CHR ''0'')"
  by (simp add: js_toLowerCase_def lower_char_def)

lemma js_toLowerCase_take: "js_toLowerCase (take n s) = take n (js_toLowerCase s)"
  by (simp add: js_toLowerCase_def take_map)

lemma hex_body_take: "hex_body s \<Longrightarrow> hex_body (take n s)"
  by (auto simp: hex_body_def list_all_iff dest: in_set_takeD)

lemma hex_body_zeros [simp]: "hex_body (replicate n (CHR ''0''))"
  by (simp add: hex_body_def list_all_iff is_hex_char_def hex_val_def)

lemma demo_keccak_shape:
  assumes "hex_string s"
  shows "\<exists>h. demo_keccak s = Inr h \<and> hex_string h \<and> length h = 66 \<and> js_toLowerCase h = h"
proof -
  let ?b = "take 64 (js_toLowerCase (drop 2 s) @ replicate 64 (CHR ''0''))"
  have "hex_body (drop 2 s)" using assms by (simp add: hex_string_def)
  then have "hex_body (js_toLowerCase (drop 2 s) @ replicate 64 (CHR ''0''))"
    by simp
  then have "hex_body ?b" by (rule hex_body_take)
  moreover have "js_toLowerCase ?b = ?b" by (simp add: js_toLowerCase_take)
  moreover have "length ?b = 64" by simp
  ultimately show ?thesis using assms by (simp add: demo_keccak_def)
qed

lemma demo_viem_docs:
  "isHex_doc demo_viem" "isAddress_doc demo_viem"
  "keccak256_doc demo_viem" "encodeAbiParameters_doc demo_viem"
proof -
  have "hex_string s" if "demo_keccak s = Inr h" for s h
    using that by (simp add: demo_keccak_def split: if_splits)
  with demo_keccak_shape
  show "isHex_doc demo_viem" "isAddress_doc demo_viem"
    "keccak256_doc demo_viem" "encodeAbiParameters_doc demo_viem"
    by (fastforce simp: isHex_doc_def isAddress_doc_def keccak256_doc_def encodeAbiParameters_doc_def
        demo_viem_def is_ok_iff)+
qed

end
