(* ===== verification/Transitions.thy ===== *)
theory Transitions
  imports Main
begin

text \<open>
  The interface of a state machine to its proofs: labelled transitions, runs, and the laws by which
  an invariant, an observation that never changes and a milestone that is never left carry over from
  one transition to a run. The pipeline and the enclave are interpretations.
\<close>

locale transition_system =
  fixes trans :: "'s \<Rightarrow> 'l \<Rightarrow> 's \<Rightarrow> bool"
begin

inductive run :: "'s \<Rightarrow> 'l list \<Rightarrow> 's \<Rightarrow> bool" where
  run_refl: "run s [] s"
| run_snoc: "run s ls t \<Longrightarrow> trans t l u \<Longrightarrow> run s (ls @ [l]) u"

lemma run_single: "trans s l t \<Longrightarrow> run s [l] t"
  using run_snoc [OF run_refl] by fastforce

lemma run_trans:
  assumes "run t ls' u" and "run s ls t"
  shows "run s (ls @ ls') u"
  using assms
proof (induction rule: run.induct)
  case (run_snoc t ls' u l v)
  then have "run s (ls @ ls') u" by simp
  with run_snoc.hyps(2) show ?case using run.run_snoc by fastforce
qed simp

lemma run_Cons: "trans s l t \<Longrightarrow> run t ls u \<Longrightarrow> run s (l # ls) u"
  using run_trans [OF _ run_single] by fastforce

text \<open>An observation that no transition changes.\<close>

lemma run_const:
  assumes "run s ls t" and "\<And>s l t. trans s l t \<Longrightarrow> f t = f s"
  shows "f t = f s"
  using assms(1) by (induction) (simp_all add: assms(2))

end

locale invariant_system = transition_system trans for trans :: "'s \<Rightarrow> 'l \<Rightarrow> 's \<Rightarrow> bool" +
  fixes inv :: "'s \<Rightarrow> bool"
    and allowed :: "'l \<Rightarrow> bool"
  assumes inv_trans: "inv s \<Longrightarrow> trans s l t \<Longrightarrow> inv t"
    and inv_label: "inv s \<Longrightarrow> trans s l t \<Longrightarrow> allowed l"
begin

lemma inv_run: "run s ls t \<Longrightarrow> inv s \<Longrightarrow> inv t"
  by (induction rule: run.induct) (auto dest: inv_trans)

lemma label_run: "run s ls t \<Longrightarrow> inv s \<Longrightarrow> list_all allowed ls"
  by (induction rule: run.induct) (auto dest: inv_run inv_label)

lemma inv_run_label:
  assumes "run s ls t" and "inv s"
  shows "inv t" and "list_all allowed ls"
  using assms inv_run label_run by blast+

end

text \<open>Facts about a state and the run that led to it.\<close>

locale history_system = invariant_system trans inv allowed
  for trans :: "'s \<Rightarrow> 'l \<Rightarrow> 's \<Rightarrow> bool" and inv allowed +
  fixes hist :: "'l list \<Rightarrow> 's \<Rightarrow> bool"
  assumes hist_trans: "inv s \<Longrightarrow> hist ls s \<Longrightarrow> trans s l t \<Longrightarrow> hist (ls @ [l]) t"
begin

lemma hist_run: "run s ls t \<Longrightarrow> inv s \<Longrightarrow> hist [] s \<Longrightarrow> hist ls t"
  by (induction rule: run.induct) (auto dest: inv_run hist_trans)

end

text \<open>A relation two runs keep while they show the same labels.\<close>

locale bisimilar_system = transition_system trans for trans :: "'s \<Rightarrow> 'l \<Rightarrow> 's \<Rightarrow> bool" +
  fixes rel :: "'s \<Rightarrow> 's \<Rightarrow> bool" and quiet :: "'l \<Rightarrow> bool"
  assumes rel_trans: "rel s s' \<Longrightarrow> trans s l t \<Longrightarrow> quiet l \<Longrightarrow> \<exists>t'. trans s' l t' \<and> rel t t'"
begin

lemma rel_run: "run s ls t \<Longrightarrow> rel s s' \<Longrightarrow> list_all quiet ls \<Longrightarrow> \<exists>t'. run s' ls t' \<and> rel t t'"
proof (induction rule: run.induct)
  case (run_snoc s ls t l u)
  then obtain t' where t': "run s' ls t'" "rel t t'" by auto
  from rel_trans [OF t'(2) run_snoc.hyps(2)] run_snoc.prems(2) t'(1) show ?case
    by (auto intro: run.run_snoc)
qed (auto intro: run_refl)

end

end
