(* ===== verification/Latch.thy ===== *)
theory Latch
  imports Framework Triggers Viem Transitions
begin

text \<open>
  \<open>extension/typescript/src/app/handlers.ts\<close>: the intents of the enclave, the four commands and the
  tick.

  The module's \<open>Map\<close> holds objects that a tick keeps hold of while it awaits a price, so the state is
  a heap of intents and an ordered index from commitments to addresses in it. Entries are never
  removed and setting a key again keeps its place, so the position of an iterator is a number.
\<close>

subsection \<open>State\<close>

datatype intent_state = armed | fired | collected | cancelled | expired

record intent =
  in_commitment :: js_str
  in_userOpData :: js_str
  in_trigger :: trigger
  in_deadline :: rat
  in_state :: intent_state
  in_armedAt :: int
  in_firedAt :: "int option"

record latch =
  heap :: "intent list"
  intents :: "(js_str \<times> nat) list"
  armedTotal :: nat
  firedTotal :: nat

definition resetState :: latch where
  "resetState = \<lparr>heap = [], intents = [], armedTotal = 0, firedTotal = 0\<rparr>"

definition MAX_DEADLINE_MS :: int where
  "MAX_DEADLINE_MS = 7 * 24 * 3600 * 1000"

text \<open>\<open>intents.get(key)\<close>, \<open>intents.set(key, object)\<close> and a mutation of an object.\<close>

definition intents_get :: "latch \<Rightarrow> js_str \<Rightarrow> nat option" where
  "intents_get s c = map_of (intents s) c"

definition intents_set :: "js_str \<Rightarrow> intent \<Rightarrow> latch \<Rightarrow> latch" where
  "intents_set c i s = s\<lparr>heap := heap s @ [i], intents := AList.update c (length (heap s)) (intents s)\<rparr>"

definition mutate :: "nat \<Rightarrow> (intent \<Rightarrow> intent) \<Rightarrow> latch \<Rightarrow> latch" where
  "mutate r f s = s\<lparr>heap := (heap s)[r := f (heap s ! r)]\<rparr>"

definition deref :: "latch \<Rightarrow> nat \<Rightarrow> intent" where
  "deref s r = heap s ! r"

definition lookup_intent :: "latch \<Rightarrow> js_str \<Rightarrow> intent option" where
  "lookup_intent s c = map_option (deref s) (intents_get s c)"

definition peekState :: "latch \<Rightarrow> js_str \<Rightarrow> intent_state option" where
  "peekState s c = map_option in_state (lookup_intent s c)"

definition count_state :: "intent_state \<Rightarrow> latch \<Rightarrow> nat" where
  "count_state st s = length (filter (\<lambda>(c, r). in_state (deref s r) = st) (intents s))"

definition reportState :: "latch \<Rightarrow> json" where
  "reportState s = JObj [(''armed'', json_int (int (count_state armed s))),
     (''awaitingCollection'', json_int (int (count_state fired s))),
     (''armedTotal'', json_int (int (armedTotal s))), (''firedTotal'', json_int (int (firedTotal s)))]"

subsection \<open>Requests and replies\<close>

definition decodeJson :: "platform \<Rightarrow> json \<Rightarrow> js_str + json" where
  "decodeJson T msg =
    (case ext_hexToBytes (Some msg) of
       Inl e \<Rightarrow> Inl (''decoding request: invalid hex: '' @ exn_String e)
     | Inr raw \<Rightarrow>
        (case json_parse T (buffer_toString T raw) of
           Inl e \<Rightarrow> Inl (''decoding request: '' @ exn_String e)
         | Inr (JObj kvs) \<Rightarrow> Inr (JObj kvs)
         | Inr _ \<Rightarrow> Inl ''decoding request: expected a JSON object''))"

definition ok_result :: "platform \<Rightarrow> json \<Rightarrow> handler_result" where
  "ok_result T payload = (Some (bytesToHex (utf8_encode (json_stringify T payload))), 1, None)"

definition fail_result :: "js_str \<Rightarrow> handler_result" where
  "fail_result m = (None, 0, Some m)"

fun state_text :: "intent_state \<Rightarrow> js_str" where
  "state_text armed = ''armed''"
| "state_text fired = ''fired''"
| "state_text collected = ''collected''"
| "state_text cancelled = ''cancelled''"
| "state_text expired = ''expired''"

subsection \<open>ARM\<close>

definition userOpData_ok :: "js_str \<Rightarrow> bool" where
  "userOpData_ok s \<longleftrightarrow> hex_string s \<and> length s \<ge> 4"

definition as_exn :: "js_error + 'a \<Rightarrow> exn + 'a" where
  "as_exn r = (case r of Inl e \<Rightarrow> Inl (Error (err_message e)) | Inr a \<Rightarrow> Inr a)"

text \<open>What ARM makes of a request before it looks at the intents: \<open>Inl\<close> is the text of a refusal.\<close>

definition check_deadline :: "int \<Rightarrow> int \<Rightarrow> json option \<Rightarrow> js_str + rat" where
  "check_deadline maxMs now v = (case as_finite v of
     None \<Rightarrow> Inl ''deadline must be unix milliseconds''
   | Some deadline \<Rightarrow>
      if deadline \<le> of_int now then Inl ''deadline is already in the past''
      else if deadline > of_int (now + maxMs)
      then Inl (''deadline exceeds the maximum of '' @ bigint_toString maxMs @ '' ms'')
      else Inr deadline)"

definition check_arm ::
    "platform \<Rightarrow> viem \<Rightarrow> int \<Rightarrow> int \<Rightarrow> json \<Rightarrow> exn + (js_str + js_str \<times> js_str \<times> trigger \<times> rat)" where
  "check_arm T V maxMs now req =
    (case as_text (json_get req ''userOpData'') of
       None \<Rightarrow> Inr (Inl ''userOpData must be non-empty 0x hex'')
     | Some userOpData \<Rightarrow>
        if \<not> userOpData_ok userOpData then Inr (Inl ''userOpData must be non-empty 0x hex'')
        else bind_err (as_exn (keccak256 V userOpData)) (\<lambda>commitment.
          let claimed = as_text (json_get req ''commitment'') in
          if claimed \<noteq> None \<and> js_toLowerCase (the claimed) \<noteq> js_toLowerCase commitment
          then Inr (Inl (''commitment mismatch: claimed '' @ the claimed
            @ '', keccak256(userOpData) is '' @ commitment))
          else bind_err (parseTrigger T (json_get req ''trigger'')) (\<lambda>parsed.
            case parsed of
              Inl m \<Rightarrow> Inr (Inl m)
            | Inr t \<Rightarrow>
               (case check_deadline maxMs now (json_get req ''deadline'') of
                  Inl m \<Rightarrow> Inr (Inl m)
                | Inr deadline \<Rightarrow> Inr (Inr (commitment, userOpData, t, deadline))))))"

definition new_intent :: "int \<Rightarrow> js_str \<Rightarrow> js_str \<Rightarrow> trigger \<Rightarrow> rat \<Rightarrow> intent" where
  "new_intent now commitment userOpData t deadline =
    \<lparr>in_commitment = commitment, in_userOpData = userOpData, in_trigger = t, in_deadline = deadline,
     in_state = armed, in_armedAt = now, in_firedAt = None\<rparr>"

definition still_armed :: "intent option \<Rightarrow> bool" where
  "still_armed i = (case i of Some i \<Rightarrow> in_state i = armed | None \<Rightarrow> False)"

definition handleArm ::
    "platform \<Rightarrow> viem \<Rightarrow> int \<Rightarrow> int \<Rightarrow> json \<Rightarrow> latch \<Rightarrow> latch \<times> (exn + handler_result)" where
  "handleArm T V maxMs now msg s =
    (case decodeJson T msg of
       Inl m \<Rightarrow> (s, Inr (fail_result m))
     | Inr req \<Rightarrow>
        (case check_arm T V maxMs now req of
           Inl e \<Rightarrow> (s, Inl e)
         | Inr (Inl m) \<Rightarrow> (s, Inr (fail_result m))
         | Inr (Inr (commitment, userOpData, t, deadline)) \<Rightarrow>
            if still_armed (lookup_intent s commitment)
            then (s, Inr (ok_result T (JObj [(''armed'', JBool True), (''commitment'', JStr commitment),
                (''alreadyArmed'', JBool True)])))
            else
              let s1 = intents_set commitment (new_intent now commitment userOpData t deadline) s;
                  s2 = s1\<lparr>armedTotal := armedTotal s1 + 1\<rparr>
              in (s2, bind_err (describeTrigger T t) (\<lambda>_.
                   Inr (ok_result T (JObj [(''armed'', JBool True), (''commitment'', JStr commitment)]))))))"

subsection \<open>STATUS, CANCEL, COLLECT\<close>

text \<open>\<open>intent.firedAt ? ... : {}\<close>: zero counts as absent.\<close>

definition status_payload :: "intent \<Rightarrow> json" where
  "status_payload i = JObj ([(''state'', JStr (state_text (in_state i))),
     (''armedAt'', json_int (in_armedAt i)), (''deadline'', JNum (Finite (in_deadline i)))] @
     (case in_firedAt i of None \<Rightarrow> [] | Some t \<Rightarrow> if t = 0 then [] else [(''firedAt'', json_int t)]))"

definition handleStatus :: "platform \<Rightarrow> json \<Rightarrow> latch \<Rightarrow> latch \<times> (exn + handler_result)" where
  "handleStatus T msg s = (s, Inr
    (case decodeJson T msg of
       Inl m \<Rightarrow> fail_result m
     | Inr req \<Rightarrow>
        (case as_text (json_get req ''commitment'') of
           None \<Rightarrow> fail_result ''commitment must be a 0x hex string''
         | Some commitment \<Rightarrow>
            (case (case lookup_intent s (js_toLowerCase commitment) of
                Some i \<Rightarrow> Some i | None \<Rightarrow> lookup_intent s commitment) of
               None \<Rightarrow> ok_result T (JObj [(''state'', JStr ''unknown'')])
             | Some i \<Rightarrow> ok_result T (status_payload i)))))"

definition cancel_intent :: "intent \<Rightarrow> intent" where
  "cancel_intent i = i\<lparr>in_state := cancelled, in_userOpData := ''0x''\<rparr>"

definition handleCancel :: "platform \<Rightarrow> json \<Rightarrow> latch \<Rightarrow> latch \<times> (exn + handler_result)" where
  "handleCancel T msg s =
    (case decodeJson T msg of
       Inl m \<Rightarrow> (s, Inr (fail_result m))
     | Inr req \<Rightarrow>
        (case as_text (json_get req ''commitment'') of
           None \<Rightarrow> (s, Inr (fail_result ''commitment must be a 0x hex string''))
         | Some commitment \<Rightarrow>
            (case intents_get s commitment of
               None \<Rightarrow> (s, Inr (fail_result ''no such intent''))
             | Some r \<Rightarrow>
                if in_state (deref s r) \<noteq> armed
                then (s, Inr (fail_result (''intent is '' @ state_text (in_state (deref s r)) @ '', not armed'')))
                else (mutate r cancel_intent s,
                  Inr (ok_result T (JObj [(''cancelled'', JBool True), (''commitment'', JStr commitment)]))))))"

definition collect_intent :: "intent \<Rightarrow> intent" where
  "collect_intent i = i\<lparr>in_state := collected\<rparr>"

definition collect_payload :: "intent \<Rightarrow> json" where
  "collect_payload i = JObj [(''userOpData'', JStr (in_userOpData i)),
     (''firedAt'', case in_firedAt i of None \<Rightarrow> JNull | Some t \<Rightarrow> json_int t)]"

definition handleCollect :: "platform \<Rightarrow> json \<Rightarrow> latch \<Rightarrow> latch \<times> (exn + handler_result)" where
  "handleCollect T msg s =
    (case decodeJson T msg of
       Inl m \<Rightarrow> (s, Inr (fail_result m))
     | Inr req \<Rightarrow>
        (case as_text (json_get req ''commitment'') of
           None \<Rightarrow> (s, Inr (fail_result ''commitment must be a 0x hex string''))
         | Some commitment \<Rightarrow>
            (case intents_get s commitment of
               None \<Rightarrow> (s, Inr (fail_result ''no such intent''))
             | Some r \<Rightarrow>
                let i = deref s r in
                if in_state i = armed
                then (s, Inr (fail_result ''not fired yet - the trigger condition has not been met''))
                else if in_state i = cancelled then (s, Inr (fail_result ''intent was cancelled''))
                else if in_state i = expired then (s, Inr (fail_result ''intent expired without firing''))
                else (mutate r collect_intent s, Inr (ok_result T (collect_payload i))))))"

subsection \<open>The tick\<close>

text \<open>
  One turn of the loop up to the \<open>await\<close>, and from it on. A tick that is suspended holds its clock,
  the position of its iterator and the object it awaits a decision for.
\<close>

definition expire_intent :: "intent \<Rightarrow> intent" where
  "expire_intent i = i\<lparr>in_state := expired, in_userOpData := ''0x''\<rparr>"

definition fire_intent :: "int \<Rightarrow> intent \<Rightarrow> intent" where
  "fire_intent now i = i\<lparr>in_state := fired, in_firedAt := Some now\<rparr>"

definition fire :: "int \<Rightarrow> nat \<Rightarrow> latch \<Rightarrow> latch" where
  "fire now r s = (mutate r (fire_intent now) s)\<lparr>firedTotal := firedTotal s + 1\<rparr>"

record suspended =
  tk_now :: int
  tk_pos :: nat
  tk_wait :: nat

fun advance :: "int \<Rightarrow> (js_str \<times> nat) list \<Rightarrow> nat \<Rightarrow> latch \<Rightarrow> latch \<times> suspended option" where
  "advance now [] pos s = (s, None)"
| "advance now ((c, r) # rest) pos s =
    (if in_state (deref s r) \<noteq> armed then advance now rest (Suc pos) s
     else if in_deadline (deref s r) \<le> of_int now
     then advance now rest (Suc pos) (mutate r expire_intent s)
     else (s, Some \<lparr>tk_now = now, tk_pos = Suc pos, tk_wait = r\<rparr>))"

definition tick_start :: "int \<Rightarrow> latch \<Rightarrow> latch \<times> suspended option" where
  "tick_start now s = advance now (intents s) 0 s"

text \<open>
  The continuation after \<open>check\<close> settled; an exception, of \<open>check\<close> or of the line that is logged,
  ends the tick.
\<close>

definition tick_resume ::
    "platform \<Rightarrow> suspended \<Rightarrow> js_error + bool \<times> feed_reading option \<Rightarrow> latch \<Rightarrow> latch \<times> suspended option" where
  "tick_resume T k decision s =
    (case decision of
       Inl _ \<Rightarrow> (s, None)
     | Inr (met, reading) \<Rightarrow>
        if \<not> met then advance (tk_now k) (drop (tk_pos k) (intents s)) (tk_pos k) s
        else
          let s1 = fire (tk_now k) (tk_wait k) s in
          (case describeTrigger T (in_trigger (deref s (tk_wait k))) of
             Inl _ \<Rightarrow> (s1, None)
           | Inr _ \<Rightarrow> advance (tk_now k) (drop (tk_pos k) (intents s1)) (tk_pos k) s1))"

text \<open>The loop without interruption: \<open>tick(now, check)\<close> as the tests step it.\<close>

fun tick_entries ::
    "platform \<Rightarrow> int \<Rightarrow> (trigger \<Rightarrow> int \<Rightarrow> js_error + bool \<times> feed_reading option) \<Rightarrow>
     (js_str \<times> nat) list \<Rightarrow> latch \<Rightarrow> latch \<times> (exn + unit)" where
  "tick_entries T now check [] s = (s, Inr ())"
| "tick_entries T now check ((c, r) # rest) s =
    (let i = deref s r in
     if in_state i \<noteq> armed then tick_entries T now check rest s
     else if in_deadline i \<le> of_int now then tick_entries T now check rest (mutate r expire_intent s)
     else (case as_exn (check (in_trigger i) now) of
         Inl e \<Rightarrow> (s, Inl e)
       | Inr (met, reading) \<Rightarrow>
          if \<not> met then tick_entries T now check rest s
          else
            let s1 = fire now r s in
            (case describeTrigger T (in_trigger i) of
               Inl e \<Rightarrow> (s1, Inl e)
             | Inr _ \<Rightarrow> tick_entries T now check rest s1)))"

definition latch_tick ::
    "platform \<Rightarrow> int \<Rightarrow> (trigger \<Rightarrow> int \<Rightarrow> js_error + bool \<times> feed_reading option) \<Rightarrow> latch \<Rightarrow>
     latch \<times> (exn + unit)" where
  "latch_tick T now check s = tick_entries T now check (intents s) s"

subsection \<open>The heap and the index\<close>

named_theorems latch_simps \<open>heap, index and counters after an operation\<close>

lemma mutate_simps [simp, latch_simps]:
  "intents (mutate r f s) = intents s" "length (heap (mutate r f s)) = length (heap s)"
  "armedTotal (mutate r f s) = armedTotal s" "firedTotal (mutate r f s) = firedTotal s"
  "intents_get (mutate r f s) = intents_get s"
  by (simp_all add: mutate_def intents_get_def fun_eq_iff)

lemma deref_mutate [latch_simps]:
  "r < length (heap s) \<Longrightarrow> deref (mutate r f s) q = (if q = r then f (deref s r) else deref s q)"
  by (simp add: mutate_def deref_def)

lemma fire_simps [simp, latch_simps]:
  "intents (fire now r s) = intents s" "length (heap (fire now r s)) = length (heap s)"
  "armedTotal (fire now r s) = armedTotal s" "firedTotal (fire now r s) = Suc (firedTotal s)"
  "intents_get (fire now r s) = intents_get s"
  by (simp_all add: fire_def intents_get_def fun_eq_iff)

lemma deref_fire [latch_simps]:
  "r < length (heap s) \<Longrightarrow> deref (fire now r s) q = (if q = r then fire_intent now (deref s r) else deref s q)"
  by (simp add: fire_def mutate_def deref_def)

lemma deref_counter [simp, latch_simps]:
  "deref (s\<lparr>armedTotal := n\<rparr>) = deref s" "deref (s\<lparr>firedTotal := n\<rparr>) = deref s"
  "intents_get (s\<lparr>armedTotal := n\<rparr>) = intents_get s"
  by (simp_all add: deref_def intents_get_def fun_eq_iff)

lemma intents_set_simps [simp, latch_simps]:
  "length (heap (intents_set c i s)) = Suc (length (heap s))"
  "armedTotal (intents_set c i s) = armedTotal s" "firedTotal (intents_set c i s) = firedTotal s"
  "intents_get (intents_set c i s) = (intents_get s)(c \<mapsto> length (heap s))"
  by (simp_all add: intents_set_def intents_get_def fun_eq_iff update_conv')

lemma deref_intents_set [latch_simps]:
  "q \<le> length (heap s) \<Longrightarrow> deref (intents_set c i s) q = (if q = length (heap s) then i else deref s q)"
  by (simp add: intents_set_def deref_def nth_append)

lemma lookup_intent_set [simp, latch_simps]:
  "lookup_intent (intents_set c i s) c = Some i"
  by (simp add: lookup_intent_def latch_simps)

text \<open>What each turn of the loop leaves alone.\<close>

lemma advance_simps [simp]:
  "intents (fst (advance now es pos s)) = intents s"
  "length (heap (fst (advance now es pos s))) = length (heap s)"
  "armedTotal (fst (advance now es pos s)) = armedTotal s"
  by (induction now es pos s rule: advance.induct) (simp_all add: Let_def)

lemma tick_resume_simps [simp]:
  "intents (fst (tick_resume T k d s)) = intents s"
  "length (heap (fst (tick_resume T k d s))) = length (heap s)"
  "armedTotal (fst (tick_resume T k d s)) = armedTotal s"
  by (auto simp: tick_resume_def Let_def split: sum.splits prod.splits)

subsection \<open>The life cycle of an intent\<close>

text \<open>The moves an intent can make, as a specification of its own; \<open>now\<close> is some tick's clock.\<close>

inductive intent_step :: "intent \<Rightarrow> intent \<Rightarrow> bool" where
  step_cancel: "in_state i = armed \<Longrightarrow> intent_step i (cancel_intent i)"
| step_expire: "in_state i = armed \<Longrightarrow> in_deadline i \<le> of_int now \<Longrightarrow> intent_step i (expire_intent i)"
| step_fire: "of_int now < in_deadline i \<Longrightarrow> intent_step i (fire_intent now i)"
| step_collect: "in_state i = fired \<or> in_state i = collected \<Longrightarrow> intent_step i (collect_intent i)"

inductive_cases intent_stepE: "intent_step i j"

lemmas intent_updates = cancel_intent_def expire_intent_def fire_intent_def collect_intent_def

definition intent_ok :: "viem \<Rightarrow> int \<Rightarrow> intent \<Rightarrow> bool" where
  "intent_ok V maxMs i \<longleftrightarrow>
     (in_userOpData i = ''0x'' \<or>
       userOpData_ok (in_userOpData i) \<and> keccak256 V (in_userOpData i) = Inr (in_commitment i)) \<and>
     (in_state i = cancelled \<or> in_state i = expired \<longrightarrow> in_userOpData i = ''0x'' \<and> in_firedAt i = None) \<and>
     (in_state i = armed \<longrightarrow> in_userOpData i \<noteq> ''0x'' \<and> in_firedAt i = None) \<and>
     (in_state i = fired \<or> in_state i = collected \<longrightarrow> in_firedAt i \<noteq> None) \<and>
     (\<forall>t. in_firedAt i = Some t \<longrightarrow> of_int t < in_deadline i) \<and>
     of_int (in_armedAt i) < in_deadline i \<and> in_deadline i \<le> of_int (in_armedAt i + maxMs) \<and>
     trigger_ok (in_trigger i)"

lemma intent_step_ok: "intent_step i j \<Longrightarrow> intent_ok V maxMs i \<Longrightarrow> intent_ok V maxMs j"
  by (erule intent_stepE) (auto simp: intent_ok_def intent_updates)

lemma intent_steps_ok: "intent_step\<^sup>*\<^sup>* i j \<Longrightarrow> intent_ok V maxMs i \<Longrightarrow> intent_ok V maxMs j"
  by (induction rule: rtranclp_induct) (auto intro: intent_step_ok)

definition same_intent :: "intent \<Rightarrow> intent \<Rightarrow> bool" where
  "same_intent i j \<longleftrightarrow> in_commitment j = in_commitment i \<and> in_trigger j = in_trigger i \<and>
     in_deadline j = in_deadline i \<and> in_armedAt j = in_armedAt i"

lemma intent_steps_same: "intent_step\<^sup>*\<^sup>* i j \<Longrightarrow> same_intent i j"
  by (induction rule: rtranclp_induct) (auto simp: same_intent_def intent_updates elim!: intent_stepE)

text \<open>How a state of the module may evolve: every object by its life cycle, new ones armed.\<close>

definition evolves :: "latch \<Rightarrow> latch \<Rightarrow> bool" where
  "evolves s t \<longleftrightarrow> length (heap s) \<le> length (heap t) \<and>
     (\<forall>r < length (heap s). intent_step\<^sup>*\<^sup>* (deref s r) (deref t r))"

lemma evolves_refl [simp, intro]: "evolves s s"
  by (simp add: evolves_def)

lemma evolves_trans: "evolves s t \<Longrightarrow> evolves t u \<Longrightarrow> evolves s u"
  by (auto simp: evolves_def intro: rtranclp_trans order_trans)

lemma evolves_mutate:
  assumes "r < length (heap s)" and "intent_step (deref s r) (f (deref s r))"
  shows "evolves s (mutate r f s)"
  using assms by (auto simp: evolves_def deref_mutate)

lemma evolves_fire:
  assumes "r < length (heap s)" and "of_int now < in_deadline (deref s r)"
  shows "evolves s (fire now r s)"
  using assms by (auto simp: evolves_def deref_fire intro: step_fire)

end
