(* ===== verification/Enclave.thy ===== *)
theory Enclave
  imports Latch
begin

text \<open>
  The enclave as it runs: the commands of \<open>handlers.ts\<close>, each atomic, interleaved with any number of
  ticks that are suspended while they await a price. The timer starts a tick every few seconds and a
  price read may take longer, so several can be in flight.
\<close>

subsection \<open>The state and its steps\<close>

datatype command = ARM | STATUS | CANCEL | COLLECT

record enclave =
  en_latch :: latch
  en_ticks :: "suspended list"

definition fresh_enclave :: enclave where
  "fresh_enclave = \<lparr>en_latch = resetState, en_ticks = []\<rparr>"

fun run_command ::
    "platform \<Rightarrow> viem \<Rightarrow> int \<Rightarrow> int \<Rightarrow> command \<Rightarrow> json \<Rightarrow> latch \<Rightarrow> latch \<times> (exn + handler_result)" where
  "run_command T V maxMs now ARM msg s = handleArm T V maxMs now msg s"
| "run_command T V maxMs now STATUS msg s = handleStatus T msg s"
| "run_command T V maxMs now CANCEL msg s = handleCancel T msg s"
| "run_command T V maxMs now COLLECT msg s = handleCollect T msg s"

text \<open>
  The events of a run: a command with its reply, the start of a tick, and the decision of a tick about
  one intent, with the commitment and the trigger of that intent, the clock of the tick and the price
  that was read.
\<close>

datatype event =
    Request command int json "exn + handler_result"
  | TickStarted int
  | Decided js_str trigger int "feed_reading option"

definition opt_list :: "'a option \<Rightarrow> 'a list" where
  "opt_list w = (case w of None \<Rightarrow> [] | Some k \<Rightarrow> [k])"

inductive enclave_step :: "platform \<Rightarrow> viem \<Rightarrow> int \<Rightarrow> enclave \<Rightarrow> event \<Rightarrow> enclave \<Rightarrow> bool" for T V maxMs where
  request: "run_command T V maxMs now c msg (en_latch e) = (l, r) \<Longrightarrow>
    enclave_step T V maxMs e (Request c now msg r) (e\<lparr>en_latch := l\<rparr>)"
| start: "tick_start now (en_latch e) = (l, w) \<Longrightarrow>
    enclave_step T V maxMs e (TickStarted now) \<lparr>en_latch = l, en_ticks = en_ticks e @ opt_list w\<rparr>"
| resume: "en_ticks e = ks @ k # ks' \<Longrightarrow> i = deref (en_latch e) (tk_wait k) \<Longrightarrow>
    isTriggered (in_trigger i) (tk_now k) (\<lambda>_ _. reading) = d \<Longrightarrow>
    tick_resume T k d (en_latch e) = (l, w) \<Longrightarrow>
    enclave_step T V maxMs e (Decided (in_commitment i) (in_trigger i) (tk_now k) reading)
      \<lparr>en_latch = l, en_ticks = ks @ opt_list w @ ks'\<rparr>"

subsection \<open>The invariant\<close>

definition index_ok :: "latch \<Rightarrow> bool" where
  "index_ok s \<longleftrightarrow> distinct (map fst (intents s)) \<and>
     (\<forall>(c, r) \<in> set (intents s). r < length (heap s) \<and> in_commitment (deref s r) = c)"

definition latch_ok :: "viem \<Rightarrow> int \<Rightarrow> latch \<Rightarrow> bool" where
  "latch_ok V maxMs s \<longleftrightarrow> index_ok s \<and> (\<forall>r < length (heap s). intent_ok V maxMs (deref s r)) \<and>
     armedTotal s = length (heap s)"

definition suspended_ok :: "latch \<Rightarrow> suspended \<Rightarrow> bool" where
  "suspended_ok s k \<longleftrightarrow> tk_wait k < length (heap s) \<and> of_int (tk_now k) < in_deadline (deref s (tk_wait k))"

definition enclave_ok :: "viem \<Rightarrow> int \<Rightarrow> enclave \<Rightarrow> bool" where
  "enclave_ok V maxMs e \<longleftrightarrow> latch_ok V maxMs (en_latch e) \<and> list_all (suspended_ok (en_latch e)) (en_ticks e)"

lemma index_okD:
  assumes "index_ok s" and "intents_get s c = Some r"
  shows "r < length (heap s)" and "in_commitment (deref s r) = c"
  using assms unfolding index_ok_def intents_get_def by (auto dest!: map_of_SomeD)

lemma evolves_same:
  assumes "evolves s t" and "r < length (heap s)"
  shows "same_intent (deref s r) (deref t r)"
  using assms by (auto simp: evolves_def intro: intent_steps_same)

lemma suspended_ok_evolves: "evolves s t \<Longrightarrow> suspended_ok s k \<Longrightarrow> suspended_ok t k"
  using evolves_same [of s t "tk_wait k"] by (auto simp: suspended_ok_def evolves_def same_intent_def)

lemma index_ok_evolves:
  assumes "evolves s t" and "intents t = intents s" and "index_ok s"
  shows "index_ok t"
  using assms evolves_same [OF assms(1)] by (fastforce simp: index_ok_def evolves_def same_intent_def)

lemma latch_ok_evolves:
  assumes "evolves s t" and "intents t = intents s" and "length (heap t) = length (heap s)"
    and "armedTotal t = armedTotal s" and "latch_ok V maxMs s"
  shows "latch_ok V maxMs t"
  using assms index_ok_evolves [OF assms(1,2)]
  by (auto simp: latch_ok_def evolves_def intro: intent_steps_ok)

text \<open>The turns of a tick.\<close>

lemma advance_evolves:
  assumes "\<forall>(c, r) \<in> set es. r < length (heap s)"
  shows "evolves s (fst (advance now es pos s))"
  using assms
proof (induction now es pos s rule: advance.induct)
  case (2 now c r rest pos s)
  let ?m = "mutate r expire_intent s"
  have "evolves s ?m" if "in_state (deref s r) = armed" "in_deadline (deref s r) \<le> of_int now"
    using that 2(3) by (intro evolves_mutate step_expire) auto
  with 2 show ?case by (auto intro: evolves_trans)
qed simp

lemma advance_suspended:
  assumes "advance now es pos s = (t, Some k)" and "\<forall>(c, r) \<in> set es. r < length (heap s)"
  shows "suspended_ok t k \<and> tk_now k = now"
  using assms
  by (induction now es pos s rule: advance.induct) (auto simp: suspended_ok_def not_le split: if_splits)

lemma index_ok_refs: "index_ok s \<Longrightarrow> \<forall>(c, r) \<in> set (intents s). r < length (heap s)"
  by (auto simp: index_ok_def)

lemma index_ok_refs_drop: "index_ok s \<Longrightarrow> \<forall>(c, r) \<in> set (drop n (intents s)). r < length (heap s)"
  using index_ok_refs by (blast dest: in_set_dropD)

lemma tick_start_evolves:
  assumes "index_ok s"
  shows "evolves s (fst (tick_start now s))" and "tick_start now s = (t, Some k) \<Longrightarrow> suspended_ok t k"
  using advance_evolves [OF index_ok_refs [OF assms]] advance_suspended [OF _ index_ok_refs [OF assms]]
  by (auto simp: tick_start_def)

lemma fire_index_ok: "evolves s (fire now r s) \<Longrightarrow> index_ok s \<Longrightarrow> index_ok (fire now r s)"
  by (rule index_ok_evolves) auto

lemma tick_resume_evolves:
  assumes "index_ok s" and "suspended_ok s k"
  shows "evolves s (fst (tick_resume T k d s))"
    and "tick_resume T k d s = (t, Some k') \<Longrightarrow> suspended_ok t k'"
proof -
  let ?f = "fire (tk_now k) (tk_wait k) s"
  have ev: "evolves s ?f"
    using assms(2) by (intro evolves_fire) (auto simp: suspended_ok_def)
  note ix = fire_index_ok [OF ev assms(1)]
  have adv: "evolves u (fst (advance now (drop n (intents u)) n u))"
      "advance now (drop n (intents u)) n u = (t, Some k') \<Longrightarrow> suspended_ok t k'"
    if "index_ok u" for u now n t k'
    using advance_evolves [OF index_ok_refs_drop [OF that]] advance_suspended [OF _ index_ok_refs_drop [OF that]]
    by blast+
  show "evolves s (fst (tick_resume T k d s))"
    using adv(1) [OF assms(1)] adv(1) [OF ix] ev
    by (auto simp: tick_resume_def Let_def intro: evolves_trans split: sum.split)
  show "tick_resume T k d s = (t, Some k') \<Longrightarrow> suspended_ok t k'"
    using adv(2) [OF assms(1)] adv(2) [OF ix]
    by (auto simp: tick_resume_def Let_def split: sum.splits if_splits)
qed

text \<open>The commands.\<close>

lemma handleCancel_evolves: "index_ok s \<Longrightarrow> evolves s (fst (handleCancel T msg s))"
  by (auto simp: handleCancel_def dest: index_okD intro: evolves_mutate step_cancel
      split: sum.split option.split)

lemma handleCollect_evolves:
  assumes "index_ok s"
  shows "evolves s (fst (handleCollect T msg s))"
proof -
  have "evolves s (mutate r collect_intent s)"
    if "intents_get s c = Some r" "in_state (deref s r) \<notin> {armed, cancelled, expired}" for c r
  proof -
    have "in_state (deref s r) = fired \<or> in_state (deref s r) = collected"
      using that(2) by (cases "in_state (deref s r)") simp_all
    with index_okD(1) [OF assms that(1)] show ?thesis by (intro evolves_mutate step_collect)
  qed
  then show ?thesis
    by (auto simp: handleCollect_def Let_def split: sum.split option.split)
qed

lemma handleStatus_state [simp]: "fst (handleStatus T msg s) = s"
  by (simp add: handleStatus_def)

lemma command_frame:
  assumes "c \<noteq> ARM"
  shows "intents (fst (run_command T V maxMs now c msg s)) = intents s"
    and "length (heap (fst (run_command T V maxMs now c msg s))) = length (heap s)"
    and "armedTotal (fst (run_command T V maxMs now c msg s)) = armedTotal s"
  using assms
  by (cases c; simp add: handleCancel_def handleCollect_def Let_def split: sum.split option.split)+

lemma check_deadline_ok:
  "check_deadline maxMs now v = Inr d \<Longrightarrow> of_int now < d \<and> d \<le> of_int (now + maxMs)"
  by (auto simp: check_deadline_def split: option.splits if_splits)

text \<open>Exactly what ARM accepts.\<close>

lemma check_arm_iff:
  "check_arm T V maxMs now req = Inr (Inr (c, u, t, d)) \<longleftrightarrow>
    as_text (json_get req ''userOpData'') = Some u \<and> userOpData_ok u \<and> keccak256 V u = Inr c \<and>
    (\<forall>claimed. as_text (json_get req ''commitment'') = Some claimed \<longrightarrow>
      js_toLowerCase claimed = js_toLowerCase c) \<and>
    parseTrigger T (json_get req ''trigger'') = Inr (Inr t) \<and>
    check_deadline maxMs now (json_get req ''deadline'') = Inr d"
proof (cases "as_text (json_get req ''userOpData'')")
  case (Some u')
  show ?thesis
  proof (cases "keccak256 V u'")
    case (Inr c')
    show ?thesis
    proof (cases "parseTrigger T (json_get req ''trigger'')")
      case parsed: (Inr p)
      have key: "u = u' \<Longrightarrow> keccak256 V u = Inr c'" using Inr by simp
      show ?thesis
        by (cases "u = u'"; cases p; cases "check_deadline maxMs now (json_get req ''deadline'')";
            cases "as_text (json_get req ''commitment'')")
          (auto simp: check_arm_def Some Inr key parsed as_exn_def err_simps)
    qed (auto simp: check_arm_def Some Inr as_exn_def err_simps Let_def)
  qed (auto simp: check_arm_def Some as_exn_def err_simps)
qed (simp add: check_arm_def)

lemma check_arm_ok:
  assumes "check_arm T V maxMs now req = Inr (Inr (c, u, t, d))"
  shows "intent_ok V maxMs (new_intent now c u t d)" and "as_text (json_get req ''userOpData'') = Some u"
    and "keccak256 V u = Inr c"
  using assms parseTrigger_ok check_deadline_ok
  by (auto simp: check_arm_iff intent_ok_def new_intent_def userOpData_ok_def)

definition armed_state :: "js_str \<Rightarrow> intent \<Rightarrow> latch \<Rightarrow> latch" where
  "armed_state c i s = (intents_set c i s)\<lparr>armedTotal := armedTotal s + 1\<rparr>"

lemma handleArm_cases:
  obtains (same) "fst (handleArm T V maxMs now msg s) = s"
  | (armed) req c u t d where "decodeJson T msg = Inr req" "check_arm T V maxMs now req = Inr (Inr (c, u, t, d))"
      "\<not> still_armed (lookup_intent s c)"
      "fst (handleArm T V maxMs now msg s) = armed_state c (new_intent now c u t d) s"
proof -
  show ?thesis
  proof (cases "fst (handleArm T V maxMs now msg s) = s")
    case False
    with that(2) show ?thesis
      by (fastforce simp: handleArm_def armed_state_def Let_def split: sum.splits prod.splits if_splits)
  qed (rule that(1))
qed

lemma armed_state_evolves: "evolves s (armed_state c i s)"
  by (simp add: evolves_def armed_state_def latch_simps)

lemma update_entries:
  assumes "distinct (map fst al)" and "(k, x) \<in> set (AList.update c v al)"
  shows "k = c \<and> x = v \<or> k \<noteq> c \<and> (k, x) \<in> set al"
proof -
  have "map_of (AList.update c v al) k = Some x"
    using assms by (simp add: distinct_update)
  then show ?thesis by (auto simp: update_conv' dest: map_of_SomeD split: if_splits)
qed

lemma armed_state_ok:
  assumes "latch_ok V maxMs s" and "intent_ok V maxMs i" and "in_commitment i = c"
  shows "latch_ok V maxMs (armed_state c i s)"
proof -
  have d: "distinct (map fst (intents s))"
    and old: "\<And>k r. (k, r) \<in> set (intents s) \<Longrightarrow> r < length (heap s) \<and> in_commitment (heap s ! r) = k"
    using assms(1) by (auto simp: latch_ok_def index_ok_def deref_def)
  have "r < Suc (length (heap s)) \<and> in_commitment ((heap s @ [i]) ! r) = k"
    if "(k, r) \<in> set (AList.update c (length (heap s)) (intents s))" for k r
    using update_entries [OF d that] old [of k r] assms(3) by (auto simp: nth_append)
  with d have ix: "index_ok (armed_state c i s)"
    by (auto simp: index_ok_def armed_state_def intents_set_def deref_def distinct_update)
  from assms ix show ?thesis
    by (auto simp: latch_ok_def armed_state_def latch_simps less_Suc_eq)
qed

lemma run_command_ok:
  assumes "latch_ok V maxMs s"
  shows "latch_ok V maxMs (fst (run_command T V maxMs now c msg s))"
    and "evolves s (fst (run_command T V maxMs now c msg s))"
proof -
  have ix: "index_ok s" using assms by (simp add: latch_ok_def)
  show ev: "evolves s (fst (run_command T V maxMs now c msg s))"
    by (cases c; cases T V maxMs now msg s rule: handleArm_cases)
      (simp_all add: armed_state_evolves handleCancel_evolves [OF ix] handleCollect_evolves [OF ix])
  show "latch_ok V maxMs (fst (run_command T V maxMs now c msg s))"
  proof (cases "c = ARM")
    case True
    show ?thesis
    proof (cases T V maxMs now msg s rule: handleArm_cases)
      case (armed req c' u t d)
      then show ?thesis
        using True assms check_arm_ok(1) [OF armed(2)] by (simp add: armed_state_ok new_intent_def)
    qed (simp add: True assms)
  next
    case False
    from command_frame [OF False] show ?thesis by (intro latch_ok_evolves [OF ev _ _ _ assms]) simp_all
  qed
qed

subsection \<open>The enclave as a transition system\<close>

lemma list_all_opt [simp]: "list_all P (opt_list w) \<longleftrightarrow> (\<forall>k. w = Some k \<longrightarrow> P k)"
  by (auto simp: opt_list_def split: option.split)

lemma enclave_step_ok:
  assumes "enclave_step T V maxMs e l f" and "enclave_ok V maxMs e"
  shows "enclave_ok V maxMs f" and "evolves (en_latch e) (en_latch f)"
proof -
  let ?s = "en_latch e"
  have ok: "latch_ok V maxMs ?s" and ix: "index_ok ?s" and ks: "list_all (suspended_ok ?s) (en_ticks e)"
    using assms(2) by (simp_all add: enclave_ok_def latch_ok_def)
  have keep: "list_all (suspended_ok t) ks"
    if "evolves ?s t" "list_all (suspended_ok ?s) ks" for t ks
    using that by (auto simp: list_all_iff intro: suspended_ok_evolves)
  from assms(1) have "enclave_ok V maxMs f \<and> evolves ?s (en_latch f)"
  proof (cases rule: enclave_step.cases)
    case (request now c msg s r)
    then have s: "s = fst (run_command T V maxMs now c msg ?s)" by simp
    have "latch_ok V maxMs s" and ev: "evolves ?s s" unfolding s by (rule run_command_ok [OF ok])+
    with keep [OF ev ks] request(2) show ?thesis by (simp add: enclave_ok_def)
  next
    case (start now s w)
    then have s: "s = fst (tick_start now ?s)" by simp
    have ev: "evolves ?s s" unfolding s by (rule tick_start_evolves(1) [OF ix])
    have "latch_ok V maxMs s"
      by (rule latch_ok_evolves [OF ev _ _ _ ok]) (simp_all add: s tick_start_def)
    with start ev keep [OF ev ks] tick_start_evolves(2) [OF ix] show ?thesis
      by (auto simp: enclave_ok_def)
  next
    case (resume ks0 k ks1 i reading d s w)
    then have k: "suspended_ok ?s k" and rest: "list_all (suspended_ok ?s) (ks0 @ ks1)" using ks by simp_all
    from resume have s: "s = fst (tick_resume T k d ?s)" by simp
    have ev: "evolves ?s s" unfolding s by (rule tick_resume_evolves(1) [OF ix k])
    have "latch_ok V maxMs s" by (rule latch_ok_evolves [OF ev _ _ _ ok]) (simp_all add: s)
    with resume ev keep [OF ev rest] tick_resume_evolves(2) [OF ix k] show ?thesis
      by (auto simp: enclave_ok_def)
  qed
  then show "enclave_ok V maxMs f" and "evolves (en_latch e) (en_latch f)" by simp_all
qed

lemma fresh_enclave_ok [simp]: "enclave_ok V maxMs fresh_enclave"
  by (simp add: enclave_ok_def latch_ok_def index_ok_def fresh_enclave_def resetState_def)

text \<open>A firing leaves its mark on the run: the decision about that intent, with its price.\<close>

fun decided_fire :: "event \<Rightarrow> js_str \<Rightarrow> trigger \<Rightarrow> int \<Rightarrow> bool" where
  "decided_fire (Decided c t now reading) c' t' now' \<longleftrightarrow>
     c = c' \<and> t = t' \<and> now = now' \<and> condition_met t now (\<lambda>_ _. reading)"
| "decided_fire _ _ _ _ \<longleftrightarrow> False"

definition firings_recorded :: "event list \<Rightarrow> enclave \<Rightarrow> bool" where
  "firings_recorded ls e \<longleftrightarrow> (\<forall>r now. r < length (heap (en_latch e)) \<and>
     in_firedAt (deref (en_latch e) r) = Some now \<longrightarrow>
     (\<exists>l \<in> set ls. decided_fire l (in_commitment (deref (en_latch e) r)) (in_trigger (deref (en_latch e) r)) now))"

definition no_firing :: "latch \<Rightarrow> latch \<Rightarrow> bool" where
  "no_firing s t \<longleftrightarrow> (\<forall>r now. r < length (heap t) \<and> in_firedAt (deref t r) = Some now \<longrightarrow>
     r < length (heap s) \<and> in_firedAt (deref s r) = Some now)"

lemma no_firing_refl [simp, intro]: "no_firing s s"
  by (simp add: no_firing_def)

lemma no_firing_trans: "no_firing s t \<Longrightarrow> no_firing t u \<Longrightarrow> no_firing s u"
  unfolding no_firing_def by blast

lemma no_firing_mutate:
  assumes "\<And>i. in_firedAt (f i) = in_firedAt i"
  shows "no_firing s (mutate r f s)"
proof -
  have "in_firedAt ((heap s)[r := f (heap s ! r)] ! q) = in_firedAt (heap s ! q)" for q
    using assms by (cases "r < length (heap s)"; cases "q = r") (simp_all add: list_update_beyond)
  then show ?thesis by (simp add: no_firing_def mutate_def deref_def)
qed

lemma no_firing_armed: "in_firedAt i = None \<Longrightarrow> no_firing s (armed_state c i s)"
  by (auto simp: no_firing_def armed_state_def intents_set_def deref_def nth_append split: if_splits)

lemma no_firing_advance: "no_firing s (fst (advance now es pos s))"
proof (induction now es pos s rule: advance.induct)
  case (2 now c r rest pos s)
  have "no_firing s (mutate r expire_intent s)" by (rule no_firing_mutate) (simp add: expire_intent_def)
  with 2 show ?case by (auto intro: no_firing_trans)
qed simp

lemma no_firing_command: "no_firing s (fst (run_command T V maxMs now c msg s))"
proof (cases c)
  case ARM
  show ?thesis
    by (cases T V maxMs now msg s rule: handleArm_cases)
      (simp_all add: ARM no_firing_armed new_intent_def)
qed (auto simp: handleCancel_def handleCollect_def Let_def intent_updates intro: no_firing_mutate
    split: sum.split option.split)

lemma no_firing_start: "no_firing s (fst (tick_start now s))"
  by (simp add: tick_start_def no_firing_advance)

text \<open>A resumed tick fires the intent it waited for, when the condition is met, and no other.\<close>

lemma tick_resume_fires:
  assumes "tk_wait k < length (heap s)"
    and "r < length (heap s)" and "in_firedAt (deref (fst (tick_resume T k d s)) r) = Some now"
  shows "in_firedAt (deref s r) = Some now \<or>
    r = tk_wait k \<and> now = tk_now k \<and> (\<exists>reading. d = Inr (True, reading))"
proof (cases "\<exists>reading. d = Inr (True, reading)")
  case False
  then have "fst (tick_resume T k d s) = s \<or>
      fst (tick_resume T k d s) = fst (advance (tk_now k) (drop (tk_pos k) (intents s)) (tk_pos k) s)"
    by (auto simp: tick_resume_def split: sum.splits)
  then have "no_firing s (fst (tick_resume T k d s))" using no_firing_advance by auto
  with assms(2,3) show ?thesis by (auto simp: no_firing_def)
next
  case True
  let ?f = "fire (tk_now k) (tk_wait k) s"
  from True have "fst (tick_resume T k d s) = ?f \<or>
      fst (tick_resume T k d s) = fst (advance (tk_now k) (drop (tk_pos k) (intents ?f)) (tk_pos k) ?f)"
    by (auto simp: tick_resume_def Let_def split: sum.splits)
  then have "no_firing ?f (fst (tick_resume T k d s))" 
    by (elim disjE) (simp_all only: no_firing_refl no_firing_advance)
  with assms(2,3) have "in_firedAt (deref ?f r) = Some now" by (auto simp: no_firing_def)
  with True assms(1) show ?thesis by (auto simp: deref_fire fire_intent_def split: if_splits)
qed

lemma firings_recorded_mono:
  assumes "firings_recorded ls e" and "no_firing (en_latch e) (en_latch f)"
    and "evolves (en_latch e) (en_latch f)" and "set ls \<subseteq> set ms"
  shows "firings_recorded ms f"
  unfolding firings_recorded_def
proof (intro allI impI)
  fix r now
  assume r: "r < length (heap (en_latch f)) \<and> in_firedAt (deref (en_latch f) r) = Some now"
  with assms(2) have old: "r < length (heap (en_latch e))" "in_firedAt (deref (en_latch e) r) = Some now"
    by (auto simp: no_firing_def)
  with evolves_same [OF assms(3) old(1)] assms(1,4)
  show "\<exists>l \<in> set ms. decided_fire l (in_commitment (deref (en_latch f) r)) (in_trigger (deref (en_latch f) r)) now"
    by (fastforce simp: firings_recorded_def same_intent_def)
qed

lemma firings_recorded_step:
  assumes "enclave_ok V maxMs e" and "firings_recorded ls e" and "enclave_step T V maxMs e l f"
  shows "firings_recorded (ls @ [l]) f"
proof -
  note ev = enclave_step_ok(2) [OF assms(3,1)]
  from assms(3) show ?thesis
  proof (cases rule: enclave_step.cases)
    case (request now c msg s r)
    then have "no_firing (en_latch e) (en_latch f)"
      using no_firing_command [of "en_latch e" T V maxMs now c msg] by simp
    then show ?thesis by (rule firings_recorded_mono [OF assms(2) _ ev]) auto
  next
    case (start now s w)
    then have "no_firing (en_latch e) (en_latch f)" using no_firing_start [of "en_latch e" now] by simp
    then show ?thesis by (rule firings_recorded_mono [OF assms(2) _ ev]) auto
  next
    case (resume ks k ks' i reading d s w)
    let ?s = "en_latch e"
    have k: "suspended_ok ?s k" using assms(1) resume by (simp add: enclave_ok_def)
    then have wait: "tk_wait k < length (heap ?s)" by (simp add: suspended_ok_def)
    have f: "en_latch f = fst (tick_resume T k d ?s)" using resume by simp
    show ?thesis
      unfolding firings_recorded_def
    proof (intro allI impI)
      fix r now
      assume r: "r < length (heap (en_latch f)) \<and> in_firedAt (deref (en_latch f) r) = Some now"
      then have r': "r < length (heap ?s)" by (simp add: f)
      note same = evolves_same [OF ev r']
      from tick_resume_fires [OF wait r'] r
      consider "in_firedAt (deref ?s r) = Some now"
        | rd where "r = tk_wait k" "now = tk_now k" "d = Inr (True, rd)"
        unfolding f by blast
      then show "\<exists>l' \<in> set (ls @ [l]). decided_fire l' (in_commitment (deref (en_latch f) r))
          (in_trigger (deref (en_latch f) r)) now"
      proof cases
        case 1
        with assms(2) r' same show ?thesis by (fastforce simp: firings_recorded_def same_intent_def)
      next
        case 2
        have "trigger_ok (in_trigger i)"
          using assms(1) wait resume by (simp add: enclave_ok_def latch_ok_def intent_ok_def)
        from isTriggered_ok [OF this, of "tk_now k" "\<lambda>_ _. reading"] 2 resume
        have "condition_met (in_trigger i) (tk_now k) (\<lambda>_ _. reading)" by auto
        with 2 same resume show ?thesis by (auto simp: same_intent_def)
      qed
    qed
  qed
qed

interpretation en: history_system "enclave_step T V maxMs" "enclave_ok V maxMs" "\<lambda>_. True" firings_recorded
  for T V maxMs
  by unfold_locales (auto dest: enclave_step_ok firings_recorded_step)

end
