(* ===== verification/Sealed.thy ===== *)
theory Sealed
  imports Enclave
begin

text \<open>
  What the enclave gives away. Two states are the same in public when they differ only in the bytes of
  the intents under some commitments; a run that collects none of those looks the same from both. The properties of the
  intents' life cycle, of ARM, of the release and of the tick follow, with their witnesses.
\<close>

subsection \<open>The public part of the state\<close>

text \<open>\<open>D\<close> holds the commitments whose bytes are secret.\<close>

definition blank_intent :: "js_str set \<Rightarrow> intent \<Rightarrow> intent" where
  "blank_intent D i = (if in_commitment i \<in> D then i\<lparr>in_userOpData := []\<rparr> else i)"

lemma blank_intent_fields [simp]:
  "in_commitment (blank_intent D i) = in_commitment i" "in_trigger (blank_intent D i) = in_trigger i"
  "in_deadline (blank_intent D i) = in_deadline i" "in_state (blank_intent D i) = in_state i"
  "in_armedAt (blank_intent D i) = in_armedAt i" "in_firedAt (blank_intent D i) = in_firedAt i"
  by (simp_all add: blank_intent_def)

definition same_public :: "js_str set \<Rightarrow> latch \<Rightarrow> latch \<Rightarrow> bool" where
  "same_public D s t \<longleftrightarrow> intents s = intents t \<and> armedTotal s = armedTotal t \<and> firedTotal s = firedTotal t \<and>
     map (blank_intent D) (heap s) = map (blank_intent D) (heap t)"

lemma blank_intentD:
  assumes "blank_intent D i = blank_intent D j"
  shows "in_commitment i = in_commitment j" "in_trigger i = in_trigger j" "in_deadline i = in_deadline j"
    "in_state i = in_state j" "in_armedAt i = in_armedAt j" "in_firedAt i = in_firedAt j"
  using arg_cong [OF assms, of in_commitment] arg_cong [OF assms, of in_trigger]
    arg_cong [OF assms, of in_deadline] arg_cong [OF assms, of in_state]
    arg_cong [OF assms, of in_armedAt] arg_cong [OF assms, of in_firedAt]
  by simp_all

text \<open>Outside the secret commitments nothing is hidden.\<close>

lemma blank_intent_open:
  assumes "blank_intent D i = blank_intent D j" and "in_commitment i \<notin> D"
  shows "i = j"
  using assms blank_intentD(1) [OF assms(1)] by (simp add: blank_intent_def)

lemma blank_intent_updates:
  "blank_intent D i = blank_intent D j \<Longrightarrow> blank_intent D (cancel_intent i) = blank_intent D (cancel_intent j)"
  "blank_intent D i = blank_intent D j \<Longrightarrow> blank_intent D (expire_intent i) = blank_intent D (expire_intent j)"
  "blank_intent D i = blank_intent D j \<Longrightarrow> blank_intent D (fire_intent now i) = blank_intent D (fire_intent now j)"
  "blank_intent D i = blank_intent D j \<Longrightarrow> blank_intent D (collect_intent i) = blank_intent D (collect_intent j)"
  by (cases i; cases j; auto simp: blank_intent_def intent_updates split: if_splits)+

lemma same_publicD:
  assumes "same_public D s t"
  shows "intents s = intents t" "armedTotal s = armedTotal t" "firedTotal s = firedTotal t"
    "length (heap s) = length (heap t)" "intents_get s = intents_get t"
    and "r < length (heap s) \<Longrightarrow> blank_intent D (deref s r) = blank_intent D (deref t r)"
proof -
  have m: "map (blank_intent D) (heap s) = map (blank_intent D) (heap t)"
    and i: "intents s = intents t" "armedTotal s = armedTotal t" "firedTotal s = firedTotal t"
    using assms by (simp_all add: same_public_def)
  show l: "length (heap s) = length (heap t)" using arg_cong [OF m, of length] by simp
  from m l show "r < length (heap s) \<Longrightarrow> blank_intent D (deref s r) = blank_intent D (deref t r)"
    unfolding deref_def by (metis nth_map)
  show "intents s = intents t" "armedTotal s = armedTotal t" "firedTotal s = firedTotal t"
    "intents_get s = intents_get t"
    by (simp_all add: i intents_get_def fun_eq_iff)
qed

lemma same_publicI:
  assumes "intents s = intents t" "armedTotal s = armedTotal t" "firedTotal s = firedTotal t"
    and "length (heap s) = length (heap t)"
    and "\<And>r. r < length (heap s) \<Longrightarrow> blank_intent D (deref s r) = blank_intent D (deref t r)"
  shows "same_public D s t"
  using assms by (auto simp: same_public_def deref_def list_eq_iff_nth_eq)

lemma same_public_mutate:
  assumes "same_public D s t" and "r < length (heap s)"
    and "\<And>i j. blank_intent D i = blank_intent D j \<Longrightarrow> blank_intent D (f i) = blank_intent D (f j)"
  shows "same_public D (mutate r f s) (mutate r f t)"
proof -
  note p = same_publicD [OF assms(1)]
  have rt: "r < length (heap t)" using assms(2) p(4) by simp
  show ?thesis
  proof (rule same_publicI)
    fix q assume "q < length (heap (mutate r f s))"
    then have "q < length (heap s)" by simp
    then have "blank_intent D (deref s q) = blank_intent D (deref t q)" by (rule p(6))
    then show "blank_intent D (deref (mutate r f s) q) = blank_intent D (deref (mutate r f t) q)"
      unfolding deref_mutate [OF assms(2)] deref_mutate [OF rt] by (auto intro!: assms(3) p(6) assms(2))
  qed (simp_all only: mutate_simps p(1-4))
qed

lemma same_public_fire:
  assumes "same_public D s t" and "r < length (heap s)"
  shows "same_public D (fire now r s) (fire now r t)"
proof -
  have "same_public D (mutate r (fire_intent now) s) (mutate r (fire_intent now) t)"
    by (rule same_public_mutate [OF assms]) (rule blank_intent_updates(3))
  moreover have "firedTotal s = firedTotal t" by (rule same_publicD(3) [OF assms(1)])
  ultimately show ?thesis by (simp only: fire_def same_public_def) simp
qed

lemma same_public_armed: "same_public D s t \<Longrightarrow> same_public D (armed_state c i s) (armed_state c i t)"
  using same_publicD(4) [of D s t] by (simp add: same_public_def armed_state_def intents_set_def)

text \<open>Turns of the tick.\<close>

lemma advance_public:
  assumes "same_public D s t" and "\<forall>(c, r) \<in> set es. r < length (heap s)"
  shows "snd (advance now es pos s) = snd (advance now es pos t) \<and>
    same_public D (fst (advance now es pos s)) (fst (advance now es pos t))"
  using assms
proof (induction now es pos s arbitrary: t rule: advance.induct)
  case (2 now c r rest pos s)
  have r: "r < length (heap s)" using 2(4) by auto
  note f = blank_intentD [OF same_publicD(6) [OF 2(3) r]]
  have m: "same_public D (mutate r expire_intent s) (mutate r expire_intent t)"
    using same_public_mutate [OF 2(3) r] blank_intent_updates by blast
  from 2 f m show ?case by auto
qed simp

lemma tick_start_public:
  assumes "same_public D s t" and "index_ok s"
  shows "snd (tick_start now s) = snd (tick_start now t) \<and>
    same_public D (fst (tick_start now s)) (fst (tick_start now t))"
  using advance_public [OF assms(1) index_ok_refs [OF assms(2)]] same_publicD(1) [OF assms(1)]
  by (simp add: tick_start_def)

lemma tick_resume_public:
  assumes "same_public D s t" and "index_ok s" and "suspended_ok s k"
  shows "snd (tick_resume T k d s) = snd (tick_resume T k d t) \<and>
    same_public D (fst (tick_resume T k d s)) (fst (tick_resume T k d t))"
proof -
  let ?f = "fire (tk_now k) (tk_wait k)"
  have wait: "tk_wait k < length (heap s)" using assms(3) by (simp add: suspended_ok_def)
  have ix: "index_ok (?f s)"
    using assms(2,3) by (intro fire_index_ok evolves_fire) (auto simp: suspended_ok_def)
  have f: "same_public D (?f s) (?f t)" by (rule same_public_fire [OF assms(1) wait])
  note adv = advance_public [OF assms(1) index_ok_refs_drop [OF assms(2)]]
    advance_public [OF f index_ok_refs_drop [OF ix]]
  have tr: "in_trigger (deref s (tk_wait k)) = in_trigger (deref t (tk_wait k))"
    by (rule blank_intentD [OF same_publicD(6) [OF assms(1) wait]])
  show ?thesis
    using adv assms(1) f by (auto simp: tick_resume_def Let_def tr same_publicD(1) [OF assms(1), symmetric]
        split: sum.split)
qed

text \<open>Commands.\<close>

fun released :: "exn + handler_result \<Rightarrow> bool" where
  "released (Inr (Some d, status, err)) \<longleftrightarrow> True"
| "released _ \<longleftrightarrow> False"

text \<open>The reply of a COLLECT that hands out the bytes under a commitment of \<open>D\<close>.\<close>

definition asked_for :: "platform \<Rightarrow> json \<Rightarrow> js_str option" where
  "asked_for T msg = (case decodeJson T msg of Inl _ \<Rightarrow> None | Inr req \<Rightarrow> as_text (json_get req ''commitment''))"

definition releases :: "platform \<Rightarrow> js_str set \<Rightarrow> command \<Rightarrow> json \<Rightarrow> exn + handler_result \<Rightarrow> bool" where
  "releases T D c msg r \<longleftrightarrow> c = COLLECT \<and> released r \<and> (\<exists>k \<in> D. asked_for T msg = Some k)"

lemma lookup_public:
  assumes "same_public D s t" and "index_ok s"
  shows "map_option (blank_intent D) (lookup_intent s c) = map_option (blank_intent D) (lookup_intent t c)"
  using same_publicD(5,6) [OF assms(1)] index_okD(1) [OF assms(2)]
  by (cases "intents_get t c") (auto simp: lookup_intent_def)

lemma handleArm_public:
  assumes "same_public D s t" and "index_ok s"
  shows "snd (handleArm T V maxMs now msg s) = snd (handleArm T V maxMs now msg t) \<and>
    same_public D (fst (handleArm T V maxMs now msg s)) (fst (handleArm T V maxMs now msg t))"
proof -
  have eq: "still_armed (lookup_intent s c) = still_armed (lookup_intent t c)" for c
    using lookup_public [OF assms, of c]
    by (cases "lookup_intent s c"; cases "lookup_intent t c") (auto simp: still_armed_def dest: blank_intentD)
  have arm: "same_public D (intents_set c i s\<lparr>armedTotal := Suc (armedTotal s)\<rparr>)
      (intents_set c i t\<lparr>armedTotal := Suc (armedTotal t)\<rparr>)" for c i
    using same_public_armed [OF assms(1), of c i] by (simp add: armed_state_def)
  show ?thesis
    using assms(1) arm by (auto simp: handleArm_def Let_def eq split: sum.split prod.split)
qed

lemma handleStatus_public:
  assumes "same_public D s t" and "index_ok s"
  shows "snd (handleStatus T msg s) = snd (handleStatus T msg t)"
proof -
  have sp: "status_payload i = status_payload (blank_intent D i)" for i
    by (simp add: status_payload_def)
  have look: "map_option status_payload (lookup_intent s c) = map_option status_payload (lookup_intent t c)" for c
    using arg_cong [OF lookup_public [OF assms, of c], of "map_option status_payload"]
    by (simp add: option.map_comp comp_def sp [symmetric])
  have "(case (case lookup_intent s a of Some i \<Rightarrow> Some i | None \<Rightarrow> lookup_intent s b) of
        None \<Rightarrow> n | Some i \<Rightarrow> f (status_payload i)) =
      (case (case lookup_intent t a of Some i \<Rightarrow> Some i | None \<Rightarrow> lookup_intent t b) of
        None \<Rightarrow> n | Some i \<Rightarrow> f (status_payload i))" for a b n and f :: "json \<Rightarrow> handler_result"
    using look [of a] look [of b] by (auto split: option.splits)
  then show ?thesis by (auto simp: handleStatus_def split: sum.split option.split)
qed

lemma handleCancel_public:
  assumes "same_public D s t" and "index_ok s"
  shows "snd (handleCancel T msg s) = snd (handleCancel T msg t) \<and>
    same_public D (fst (handleCancel T msg s)) (fst (handleCancel T msg t))"
proof -
  have st: "in_state (deref s r) = in_state (deref t r)" "same_public D (mutate r cancel_intent s) (mutate r cancel_intent t)"
    if "intents_get t c = Some r" for c r
  proof -
    have r: "r < length (heap s)" using that same_publicD(5) [OF assms(1)] index_okD(1) [OF assms(2)] by simp
    show "in_state (deref s r) = in_state (deref t r)"
      by (rule blank_intentD [OF same_publicD(6) [OF assms(1) r]])
    show "same_public D (mutate r cancel_intent s) (mutate r cancel_intent t)"
      using same_public_mutate [OF assms(1) r] blank_intent_updates by blast
  qed
  show ?thesis
    using st assms(1) by (auto simp: handleCancel_def same_publicD(5) [OF assms(1)] split: sum.split option.split)
qed

lemma handleCollect_public:
  assumes "same_public D s t" and "index_ok s"
    and "\<not> (released (snd (handleCollect T msg s)) \<and> (\<exists>k \<in> D. asked_for T msg = Some k))"
  shows "snd (handleCollect T msg s) = snd (handleCollect T msg t) \<and>
    same_public D (fst (handleCollect T msg s)) (fst (handleCollect T msg t))"
proof -
  have st: "in_state (deref s r) = in_state (deref t r)" "c \<notin> D \<Longrightarrow> deref s r = deref t r"
    "same_public D (mutate r collect_intent s) (mutate r collect_intent t)"
    if "intents_get t c = Some r" for c r
  proof -
    have g: "intents_get s c = Some r" using that same_publicD(5) [OF assms(1)] by simp
    note r = index_okD(1) [OF assms(2) g]
    note e = same_publicD(6) [OF assms(1) r]
    show "in_state (deref s r) = in_state (deref t r)" by (rule blank_intentD [OF e])
    show "deref s r = deref t r" if "c \<notin> D"
      by (rule blank_intent_open [OF e]) (simp add: that index_okD(2) [OF assms(2) g])
    show "same_public D (mutate r collect_intent s) (mutate r collect_intent t)"
      using same_public_mutate [OF assms(1) r] blank_intent_updates by blast
  qed
  show ?thesis
  proof (cases "asked_for T msg")
    case None
    with assms(1) show ?thesis by (auto simp: handleCollect_def asked_for_def split: sum.splits)
  next
    case (Some c)
    then obtain req where req: "decodeJson T msg = Inr req" "as_text (json_get req ''commitment'') = Some c"
      by (auto simp: asked_for_def split: sum.splits)
    show ?thesis
    proof (cases "intents_get t c")
      case None
      with assms(1) req show ?thesis by (simp add: handleCollect_def same_publicD(5) [OF assms(1)])
    next
      case r: (Some r)
      note h = handleCollect_def req r same_publicD(5) [OF assms(1)] st(1) [OF r] Let_def
      have "c \<notin> D" if "in_state (deref t r) \<notin> {armed, cancelled, expired}"
        using assms(3) Some that by (auto simp: h ok_result_def)
      with st(2,3) [OF r] assms(1) show ?thesis by (auto simp: h)
    qed
  qed
qed

lemma run_command_public:
  assumes "same_public D s t" and "index_ok s" and "\<not> releases T D c msg (snd (run_command T V maxMs now c msg s))"
  shows "snd (run_command T V maxMs now c msg s) = snd (run_command T V maxMs now c msg t) \<and>
    same_public D (fst (run_command T V maxMs now c msg s)) (fst (run_command T V maxMs now c msg t))"
  using assms handleArm_public handleStatus_public handleCancel_public handleCollect_public
  by (cases c) (simp_all add: releases_def)

lemma count_state_public:
  assumes "same_public D s t" and "index_ok s"
  shows "count_state st s = count_state st t"
proof -
  have "(in_state (deref s r) = st) = (in_state (deref t r) = st)" if "(c, r) \<in> set (intents t)" for c r
  proof -
    have r: "r < length (heap s)"
      using that index_ok_refs [OF assms(2)] same_publicD(1) [OF assms(1)] by auto
    show ?thesis using blank_intentD(4) [OF same_publicD(6) [OF assms(1) r]] by simp
  qed
  then have "filter (\<lambda>(c, r). in_state (deref s r) = st) (intents t) =
      filter (\<lambda>(c, r). in_state (deref t r) = st) (intents t)"
    by (intro filter_cong) auto
  then show ?thesis by (simp add: count_state_def same_publicD(1) [OF assms(1)])
qed

lemma reportState_public: "same_public D s t \<Longrightarrow> index_ok s \<Longrightarrow> reportState s = reportState t"
  using count_state_public [of D s t] by (simp add: reportState_def same_public_def)

subsection \<open>Runs that look the same\<close>

definition same_view :: "js_str set \<Rightarrow> viem \<Rightarrow> int \<Rightarrow> enclave \<Rightarrow> enclave \<Rightarrow> bool" where
  "same_view D V maxMs e e' \<longleftrightarrow> same_public D (en_latch e) (en_latch e') \<and> en_ticks e = en_ticks e' \<and>
     enclave_ok V maxMs e"

fun seals :: "platform \<Rightarrow> js_str set \<Rightarrow> event \<Rightarrow> bool" where
  "seals T D (Request c now msg r) \<longleftrightarrow> \<not> releases T D c msg r"
| "seals T D _ \<longleftrightarrow> True"

lemma same_view_step:
  assumes "same_view D V maxMs e e'" and "enclave_step T V maxMs e l f" and "seals T D l"
  shows "\<exists>f'. enclave_step T V maxMs e' l f' \<and> same_view D V maxMs f f'"
proof -
  have pub: "same_public D (en_latch e) (en_latch e')" and ticks: "en_ticks e = en_ticks e'"
    and ok: "enclave_ok V maxMs e" using assms(1) by (simp_all add: same_view_def)
  have ix: "index_ok (en_latch e)" using ok by (simp add: enclave_ok_def latch_ok_def)
  note f_ok = enclave_step_ok(1) [OF assms(2) ok]
  from assms(2) show ?thesis
  proof (cases rule: enclave_step.cases)
    case (request now c msg s r)
    then have "\<not> releases T D c msg (snd (run_command T V maxMs now c msg (en_latch e)))"
      using assms(3) by simp
    from run_command_public [OF pub ix this] request obtain s' where
      s': "run_command T V maxMs now c msg (en_latch e') = (s', r)" "same_public D s s'"
      by (metis fst_conv prod.collapse snd_conv)
    from enclave_step.request [OF s'(1)] s'(2) request f_ok ticks show ?thesis
      by (fastforce simp: same_view_def)
  next
    case (start now s w)
    from tick_start_public [OF pub ix, of now] start obtain s' where
      s': "tick_start now (en_latch e') = (s', w)" "same_public D s s'"
      by (metis fst_conv prod.collapse snd_conv)
    from enclave_step.start [OF s'(1), of T V maxMs] s'(2) start f_ok ticks show ?thesis
      by (fastforce simp: same_view_def)
  next
    case (resume ks k ks' i reading d s w)
    have k: "suspended_ok (en_latch e) k" using ok resume by (simp add: enclave_ok_def)
    then have "tk_wait k < length (heap (en_latch e))" by (simp add: suspended_ok_def)
    note same = blank_intentD [OF same_publicD(6) [OF pub this]]
    from tick_resume_public [OF pub ix k, of T d] resume obtain s' where
      s': "tick_resume T k d (en_latch e') = (s', w)" "same_public D s s'"
      by (metis fst_conv prod.collapse snd_conv)
    have "isTriggered (in_trigger (deref (en_latch e') (tk_wait k))) (tk_now k) (\<lambda>_ _. reading) = d"
      using resume same by simp
    from enclave_step.resume [OF _ refl this s'(1), of ks ks' V maxMs] s'(2) resume f_ok ticks same show ?thesis
      by (fastforce simp: same_view_def)
  qed
qed

interpretation sealed: bisimilar_system "enclave_step T V maxMs" "same_view D V maxMs" "seals T D" for T V maxMs D
  by unfold_locales (rule same_view_step)

end
