(* ===== verification/Platform.thy ===== *)
theory Platform
  imports Encoding
begin

text \<open>
  A concrete platform for the witnesses: UTF-8 decoding of the code units a \<open>char\<close> holds, and a plain
  prefix notation in place of \<open>JSON\<close>, with the round trips the documentation promises of the real ones.
\<close>

subsection \<open>UTF-8\<close>

fun utf8_decode :: "bytes \<Rightarrow> js_str" where
  "utf8_decode [] = []"
| "utf8_decode (b # bs) =
    (if b < 128 then char_of (unat b) # utf8_decode bs
     else (case bs of [] \<Rightarrow> [] | c # cs \<Rightarrow> char_of (64 * (unat b - 192) + (unat c - 128)) # utf8_decode cs))"

lemma utf8_decode_char: "utf8_decode (utf8_char c @ bs) = c # utf8_decode bs"
proof -
  define n where "n = (of_char c :: nat)"
  have c: "c = char_of n" by (simp add: n_def)
  have n: "n < 256" by (simp add: n_def)
  show ?thesis
  proof (cases "n < 128")
    case True
    then have "(of_nat n :: byte) < 128" and "unat (of_nat n :: byte) = n"
      by (simp_all add: word_less_nat_alt unat_of_nat)
    with True show ?thesis by (simp add: utf8_char_def n_def [symmetric] c)
  next
    case False
    have b: "unat (of_nat (192 + n div 64) :: byte) = 192 + n div 64"
      "unat (of_nat (128 + n mod 64) :: byte) = 128 + n mod 64"
      using n by (subst unat_of_nat, simp)+
    then have "\<not> (of_nat (192 + n div 64) :: byte) < 128"
      by (simp add: word_less_nat_alt del: of_nat_add)
    moreover have "64 * (n div 64) + n mod 64 = n" by simp
    moreover have "utf8_char c = [of_nat (192 + n div 64), of_nat (128 + n mod 64)]"
      using False by (simp add: utf8_char_def n_def [symmetric])
    ultimately show ?thesis using b by (simp add: n_def del: of_nat_add)
  qed
qed

lemma utf8_decode_encode [simp]: "utf8_decode (utf8_encode s) = s"
proof (induction s)
  case (Cons c s)
  have "utf8_encode (c # s) = utf8_char c @ utf8_encode s" by (simp add: utf8_encode_def)
  with Cons show ?case by (simp add: utf8_decode_char)
qed (simp add: utf8_encode_def)

subsection \<open>Values as text\<close>

definition split_at :: "char \<Rightarrow> js_str \<Rightarrow> js_str \<times> js_str" where
  "split_at c s = (takeWhile (\<lambda>d. d \<noteq> c) s, tl (dropWhile (\<lambda>d. d \<noteq> c) s))"

lemma split_at_append: "c \<notin> set a \<Longrightarrow> split_at c (a @ c # b) = (a, b)"
  by (induction a) (auto simp: split_at_def)

definition pr_text :: "js_str \<Rightarrow> js_str" where
  "pr_text s = nat_to_dec (length s) @ '';'' @ s"

definition rd_text :: "js_str \<Rightarrow> js_str \<times> js_str" where
  "rd_text s = (case split_at (CHR '';'') s of (n, t) \<Rightarrow> (take (dec_value n) t, drop (dec_value n) t))"

lemma is_dec_char_notin: "is_dec s \<Longrightarrow> \<not> is_dec_char c \<Longrightarrow> c \<notin> set s"
  by (auto simp: is_dec_def list_all_iff)

lemma not_dec_chars [simp]: "\<not> is_dec_char (CHR '';'')" "\<not> is_dec_char (CHR ''/'')"
  by (simp_all add: is_dec_char_def dec_val_def)

lemma rd_text_pr [simp]: "rd_text (pr_text s @ rest) = (s, rest)"
proof -
  have "split_at (CHR '';'') (nat_to_dec (length s) @ CHR '';'' # s @ rest) = (nat_to_dec (length s), s @ rest)"
    by (rule split_at_append) (simp add: is_dec_char_notin)
  then show ?thesis by (simp add: rd_text_def pr_text_def)
qed

definition pr_rat :: "rat \<Rightarrow> js_str" where
  "pr_rat r = (case quotient_of r of (a, b) \<Rightarrow> bigint_toString a @ ''/'' @ bigint_toString b @ '';'')"

definition rd_int :: "js_str \<Rightarrow> int" where
  "rd_int s = (case js_BigInt s of Inr n \<Rightarrow> n | Inl _ \<Rightarrow> 0)"

definition rd_rat :: "js_str \<Rightarrow> rat \<times> js_str" where
  "rd_rat s = (case split_at (CHR ''/'') s of (a, t) \<Rightarrow>
     (case split_at (CHR '';'') t of (b, u) \<Rightarrow> (of_int (rd_int a) / of_int (rd_int b), u)))"

lemma bigint_toString_chars:
  "CHR '';'' \<notin> set (bigint_toString n)" "CHR ''/'' \<notin> set (bigint_toString n)"
  by (auto simp: bigint_toString_def is_dec_char_notin)

lemma rd_rat_pr [simp]: "rd_rat (pr_rat r @ rest) = (r, rest)"
proof -
  obtain a b where q: "quotient_of r = (a, b)" by (cases "quotient_of r")
  have "split_at (CHR ''/'') (bigint_toString a @ CHR ''/'' # bigint_toString b @ CHR '';'' # rest) =
      (bigint_toString a, bigint_toString b @ CHR '';'' # rest)"
    "split_at (CHR '';'') (bigint_toString b @ CHR '';'' # rest) = (bigint_toString b, rest)"
    by (rule split_at_append, rule bigint_toString_chars)+
  then have "rd_rat (bigint_toString a @ CHR ''/'' # bigint_toString b @ CHR '';'' # rest) =
      (of_int a / of_int b, rest)"
    by (simp add: rd_rat_def rd_int_def)
  moreover have "pr_rat r @ rest = bigint_toString a @ CHR ''/'' # bigint_toString b @ CHR '';'' # rest"
    by (simp add: pr_rat_def q)
  ultimately show ?thesis using quotient_of_div [OF q] by (simp only:)
qed

fun pr_json :: "json \<Rightarrow> js_str" where
  "pr_json JNull = ''n''"
| "pr_json (JBool b) = (if b then ''t'' else ''f'')"
| "pr_json (JNum n) = (case n of Finite r \<Rightarrow> ''#'' @ pr_rat r | _ \<Rightarrow> ''n'')"
| "pr_json (JStr s) = ''$'' @ pr_text s"
| "pr_json (JArr vs) = ''['' @ concat (map pr_json vs) @ '']''"
| "pr_json (JObj kvs) = ''{'' @ concat (map (\<lambda>kv. '','' @ pr_text (fst kv) @ pr_json (snd kv)) kvs) @ ''}''"

fun rd_json :: "nat \<Rightarrow> js_str \<Rightarrow> (json \<times> js_str) option"
  and rd_list :: "nat \<Rightarrow> js_str \<Rightarrow> (json list \<times> js_str) option"
  and rd_fields :: "nat \<Rightarrow> js_str \<Rightarrow> ((js_str \<times> json) list \<times> js_str) option" where
  "rd_json 0 s = None"
| "rd_json (Suc n) [] = None"
| "rd_json (Suc n) (c # s) =
    (if c = CHR ''n'' then Some (JNull, s)
     else if c = CHR ''t'' then Some (JBool True, s)
     else if c = CHR ''f'' then Some (JBool False, s)
     else if c = CHR ''#'' then (case rd_rat s of (r, u) \<Rightarrow> Some (JNum (Finite r), u))
     else if c = CHR ''$'' then (case rd_text s of (t, u) \<Rightarrow> Some (JStr t, u))
     else if c = CHR ''['' then map_option (\<lambda>(vs, u). (JArr vs, u)) (rd_list n s)
     else if c = CHR ''{'' then map_option (\<lambda>(kvs, u). (JObj kvs, u)) (rd_fields n s)
     else None)"
| "rd_list 0 s = None"
| "rd_list (Suc n) s =
    (if take 1 s = '']'' then Some ([], tl s)
     else (case rd_json n s of None \<Rightarrow> None
       | Some (v, u) \<Rightarrow> map_option (\<lambda>(vs, w). (v # vs, w)) (rd_list n u)))"
| "rd_fields 0 s = None"
| "rd_fields (Suc n) s =
    (if take 1 s = ''}'' then Some ([], tl s)
     else (case rd_text (tl s) of (k, t) \<Rightarrow> (case rd_json n t of None \<Rightarrow> None
       | Some (v, u) \<Rightarrow> map_option (\<lambda>(kvs, w). ((k, v) # kvs, w)) (rd_fields n u))))"

lemma pr_json_head: "pr_json v \<noteq> [] \<and> hd (pr_json v) \<noteq> CHR '']''"
  by (cases v) (auto split: js_number.split)

lemma rd_list_pr:
  assumes "\<And>v n rest. v \<in> set vs \<Longrightarrow> length (pr_json v) \<le> n \<Longrightarrow> rd_json n (pr_json v @ rest) = Some (v, rest)"
    and "length (concat (map pr_json vs)) < n"
  shows "rd_list n (concat (map pr_json vs) @ CHR '']'' # rest) = Some (vs, rest)"
  using assms
proof (induction vs arbitrary: n)
  case Nil
  then show ?case by (cases n) simp_all
next
  case (Cons v vs)
  then obtain m where n: "n = Suc m" by (cases n) simp_all
  have v: "pr_json v \<noteq> []" "hd (pr_json v) \<noteq> CHR '']''" using pr_json_head [of v] by simp_all
  let ?t = "concat (map pr_json vs) @ CHR '']'' # rest"
  have "take 1 (pr_json v @ ?t) \<noteq> '']''" using v by (cases "pr_json v") simp_all
  then have "rd_list n (pr_json v @ ?t) = (case rd_json m (pr_json v @ ?t) of None \<Rightarrow> None
      | Some (v, u) \<Rightarrow> map_option (\<lambda>(vs, w). (v # vs, w)) (rd_list m u))"
    unfolding n rd_list.simps by (rule if_not_P)
  moreover have "rd_json m (pr_json v @ ?t) = Some (v, ?t)" using Cons.prems n by simp
  moreover have "rd_list m ?t = Some (vs, rest)"
  proof (rule Cons.IH)
    show "length (concat (map pr_json vs)) < m"
      using Cons.prems(2) n v(1) by (cases "pr_json v") simp_all
  qed (simp add: Cons.prems(1))
  ultimately have "rd_list n (pr_json v @ ?t) = Some (v # vs, rest)" by simp
  then show ?case by simp
qed

lemma rd_fields_pr:
  fixes kvs :: "(js_str \<times> json) list"
  defines "out \<equiv> \<lambda>kvs. concat (map (\<lambda>kv. '','' @ pr_text (fst kv) @ pr_json (snd kv)) kvs)"
  assumes "\<And>kv n rest. kv \<in> set kvs \<Longrightarrow> length (pr_json (snd kv)) \<le> n \<Longrightarrow>
      rd_json n (pr_json (snd kv) @ rest) = Some (snd kv, rest)"
    and "length (out kvs) < n"
  shows "rd_fields n (out kvs @ CHR ''}'' # rest) = Some (kvs, rest)"
  using assms(2-)
proof (induction kvs arbitrary: n)
  case Nil
  then show ?case by (cases n) (simp_all add: out_def)
next
  case (Cons kv kvs)
  obtain k v where kv: "kv = (k, v)" by (cases kv)
  obtain m where n: "n = Suc m" using Cons.prems by (cases n) simp_all
  have out: "out ((k, v) # kvs) = CHR '','' # pr_text k @ pr_json v @ out kvs" by (simp add: out_def)
  have "rd_json m (pr_json v @ out kvs @ CHR ''}'' # rest) = Some (v, out kvs @ CHR ''}'' # rest)"
    using Cons.prems(1) [of kv] Cons.prems(2) n by (simp add: kv out)
  moreover have "rd_fields m (out kvs @ CHR ''}'' # rest) = Some (kvs, rest)"
    using Cons.prems n by (intro Cons.IH) (simp_all add: kv out)
  ultimately show ?case by (simp add: n out kv)
qed

lemma rd_json_pr:
  assumes "json_plain v" and "length (pr_json v) \<le> n"
  shows "rd_json n (pr_json v @ rest) = Some (v, rest)"
  using assms
proof (induction v arbitrary: n rest)
  case (JArr vs)
  then obtain m where n: "n = Suc m" by (cases n) simp_all
  have "rd_list m (concat (map pr_json vs) @ CHR '']'' # rest) = Some (vs, rest)"
    using JArr n by (intro rd_list_pr) (auto simp: list_all_iff)
  then show ?case by (simp add: n)
next
  case (JObj kvs)
  then obtain m where n: "n = Suc m" by (cases n) simp_all
  have "rd_fields m (concat (map (\<lambda>kv. '','' @ pr_text (fst kv) @ pr_json (snd kv)) kvs) @ CHR ''}'' # rest) =
      Some (kvs, rest)"
    using JObj n by (intro rd_fields_pr) (auto simp: list_all_iff snds.simps intro!: JObj.IH)
  then show ?case by (simp add: n)
next
  case (JNum x)
  then show ?case by (cases n; cases x) simp_all
next
  case JNull
  then show ?case by (cases n) simp_all
next
  case (JBool b)
  then show ?case by (cases n; cases b) simp_all
next
  case (JStr s)
  then show ?case by (cases n) simp_all
qed

definition demo_platform :: platform where
  "demo_platform = \<lparr>buffer_toString = utf8_decode, text_decode = utf8_decode,
     json_parse = (\<lambda>s. case rd_json (length s) s of
       Some (v, []) \<Rightarrow> Inr v | _ \<Rightarrow> Inl (SyntaxError ''Unexpected end of JSON input'')),
     json_stringify = pr_json,
     number_toString = (\<lambda>n. case n of Finite r \<Rightarrow> pr_rat r | _ \<Rightarrow> ''NaN''),
     toISOString = pr_rat\<rparr>"

lemma demo_platform_docs: "utf8_doc demo_platform" "json_doc demo_platform"
proof -
  show "utf8_doc demo_platform" by (simp add: utf8_doc_def demo_platform_def)
  have "rd_json (length (pr_json v)) (pr_json v) = Some (v, [])" if "json_plain v" for v
    using rd_json_pr [OF that order_refl, of "[]"] by simp
  then show "json_doc demo_platform" using pr_json_head by (simp add: json_doc_def demo_platform_def)
qed

end
