(* ===== verification/Release.thy ===== *)
theory Release
  imports Sealed Platform
begin

text \<open>
  The properties of the enclave: what ARM accepts, the invariant of the intents over every
  interleaving, the gate in front of the release, confidentiality, the tick, and the places where
  interleaving or unchecked times break what the comments promise.
\<close>

subsection \<open>A tick without interruption\<close>

definition tick_intent :: "int \<Rightarrow> (js_str \<Rightarrow> int \<Rightarrow> feed_reading option) \<Rightarrow> intent \<Rightarrow> intent" where
  "tick_intent now read i =
    (if in_state i \<noteq> armed then i
     else if in_deadline i \<le> of_int now then expire_intent i
     else if condition_met (in_trigger i) now read then fire_intent now i
     else i)"

lemma describeTrigger_fired:
  assumes "trigger_ok t" and "condition_met t now read" and "of_int now \<le> MAX_DATE"
  shows "\<exists>m. describeTrigger T t = Inr m"
  using assms by (cases t) (auto simp: describeTrigger_def condition_met_def not_less)

lemma tick_entries_exact:
  assumes "distinct (map snd es)" and "\<forall>(c, r) \<in> set es. r < length (heap s) \<and> trigger_ok (in_trigger (deref s r))"
    and "of_int now \<le> MAX_DATE"
  shows "snd (tick_entries T now (\<lambda>t n. isTriggered t n read) es s) = Inr () \<and>
    (\<forall>q. deref (fst (tick_entries T now (\<lambda>t n. isTriggered t n read) es s)) q =
      (if q \<in> snd ` set es then tick_intent now read (deref s q) else deref s q)) \<and>
    intents (fst (tick_entries T now (\<lambda>t n. isTriggered t n read) es s)) = intents s"
  using assms
proof (induction es arbitrary: s)
  case (Cons e es)
  obtain c r where e: "e = (c, r)" by (cases e)
  let ?i = "deref s r" and ?k = "\<lambda>t n. isTriggered t n read"
  have r: "r < length (heap s)" and tr: "trigger_ok (in_trigger ?i)"
    and fresh: "r \<notin> snd ` set es" and dist: "distinct (map snd es)"
    using Cons.prems by (auto simp: e)
  obtain s1 where s1: "fst (tick_entries T now ?k (e # es) s) = fst (tick_entries T now ?k es s1)"
      "snd (tick_entries T now ?k (e # es) s) = snd (tick_entries T now ?k es s1)"
    and s1_deref: "\<And>q. deref s1 q = (if q = r then tick_intent now read ?i else deref s q)"
    and s1_frame: "intents s1 = intents s" "length (heap s1) = length (heap s)"
  proof -
    obtain rd where chk: "isTriggered (in_trigger ?i) now read = Inr (condition_met (in_trigger ?i) now read, rd)"
      using isTriggered_ok [OF tr] by blast
    consider "in_state ?i \<noteq> armed" | "in_state ?i = armed" "in_deadline ?i \<le> of_int now"
      | "in_state ?i = armed" "\<not> in_deadline ?i \<le> of_int now" "\<not> condition_met (in_trigger ?i) now read"
      | "in_state ?i = armed" "\<not> in_deadline ?i \<le> of_int now" "condition_met (in_trigger ?i) now read"
      by blast
    then show thesis
    proof cases
      case 1
      then show thesis by (intro that [of s]) (simp_all add: e tick_intent_def)
    next
      case 2
      with r show thesis
        by (intro that [of "mutate r expire_intent s"]) (simp_all add: e tick_intent_def deref_mutate)
    next
      case 3
      with chk show thesis
        by (intro that [of s]) (simp_all add: e tick_intent_def as_exn_def)
    next
      case 4
      obtain m where "describeTrigger T (in_trigger ?i) = Inr m"
        using describeTrigger_fired [OF tr 4(3) Cons.prems(3)] by blast
      with 4 chk r show thesis
        by (intro that [of "fire now r s"])
          (simp_all add: e tick_intent_def as_exn_def deref_fire Let_def)
    qed
  qed
  have "\<forall>(c, q) \<in> set es. q < length (heap s1) \<and> trigger_ok (in_trigger (deref s1 q))"
  proof clarify
    fix c q assume q: "(c, q) \<in> set es"
    then have "q \<noteq> r" using fresh by (auto intro: rev_image_eqI)
    with q Cons.prems(2) s1_frame(2)
    show "q < length (heap s1) \<and> trigger_ok (in_trigger (deref s1 q))" by (simp add: s1_deref) blast
  qed
  note IH = Cons.IH [OF dist this Cons.prems(3)]
  show ?case
    unfolding s1 using IH fresh s1_frame(1) by (auto simp: s1_deref e)
qed simp

lemma index_refs_distinct:
  assumes "index_ok s"
  shows "distinct (map snd (intents s))"
proof -
  have "inj_on snd (set (intents s))"
  proof (rule inj_onI)
    fix x y assume xy: "x \<in> set (intents s)" "y \<in> set (intents s)" and "snd x = snd y"
    moreover have "\<forall>e \<in> set (intents s). fst e = in_commitment (deref s (snd e))"
      using assms by (auto simp: index_ok_def)
    ultimately show "x = y" by (simp add: prod_eq_iff)
  qed
  moreover have "distinct (intents s)" using assms by (auto simp: index_ok_def distinct_map)
  ultimately show ?thesis by (simp add: distinct_map)
qed

lemma latch_tick_lookup:
  assumes "latch_ok V maxMs s" and "of_int now \<le> MAX_DATE"
  shows "snd (latch_tick T now (\<lambda>t n. isTriggered t n read) s) = Inr ()"
    and "lookup_intent (fst (latch_tick T now (\<lambda>t n. isTriggered t n read) s)) c =
      map_option (tick_intent now read) (lookup_intent s c)"
proof -
  have ix: "index_ok s" using assms(1) by (simp add: latch_ok_def)
  have "\<forall>(c, r) \<in> set (intents s). r < length (heap s) \<and> trigger_ok (in_trigger (deref s r))"
    using assms(1) by (auto simp: latch_ok_def index_ok_def intent_ok_def)
  note ex = tick_entries_exact [OF index_refs_distinct [OF ix] this assms(2), of T read]
  then show "snd (latch_tick T now (\<lambda>t n. isTriggered t n read) s) = Inr ()"
    by (simp add: latch_tick_def)
  have "r \<in> snd ` set (intents s)" if "intents_get s c = Some r" for r
    using that by (auto simp: intents_get_def dest!: map_of_SomeD intro: rev_image_eqI)
  with ex show "lookup_intent (fst (latch_tick T now (\<lambda>t n. isTriggered t n read) s)) c =
      map_option (tick_intent now read) (lookup_intent s c)"
    by (auto simp: latch_tick_def lookup_intent_def intents_get_def option.map_comp comp_def
        intro!: option.map_cong0 split: option.split)
qed

text \<open>The suspended pieces of a tick, resumed one after the other.\<close>

fun resume_all ::
    "platform \<Rightarrow> (trigger \<Rightarrow> int \<Rightarrow> js_error + bool \<times> feed_reading option) \<Rightarrow> nat \<Rightarrow>
     latch \<times> suspended option \<Rightarrow> latch option" where
  "resume_all T check n (s, None) = Some s"
| "resume_all T check 0 (s, Some k) = None"
| "resume_all T check (Suc n) (s, Some k) =
    resume_all T check n (tick_resume T k (check (in_trigger (deref s (tk_wait k))) (tk_now k)) s)"

lemma resume_all_advance:
  assumes "intents s = pre @ es" and "length es \<le> n"
  shows "resume_all T check n (advance now es (length pre) s) = Some (fst (tick_entries T now check es s))"
  using assms
proof (induction es arbitrary: pre s n)
  case (Cons e es)
  obtain c r where e: "e = (c, r)" by (cases e)
  obtain m where n: "n = Suc m" "length es \<le> m" using Cons.prems(2) by (cases n) simp_all
  have IH: "resume_all T check k (advance now es (Suc (length pre)) t) = Some (fst (tick_entries T now check es t))"
    if "intents t = intents s" "length es \<le> k" for t k
    using Cons.IH [of t "pre @ [e]" k] Cons.prems(1) that by simp
  have drop: "drop (Suc (length pre)) (intents t) = es" if "intents t = intents s" for t
    using Cons.prems(1) that by simp
  show ?case
    using Cons.prems(2) n
    by (auto simp: e IH drop tick_resume_def Let_def as_exn_def split: sum.split prod.split)
qed simp

subsection \<open>Requests on the wire\<close>

lemma decodeJson_stringify:
  assumes "utf8_doc T" and "json_doc T" and "json_plain (JObj kvs)"
  shows "decodeJson T (JStr (bytesToHex (utf8_encode (json_stringify T (JObj kvs))))) = Inr (JObj kvs)"
  using json_docD [OF assms(2,3)] utf8_docD [OF assms(1)] by (simp add: decodeJson_def)

definition wire :: "json \<Rightarrow> json" where
  "wire req = JStr (bytesToHex (utf8_encode (json_stringify demo_platform req)))"

lemma decodeJson_wire [simp]: "json_plain (JObj kvs) \<Longrightarrow> decodeJson demo_platform (wire (JObj kvs)) = Inr (JObj kvs)"
  unfolding wire_def by (rule decodeJson_stringify [OF demo_platform_docs])

definition sealed_commitment :: js_str where
  "sealed_commitment = (case demo_keccak ''0xabcd'' of Inr h \<Rightarrow> h | Inl _ \<Rightarrow> [])"

lemma demo_keccak_abcd [simp]: "keccak256 demo_viem ''0xabcd'' = Inr sealed_commitment"
  by (simp add: demo_viem_def sealed_commitment_def demo_keccak_def hex_simps is_hex_char_def hex_val_def)

definition arm_request :: "rat \<Rightarrow> json" where
  "arm_request notBefore = JObj [(''userOpData'', JStr ''0xabcd''),
     (''trigger'', trigger_json (TimeTrigger notBefore)), (''deadline'', JNum (Finite 100))]"

lemma arm_request_valid:
  assumes "0 < n"
  shows "check_arm demo_platform demo_viem MAX_DEADLINE_MS 1 (arm_request n) =
    Inr (Inr (sealed_commitment, ''0xabcd'', TimeTrigger n, 100))"
  using parseTrigger_json [of "TimeTrigger n" demo_platform] assms
  by (simp add: check_arm_iff arm_request_def userOpData_ok_def check_deadline_def MAX_DEADLINE_MS_def
      is_hex_char_def hex_val_def)

lemma arm_request_wire [simp]: "decodeJson demo_platform (wire (arm_request n)) = Inr (arm_request n)"
  unfolding arm_request_def by (rule decodeJson_wire) (simp add: trigger_json_def)

definition demo_ask :: json where
  "demo_ask = JObj [(''commitment'', JStr sealed_commitment)]"

lemma demo_ask_wire [simp]: "decodeJson demo_platform (wire demo_ask) = Inr demo_ask"
  unfolding demo_ask_def by (rule decodeJson_wire) simp

lemma demo_ask_commitment [simp]: "json_get demo_ask ''commitment'' = Some (JStr sealed_commitment)"
  by (simp add: demo_ask_def)

definition demo_latch :: "rat \<Rightarrow> latch" where
  "demo_latch n = armed_state sealed_commitment (new_intent 1 sealed_commitment ''0xabcd'' (TimeTrigger n) 100) resetState"

lemma demo_arm:
  assumes "0 < n" and "n \<le> MAX_DATE"
  shows "handleArm demo_platform demo_viem MAX_DEADLINE_MS 1 (wire (arm_request n)) resetState =
    (demo_latch n, Inr (ok_result demo_platform
      (JObj [(''armed'', JBool True), (''commitment'', JStr sealed_commitment)])))"
  using assms arm_request_valid [OF assms(1)]
  by (simp add: handleArm_def still_armed_def lookup_intent_def intents_get_def resetState_def
      demo_latch_def armed_state_def describeTrigger_def Let_def)

text \<open>A run of the enclave: armed at 1, a tick at 3, fired.\<close>

abbreviation "demo_step \<equiv> enclave_step demo_platform demo_viem MAX_DEADLINE_MS"
abbreviation "demo_runs \<equiv> en.run demo_platform demo_viem MAX_DEADLINE_MS"

definition demo_armed_event :: event where
  "demo_armed_event = Request ARM 1 (wire (arm_request 2)) (Inr (ok_result demo_platform
     (JObj [(''armed'', JBool True), (''commitment'', JStr sealed_commitment)])))"

definition demo_suspended :: suspended where
  "demo_suspended = \<lparr>tk_now = 3, tk_pos = 1, tk_wait = 0\<rparr>"

definition demo_fired :: latch where
  "demo_fired = fire 3 0 (demo_latch 2)"

lemma demo_latch_simps [simp]:
  "intents (demo_latch n) = [(sealed_commitment, 0)]"
  "deref (demo_latch n) 0 = new_intent 1 sealed_commitment ''0xabcd'' (TimeTrigger n) 100"
  "length (heap (demo_latch n)) = 1" "intents_get (demo_latch n) c = (if c = sealed_commitment then Some 0 else None)"
  by (simp_all add: demo_latch_def armed_state_def resetState_def intents_set_def deref_def intents_get_def)

lemma demo_fired_simps [simp]:
  "deref demo_fired 0 = fire_intent 3 (new_intent 1 sealed_commitment ''0xabcd'' (TimeTrigger 2) 100)"
  "intents_get demo_fired c = (if c = sealed_commitment then Some 0 else None)"
  "length (heap demo_fired) = 1"
  by (simp_all add: demo_fired_def deref_fire)

lemma demo_steps:
  "demo_step fresh_enclave demo_armed_event \<lparr>en_latch = demo_latch 2, en_ticks = []\<rparr>"
  "demo_step \<lparr>en_latch = demo_latch 2, en_ticks = []\<rparr> (TickStarted 3)
    \<lparr>en_latch = demo_latch 2, en_ticks = [demo_suspended]\<rparr>"
  "demo_step \<lparr>en_latch = demo_latch 2, en_ticks = [demo_suspended]\<rparr>
    (Decided sealed_commitment (TimeTrigger 2) 3 None) \<lparr>en_latch = demo_fired, en_ticks = []\<rparr>"
proof -
  have "run_command demo_platform demo_viem MAX_DEADLINE_MS 1 ARM (wire (arm_request 2)) (en_latch fresh_enclave) =
      (demo_latch 2, Inr (ok_result demo_platform
        (JObj [(''armed'', JBool True), (''commitment'', JStr sealed_commitment)])))"
    using demo_arm [of 2] by (simp add: fresh_enclave_def MAX_DATE_def)
  from enclave_step.request [OF this]
  show "demo_step fresh_enclave demo_armed_event \<lparr>en_latch = demo_latch 2, en_ticks = []\<rparr>"
    by (simp add: demo_armed_event_def fresh_enclave_def)
  have "tick_start 3 (demo_latch 2) = (demo_latch 2, Some demo_suspended)"
    by (simp add: tick_start_def demo_suspended_def new_intent_def)
  then show "demo_step \<lparr>en_latch = demo_latch 2, en_ticks = []\<rparr> (TickStarted 3)
      \<lparr>en_latch = demo_latch 2, en_ticks = [demo_suspended]\<rparr>"
    using enclave_step.start [of 3 "\<lparr>en_latch = demo_latch 2, en_ticks = []\<rparr>"]
    by (simp add: opt_list_def)
  have "tick_resume demo_platform demo_suspended (Inr (True, None)) (demo_latch 2) = (demo_fired, None)"
    by (simp add: tick_resume_def demo_suspended_def Let_def describeTrigger_def new_intent_def MAX_DATE_def
        demo_fired_def)
  then show "demo_step \<lparr>en_latch = demo_latch 2, en_ticks = [demo_suspended]\<rparr>
      (Decided sealed_commitment (TimeTrigger 2) 3 None) \<lparr>en_latch = demo_fired, en_ticks = []\<rparr>"
    using enclave_step.resume [of "\<lparr>en_latch = demo_latch 2, en_ticks = [demo_suspended]\<rparr>" "[]" demo_suspended "[]"
        "new_intent 1 sealed_commitment ''0xabcd'' (TimeTrigger 2) 100" None "Inr (True, None)" demo_platform demo_fired None]
    by (simp add: demo_suspended_def new_intent_def isTriggered_def opt_list_def)
qed

lemma demo_enclave_run:
  "demo_runs fresh_enclave [demo_armed_event, TickStarted 3, Decided sealed_commitment (TimeTrigger 2) 3 None]
    \<lparr>en_latch = demo_fired, en_ticks = []\<rparr>"
  "demo_runs \<lparr>en_latch = demo_latch 2, en_ticks = []\<rparr> [TickStarted 3, Decided sealed_commitment (TimeTrigger 2) 3 None]
    \<lparr>en_latch = demo_fired, en_ticks = []\<rparr>"
  using demo_steps by (blast intro: en.run_Cons en.run_single)+

subsection \<open>The properties\<close>

text \<open>The requests ARM is meant to accept, and what it takes from them.\<close>

definition arm_valid :: "platform \<Rightarrow> viem \<Rightarrow> int \<Rightarrow> int \<Rightarrow> json \<Rightarrow> js_str \<Rightarrow> js_str \<Rightarrow> trigger \<Rightarrow> rat \<Rightarrow> bool" where
  "arm_valid T V maxMs now req c u t d \<longleftrightarrow>
     as_text (json_get req ''userOpData'') = Some u \<and> userOpData_ok u \<and> keccak256 V u = Inr c \<and>
     (\<forall>claimed. as_text (json_get req ''commitment'') = Some claimed \<longrightarrow>
       js_toLowerCase claimed = js_toLowerCase c) \<and>
     parseTrigger T (json_get req ''trigger'') = Inr (Inr t) \<and>
     as_finite (json_get req ''deadline'') = Some d \<and> of_int now < d \<and> d \<le> of_int (now + maxMs)"

lemma check_arm_valid: "check_arm T V maxMs now req = Inr (Inr (c, u, t, d)) \<longleftrightarrow> arm_valid T V maxMs now req c u t d"
  by (auto simp: check_arm_iff arm_valid_def check_deadline_def split: option.split if_splits)

lemma lookup_armed_other:
  assumes "index_ok s" and "c' \<noteq> c"
  shows "lookup_intent (armed_state c i s) c' = lookup_intent s c'"
  using assms(2) index_okD(1) [OF assms(1), of c']
  by (cases "intents_get s c'") (auto simp: lookup_intent_def armed_state_def latch_simps)

lemma handleArm_valid:
  assumes "decodeJson T msg = Inr req" and "arm_valid T V maxMs now req c u t d"
  shows "fst (handleArm T V maxMs now msg s) =
    (if still_armed (lookup_intent s c) then s else armed_state c (new_intent now c u t d) s)"
  using assms by (simp add: check_arm_valid [symmetric] handleArm_def armed_state_def Let_def)

lemma handleArm_invalid:
  assumes "decodeJson T msg = Inr req" and "\<nexists>c u t d. arm_valid T V maxMs now req c u t d"
  shows "fst (handleArm T V maxMs now msg s) = s" and "\<not> released (snd (handleArm T V maxMs now msg s))"
  using assms unfolding check_arm_valid [symmetric]
  by (auto simp: handleArm_def fail_result_def split: sum.split prod.split)

text \<open>
  (C29) ARM accepts exactly the requests with hexadecimal bytes, no other commitment than their own
  hash, a valid trigger and a deadline in the future but within the ceiling. It stores the bytes
  under their recomputed hash, armed, and leaves every other intent alone; while an intent of that hash
  is armed it changes nothing, and a request it does not accept changes nothing either.
\<close>

theorem latch_arm_exact:
  assumes "decodeJson T msg = Inr req" and "index_ok s"
  shows "(\<forall>c u t d. arm_valid T V maxMs now req c u t d \<longrightarrow>
      (if still_armed (lookup_intent s c) then fst (handleArm T V maxMs now msg s) = s
       else lookup_intent (fst (handleArm T V maxMs now msg s)) c = Some (new_intent now c u t d) \<and>
         armedTotal (fst (handleArm T V maxMs now msg s)) = armedTotal s + 1 \<and>
         (\<forall>c'. c' \<noteq> c \<longrightarrow> lookup_intent (fst (handleArm T V maxMs now msg s)) c' = lookup_intent s c'))) \<and>
    ((\<nexists>c u t d. arm_valid T V maxMs now req c u t d) \<longrightarrow>
      fst (handleArm T V maxMs now msg s) = s \<and> \<not> released (snd (handleArm T V maxMs now msg s)))"
proof (intro conjI allI impI)
  fix c u t d
  assume v: "arm_valid T V maxMs now req c u t d"
  have "lookup_intent (armed_state c i s) c = Some i" for i
    by (simp add: lookup_intent_def armed_state_def latch_simps)
  then show "if still_armed (lookup_intent s c) then fst (handleArm T V maxMs now msg s) = s
       else lookup_intent (fst (handleArm T V maxMs now msg s)) c = Some (new_intent now c u t d) \<and>
         armedTotal (fst (handleArm T V maxMs now msg s)) = armedTotal s + 1 \<and>
         (\<forall>c'. c' \<noteq> c \<longrightarrow> lookup_intent (fst (handleArm T V maxMs now msg s)) c' = lookup_intent s c')"
    by (simp add: handleArm_valid [OF assms(1) v] lookup_armed_other [OF assms(2)])
      (simp add: armed_state_def)
qed (simp_all add: handleArm_invalid [OF assms(1)])

theorem latch_arm_exact_witness:
  "lookup_intent (fst (handleArm demo_platform demo_viem MAX_DEADLINE_MS 1 (wire (arm_request 2)) resetState))
    sealed_commitment = Some (new_intent 1 sealed_commitment ''0xabcd'' (TimeTrigger 2) 100)"
proof -
  have ix: "index_ok resetState" by (simp add: index_ok_def resetState_def)
  have "\<not> still_armed (lookup_intent resetState sealed_commitment)"
    by (simp add: still_armed_def lookup_intent_def intents_get_def resetState_def)
  moreover have "arm_valid demo_platform demo_viem MAX_DEADLINE_MS 1 (arm_request 2)
      sealed_commitment ''0xabcd'' (TimeTrigger 2) 100"
    using arm_request_valid [of 2] by (simp add: check_arm_valid)
  ultimately show ?thesis
    using latch_arm_exact [OF arm_request_wire ix, of demo_viem MAX_DEADLINE_MS 1] by simp
qed

text \<open>What holds of an intent found in an enclave that satisfies the invariant.\<close>

lemma lookup_intent_ok:
  assumes "enclave_ok V maxMs e" and "lookup_intent (en_latch e) c = Some i"
  shows "intent_ok V maxMs i" and "in_commitment i = c"
proof -
  obtain r where r: "intents_get (en_latch e) c = Some r" and i: "i = deref (en_latch e) r"
    using assms(2) by (auto simp: lookup_intent_def)
  have ix: "index_ok (en_latch e)" using assms(1) by (simp add: enclave_ok_def latch_ok_def)
  from index_okD [OF ix r] assms(1) show "intent_ok V maxMs i" and "in_commitment i = c"
    by (simp_all add: i enclave_ok_def latch_ok_def)
qed

text \<open>
  (C26) In every interleaving of commands and ticks, an intent the enclave holds is filed under its own
  commitment; its bytes hash to that commitment or have been dropped, and they have been dropped once it
  is cancelled or expired; while it is armed it has its bytes; it fired before its deadline if it fired;
  its deadline is no further from its arming than the ceiling allows; and its trigger is a feed of 21
  bytes with a decimal price, or a time after 1970.
\<close>

theorem latch_intents_invariant:
  assumes "en.run T V maxMs fresh_enclave ls e" and "lookup_intent (en_latch e) c = Some i"
  shows "in_commitment i = c \<and>
    (in_userOpData i = ''0x'' \<or> keccak256 V (in_userOpData i) = Inr c) \<and>
    (if in_state i = cancelled \<or> in_state i = expired then in_userOpData i = ''0x''
     else if in_state i = armed then userOpData_ok (in_userOpData i) \<and> in_firedAt i = None
     else \<exists>now. in_firedAt i = Some now \<and> of_int now < in_deadline i) \<and>
    of_int (in_armedAt i) < in_deadline i \<and> in_deadline i \<le> of_int (in_armedAt i + maxMs) \<and>
    (case in_trigger i of
       PriceTrigger feedId p v \<Rightarrow> hex_string feedId \<and> length feedId = 44 \<and> is_dec v
     | TimeTrigger notBefore \<Rightarrow> 0 < notBefore)"
proof -
  have "enclave_ok V maxMs e" using en.inv_run [OF assms(1)] by simp
  from lookup_intent_ok [OF this assms(2)] show ?thesis
    by (cases "in_state i"; cases "in_trigger i") (auto simp: intent_ok_def feed_id_ok_def)
qed

theorem latch_intents_invariant_witness:
  "demo_runs fresh_enclave [demo_armed_event, TickStarted 3, Decided sealed_commitment (TimeTrigger 2) 3 None]
    \<lparr>en_latch = demo_fired, en_ticks = []\<rparr> \<and>
   of_int 3 < in_deadline (deref demo_fired 0)"
  using latch_intents_invariant [OF demo_enclave_run(1), of sealed_commitment "deref demo_fired 0"]
  by (simp add: demo_enclave_run lookup_intent_def fire_intent_def new_intent_def)

text \<open>The intent a COLLECT answers for.\<close>

lemma handleCollect_released:
  assumes "released (snd (handleCollect T msg s))"
  obtains req c r where "decodeJson T msg = Inr req" "as_text (json_get req ''commitment'') = Some c"
    "intents_get s c = Some r" "in_state (deref s r) \<notin> {armed, cancelled, expired}"
    "handleCollect T msg s = (mutate r collect_intent s, Inr (ok_result T (collect_payload (deref s r))))"
proof (cases "decodeJson T msg")
  case (Inr req)
  show ?thesis
  proof (cases "as_text (json_get req ''commitment'')")
    case (Some c)
    show ?thesis
    proof (cases "intents_get s c")
      case r: (Some r)
      have "in_state (deref s r) \<notin> {armed, cancelled, expired}"
        using assms Inr Some r by (auto simp: handleCollect_def Let_def fail_result_def)
      then show ?thesis
        using Inr Some r by (intro that [of req c r]) (auto simp: handleCollect_def Let_def)
    qed (use assms Inr Some in \<open>simp add: handleCollect_def fail_result_def\<close>)
  qed (use assms Inr in \<open>simp add: handleCollect_def fail_result_def\<close>)
qed (use assms in \<open>simp add: handleCollect_def fail_result_def\<close>)

text \<open>
  (C4) The gate. In every interleaving of commands and ticks, whenever COLLECT answers with bytes, the
  intent it answers for was decided before by a tick: its own trigger was met by the price read then, or
  by that tick's clock, before its deadline. What is handed out are bytes of the commitment asked for,
  or nothing.
\<close>

theorem latch_release_gate:
  assumes "en.run T V maxMs fresh_enclave ls e" and "released (snd (handleCollect T msg (en_latch e)))"
  shows "\<exists>req c i now reading. decodeJson T msg = Inr req \<and>
    as_text (json_get req ''commitment'') = Some c \<and> lookup_intent (en_latch e) c = Some i \<and>
    snd (handleCollect T msg (en_latch e)) = Inr (ok_result T (collect_payload i)) \<and>
    Decided c (in_trigger i) now reading \<in> set ls \<and>
    condition_met (in_trigger i) now (\<lambda>_ _. reading) \<and> of_int now < in_deadline i \<and>
    (in_userOpData i = ''0x'' \<or> keccak256 V (in_userOpData i) = Inr c)"
proof -
  from assms(2) obtain req c r where d: "decodeJson T msg = Inr req"
    and c: "as_text (json_get req ''commitment'') = Some c"
    and r: "intents_get (en_latch e) c = Some r"
    and st: "in_state (deref (en_latch e) r) \<notin> {armed, cancelled, expired}"
    and res: "handleCollect T msg (en_latch e) =
      (mutate r collect_intent (en_latch e), Inr (ok_result T (collect_payload (deref (en_latch e) r))))"
    by (rule handleCollect_released)
  let ?i = "deref (en_latch e) r"
  have ok: "enclave_ok V maxMs e" using en.inv_run [OF assms(1)] by simp
  have look: "lookup_intent (en_latch e) c = Some ?i" by (simp add: lookup_intent_def r)
  note i = lookup_intent_ok [OF ok look]
  from st have "in_state ?i = fired \<or> in_state ?i = collected" by (cases "in_state ?i") simp_all
  with i obtain now where now: "in_firedAt ?i = Some now" "of_int now < in_deadline ?i"
    by (auto simp: intent_ok_def)
  have "firings_recorded ls e"
    by (rule en.hist_run [OF assms(1)])
      (simp, simp add: firings_recorded_def fresh_enclave_def resetState_def)
  moreover have "r < length (heap (en_latch e))"
    using ok r by (simp add: enclave_ok_def latch_ok_def index_okD(1))
  ultimately obtain l where l: "l \<in> set ls" "decided_fire l c (in_trigger ?i) now"
    using now(1) i(2) unfolding firings_recorded_def by blast
  from l(2) obtain reading where "l = Decided c (in_trigger ?i) now reading"
    "condition_met (in_trigger ?i) now (\<lambda>_ _. reading)"
    by (cases l) auto
  moreover have "in_userOpData ?i = ''0x'' \<or> keccak256 V (in_userOpData ?i) = Inr c"
    using i by (auto simp: intent_ok_def)
  ultimately show ?thesis using d c look res now(2) l(1) by auto
qed

theorem latch_release_gate_witness:
  "snd (handleCollect demo_platform (wire demo_ask) demo_fired) =
    Inr (ok_result demo_platform (collect_payload (deref demo_fired 0)))"
proof -
  have "released (snd (handleCollect demo_platform (wire demo_ask) demo_fired))"
    by (simp add: handleCollect_def Let_def fire_intent_def new_intent_def ok_result_def)
  with latch_release_gate [OF demo_enclave_run(1), of "wire demo_ask"]
  obtain c i where "sealed_commitment = c" "lookup_intent demo_fired c = Some i"
    "snd (handleCollect demo_platform (wire demo_ask) demo_fired) = Inr (ok_result demo_platform (collect_payload i))"
    by auto
  then show ?thesis by (auto simp: lookup_intent_def)
qed

text \<open>
  (C5) The enclave keeps its secrets: two enclaves that differ only in the bytes of the intents under
  some commitments answer every sequence of commands and ticks alike, down to the reply and to the state
  report, in which no COLLECT hands out the bytes under one of those commitments, and they go on
  differing in those bytes only. Other intents may be armed, fired and collected meanwhile.
\<close>

theorem latch_confidential:
  assumes "en.run T V maxMs e ls f" and "enclave_ok V maxMs e" and "list_all (seals T D) ls"
    and "same_public D (en_latch e) (en_latch e')" and "en_ticks e = en_ticks e'"
  shows "\<exists>f'. en.run T V maxMs e' ls f' \<and> same_public D (en_latch f) (en_latch f') \<and>
    reportState (en_latch f) = reportState (en_latch f')"
proof -
  have "same_view D V maxMs e e'" using assms by (simp add: same_view_def)
  from sealed.rel_run [OF assms(1) this assms(3)] obtain f'
    where f': "en.run T V maxMs e' ls f'" "same_view D V maxMs f f'" by blast
  then have "same_public D (en_latch f) (en_latch f')" "index_ok (en_latch f)"
    by (simp_all add: same_view_def enclave_ok_def latch_ok_def)
  with f'(1) show ?thesis using reportState_public by blast
qed

definition other_latch :: latch where
  "other_latch = armed_state sealed_commitment (new_intent 1 sealed_commitment ''0xabcdef'' (TimeTrigger 2) 100) resetState"

theorem latch_confidential_witness:
  "\<exists>f'. demo_runs \<lparr>en_latch = other_latch, en_ticks = []\<rparr>
      [TickStarted 3, Decided sealed_commitment (TimeTrigger 2) 3 None] f' \<and>
    reportState demo_fired = reportState (en_latch f')"
proof -
  have "enclave_ok demo_viem MAX_DEADLINE_MS \<lparr>en_latch = demo_latch 2, en_ticks = []\<rparr>"
    using enclave_step_ok(1) [OF demo_steps(1)] by simp
  moreover have "same_public {sealed_commitment} (demo_latch 2) other_latch"
    by (simp add: same_public_def demo_latch_def other_latch_def armed_state_def intents_set_def
        resetState_def blank_intent_def new_intent_def)
  ultimately show ?thesis
    using latch_confidential [OF demo_enclave_run(2), where D = "{sealed_commitment}"
      and e' = "\<lparr>en_latch = other_latch, en_ticks = []\<rparr>"] by auto
qed

text \<open>
  (C27) A tick that is not interrupted ends normally and does to every intent exactly this: an armed
  one past its deadline expires and loses its bytes, whatever the price; an armed one whose condition
  is met by the price that was read, or by the clock, fires; every other one stays as it is. In
  particular a price that cannot be read fires nothing.
\<close>

theorem latch_tick_exact:
  assumes "latch_ok V maxMs s" and "of_int now \<le> MAX_DATE"
  shows "snd (latch_tick T now (\<lambda>t n. isTriggered t n read) s) = Inr () \<and>
    (\<forall>c. lookup_intent (fst (latch_tick T now (\<lambda>t n. isTriggered t n read) s)) c =
      (case lookup_intent s c of None \<Rightarrow> None
       | Some i \<Rightarrow> Some
          (if in_state i \<noteq> armed then i
           else if in_deadline i \<le> of_int now then i\<lparr>in_state := expired, in_userOpData := ''0x''\<rparr>
           else if (case in_trigger i of
                TimeTrigger n \<Rightarrow> n \<le> of_int now
              | PriceTrigger feedId op v \<Rightarrow>
                 (case read feedId now of None \<Rightarrow> False
                  | Some r \<Rightarrow> compare_prices op (fr_value r) (int (dec_value v))))
           then i\<lparr>in_state := fired, in_firedAt := Some now\<rparr> else i)))"
  using latch_tick_lookup [OF assms, of T read]
  by (simp add: tick_intent_def intent_updates condition_met_def split: option.split)

lemma demo_latch_ok: "latch_ok demo_viem MAX_DEADLINE_MS (demo_latch 2)"
  using enclave_step_ok(1) [OF demo_steps(1) fresh_enclave_ok] by (simp add: enclave_ok_def)

theorem latch_tick_exact_witness:
  "map_option in_state (lookup_intent (fst (latch_tick demo_platform 3
    (\<lambda>t n. isTriggered t n (\<lambda>_ _. None)) (demo_latch 2))) sealed_commitment) = Some fired"
  using latch_tick_exact [OF demo_latch_ok, of 3 demo_platform "\<lambda>_ _. None"]
  by (simp add: MAX_DATE_def lookup_intent_def new_intent_def)

text \<open>
  The loop the tests step and the pieces the server interleaves are the same program: starting a
  tick and resuming it after each decision, with nothing in between, comes to the state of the loop,
  within as many resumptions as there are intents.
\<close>

theorem latch_tick_uninterrupted:
  "resume_all T check (length (intents s)) (tick_start now s) = Some (fst (latch_tick T now check s))"
  using resume_all_advance [of s "[]" "intents s" "length (intents s)" T check now]
  by (simp add: tick_start_def latch_tick_def)

text \<open>
  A release is repeatable: after a COLLECT that answered with bytes, the same COLLECT answers with
  the same bytes, and once is all it changes.
\<close>

theorem latch_collect_repeats:
  assumes "index_ok s" and "released (snd (handleCollect T msg s))"
  shows "handleCollect T msg (fst (handleCollect T msg s)) = handleCollect T msg s"
proof -
  from assms(2) obtain req c r where d: "decodeJson T msg = Inr req"
    and c: "as_text (json_get req ''commitment'') = Some c"
    and r: "intents_get s c = Some r"
    and res: "handleCollect T msg s =
      (mutate r collect_intent s, Inr (ok_result T (collect_payload (deref s r))))"
    by (rule handleCollect_released)
  have r': "r < length (heap s)" by (rule index_okD(1) [OF assms(1) r])
  then have i: "deref (mutate r collect_intent s) r = collect_intent (deref s r)"
    by (simp add: deref_mutate)
  have "mutate r collect_intent (mutate r collect_intent s) = mutate r collect_intent s"
    using r' by (simp add: mutate_def collect_intent_def)
  moreover have "collect_payload (collect_intent (deref s r)) = collect_payload (deref s r)"
    by (simp add: collect_payload_def collect_intent_def)
  ultimately show ?thesis
    unfolding res fst_conv by (simp add: handleCollect_def d c r i) (simp add: collect_intent_def)
qed

lemma demo_collect_released: "released (snd (handleCollect demo_platform (wire demo_ask) demo_fired))"
  by (simp add: handleCollect_def Let_def fire_intent_def new_intent_def ok_result_def)

lemma demo_fired_index: "index_ok demo_fired"
  using en.inv_run [OF demo_enclave_run(1) fresh_enclave_ok] by (simp add: enclave_ok_def latch_ok_def)

theorem latch_collect_repeats_witness:
  "released (snd (handleCollect demo_platform (wire demo_ask)
    (fst (handleCollect demo_platform (wire demo_ask) demo_fired))))"
  using latch_collect_repeats [OF demo_fired_index demo_collect_released] demo_collect_released by simp

text \<open>An intent that is not armed is passed over.\<close>

lemma advance_passes:
  assumes "in_state (deref s q) \<noteq> armed" and "\<forall>(c, r) \<in> set es. r < length (heap s)"
  shows "deref (fst (advance now es pos s)) q = deref s q"
  using assms
proof (induction now es pos s rule: advance.induct)
  case (2 now c r rest pos s)
  then show ?case by (cases "r = q") (auto simp: deref_mutate)
qed simp

lemma tick_resume_fired:
  assumes "tk_wait k < length (heap s)" and "index_ok s" and "of_int (tk_now k) < in_deadline (deref s (tk_wait k))"
  shows "deref (fst (tick_resume T k (Inr (True, rd)) s)) (tk_wait k) = fire_intent (tk_now k) (deref s (tk_wait k))"
proof -
  let ?f = "fire (tk_now k) (tk_wait k) s"
  have f: "deref ?f (tk_wait k) = fire_intent (tk_now k) (deref s (tk_wait k))"
    by (simp add: deref_fire assms(1))
  have "index_ok ?f" by (rule fire_index_ok [OF evolves_fire [OF assms(1,3)] assms(2)])
  from advance_passes [OF _ index_ok_refs_drop [OF this], of "tk_wait k" "tk_now k" "tk_pos k" "tk_pos k"] f
  show ?thesis by (auto simp: tick_resume_def Let_def fire_intent_def split: sum.split)
qed

text \<open>
  (C28) Revocation is not final while a price is being read: when a tick awaits its decision about an
  intent, a CANCEL that arrives is accepted and drops the bytes, and the decision still fires the
  intent, so that a COLLECT is answered as if the operation had been released.
\<close>

theorem latch_cancel_overtaken:
  assumes "enclave_ok V maxMs \<lparr>en_latch = s, en_ticks = [k]\<rparr>"
    and "decodeJson T msg = Inr req" and "as_text (json_get req ''commitment'') = Some c"
    and "intents_get s c = Some (tk_wait k)" and "in_state (deref s (tk_wait k)) = armed"
    and "condition_met (in_trigger (deref s (tk_wait k))) (tk_now k) (\<lambda>_ _. reading)"
  shows "\<exists>s1 s2 w. enclave_step T V maxMs \<lparr>en_latch = s, en_ticks = [k]\<rparr>
      (Request CANCEL now msg (Inr (ok_result T (JObj [(''cancelled'', JBool True), (''commitment'', JStr c)]))))
      \<lparr>en_latch = s1, en_ticks = [k]\<rparr> \<and>
    map_option in_state (lookup_intent s1 c) = Some cancelled \<and>
    enclave_step T V maxMs \<lparr>en_latch = s1, en_ticks = [k]\<rparr>
      (Decided c (in_trigger (deref s (tk_wait k))) (tk_now k) reading)
      \<lparr>en_latch = s2, en_ticks = w\<rparr> \<and>
    (\<exists>payload. snd (handleCollect T msg s2) = Inr (ok_result T (JObj [(''userOpData'', JStr ''0x''), payload])))"
proof -
  let ?r = "tk_wait k" and ?i = "deref s (tk_wait k)"
  let ?s1 = "mutate ?r cancel_intent s"
  have ix: "index_ok s" and k: "suspended_ok s k"
    using assms(1) by (simp_all add: enclave_ok_def latch_ok_def)
  have len: "?r < length (heap s)" by (rule index_okD(1) [OF ix assms(4)])
  have com: "in_commitment ?i = c" by (rule index_okD(2) [OF ix assms(4)])
  have tr: "trigger_ok (in_trigger ?i)"
    using assms(1) len by (simp add: enclave_ok_def latch_ok_def intent_ok_def)
  have i1: "deref ?s1 ?r = cancel_intent ?i" by (simp add: deref_mutate len)
  have "run_command T V maxMs now CANCEL msg s =
      (?s1, Inr (ok_result T (JObj [(''cancelled'', JBool True), (''commitment'', JStr c)])))"
    using assms(2-5) by (simp add: handleCancel_def)
  then have one: "enclave_step T V maxMs \<lparr>en_latch = s, en_ticks = [k]\<rparr>
      (Request CANCEL now msg (Inr (ok_result T (JObj [(''cancelled'', JBool True), (''commitment'', JStr c)]))))
      \<lparr>en_latch = ?s1, en_ticks = [k]\<rparr>"
    using enclave_step.request [of T V maxMs now CANCEL msg "\<lparr>en_latch = s, en_ticks = [k]\<rparr>"] by simp
  obtain rd where dec: "isTriggered (in_trigger ?i) (tk_now k) (\<lambda>_ _. reading) = Inr (True, rd)"
    using isTriggered_ok [OF tr, of "tk_now k" "\<lambda>_ _. reading"] assms(6) by auto
  define s2 where "s2 = fst (tick_resume T k (Inr (True, rd)) ?s1)"
  define w where "w = snd (tick_resume T k (Inr (True, rd)) ?s1)"
  have two: "enclave_step T V maxMs \<lparr>en_latch = ?s1, en_ticks = [k]\<rparr>
      (Decided c (in_trigger ?i) (tk_now k) reading) \<lparr>en_latch = s2, en_ticks = opt_list w\<rparr>"
    using enclave_step.resume [of "\<lparr>en_latch = ?s1, en_ticks = [k]\<rparr>" "[]" k "[]" "cancel_intent ?i" reading
        "Inr (True, rd)" T s2 w V maxMs] i1 dec com
    by (simp add: cancel_intent_def s2_def w_def)
  have ix1: "index_ok ?s1"
    by (rule index_ok_evolves [OF _ _ ix]) (simp_all add: evolves_mutate len step_cancel assms(5))
  have fired: "deref s2 ?r = fire_intent (tk_now k) (cancel_intent ?i)" and get: "intents_get s2 c = Some ?r"
    using tick_resume_fired [of k ?s1 T rd] len ix1 k assms(4)
    by (simp_all add: s2_def i1 intents_get_def suspended_ok_def cancel_intent_def)
  have "snd (handleCollect T msg s2) = Inr (ok_result T (JObj [(''userOpData'', JStr ''0x''),
      (''firedAt'', json_int (tk_now k))]))"
    using assms(2,3) by (simp add: handleCollect_def get fired intent_updates collect_payload_def)
  moreover have "map_option in_state (lookup_intent ?s1 c) = Some cancelled"
    using assms(4) i1 by (simp add: lookup_intent_def cancel_intent_def)
  ultimately show ?thesis using one two by blast
qed

theorem latch_cancel_overtaken_witness:
  "\<exists>s1 s2 w payload. demo_step \<lparr>en_latch = demo_latch 2, en_ticks = [demo_suspended]\<rparr>
      (Request CANCEL 4 (wire demo_ask) (Inr (ok_result demo_platform
        (JObj [(''cancelled'', JBool True), (''commitment'', JStr sealed_commitment)]))))
      \<lparr>en_latch = s1, en_ticks = [demo_suspended]\<rparr> \<and>
    demo_step \<lparr>en_latch = s1, en_ticks = [demo_suspended]\<rparr>
      (Decided sealed_commitment (TimeTrigger 2) 3 None) \<lparr>en_latch = s2, en_ticks = w\<rparr> \<and>
    snd (handleCollect demo_platform (wire demo_ask) s2) =
      Inr (ok_result demo_platform (JObj [(''userOpData'', JStr ''0x''), payload]))"
proof -
  have "enclave_ok demo_viem MAX_DEADLINE_MS \<lparr>en_latch = demo_latch 2, en_ticks = [demo_suspended]\<rparr>"
    using enclave_step_ok(1) [OF demo_steps(2)] enclave_step_ok(1) [OF demo_steps(1) fresh_enclave_ok] by simp
  from latch_cancel_overtaken [OF this demo_ask_wire, of sealed_commitment None 4] show ?thesis
    by (auto simp: demo_suspended_def new_intent_def condition_met_def)
qed

text \<open>
  A time no date can hold crashes the handler: an otherwise valid ARM whose instant lies outside the
  range of dates throws a \<open>RangeError\<close> instead of answering, after the intent has been stored.
\<close>

theorem latch_arm_throws:
  assumes "decodeJson T msg = Inr req" and "arm_valid T V maxMs now req c u (TimeTrigger n) d"
    and "\<not> still_armed (lookup_intent s c)" and "MAX_DATE < n"
  shows "snd (handleArm T V maxMs now msg s) = Inl (RangeError ''Invalid time value'') \<and>
    map_option in_state (lookup_intent (fst (handleArm T V maxMs now msg s)) c) = Some armed"
  using assms
  by (simp add: check_arm_valid [symmetric] handleArm_def Let_def describeTrigger_def err_simps
      lookup_intent_def latch_simps new_intent_def)

theorem latch_arm_throws_witness:
  "snd (handleArm demo_platform demo_viem MAX_DEADLINE_MS 1 (wire (arm_request 10000000000000000)) resetState) =
    Inl (RangeError ''Invalid time value'')"
proof -
  have "arm_valid demo_platform demo_viem MAX_DEADLINE_MS 1 (arm_request 10000000000000000)
      sealed_commitment ''0xabcd'' (TimeTrigger 10000000000000000) 100"
    using arm_request_valid [of 10000000000000000] by (simp add: check_arm_valid)
  moreover have "\<not> still_armed (lookup_intent resetState sealed_commitment)"
    by (simp add: still_armed_def lookup_intent_def intents_get_def resetState_def)
  ultimately show ?thesis
    using latch_arm_throws [OF arm_request_wire] by (simp add: MAX_DATE_def)
qed

end
