(* ===== verification/Extension.thy ===== *)
theory Extension
  imports Server Release
begin

text \<open>
  The enclave put together: the table of handlers of \<open>app/handlers.ts\<close>, the identifiers of
  \<open>app/config.ts\<close>, and the in-process client of \<open>packages/executor/src/latch.ts\<close> that drives the real
  server for the demo page.
\<close>

subsection \<open>Configuration and registration\<close>

definition VERSION :: js_str where
  "VERSION = ''0.1.0''"

definition OP_TYPE_LATCH :: js_str where
  "OP_TYPE_LATCH = ''LATCH''"

fun op_command :: "command \<Rightarrow> js_str" where
  "op_command ARM = ''ARM''"
| "op_command STATUS = ''STATUS''"
| "op_command CANCEL = ''CANCEL''"
| "op_command COLLECT = ''COLLECT''"

definition latch_register :: "exn + command framework" where
  "latch_register =
    bind_err (framework_handle OP_TYPE_LATCH (op_command ARM) ARM []) (\<lambda>f.
    bind_err (framework_handle OP_TYPE_LATCH (op_command STATUS) STATUS f) (\<lambda>f.
    bind_err (framework_handle OP_TYPE_LATCH (op_command CANCEL) CANCEL f) (\<lambda>f.
    framework_handle OP_TYPE_LATCH (op_command COLLECT) COLLECT f)))"

definition enclave_server :: "exn + command server" where
  "enclave_server = new_Server VERSION latch_register"

text \<open>The bytes an identifier stands for.\<close>

definition bytes32_of :: "js_str \<Rightarrow> js_str" where
  "bytes32_of s = bytesToHex (utf8_encode s @ replicate (32 - length (utf8_encode s)) 0)"

lemma op_fits: "fits_bytes32 OP_TYPE_LATCH" "fits_bytes32 (op_command c)" "fits_bytes32 VERSION"
  by (cases c; simp add: fits_bytes32_def OP_TYPE_LATCH_def VERSION_def utf8_encode_def utf8_char_def)+

lemma bytes32_of_ok: "fits_bytes32 s \<Longrightarrow> stringToBytes32Hex s = Inr (bytes32_of s)"
  by (simp add: stringToBytes32Hex_ok bytes32_of_def)

definition latch_table :: "command framework" where
  "latch_table = map (\<lambda>c. (bytes32_of OP_TYPE_LATCH, bytes32_of (op_command c), c)) [ARM, STATUS, CANCEL, COLLECT]"

lemma latch_register_eq: "latch_register = Inr latch_table"
  by (simp add: latch_register_def framework_handle_def bytes32_of_ok op_fits latch_table_def
      del: op_command.simps)

lemma enclave_server_eq: "enclave_server =
    Inr \<lparr>sv_version = VERSION, sv_stateVersionHex = bytes32_of VERSION, sv_framework = latch_table\<rparr>"
  by (simp add: enclave_server_def new_Server_def latch_register_eq bytes32_of_ok op_fits)

lemma op_command_bytes_inj: "bytes32_of (op_command c) = bytes32_of (op_command d) \<longleftrightarrow> c = d"
  by (cases c; cases d; simp add: bytes32_of_def utf8_encode_def utf8_char_def)

lemma op_command_not_empty: "bytes32_of (op_command c) \<noteq> EMPTY_BYTES32"
proof -
  have "replicate 32 (0 :: byte) = 0 # replicate 31 0" by (simp flip: replicate_Suc)
  moreover obtain b bs where "utf8_encode (op_command c) = b # bs" "b \<noteq> 0"
    by (cases c) (simp_all add: utf8_encode_def utf8_char_def)
  ultimately show ?thesis by (simp add: bytes32_of_def EMPTY_BYTES32_def)
qed

text \<open>Dispatch: the identifiers of a command find its handler, in any spelling of their letters.\<close>

lemma latch_lookup:
  assumes "js_toLowerCase t = js_toLowerCase (bytes32_of OP_TYPE_LATCH)"
    and "js_toLowerCase c = js_toLowerCase (bytes32_of (op_command cmd))"
  shows "lookup (Some (JStr t)) (Some (JStr c)) latch_table = Inr (Some cmd)"
proof -
  have "normalize (Some (JStr t)) = Inr (bytes32_of OP_TYPE_LATCH)"
    "normalize (Some (JStr c)) = Inr (bytes32_of (op_command cmd))"
    using normalize_case [OF assms(1)] normalize_case [OF assms(2)]
      normalize_bytes32(1) [OF bytes32_of_ok [OF op_fits(1)]]
      normalize_bytes32(1) [OF bytes32_of_ok [OF op_fits(2)]] by simp_all
  moreover have "distinct (map (\<lambda>(t, c, h). (t, c)) latch_table)"
    by (simp add: latch_table_def op_command_bytes_inj del: op_command.simps)
  moreover have "(t, EMPTY_BYTES32, h) \<notin> set latch_table" for t h
    by (simp add: latch_table_def op_command_not_empty [symmetric] del: op_command.simps)
  ultimately have "lookup (Some (JStr t)) (Some (JStr c)) latch_table = Inr (Some cmd) \<longleftrightarrow>
      (bytes32_of OP_TYPE_LATCH, bytes32_of (op_command cmd), cmd) \<in> set latch_table"
    by (intro lookup_table)
  then show ?thesis by (cases cmd) (simp_all add: latch_table_def del: op_command.simps)
qed

definition latch_handlers ::
    "platform \<Rightarrow> viem \<Rightarrow> int \<Rightarrow> int \<Rightarrow> (command, latch) handlers" where
  "latch_handlers T V maxMs now = run_command T V maxMs now"

subsection \<open>The in-process client\<close>

definition feedId :: "js_str \<Rightarrow> js_str" where
  "feedId symbol = ''0x01'' @ js_padEnd 40 (CHR ''0'') (bytes_hex (utf8_encode symbol))"

record latch_reply =
  lr_status :: int
  lr_ok :: bool
  lr_log :: js_str
  lr_payload :: json

record latch_client =
  lc_server :: "command server"
  lc_timer :: bool
  lc_seq :: nat

definition new_Latch :: "exn + latch_client" where
  "new_Latch = bind_err enclave_server (\<lambda>sv. Inr \<lparr>lc_server = sv, lc_timer = False, lc_seq = 0\<rparr>)"

definition latch_start :: "latch_client \<Rightarrow> latch_client" where
  "latch_start x = (if lc_timer x then x else x\<lparr>lc_timer := True\<rparr>)"

definition latch_stop :: "latch_client \<Rightarrow> latch_client" where
  "latch_stop x = x\<lparr>lc_timer := False\<rparr>"

text \<open>\<open>tickNow\<close>: one tick with the current time and the price feed behind \<open>net\<close>.\<close>

definition latch_tickNow :: "platform \<Rightarrow> (json \<Rightarrow> exn + json) \<Rightarrow> int \<Rightarrow> latch \<Rightarrow> latch \<times> (exn + unit)" where
  "latch_tickNow T net now s = latch_tick T now (\<lambda>t n. isTriggered t n (readFeed net)) s"

definition latch_feed :: "(json \<Rightarrow> exn + json) \<Rightarrow> int \<Rightarrow> js_str \<Rightarrow> (js_str \<times> int \<times> int) option" where
  "latch_feed net now i = map_option
     (\<lambda>r. (bigint_toString (fr_value r), fr_decimals r, fr_timestamp r)) (readFeed net i now)"

definition data_fixed :: "int \<Rightarrow> js_str \<Rightarrow> js_str \<Rightarrow> js_str \<Rightarrow> bytes \<Rightarrow> json" where
  "data_fixed now i t c original = JObj
    [(''instructionId'', JStr i), (''teeId'', JStr (''0x'' @ concat (replicate 20 ''22''))),
     (''timestamp'', json_int (now div 1000)), (''rewardEpochId'', json_int 0),
     (''opType'', JStr t), (''opCommand'', JStr c), (''cosigners'', JArr []),
     (''cosignersThreshold'', json_int 0), (''originalMessage'', JStr (bytesToHex original)),
     (''additionalFixedMessage'', JStr ''0x'')]"

definition action_envelope :: "js_str \<Rightarrow> bytes \<Rightarrow> json" where
  "action_envelope i message = JObj
    [(''data'', JObj [(''id'', JStr i), (''type'', JStr ''instruction''), (''submissionTag'', JStr ''submit''),
        (''message'', JStr (bytesToHex message))]),
     (''additionalVariableMessages'', JArr []), (''timestamps'', JArr []),
     (''additionalActionData'', JStr ''0x''), (''signatures'', JArr [])]"

definition action_id :: "nat \<Rightarrow> js_str" where
  "action_id n = ''0x'' @ js_padStart 64 (CHR ''0'') (to_string16 n)"

text \<open>\<open>String(r["log"] ?? "")\<close>.\<close>

definition read_reply :: "platform \<Rightarrow> reply \<Rightarrow> exn + latch_reply" where
  "read_reply T reply = (case reply of
     (status, Text t) \<Rightarrow> Inr \<lparr>lr_status = status, lr_ok = False, lr_log = t, lr_payload = JNull\<rparr>
   | (status, Json r) \<Rightarrow>
      (let dataHex = (case as_text (json_get r ''data'') of Some h \<Rightarrow> h | None \<Rightarrow> ''0x'');
           payloadOut = (if dataHex = ''0x'' then JNull
             else (case json_parse T (buffer_toString T (buffer_from_hex (js_slice_from 2 dataHex))) of
                 Inr v \<Rightarrow> v
               | Inl _ \<Rightarrow> JStr dataHex))
       in bind_err (js_String T (json_or (json_get r ''log'') (JStr []))) (\<lambda>log.
          Inr \<lparr>lr_status = status, lr_ok = (json_get r ''status'' = Some (json_int 1)),
            lr_log = log, lr_payload = payloadOut\<rparr>)))"

definition latch_action ::
    "platform \<Rightarrow> viem \<Rightarrow> int \<Rightarrow> int \<Rightarrow> command \<Rightarrow> json \<Rightarrow> latch_client \<times> latch \<Rightarrow>
     (latch_client \<times> latch) \<times> (exn + latch_reply)" where
  "latch_action T V maxMs now cmd payload xs = (case xs of (x, s) \<Rightarrow>
     (let original = utf8_encode (json_stringify T payload);
          x1 = x\<lparr>lc_seq := lc_seq x + 1\<rparr>;
          i = action_id (lc_seq x1)
      in (case (stringToBytes32Hex OP_TYPE_LATCH, stringToBytes32Hex (op_command cmd)) of
            (Inr t, Inr c) \<Rightarrow>
             (let message = utf8_encode (json_stringify T (data_fixed now i t c original));
                  body = json_stringify T (action_envelope i message)
              in (case handleRequest T (latch_handlers T V maxMs now) reportState (lc_server x1)
                      ''POST'' ''/action'' body s of
                    (s', r) \<Rightarrow> ((x1, s'), bind_err r (read_reply T))))
          | (Inl e, _) \<Rightarrow> ((x1, s), Inl e)
          | (Inr _, Inl e) \<Rightarrow> ((x1, s), Inl e))))"

definition latch_arm where
  "latch_arm T V maxMs now payload = latch_action T V maxMs now ARM payload"

definition commitment_request :: "js_str \<Rightarrow> json" where
  "commitment_request c = JObj [(''commitment'', JStr c)]"

definition latch_status where
  "latch_status T V maxMs now c = latch_action T V maxMs now STATUS (commitment_request c)"

definition latch_collect where
  "latch_collect T V maxMs now c = latch_action T V maxMs now COLLECT (commitment_request c)"

definition latch_cancel where
  "latch_cancel T V maxMs now c = latch_action T V maxMs now CANCEL (commitment_request c)"

definition latch_state ::
    "platform \<Rightarrow> viem \<Rightarrow> int \<Rightarrow> int \<Rightarrow> latch_client \<Rightarrow> latch \<Rightarrow> exn + payload" where
  "latch_state T V maxMs now x s =
    bind_err (snd (handleRequest T (latch_handlers T V maxMs now) reportState (lc_server x) ''GET'' ''/state'' [] s))
      (\<lambda>(status, body). Inr body)"

subsection \<open>What the handlers answer\<close>

inductive answers :: "platform \<Rightarrow> exn + handler_result \<Rightarrow> bool" for T where
  answers_ok: "json_plain p \<Longrightarrow> answers T (Inr (ok_result T p))"
| answers_fail: "m \<noteq> [] \<Longrightarrow> answers T (Inr (fail_result m))"
| answers_throw: "answers T (Inl e)"

lemma decodeJson_message: "decodeJson T msg = Inl m \<Longrightarrow> m \<noteq> []"
  by (auto simp: decodeJson_def split: sum.splits json.splits)

lemma parse_price_message: "parse_price t = Inl m \<Longrightarrow> m \<noteq> []"
  by (auto simp: parse_price_def Let_def split: option.splits if_splits)

lemma parse_time_message: "parse_time t = Inl m \<Longrightarrow> m \<noteq> []"
  by (auto simp: parse_time_def split: option.splits if_splits)

lemma parseTrigger_message: "parseTrigger T raw = Inr (Inl m) \<Longrightarrow> m \<noteq> []"
  by (auto simp: parseTrigger_def Let_def dest: parse_price_message parse_time_message split: if_splits)

lemma check_deadline_message: "check_deadline maxMs now v = Inl m \<Longrightarrow> m \<noteq> []"
  by (auto simp: check_deadline_def split: option.splits if_splits)

lemma check_arm_message:
  assumes "check_arm T V maxMs now req = Inr (Inl m)"
  shows "m \<noteq> []"
proof (cases "as_text (json_get req ''userOpData'')")
  case None
  with assms show ?thesis by (auto simp: check_arm_def)
next
  case (Some u)
  show ?thesis
  proof (cases "keccak256 V u")
    case (Inl e)
    with assms Some show ?thesis by (auto simp: check_arm_def as_exn_def split: if_splits)
  next
    case (Inr c)
    show ?thesis
    proof (cases "parseTrigger T (json_get req ''trigger'')")
      case (Inl e)
      with assms Some Inr show ?thesis by (auto simp: check_arm_def as_exn_def Let_def split: if_splits)
    next
      case parsed: (Inr p)
      with assms Some Inr show ?thesis
        by (cases p) (auto simp: check_arm_def as_exn_def Let_def dest: parseTrigger_message
            check_deadline_message split: if_splits sum.splits)
    qed
  qed
qed

lemma no_empty_message [simp]: "decodeJson T msg \<noteq> Inl []" "check_arm T V maxMs now req \<noteq> Inr (Inl [])"
  using decodeJson_message check_arm_message by blast+

lemma status_payload_plain: "json_plain (status_payload i)"
  by (auto simp: status_payload_def json_int_def split: option.split)

lemma collect_payload_plain: "json_plain (collect_payload i)"
  by (auto simp: collect_payload_def json_int_def split: option.split)

lemmas answers_intros = answers_ok answers_fail answers_throw

lemma handleArm_answers: "answers T (snd (handleArm T V maxMs now msg s))"
proof (cases "decodeJson T msg")
  case (Inl m)
  then show ?thesis by (simp add: handleArm_def answers_fail decodeJson_message)
next
  case (Inr req)
  show ?thesis
  proof (cases "check_arm T V maxMs now req")
    case (Inl e)
    with Inr show ?thesis by (simp add: handleArm_def answers_throw)
  next
    case v: (Inr v)
    show ?thesis
    proof (cases v)
      case (Inl m)
      with Inr v have "m \<noteq> []" by auto
      with Inl Inr v show ?thesis by (simp add: handleArm_def answers_fail)
    next
      case a: (Inr a)
      obtain c u t d where "a = (c, u, t, d)" by (cases a)
      with Inr v a show ?thesis
        by (cases "describeTrigger T t") (auto simp: handleArm_def Let_def intro!: answers_intros)
    qed
  qed
qed

lemma handleStatus_answers: "answers T (snd (handleStatus T msg s))"
  by (auto simp: handleStatus_def status_payload_plain intro!: answers_intros
      split: sum.split option.split)

lemma handleCancel_answers: "answers T (snd (handleCancel T msg s))"
  by (auto simp: handleCancel_def intro!: answers_intros split: sum.split option.split)

lemma handleCollect_answers: "answers T (snd (handleCollect T msg s))"
  by (auto simp: handleCollect_def Let_def collect_payload_plain intro!: answers_intros
      split: sum.split option.split)

lemma run_command_answers: "answers T (snd (run_command T V maxMs now c msg s))"
  by (cases c) (simp_all add: handleArm_answers handleStatus_answers handleCancel_answers handleCollect_answers)

subsection \<open>The envelope\<close>

lemma envelope_dispatches:
  fixes cmd :: command and i :: js_str and original :: bytes and now :: int and T :: platform
  assumes "utf8_doc T" and "json_doc T" and "sv_framework sv = latch_table"
  defines "t \<equiv> bytes32_of OP_TYPE_LATCH" and "c \<equiv> bytes32_of (op_command cmd)"
  defines "df \<equiv> data_fixed now i t c original"
  defines "message \<equiv> utf8_encode (json_stringify T df)"
  shows "dispatches T sv (json_stringify T (action_envelope i message))
    (JObj [(''id'', JStr i), (''type'', JStr ''instruction''), (''submissionTag'', JStr ''submit''),
      (''message'', JStr (bytesToHex message))]) df cmd"
proof -
  have "json_plain (action_envelope i message)" by (simp add: action_envelope_def)
  then have "read_action T (json_stringify T (action_envelope i message)) =
      Inr (JObj [(''id'', JStr i), (''type'', JStr ''instruction''), (''submissionTag'', JStr ''submit''),
        (''message'', JStr (bytesToHex message))])"
    using json_docD(1) [OF assms(2)] by (simp add: read_action_def) (simp add: action_envelope_def)
  moreover have "json_plain df" by (simp add: df_def data_fixed_def json_int_def)
  moreover have "t \<noteq> []" by (simp add: t_def bytes32_of_def bytesToHex_eq toHex_def)
  ultimately show ?thesis
    using json_docD(1) [OF assms(2), of df] utf8_docD(1) [OF assms(1)]
      latch_lookup [OF refl refl, of cmd]
    by (simp add: dispatches_def read_data_fixed_def message_def)
      (simp add: df_def data_fixed_def t_def c_def assms(3))
qed

lemma opt_field_simps [simp]: "opt_field k None = []" "opt_field k (Some v) = [(k, v)]"
  by (simp_all add: opt_field_def)

lemma latch_action_eq:
  assumes "utf8_doc T" and "json_doc T" and "sv_framework (lc_server x) = latch_table"
    and "run_command T V maxMs now cmd (JStr (bytesToHex (utf8_encode (json_stringify T payload)))) s = (s', r)"
  obtains dat df where "json_get dat ''id'' = Some (JStr (action_id (lc_seq x + 1)))"
    "latch_action T V maxMs now cmd payload (x, s) = ((x\<lparr>lc_seq := lc_seq x + 1\<rparr>, s'),
      bind_err r (\<lambda>r. read_reply T (200, Json (action_result (sv_version (lc_server x)) dat df r))))"
proof -
  define i where "i = action_id (lc_seq x + 1)"
  let ?o = "utf8_encode (json_stringify T payload)"
  let ?df = "data_fixed now i (bytes32_of OP_TYPE_LATCH) (bytes32_of (op_command cmd)) ?o"
  let ?m = "utf8_encode (json_stringify T ?df)"
  let ?dat = "JObj [(''id'', JStr i), (''type'', JStr ''instruction''), (''submissionTag'', JStr ''submit''),
      (''message'', JStr (bytesToHex ?m))]"
  have d: "dispatches T (lc_server x) (json_stringify T (action_envelope i ?m)) ?dat ?df cmd"
    by (rule envelope_dispatches [OF assms(1-3)])
  have o: "json_or (json_get ?df ''originalMessage'') (JStr ''0x'') = JStr (bytesToHex ?o)"
    by (simp add: data_fixed_def)
  have "handleRequest T (latch_handlers T V maxMs now) reportState (lc_server x) ''POST'' ''/action''
      (json_stringify T (action_envelope i ?m)) s = (s', bind_err r (\<lambda>r. Inr (200, Json
        (action_result (sv_version (lc_server x)) ?dat ?df r))))"
    using assms(4) o by (cases r) (simp_all add: handleRequest_def clean_path_def processAction_dispatches [OF d]
        run_action_def latch_handlers_def js_String_opt_def)
  then have "latch_action T V maxMs now cmd payload (x, s) = ((x\<lparr>lc_seq := lc_seq x + 1\<rparr>, s'),
      bind_err r (\<lambda>r. read_reply T (200, Json (action_result (sv_version (lc_server x)) ?dat ?df r))))"
    using bytes32_of_ok [OF op_fits(1)] bytes32_of_ok [OF op_fits(2) [of cmd]]
    by (cases r) (simp_all add: latch_action_def Let_def i_def)
  then show thesis by (intro that [of ?dat ?df]) (simp_all add: i_def)
qed

lemma read_action_ok:
  assumes "utf8_doc T" and "json_doc T" and "json_plain p" and "json_get dat ''id'' = Some (JStr i)"
  shows "read_reply T (200, Json (action_result version dat df (ok_result T p))) =
    Inr \<lparr>lr_status = 200, lr_ok = True, lr_log = ''ok'', lr_payload = p\<rparr>"
proof -
  let ?u = "utf8_encode (json_stringify T p)"
  have hex: "bytesToHex ?u = CHR ''0'' # CHR ''x'' # bytes_hex ?u"
    by (simp add: bytesToHex_eq toHex_def)
  have "?u \<noteq> []"
    using json_docD(2) [OF assms(2,3)]
    by (cases "json_stringify T p") (simp_all add: utf8_encode_def utf8_char_def Let_def)
  then have ne: "bytes_hex ?u \<noteq> []" by (cases ?u) simp_all
  have "json_parse T (buffer_toString T (buffer_from_hex (bytes_hex ?u))) = Inr p"
    using utf8_docD(1) [OF assms(1)] json_docD(1) [OF assms(2,3)]
    by (simp add: buffer_from_hex_body)
  with ne hex show ?thesis
    by (cases "json_get dat ''submissionTag''"; cases "json_get df ''opType''"; cases "json_get df ''opCommand''")
      (simp_all add: read_reply_def action_result_def ok_result_def assms(4) result_log_def Let_def)
qed

lemma read_action_fail:
  assumes "m \<noteq> []" and "json_get dat ''id'' = Some (JStr i)"
  shows "read_reply T (200, Json (action_result version dat df (fail_result m))) =
    Inr \<lparr>lr_status = 200, lr_ok = False, lr_log = ''error: '' @ m, lr_payload = JNull\<rparr>"
  using assms
  by (cases "json_get dat ''submissionTag''"; cases "json_get df ''opType''"; cases "json_get df ''opCommand''")
    (simp_all add: read_reply_def action_result_def fail_result_def result_log_def Let_def json_int_def)

text \<open>
  (C32) The in-process client is a faithful window on the enclave: an action goes through the real
  server, both envelopes of JSON and hexadecimal text, to the handler of its command, and changes the
  state exactly as that handler does on the client's payload. What comes back is the handler's own
  payload when it succeeded, its message when it refused, and a rejection when it threw.
\<close>

theorem latch_client_faithful:
  assumes "utf8_doc T" and "json_doc T" and "new_Latch = Inr x"
    and "run_command T V maxMs now cmd (JStr (bytesToHex (utf8_encode (json_stringify T payload)))) s = (s', r)"
  shows "\<exists>reply. latch_action T V maxMs now cmd payload (x\<lparr>lc_seq := n\<rparr>, s) =
      ((x\<lparr>lc_seq := n + 1\<rparr>, s'), reply) \<and>
    ((\<exists>p. r = Inr (ok_result T p) \<and>
        reply = Inr \<lparr>lr_status = 200, lr_ok = True, lr_log = ''ok'', lr_payload = p\<rparr>) \<or>
     (\<exists>m. r = Inr (fail_result m) \<and>
        reply = Inr \<lparr>lr_status = 200, lr_ok = False, lr_log = ''error: '' @ m, lr_payload = JNull\<rparr>) \<or>
     (\<exists>e. r = Inl e \<and> reply = Inl e))"
proof -
  let ?x = "x\<lparr>lc_seq := n\<rparr>"
  have "sv_framework (lc_server ?x) = latch_table"
    using assms(3) by (auto simp: new_Latch_def enclave_server_eq)
  from latch_action_eq [OF assms(1,2) this assms(4)] obtain dat df
    where i: "json_get dat ''id'' = Some (JStr (action_id (n + 1)))"
      and act: "latch_action T V maxMs now cmd payload (?x, s) = ((x\<lparr>lc_seq := n + 1\<rparr>, s'),
        bind_err r (\<lambda>r. read_reply T (200, Json (action_result (sv_version (lc_server x)) dat df r))))"
    by auto
  have "answers T r" using run_command_answers [of T V maxMs now cmd _ s] assms(4) by (metis snd_conv)
  then show ?thesis
  proof cases
    case (answers_ok p)
    with act read_action_ok [OF assms(1,2) answers_ok(2) i] show ?thesis by simp
  next
    case (answers_fail m)
    with act read_action_fail [OF answers_fail(2) i] show ?thesis by simp
  next
    case (answers_throw e)
    with act show ?thesis by simp
  qed
qed

theorem latch_client_faithful_witness:
  "\<exists>x p. new_Latch = Inr x \<and>
    snd (latch_action demo_platform demo_viem MAX_DEADLINE_MS 1 ARM (arm_request 2) (x, resetState)) =
      Inr \<lparr>lr_status = 200, lr_ok = True, lr_log = ''ok'', lr_payload = p\<rparr>"
proof -
  obtain x where x: "new_Latch = Inr x" by (simp add: new_Latch_def enclave_server_eq)
  have "run_command demo_platform demo_viem MAX_DEADLINE_MS 1 ARM (wire (arm_request 2)) resetState =
      (demo_latch 2, Inr (ok_result demo_platform
        (JObj [(''armed'', JBool True), (''commitment'', JStr sealed_commitment)])))"
    using demo_arm [of 2] by (simp add: MAX_DATE_def)
  from latch_client_faithful [OF demo_platform_docs x this [unfolded wire_def], of "lc_seq x"] x
  show ?thesis by (auto simp: ok_result_def fail_result_def)
qed

text \<open>Concrete requests to the enclave's server, for the properties of \<open>Server\<close>.\<close>

lemma data_fixed_message:
  "json_get (data_fixed now i t c original) ''originalMessage'' = Some (JStr (bytesToHex original))"
  by (simp add: data_fixed_def)

definition demo_server :: "command server" where
  "demo_server = \<lparr>sv_version = VERSION, sv_stateVersionHex = bytes32_of VERSION, sv_framework = latch_table\<rparr>"

abbreviation "demo_handlers \<equiv> latch_handlers demo_platform demo_viem MAX_DEADLINE_MS 1"

definition demo_body :: js_str where
  "demo_body = json_stringify demo_platform (action_envelope ''0x01'' (utf8_encode (json_stringify demo_platform
     (data_fixed 1 ''0x01'' (bytes32_of OP_TYPE_LATCH) (bytes32_of (op_command ARM))
       (utf8_encode (json_stringify demo_platform (arm_request 2)))))))"

definition demo_df :: json where
  "demo_df = data_fixed 1 ''0x01'' (bytes32_of OP_TYPE_LATCH) (bytes32_of (op_command ARM))
     (utf8_encode (json_stringify demo_platform (arm_request 2)))"

definition demo_data :: json where
  "demo_data = JObj [(''id'', JStr ''0x01''), (''type'', JStr ''instruction''), (''submissionTag'', JStr ''submit''),
     (''message'', JStr (bytesToHex (utf8_encode (json_stringify demo_platform demo_df))))]"

lemma demo_dispatches: "dispatches demo_platform demo_server demo_body demo_data demo_df ARM"
  using envelope_dispatches [OF demo_platform_docs, of demo_server, where now = 1 and i = "''0x01''" and cmd = ARM
    and original = "utf8_encode (json_stringify demo_platform (arm_request 2))"]
  by (simp only: demo_body_def demo_data_def demo_df_def) (simp add: demo_server_def)

lemma demo_handled: "\<exists>p. handleRequest demo_platform demo_handlers reportState demo_server ''POST'' ''/action'' demo_body resetState =
    (demo_latch 2, Inr (200, p))"
proof -
  have "run_command demo_platform demo_viem MAX_DEADLINE_MS 1 ARM (wire (arm_request 2)) resetState =
      (demo_latch 2, Inr (ok_result demo_platform
        (JObj [(''armed'', JBool True), (''commitment'', JStr sealed_commitment)])))"
    using demo_arm [of 2] by (simp add: MAX_DATE_def)
  moreover have "json_or (json_get demo_df ''originalMessage'') (JStr ''0x'') = wire (arm_request 2)"
    by (simp add: demo_df_def data_fixed_message wire_def)
  moreover have "json_get demo_data ''id'' = Some (JStr ''0x01'')" by (simp add: demo_data_def)
  ultimately show ?thesis
    by (simp add: handleRequest_def clean_path_def processAction_dispatches [OF demo_dispatches] run_action_def
        latch_handlers_def js_String_opt_def)
qed

theorem server_state_changes_witness:
  "\<exists>d df. read_action demo_platform demo_body = Inr d \<and> read_data_fixed demo_platform d = Inr df \<and>
    lookup (json_get df ''opType'') (Some (json_or (json_get df ''opCommand'') (JStr []))) latch_table = Inr (Some ARM)"
proof -
  have fw: "sv_framework demo_server = latch_table" by (simp add: demo_server_def)
  have "demo_latch 2 \<noteq> resetState" by (simp add: demo_latch_def armed_state_def resetState_def intents_set_def)
  with demo_handled have "fst (handleRequest demo_platform demo_handlers reportState demo_server ''POST'' ''/action'' demo_body
      resetState) \<noteq> resetState" by auto
  from server_state_changes [OF this] demo_dispatches show ?thesis by (auto simp: dispatches_def fw)
qed

text \<open>A request whose operation type is a number.\<close>

definition number_fixed :: json where
  "number_fixed = JObj [(''opType'', json_int 5)]"

definition number_body :: js_str where
  "number_body = json_stringify demo_platform
     (action_envelope ''0x01'' (utf8_encode (json_stringify demo_platform number_fixed)))"

lemma number_decodes:
  obtains d where "read_action demo_platform number_body = Inr d" "read_data_fixed demo_platform d = Inr number_fixed"
proof -
  let ?m = "utf8_encode (json_stringify demo_platform number_fixed)"
  let ?d = "JObj [(''id'', JStr ''0x01''), (''type'', JStr ''instruction''), (''submissionTag'', JStr ''submit''),
      (''message'', JStr (bytesToHex ?m))]"
  have "json_plain (action_envelope ''0x01'' ?m)" by (simp add: action_envelope_def)
  then have "read_action demo_platform number_body = Inr ?d"
    using json_docD(1) [OF demo_platform_docs(2)]
    by (simp add: read_action_def number_body_def) (simp add: action_envelope_def)
  moreover have "json_plain number_fixed" by (simp add: number_fixed_def json_int_def)
  then have "read_data_fixed demo_platform ?d = Inr number_fixed"
    using json_docD(1) [OF demo_platform_docs(2), of number_fixed] utf8_docD(1) [OF demo_platform_docs(1)]
    by (simp add: read_data_fixed_def) (simp add: number_fixed_def json_int_def)
  ultimately show thesis by (rule that)
qed

lemma server_rejects_exactly_witness:
  "\<not> is_ok (snd (serve demo_platform demo_handlers reportState demo_server
    (''POST'', ''/action'', Some number_body) resetState))"
proof -
  obtain d where "read_action demo_platform number_body = Inr d" "read_data_fixed demo_platform d = Inr number_fixed"
    by (rule number_decodes)
  moreover have "as_text (json_get number_fixed ''opType'') = None"
    by (simp add: number_fixed_def json_int_def)
  moreover have "clean_path ''/action'' = ''/action''" by (simp add: clean_path_def)
  ultimately show ?thesis unfolding server_rejects_exactly by blast
qed

end
