(* ===== verification/Wire.thy ===== *)
theory Wire
  imports Extension
begin

text \<open>
  The wire types of \<open>extension/typescript/src/base/types.ts\<close>: which properties a record has, which of them may
  be missing, and of what type they are. What the client sends and what the server answers are checked
  against them.
\<close>

subsection \<open>The declarations\<close>

datatype wire_type = TText | TNumber | TTexts | TNumbers | TUnknown | TRecord "(js_str \<times> bool \<times> wire_type) list"

type_synonym wire_fields = "(js_str \<times> bool \<times> wire_type) list"

definition ActionData :: wire_fields where
  "ActionData = [(''id'', True, TText), (''type'', True, TText), (''submissionTag'', True, TText), (''message'', True, TText)]"

definition Action :: wire_fields where
  "Action = [(''data'', True, TRecord ActionData), (''additionalVariableMessages'', False, TTexts),
     (''timestamps'', False, TNumbers), (''additionalActionData'', False, TText), (''signatures'', False, TTexts)]"

definition DataFixed :: wire_fields where
  "DataFixed = [(''instructionId'', True, TText), (''teeId'', False, TText), (''timestamp'', False, TNumber),
     (''rewardEpochId'', False, TNumber), (''opType'', True, TText), (''opCommand'', True, TText),
     (''cosigners'', False, TTexts), (''cosignersThreshold'', False, TNumber), (''originalMessage'', False, TText),
     (''additionalFixedMessage'', False, TText)]"

definition ActionResult :: wire_fields where
  "ActionResult = [(''id'', True, TText), (''submissionTag'', True, TText), (''status'', True, TNumber),
     (''log'', True, TText), (''opType'', True, TText), (''opCommand'', True, TText),
     (''additionalResultStatus'', True, TText), (''version'', True, TText), (''data'', True, TText)]"

definition StateResponse :: wire_fields where
  "StateResponse = [(''stateVersion'', True, TText), (''state'', True, TUnknown)]"

text \<open>A value of a type; a property whose flag is set must be there.\<close>

fun is_text :: "json \<Rightarrow> bool" where
  "is_text (JStr _) \<longleftrightarrow> True"
| "is_text _ \<longleftrightarrow> False"

fun is_number :: "json \<Rightarrow> bool" where
  "is_number (JNum _) \<longleftrightarrow> True"
| "is_number _ \<longleftrightarrow> False"

fun is_list_of :: "(json \<Rightarrow> bool) \<Rightarrow> json \<Rightarrow> bool" where
  "is_list_of P (JArr vs) \<longleftrightarrow> list_all P vs"
| "is_list_of P _ \<longleftrightarrow> False"

fun of_type :: "wire_type \<Rightarrow> json \<Rightarrow> bool"
and has_fields :: "wire_fields \<Rightarrow> json \<Rightarrow> bool"
where
  "of_type TText v \<longleftrightarrow> is_text v"
| "of_type TNumber v \<longleftrightarrow> is_number v"
| "of_type TTexts v \<longleftrightarrow> is_list_of is_text v"
| "of_type TNumbers v \<longleftrightarrow> is_list_of is_number v"
| "of_type TUnknown v \<longleftrightarrow> True"
| "of_type (TRecord fs) v \<longleftrightarrow> has_fields fs v"
| "has_fields [] v \<longleftrightarrow> True"
| "has_fields ((k, needed, t) # fs) v \<longleftrightarrow>
    (case json_get v k of None \<Rightarrow> \<not> needed | Some u \<Rightarrow> of_type t u) \<and> has_fields fs v"

subsection \<open>What the client builds\<close>

lemma data_fixed_typed: "has_fields DataFixed (data_fixed now i t c original)"
  by (simp add: DataFixed_def data_fixed_def json_int_def)

lemma action_envelope_typed: "has_fields Action (action_envelope i message)"
  by (simp add: Action_def ActionData_def action_envelope_def)

subsection \<open>What the server answers\<close>

lemma typed_text: "is_text v \<longleftrightarrow> (\<exists>s. v = JStr s)"
  by (cases v) simp_all

lemma action_result_fields:
  "json_get (action_result version d df r) k =
    (case r of (bytes, status, err) \<Rightarrow>
      if k = ''id'' then json_get d ''id'' else if k = ''submissionTag'' then json_get d ''submissionTag''
      else if k = ''status'' then Some (json_int status) else if k = ''log'' then Some (JStr (result_log status err))
      else if k = ''opType'' then json_get df ''opType'' else if k = ''opCommand'' then json_get df ''opCommand''
      else if k = ''additionalResultStatus'' then Some (JStr ''0x'') else if k = ''version'' then Some (JStr version)
      else if k = ''data'' then Some (JStr (case bytes of None \<Rightarrow> ''0x'' | Some b \<Rightarrow> b)) else None)"
  by (cases "json_get d ''id''"; cases "json_get d ''submissionTag''"; cases "json_get df ''opType''";
      cases "json_get df ''opCommand''"; cases r)
    (simp_all add: action_result_def)

lemma action_result_typed:
  assumes "has_fields ActionData d" and "has_fields DataFixed df"
  shows "has_fields ActionResult (action_result version d df r)"
  using assms
  by (cases r) (auto simp: ActionResult_def ActionData_def DataFixed_def action_result_fields json_int_def typed_text
      split: option.splits)

lemma run_action_Inr:
  assumes "run_action T run version d df h s = (s', Inr (code, p))"
  obtains r where "run h (json_or (json_get df ''originalMessage'') (JStr ''0x'')) s = (s', Inr r)"
    "code = 200" "p = Json (action_result version d df r)"
proof -
  obtain s1 r where h: "run h (json_or (json_get df ''originalMessage'') (JStr ''0x'')) s = (s1, r)" by (rule prod.exhaust)
  show thesis
  proof (cases r)
    case (Inl e)
    with assms h show ?thesis by (simp add: run_action_def)
  next
    case (Inr a)
    with assms h that show ?thesis by (cases "js_String_opt T (json_get d ''id'')") (simp_all add: run_action_def)
  qed
qed

text \<open>
  (C31) The types of the wire are kept: an action whose two records have the properties their declarations ask
  for, and that is answered with code 200, is answered with a record that has all nine properties the
  declaration of a result asks for, with their types, whatever handler ran.
\<close>

theorem wire_types_kept:
  assumes "clean_path path = ''/action''" and "read_action T body = Inr d" and "read_data_fixed T d = Inr df"
    and "has_fields ActionData d" and "has_fields DataFixed df"
    and "handleRequest T run report sv ''POST'' path body s = (s', Inr (200, p))"
  shows "\<exists>v. p = Json v \<and> has_fields ActionResult v"
proof -
  let ?c = "Some (json_or (json_get df ''opCommand'') (JStr []))"
  have "processAction T run sv body s = (s', Inr (200, p))"
    using assms(1,6) by (simp add: handleRequest_def)
  with assms(2,3) obtain h where "run_action T run (sv_version sv) d df h s = (s', Inr (200, p))"
    by (cases "lookup (json_get df ''opType'') ?c (sv_framework sv)")
      (auto simp: processAction_def split: option.splits)
  then obtain r where "p = Json (action_result (sv_version sv) d df r)" by (rule run_action_Inr)
  with action_result_typed [OF assms(4,5)] show ?thesis by blast
qed

lemma state_typed:
  "handleRequest T run report sv ''GET'' ''/state'' body s =
    (s, Inr (200, Json (JObj [(''stateVersion'', JStr (sv_stateVersionHex sv)), (''state'', report s)])))"
  "has_fields StateResponse (JObj [(''stateVersion'', JStr (sv_stateVersionHex sv)), (''state'', report s)])"
  by (simp_all add: handleRequest_def clean_path_def processState_def StateResponse_def)

text \<open>
  An action whose \<open>DataFixed\<close> lacks the operation command is dispatched with the empty one, and its result
  lacks the property.
\<close>

lemma result_without_command:
  assumes "dispatches T sv body d df h" and "json_get df ''opCommand'' = None"
    and "processAction T run sv body s = (s', Inr (code, p))"
  shows "\<exists>v. p = Json v \<and> json_get v ''opCommand'' = None \<and> \<not> has_fields ActionResult v"
proof -
  have "run_action T run (sv_version sv) d df h s = (s', Inr (code, p))"
    using assms(3) processAction_dispatches [OF assms(1), of run s] by simp
  then obtain r where p: "p = Json (action_result (sv_version sv) d df r)" by (rule run_action_Inr)
  have "json_get (action_result (sv_version sv) d df r) ''opCommand'' = None"
    using assms(2) by (cases r) (simp add: action_result_fields)
  then show ?thesis using p by (simp add: ActionResult_def)
qed

subsection \<open>The client's action at the enclave\<close>

lemma wire_types_kept_witness:
  "\<exists>s' v. handleRequest demo_platform demo_handlers reportState demo_server ''POST'' ''/action'' demo_body resetState =
    (s', Inr (200, Json v)) \<and> has_fields ActionResult v"
proof -
  obtain p where p: "handleRequest demo_platform demo_handlers reportState demo_server ''POST'' ''/action'' demo_body
      resetState = (demo_latch 2, Inr (200, p))" using demo_handled by blast
  have d: "has_fields ActionData demo_data" by (simp add: ActionData_def demo_data_def)
  have df: "has_fields DataFixed demo_df" unfolding demo_df_def by (rule data_fixed_typed)
  have r: "read_action demo_platform demo_body = Inr demo_data" "read_data_fixed demo_platform demo_data = Inr demo_df"
    using demo_dispatches by (simp_all add: dispatches_def)
  have c: "clean_path ''/action'' = ''/action''" by (simp add: clean_path_def)
  from wire_types_kept [OF c r d df p] p show ?thesis by blast
qed

end
