(* ===== verification/Entry.thy ===== *)
theory Entry
  imports Extension
begin

text \<open>
  \<open>extension/typescript/src/main.ts\<close>: the process of the container. It builds the server of \<open>Server\<close> with
  the handlers of \<open>Extension\<close>, listens, and ends on a signal. It starts no timer. A promise that is
  rejected and that nobody handles ends a Node process with code 1, and so does an exception of \<open>main\<close>.
\<close>

subsection \<open>Numbers from the environment\<close>

text \<open>\<open>Number(text)\<close>, with exact rationals for doubles.\<close>

definition split_at :: "(char \<Rightarrow> bool) \<Rightarrow> js_str \<Rightarrow> js_str \<times> js_str option" where
  "split_at p s = (takeWhile (\<lambda>c. \<not> p c) s, case dropWhile (\<lambda>c. \<not> p c) s of [] \<Rightarrow> None | _ # rest \<Rightarrow> Some rest)"

definition unsigned :: "js_str \<Rightarrow> bool \<times> js_str" where
  "unsigned s = (case s of
     c # t \<Rightarrow> if c = CHR ''-'' then (True, t) else if c = CHR ''+'' then (False, t) else (False, s)
   | [] \<Rightarrow> (False, s))"

definition digits_only :: "js_str \<Rightarrow> bool" where
  "digits_only s \<longleftrightarrow> s = [] \<or> is_dec s"

definition decimal_literal :: "js_str \<Rightarrow> rat option" where
  "decimal_literal s =
    (let (mantissa, e) = split_at (\<lambda>c. c = CHR ''e'' \<or> c = CHR ''E'') s;
         (whole, f) = split_at (\<lambda>c. c = CHR ''.'') mantissa;
         frac = (case f of None \<Rightarrow> [] | Some t \<Rightarrow> t);
         m = of_nat (dec_value (whole @ frac)) / 10 ^ length frac
     in if whole @ frac = [] \<or> \<not> digits_only whole \<or> \<not> digits_only frac then None
        else (case e of
            None \<Rightarrow> Some m
          | Some t \<Rightarrow> (case unsigned t of (neg, ds) \<Rightarrow>
              if \<not> is_dec ds then None
              else Some (if neg then m / 10 ^ dec_value ds else m * 10 ^ dec_value ds))))"

definition js_Number :: "js_str \<Rightarrow> js_number" where
  "js_Number s = (let t = js_trim s; body = drop 2 t in
     if t = [] then Finite 0
     else if prefixed (CHR ''x'') t body \<and> body \<noteq> [] \<and> hex_body body then Finite (of_nat (digits_val body))
     else if prefixed (CHR ''o'') t body \<and> small_digits 8 body then Finite (of_nat (base_value 8 body))
     else if prefixed (CHR ''b'') t body \<and> small_digits 2 body then Finite (of_nat (base_value 2 body))
     else (case unsigned t of (neg, u) \<Rightarrow>
       if u = ''Infinity'' then (if neg then NegInfinity else PosInfinity)
       else (case decimal_literal u of None \<Rightarrow> NaN | Some q \<Rightarrow> Finite (if neg then - q else q))))"

subsection \<open>The process\<close>

datatype http_server = NoServer | Listening | Closing

record container =
  ct_extPort :: js_number
  ct_signPort :: js_number
  ct_server :: "command server"
  ct_http :: http_server
  ct_latch :: latch
  ct_exit :: "int option"

text \<open>\<open>listen\<close> takes the integers below 65536; \<open>free\<close> tells whether the system grants the port.\<close>

definition port_valid :: "js_number \<Rightarrow> bool" where
  "port_valid p \<longleftrightarrow> (case p of Finite q \<Rightarrow> q = of_int \<lfloor>q\<rfloor> \<and> 0 \<le> q \<and> q < 65536 | _ \<Rightarrow> False)"

definition listenAndServe :: "(js_number \<Rightarrow> bool) \<Rightarrow> container \<Rightarrow> exn + container" where
  "listenAndServe free x =
    (if port_valid (ct_extPort x) \<and> free (ct_extPort x) then Inr (x\<lparr>ct_http := Listening\<rparr>)
     else Inl (RangeError ''listen''))"

text \<open>
  \<open>close\<close>: the new state of the server and, when its promise is settled at once, how. Without a server it
  resolves; a server that is closing already rejects; else the last connection decides (\<open>Closed\<close> below).
\<close>

definition server_close :: "http_server \<Rightarrow> http_server \<times> (exn + unit) option" where
  "server_close h = (case h of
     NoServer \<Rightarrow> (NoServer, Some (Inr ()))
   | Listening \<Rightarrow> (Closing, None)
   | Closing \<Rightarrow> (Closing, Some (Inl (Error ''Server is not running.''))))"

definition exit_code :: "exn + unit \<Rightarrow> int" where
  "exit_code r = (case r of Inr _ \<Rightarrow> 0 | Inl _ \<Rightarrow> 1)"

text \<open>\<open>shutdown\<close>, the handler of both signals.\<close>

definition shutdown :: "container \<Rightarrow> container" where
  "shutdown x = (case server_close (ct_http x) of (h, settled) \<Rightarrow>
     x\<lparr>ct_http := h, ct_exit := map_option exit_code settled\<rparr>)"

text \<open>\<open>main\<close>: the running process, or the exit code after \<open>fatal\<close>.\<close>

definition entry_main :: "(js_str \<Rightarrow> js_str option) \<Rightarrow> (js_number \<Rightarrow> bool) \<Rightarrow> int + container" where
  "entry_main env free =
    (let extPort = (case env ''EXTENSION_PORT'' of Some p \<Rightarrow> p | None \<Rightarrow> ''8080'');
         signPort = (case env ''SIGN_PORT'' of Some p \<Rightarrow> p | None \<Rightarrow> ''9090'')
     in (case enclave_server of
           Inl _ \<Rightarrow> Inl 1
         | Inr sv \<Rightarrow>
            (case listenAndServe free \<lparr>ct_extPort = js_Number extPort, ct_signPort = js_Number signPort,
                ct_server = sv, ct_http = NoServer, ct_latch = resetState, ct_exit = None\<rparr> of
               Inl _ \<Rightarrow> Inl 1
             | Inr x \<Rightarrow> Inr x)))"

text \<open>
  What happens to the process: a request, with the time it is handled at, a signal, the end of the last
  connection. A request whose promise is rejected has no answer and ends the process.
\<close>

datatype container_event =
    Incoming int "js_str \<times> js_str \<times> js_str option"
  | Signalled
  | Closed "exn + unit"

fun container_do ::
    "platform \<Rightarrow> viem \<Rightarrow> int \<Rightarrow> container_event \<Rightarrow> container \<Rightarrow> container \<times> (int \<times> js_str \<times> js_str) option" where
  "container_do T V maxMs (Incoming now req) x =
    (case serve T (latch_handlers T V maxMs now) reportState (ct_server x) req (ct_latch x) of
       (s, Inr r) \<Rightarrow> (x\<lparr>ct_latch := s\<rparr>, Some r)
     | (s, Inl e) \<Rightarrow> (x\<lparr>ct_latch := s, ct_exit := Some 1\<rparr>, None))"
| "container_do T V maxMs Signalled x = (shutdown x, None)"
| "container_do T V maxMs (Closed r) x =
    (if ct_http x = Closing then (x\<lparr>ct_exit := Some (exit_code r)\<rparr>, None) else (x, None))"

text \<open>A process that has ended does nothing more.\<close>

fun container_run ::
    "platform \<Rightarrow> viem \<Rightarrow> int \<Rightarrow> container_event list \<Rightarrow> container \<Rightarrow> container \<times> (int \<times> js_str \<times> js_str) option list" where
  "container_run T V maxMs [] x = (x, [])"
| "container_run T V maxMs (ev # evs) x =
    (if ct_exit x \<noteq> None then (x, [])
     else (case container_do T V maxMs ev x of (x1, r) \<Rightarrow>
       (case container_run T V maxMs evs x1 of (x2, rs) \<Rightarrow> (x2, r # rs))))"

subsection \<open>Starting\<close>

lemma js_Number_default: "js_Number ''8080'' = Finite 8080" "js_Number ''9090'' = Finite 9090"
  by (simp_all add: js_Number_def Let_def js_trim_def is_ws_def prefixed_def unsigned_def decimal_literal_def
      split_at_def digits_only_def is_dec_def is_dec_char_def dec_val_def dec_value_def upper_char_def)

lemma entry_main_Inr:
  "entry_main env free = Inr x \<longleftrightarrow>
    (let p = js_Number (case env ''EXTENSION_PORT'' of Some p \<Rightarrow> p | None \<Rightarrow> ''8080'');
         q = js_Number (case env ''SIGN_PORT'' of Some p \<Rightarrow> p | None \<Rightarrow> ''9090'')
     in port_valid p \<and> free p \<and>
        x = \<lparr>ct_extPort = p, ct_signPort = q, ct_server = demo_server, ct_http = Listening,
             ct_latch = resetState, ct_exit = None\<rparr>)"
  by (auto simp: entry_main_def listenAndServe_def enclave_server_eq demo_server_def Let_def)

subsection \<open>Nothing fires\<close>

definition idle :: "viem \<Rightarrow> int \<Rightarrow> latch \<Rightarrow> bool" where
  "idle V maxMs s \<longleftrightarrow> latch_ok V maxMs s \<and> (\<forall>i \<in> set (heap s). in_state i \<in> {armed, cancelled}) \<and> firedTotal s = 0"

lemma idle_deref: "idle V maxMs s \<Longrightarrow> intents_get s c = Some r \<Longrightarrow> in_state (deref s r) = armed \<or> in_state (deref s r) = cancelled"
  using index_okD(1) [of s c r] nth_mem [of r "heap s"] by (auto simp: idle_def latch_ok_def deref_def)

lemma idle_collect: "idle V maxMs s \<Longrightarrow> fst (handleCollect T msg s) = s \<and> \<not> released (snd (handleCollect T msg s))"
  by (auto simp: handleCollect_def Let_def fail_result_def dest: idle_deref split: sum.split option.split)

lemma idle_command:
  assumes "idle V maxMs s"
  shows "idle V maxMs (fst (run_command T V maxMs now c msg s))"
proof -
  have ok: "latch_ok V maxMs (fst (run_command T V maxMs now c msg s))"
    using assms run_command_ok(1) by (simp add: idle_def)
  have h: "(\<forall>i \<in> set (heap t). in_state i \<in> {armed, cancelled}) \<and> firedTotal t = 0"
    if "t = fst (run_command T V maxMs now c msg s)" for t
  proof (cases c)
    case ARM
    show ?thesis
      by (cases T V maxMs now msg s rule: handleArm_cases)
        (use assms in \<open>auto simp: that ARM idle_def armed_state_def intents_set_def new_intent_def\<close>)
  next
    case STATUS
    with assms show ?thesis by (simp add: that idle_def)
  next
    case CANCEL
    have "(\<forall>i \<in> set (heap (mutate r cancel_intent s)). in_state i \<in> {armed, cancelled}) \<and>
        firedTotal (mutate r cancel_intent s) = 0" for r
      using assms by (auto simp: idle_def mutate_def cancel_intent_def dest!: subsetD [OF set_update_subset_insert])
    with assms show ?thesis
      by (auto simp: that CANCEL handleCancel_def idle_def split: sum.split option.split)
  next
    case COLLECT
    with assms idle_collect [of V maxMs s T msg] show ?thesis by (simp add: that idle_def)
  qed
  with ok show ?thesis by (simp add: idle_def)
qed

lemma idle_serve:
  assumes "idle V maxMs s"
  shows "idle V maxMs (fst (serve T (latch_handlers T V maxMs now) reportState sv req s))"
proof -
  obtain m url body where fields: "req = (m, url, body)" by (rule prod_cases3)
  show ?thesis
  proof (cases body)
    case None
    with assms fields show ?thesis by (simp add: serve_def)
  next
    case (Some b)
    let ?h = "handleRequest T (latch_handlers T V maxMs now) reportState sv m url b s"
    have "fst (serve T (latch_handlers T V maxMs now) reportState sv req s) = fst ?h"
      by (simp add: serve_def fields Some case_prod_beta)
    moreover have "idle V maxMs (fst ?h)"
    proof (cases "fst ?h = s")
      case True
      with assms show ?thesis by simp
    next
      case False
      then show ?thesis
        by (rule handleRequest_changes) (simp add: latch_handlers_def idle_command [OF assms])
    qed
    ultimately show ?thesis by simp
  qed
qed

lemma idle_do: "idle V maxMs (ct_latch x) \<Longrightarrow> idle V maxMs (ct_latch (fst (container_do T V maxMs ev x)))"
proof (cases ev)
  case (Incoming now req)
  assume "idle V maxMs (ct_latch x)"
  from idle_serve [OF this, of T now "ct_server x" req] show ?thesis
    by (auto simp: Incoming split: prod.split sum.split)
qed (simp_all add: shutdown_def case_prod_beta)

lemma idle_run: "idle V maxMs (ct_latch x) \<Longrightarrow> idle V maxMs (ct_latch (fst (container_run T V maxMs evs x)))"
  using idle_do by (induction evs arbitrary: x) (auto simp: case_prod_beta)

lemma idle_reset: "idle V maxMs resetState"
  by (simp add: idle_def latch_ok_def index_ok_def resetState_def)

text \<open>
  (C24) In the container nothing is ever released. Whatever requests reach the process that \<open>main\<close> starts,
  and however long it runs, no intent has fired and none has expired, each is armed or cancelled; and a
  COLLECT, whatever it asks for and whenever, is refused.
\<close>

theorem entry_never_fires:
  assumes "entry_main env free = Inr x" and "container_run T V maxMs evs x = (x', rs)"
    and "lookup_intent (ct_latch x') c = Some i"
  shows "in_state i \<in> {armed, cancelled} \<and> firedTotal (ct_latch x') = 0 \<and>
    handleCollect T msg (ct_latch x') = (ct_latch x', snd (handleCollect T msg (ct_latch x'))) \<and>
    \<not> released (snd (handleCollect T msg (ct_latch x')))"
proof -
  have "idle V maxMs (ct_latch x)" using assms(1) idle_reset by (auto simp: entry_main_Inr Let_def)
  with assms(2) have idle: "idle V maxMs (ct_latch x')" using idle_run by (metis fst_conv)
  moreover have "in_state i = armed \<or> in_state i = cancelled"
    using assms(3) idle_deref [OF idle] by (auto simp: lookup_intent_def)
  ultimately show ?thesis using idle_collect [OF idle] by (simp add: idle_def prod_eq_iff)
qed

subsection \<open>How the process ends\<close>

lemma run_append:
  "container_run T V maxMs (evs @ evs') x =
    (let (x1, rs) = container_run T V maxMs evs x; (x2, rs') = container_run T V maxMs evs' x1 in (x2, rs @ rs'))"
proof (induction evs arbitrary: x)
  case Nil
  then show ?case by (simp add: case_prod_beta)
next
  case (Cons ev evs)
  have "container_run T V maxMs es x = (x, [])" if "ct_exit x \<noteq> None" for es
    using that by (cases es) simp_all
  with Cons show ?case by (simp add: case_prod_beta Let_def)
qed

lemma ended_stays: "ct_exit x \<noteq> None \<Longrightarrow> container_run T V maxMs evs x = (x, [])"
  by (cases evs) simp_all

lemma serve_throws:
  "is_ok (snd (serve T run report sv (method, url, Some body) s)) \<longleftrightarrow>
    \<not> (method = ''POST'' \<and> clean_path url = ''/action'' \<and> action_throws T run sv body s)"
proof -
  have "is_ok (snd (serve T run report sv (method, url, Some body) s)) \<longleftrightarrow>
      is_ok (snd (handleRequest T run report sv method url body s))"
    by (cases "handleRequest T run report sv method url body s"; cases "snd (handleRequest T run report sv method url body s)")
      (auto simp: serve_def)
  then show ?thesis by (auto simp: handleRequest_def Let_def processAction_throws)
qed

text \<open>
  (C25) One request is enough to end the container: a POST to the action path whose two envelopes decode but
  whose operation type is not text has no answer, the process exits with code 1 as it stands, and whatever
  intents it held armed are gone with its memory; what is sent to it after that is not handled.
\<close>

theorem entry_dies_of_a_request:
  assumes "entry_main env free = Inr x" and "container_run T V maxMs evs x = (x1, rs)" and "ct_exit x1 = None"
    and "clean_path url = ''/action''" and "read_action T body = Inr d" and "read_data_fixed T d = Inr df"
    and "as_text (json_get df ''opType'') = None"
  shows "container_run T V maxMs (evs @ Incoming now (''POST'', url, Some body) # evs') x =
    (x1\<lparr>ct_exit := Some 1\<rparr>, rs @ [None])"
proof -
  let ?run = "latch_handlers T V maxMs now" and ?s = "ct_latch x1"
  have "\<nexists>h. lookup (json_get df ''opType'') (Some (json_or (json_get df ''opCommand'') (JStr []))) (sv_framework (ct_server x1)) = Inr h"
    using assms(7) read_data_fixed_opType [OF assms(6)] by (auto simp: lookup_ok normalize_ok is_ok_iff [symmetric])
  then have nd: "\<nexists>d df h. dispatches T (ct_server x1) body d df h" using assms(5,6) by (auto simp: dispatches_def)
  have "action_throws T ?run (ct_server x1) body ?s" using assms(5-7) by (auto simp: action_throws_def)
  with assms(4) have "\<not> is_ok (snd (serve T ?run reportState (ct_server x1) (''POST'', url, Some body) ?s))"
    by (simp add: serve_throws)
  moreover have "fst (serve T ?run reportState (ct_server x1) (''POST'', url, Some body) ?s) = ?s"
    using assms(4) processAction_idle [OF nd]
    by (simp add: serve_def handleRequest_def case_prod_beta)
  ultimately obtain e where "serve T ?run reportState (ct_server x1) (''POST'', url, Some body) ?s = (?s, Inl e)"
    by (metis is_ok_iff obj_sumE prod.collapse)
  then have "container_do T V maxMs (Incoming now (''POST'', url, Some body)) x1 = (x1\<lparr>ct_exit := Some 1\<rparr>, None)"
    by simp
  with assms(2,3) show ?thesis
    by (simp add: run_append ended_stays Let_def del: container_do.simps)
qed

text \<open>
  What else ends a running process: the end of the last connection after a signal, and a second signal
  before that.
\<close>

lemma entry_ends:
  assumes "ct_exit x = None" and "ct_http x \<noteq> NoServer" and "container_do T V maxMs ev x = (x', r)"
  shows "ct_exit x' =
    (case ev of
       Incoming now req \<Rightarrow>
         (if is_ok (snd (serve T (latch_handlers T V maxMs now) reportState (ct_server x) req (ct_latch x)))
          then None else Some 1)
     | Signalled \<Rightarrow> if ct_http x = Closing then Some 1 else None
     | Closed res \<Rightarrow> if ct_http x = Closing then Some (if is_ok res then 0 else 1) else None)"
  using assms
  by (cases ev; cases "ct_http x")
    (auto simp: shutdown_def server_close_def exit_code_def is_ok_def split: prod.splits sum.splits)

subsection \<open>A container with one intent\<close>

definition demo_container :: container where
  "demo_container = \<lparr>ct_extPort = Finite 8080, ct_signPort = Finite 9090, ct_server = demo_server,
     ct_http = Listening, ct_latch = resetState, ct_exit = None\<rparr>"

lemma demo_main: "entry_main (\<lambda>_. None) (\<lambda>_. True) = Inr demo_container"
  by (simp add: entry_main_Inr js_Number_default port_valid_def demo_container_def)

lemma demo_arm_serve: "\<exists>r. container_do demo_platform demo_viem MAX_DEADLINE_MS
    (Incoming 1 (''POST'', ''/action'', Some demo_body)) demo_container =
      (demo_container\<lparr>ct_latch := demo_latch 2\<rparr>, Some r)"
proof -
  obtain p where "handleRequest demo_platform demo_handlers reportState demo_server ''POST'' ''/action'' demo_body resetState =
      (demo_latch 2, Inr (200, p))" using demo_handled by blast
  moreover obtain a b c where "send demo_platform (200, p) = (a, b, c)" by (rule prod_cases3)
  ultimately show ?thesis by (simp add: serve_def demo_container_def)
qed

lemma demo_armed_run: "\<exists>rs. container_run demo_platform demo_viem MAX_DEADLINE_MS
    [Incoming 1 (''POST'', ''/action'', Some demo_body)] demo_container = (demo_container\<lparr>ct_latch := demo_latch 2\<rparr>, rs)"
  using demo_arm_serve by (auto simp: demo_container_def simp del: container_do.simps)

lemma entry_never_fires_witness:
  "\<exists>x rs i. container_run demo_platform demo_viem MAX_DEADLINE_MS
      [Incoming 1 (''POST'', ''/action'', Some demo_body)] demo_container = (x, rs) \<and>
    lookup_intent (ct_latch x) sealed_commitment = Some i \<and> in_state i \<in> {armed, cancelled} \<and>
    \<not> released (snd (handleCollect demo_platform (wire demo_ask) (ct_latch x)))"
proof -
  obtain rs where r: "container_run demo_platform demo_viem MAX_DEADLINE_MS
      [Incoming 1 (''POST'', ''/action'', Some demo_body)] demo_container = (demo_container\<lparr>ct_latch := demo_latch 2\<rparr>, rs)"
    using demo_armed_run by blast
  have l: "lookup_intent (ct_latch (demo_container\<lparr>ct_latch := demo_latch 2\<rparr>)) sealed_commitment =
      Some (deref (demo_latch 2) 0)" by (simp add: lookup_intent_def)
  from entry_never_fires [OF demo_main r l, of "wire demo_ask"] r l show ?thesis by blast
qed

lemma entry_dies_of_a_request_witness:
  "\<exists>x rs. container_run demo_platform demo_viem MAX_DEADLINE_MS
      [Incoming 1 (''POST'', ''/action'', Some demo_body), Incoming 2 (''POST'', ''/action'', Some number_body)]
      demo_container = (x, rs) \<and> ct_exit x = Some 1 \<and> in_state (deref (ct_latch x) 0) = armed"
proof -
  obtain rs where r: "container_run demo_platform demo_viem MAX_DEADLINE_MS
      [Incoming 1 (''POST'', ''/action'', Some demo_body)] demo_container = (demo_container\<lparr>ct_latch := demo_latch 2\<rparr>, rs)"
    using demo_armed_run by blast
  obtain d where d: "read_action demo_platform number_body = Inr d" "read_data_fixed demo_platform d = Inr number_fixed"
    by (rule number_decodes)
  have "ct_exit (demo_container\<lparr>ct_latch := demo_latch 2\<rparr>) = None" by (simp add: demo_container_def)
  moreover have "clean_path ''/action'' = ''/action''" by (simp add: clean_path_def)
  moreover have "as_text (json_get number_fixed ''opType'') = None" by (simp add: number_fixed_def json_int_def)
  ultimately have "container_run demo_platform demo_viem MAX_DEADLINE_MS
      ([Incoming 1 (''POST'', ''/action'', Some demo_body)] @ [Incoming 2 (''POST'', ''/action'', Some number_body)])
      demo_container = (demo_container\<lparr>ct_latch := demo_latch 2, ct_exit := Some 1\<rparr>, rs @ [None])"
    using entry_dies_of_a_request [OF demo_main r _ _ d, of "''/action''" 2 "[]"] by simp
  then show ?thesis by (simp add: new_intent_def del: container_run.simps)
qed

end
