(* ===== verification/Memo.thy ===== *)
theory Memo
  imports Viem
begin

unbundle bit_operations_syntax

text \<open>
  \<open>packages/sdk/src/memo.ts\<close>: the seven memo instructions of Flare Smart Accounts, their encoders,
  the wire format of the XRP Ledger and the decoder. Every \<open>throw\<close> of the file is a constructor of
  \<open>memo_error\<close>, with the values its message shows.
\<close>

subsection \<open>Opcodes and lengths\<close>

datatype opcode =
    EXECUTE_INLINE | EXECUTE_COMMITTED | IGNORE_MEMO | SET_NONCE
  | SET_REPLACEMENT_FEE | SET_EXECUTOR | REMOVE_EXECUTOR

fun OPCODE :: "opcode \<Rightarrow> byte" where
  "OPCODE EXECUTE_INLINE = 0xff"
| "OPCODE EXECUTE_COMMITTED = 0xfe"
| "OPCODE IGNORE_MEMO = 0xe0"
| "OPCODE SET_NONCE = 0xe1"
| "OPCODE SET_REPLACEMENT_FEE = 0xe2"
| "OPCODE SET_EXECUTOR = 0xd0"
| "OPCODE REMOVE_EXECUTOR = 0xd1"

text \<open>No entry for \<open>EXECUTE_INLINE\<close>, whose length varies.\<close>

fun MEMO_LENGTH :: "opcode \<Rightarrow> nat option" where
  "MEMO_LENGTH EXECUTE_INLINE = None"
| "MEMO_LENGTH EXECUTE_COMMITTED = Some 42"
| "MEMO_LENGTH IGNORE_MEMO = Some 42"
| "MEMO_LENGTH SET_NONCE = Some 42"
| "MEMO_LENGTH SET_REPLACEMENT_FEE = Some 50"
| "MEMO_LENGTH SET_EXECUTOR = Some 30"
| "MEMO_LENGTH REMOVE_EXECUTOR = Some 10"

definition HEADER_BYTES :: nat where
  "HEADER_BYTES = 10"

definition XRPL_MEMO_MAX_BYTES :: nat where
  "XRPL_MEMO_MAX_BYTES = 1024"

datatype memo_error =
    WalletIdNotUint8 js_number
  | FeeNotUint64 bigint
  | NotHexText js_str
  | OddHexLength js_str
  | WrongByteCount nat nat
  | WrongMemoLength opcode nat nat
  | OverXrplCap nat
  | InvalidExecutorAddress js_str
  | ZeroExecutorAddress
  | NonceNotUint256
  | NewFeeNotUint64
  | ShorterThanHeader
  | UnknownInstructionId byte

subsection \<open>Header\<close>

record memo_header =
  walletId :: "js_number option"
  executorFeeUBA :: bigint

fun num_less :: "js_number \<Rightarrow> js_number \<Rightarrow> bool" where
  "num_less (Finite a) (Finite b) \<longleftrightarrow> a < b"
| "num_less NegInfinity (Finite b) \<longleftrightarrow> True"
| "num_less NegInfinity PosInfinity \<longleftrightarrow> True"
| "num_less (Finite a) PosInfinity \<longleftrightarrow> True"
| "num_less _ _ \<longleftrightarrow> False"

fun num_isInteger :: "js_number \<Rightarrow> bool" where
  "num_isInteger (Finite r) \<longleftrightarrow> r = of_int \<lfloor>r\<rfloor>"
| "num_isInteger _ \<longleftrightarrow> False"

fun num_to_uint8 :: "js_number \<Rightarrow> byte" where
  "num_to_uint8 (Finite r) = of_int \<lfloor>r\<rfloor>"
| "num_to_uint8 _ = 0"

definition encodeHeader :: "opcode \<Rightarrow> memo_header \<Rightarrow> memo_error + bytes" where
  "encodeHeader op h = (let w = (case walletId h of None \<Rightarrow> Finite 0 | Some w \<Rightarrow> w) in
     if \<not> num_isInteger w \<or> num_less w (Finite 0) \<or> num_less (Finite 0xff) w
     then Inl (WalletIdNotUint8 w)
     else if executorFeeUBA h < 0 \<or> executorFeeUBA h > 0xffffffffffffffff
     then Inl (FeeNotUint64 (executorFeeUBA h))
     else
       let header = replicate HEADER_BYTES 0;
           header = header[0 := OPCODE op];
           header = header[1 := num_to_uint8 w]
       in Inr (setBigUint64 2 (executorFeeUBA h) header))"

definition hexToBytes :: "viem \<Rightarrow> js_str \<Rightarrow> nat option \<Rightarrow> memo_error + bytes" where
  "hexToBytes V hex expectedBytes =
    (if \<not> isHex V hex then Inl (NotHexText hex)
     else let body = js_slice_from 2 hex in
       if length body mod 2 \<noteq> 0 then Inl (OddHexLength hex)
       else let bytes = body_bytes body in
         (case expectedBytes of
            Some n \<Rightarrow> if length bytes \<noteq> n then Inl (WrongByteCount n (length bytes)) else Inr bytes
          | None \<Rightarrow> Inr bytes))"

text \<open>\<open>out.set(p, offset)\<close> and the loop of \<open>concat\<close>.\<close>

definition array_set :: "bytes \<Rightarrow> nat \<Rightarrow> bytes \<Rightarrow> bytes" where
  "array_set out offset p = take offset out @ p @ drop (offset + length p) out"

fun concat_loop :: "bytes \<Rightarrow> nat \<Rightarrow> bytes list \<Rightarrow> bytes" where
  "concat_loop out offset [] = out"
| "concat_loop out offset (p # ps) = concat_loop (array_set out offset p) (offset + length p) ps"

definition memo_concat :: "bytes list \<Rightarrow> bytes" where
  "memo_concat parts =
    (let total = foldl (\<lambda>n p. n + length p) 0 parts in concat_loop (replicate total 0) 0 parts)"

definition assertLength :: "opcode \<Rightarrow> bytes \<Rightarrow> memo_error + bytes" where
  "assertLength op memo = (case MEMO_LENGTH op of
     Some expected \<Rightarrow>
       if length memo \<noteq> expected then Inl (WrongMemoLength op expected (length memo)) else Inr memo
   | None \<Rightarrow> Inr memo)"

subsection \<open>Encoders\<close>

definition encodeExecuteCommittedMemo :: "viem \<Rightarrow> memo_header \<Rightarrow> js_str \<Rightarrow> memo_error + bytes" where
  "encodeExecuteCommittedMemo V h userOpHash =
    bind_err (encodeHeader EXECUTE_COMMITTED h) (\<lambda>hd.
    bind_err (hexToBytes V userOpHash (Some 32)) (\<lambda>b.
    assertLength EXECUTE_COMMITTED (memo_concat [hd, b])))"

definition encodeExecuteInlineMemo :: "viem \<Rightarrow> memo_header \<Rightarrow> js_str \<Rightarrow> memo_error + bytes" where
  "encodeExecuteInlineMemo V h userOpData =
    bind_err (encodeHeader EXECUTE_INLINE h) (\<lambda>hd.
    bind_err (hexToBytes V userOpData None) (\<lambda>b.
    let memo = memo_concat [hd, b] in
    if length memo > XRPL_MEMO_MAX_BYTES then Inl (OverXrplCap (length memo)) else Inr memo))"

text \<open>\<open>/^0x0{40}$/i\<close>: the zero address, with either case of the letter.\<close>

definition zero_address_text :: "js_str \<Rightarrow> bool" where
  "zero_address_text s \<longleftrightarrow> js_toLowerCase s = ''0x'' @ replicate 40 (CHR ''0'')"

definition encodeSetExecutorMemo :: "viem \<Rightarrow> memo_header \<Rightarrow> js_str \<Rightarrow> memo_error + bytes" where
  "encodeSetExecutorMemo V h executor =
    (if \<not> isAddress V executor then Inl (InvalidExecutorAddress executor)
     else if zero_address_text executor then Inl ZeroExecutorAddress
     else
       bind_err (encodeHeader SET_EXECUTOR h) (\<lambda>hd.
       bind_err (hexToBytes V executor (Some 20)) (\<lambda>b.
       assertLength SET_EXECUTOR (memo_concat [hd, b]))))"

definition encodeRemoveExecutorMemo :: "memo_header \<Rightarrow> memo_error + bytes" where
  "encodeRemoveExecutorMemo h =
    bind_err (encodeHeader REMOVE_EXECUTOR h) (assertLength REMOVE_EXECUTOR)"

definition encodeIgnoreMemo :: "viem \<Rightarrow> memo_header \<Rightarrow> js_str \<Rightarrow> memo_error + bytes" where
  "encodeIgnoreMemo V h targetTxId =
    bind_err (encodeHeader IGNORE_MEMO h) (\<lambda>hd.
    bind_err (hexToBytes V targetTxId (Some 32)) (\<lambda>b.
    assertLength IGNORE_MEMO (memo_concat [hd, b])))"

text \<open>The loop of \<open>encodeSetNonceMemo\<close>: \<open>nonce_loop k\<close> runs the indices \<open>k - 1\<close> down to 0.\<close>

fun nonce_loop :: "nat \<Rightarrow> bigint \<Rightarrow> bytes \<Rightarrow> bytes" where
  "nonce_loop 0 n out = out"
| "nonce_loop (Suc i) n out = nonce_loop i (drop_bit 8 n) (out[i := of_int (n AND 0xff)])"

definition encodeSetNonceMemo :: "memo_header \<Rightarrow> bigint \<Rightarrow> memo_error + bytes" where
  "encodeSetNonceMemo h newNonce =
    (if newNonce < 0 \<or> newNonce > push_bit 256 1 - 1 then Inl NonceNotUint256
     else let nonceBytes = nonce_loop 32 newNonce (replicate 32 0) in
       bind_err (encodeHeader SET_NONCE h) (\<lambda>hd.
       assertLength SET_NONCE (memo_concat [hd, nonceBytes])))"

definition encodeReplacementFeeMemo ::
    "viem \<Rightarrow> memo_header \<Rightarrow> js_str \<Rightarrow> bigint \<Rightarrow> memo_error + bytes" where
  "encodeReplacementFeeMemo V h targetTxId newFeeUBA =
    (if newFeeUBA < 0 \<or> newFeeUBA > 0xffffffffffffffff then Inl NewFeeNotUint64
     else let feeBytes = setBigUint64 0 newFeeUBA (replicate 8 0) in
       bind_err (encodeHeader SET_REPLACEMENT_FEE h) (\<lambda>hd.
       bind_err (hexToBytes V targetTxId (Some 32)) (\<lambda>b.
       assertLength SET_REPLACEMENT_FEE (memo_concat [hd, b, feeBytes]))))"

definition fromXrplMemoHex :: "viem \<Rightarrow> js_str \<Rightarrow> memo_error + bytes" where
  "fromXrplMemoHex V hex =
    (let clean = (if js_startsWith ''0x'' hex then js_slice_from 2 hex else hex)
     in hexToBytes V (''0x'' @ clean) None)"

subsection \<open>Decoder\<close>

text \<open>The fields \<open>walletId\<close> and \<open>executorFeeUBA\<close>, then those of the instruction.\<close>

datatype decoded_memo =
    DecExecuteInline nat bigint js_str
  | DecExecuteCommitted nat bigint js_str
  | DecIgnoreMemo nat bigint js_str
  | DecSetNonce nat bigint bigint
  | DecReplacementFee nat bigint js_str bigint
  | DecSetExecutor nat bigint js_str
  | DecRemoveExecutor nat bigint

fun decoded_opcode :: "decoded_memo \<Rightarrow> opcode" where
  "decoded_opcode (DecExecuteInline _ _ _) = EXECUTE_INLINE"
| "decoded_opcode (DecExecuteCommitted _ _ _) = EXECUTE_COMMITTED"
| "decoded_opcode (DecIgnoreMemo _ _ _) = IGNORE_MEMO"
| "decoded_opcode (DecSetNonce _ _ _) = SET_NONCE"
| "decoded_opcode (DecReplacementFee _ _ _ _) = SET_REPLACEMENT_FEE"
| "decoded_opcode (DecSetExecutor _ _ _) = SET_EXECUTOR"
| "decoded_opcode (DecRemoveExecutor _ _) = REMOVE_EXECUTOR"

text \<open>
  \<open>BigInt(toHex(slice))\<close>. The slice is never empty, so the text is one \<open>BigInt\<close> accepts: the
  branch for an exception is never taken (lemma \<open>bigint_of_toHex\<close>).
\<close>

definition bigint_of_hex :: "js_str \<Rightarrow> bigint" where
  "bigint_of_hex s = (case js_BigInt s of Inr n \<Rightarrow> n | Inl _ \<Rightarrow> 0)"

definition decodeMemo :: "bytes \<Rightarrow> memo_error + decoded_memo" where
  "decodeMemo memo =
    (if length memo < HEADER_BYTES then Inl ShorterThanHeader
     else
       let op = memo ! 0; w = unat (memo ! 1); fee = getBigUint64 2 memo in
       if op = OPCODE EXECUTE_INLINE then
         Inr (DecExecuteInline w fee (toHex (js_slice_from 10 memo)))
       else if op = OPCODE EXECUTE_COMMITTED then
         bind_err (assertLength EXECUTE_COMMITTED memo) (\<lambda>_.
         Inr (DecExecuteCommitted w fee (toHex (js_slice 10 42 memo))))
       else if op = OPCODE IGNORE_MEMO then
         bind_err (assertLength IGNORE_MEMO memo) (\<lambda>_.
         Inr (DecIgnoreMemo w fee (toHex (js_slice 10 42 memo))))
       else if op = OPCODE SET_NONCE then
         bind_err (assertLength SET_NONCE memo) (\<lambda>_.
         Inr (DecSetNonce w fee (bigint_of_hex (toHex (js_slice 10 42 memo)))))
       else if op = OPCODE SET_REPLACEMENT_FEE then
         bind_err (assertLength SET_REPLACEMENT_FEE memo) (\<lambda>_.
         Inr (DecReplacementFee w fee (toHex (js_slice 10 42 memo)) (getBigUint64 42 memo)))
       else if op = OPCODE SET_EXECUTOR then
         bind_err (assertLength SET_EXECUTOR memo) (\<lambda>_.
         Inr (DecSetExecutor w fee (toHex (js_slice 10 30 memo))))
       else if op = OPCODE REMOVE_EXECUTOR then
         bind_err (assertLength REMOVE_EXECUTOR memo) (\<lambda>_.
         Inr (DecRemoveExecutor w fee))
       else Inl (UnknownInstructionId op))"


subsection \<open>The building blocks\<close>

lemma array_set_length [simp]: "offset + length p \<le> length out \<Longrightarrow> length (array_set out offset p) = length out"
  by (simp add: array_set_def)

lemma concat_loop_eq:
  assumes "offset + length (concat ps) \<le> length out"
  shows "concat_loop out offset ps = take offset out @ concat ps @ drop (offset + length (concat ps)) out"
  using assms
proof (induction ps arbitrary: out offset)
  case (Cons p ps)
  then have "concat_loop out offset (p # ps) =
      take (offset + length p) (array_set out offset p) @ concat ps @
      drop (offset + length p + length (concat ps)) (array_set out offset p)"
    by simp
  with Cons.prems show ?case by (simp add: array_set_def ac_simps)
qed simp

lemma memo_concat_eq [simp]: "memo_concat ps = concat ps"
proof -
  have "foldl (\<lambda>n p. n + length p) n ps = n + length (concat ps)" for n
    by (induction ps arbitrary: n) simp_all
  then show ?thesis by (simp add: memo_concat_def concat_loop_eq)
qed

lemma OPCODE_inject [simp]: "OPCODE a = OPCODE b \<longleftrightarrow> a = b"
  by (cases a; cases b) simp_all

text \<open>A header the encoders accept, and its two values.\<close>

definition header_number :: "memo_header \<Rightarrow> js_number" where
  "header_number h = (case walletId h of None \<Rightarrow> Finite 0 | Some w \<Rightarrow> w)"

fun uint8_number :: "js_number \<Rightarrow> bool" where
  "uint8_number (Finite r) \<longleftrightarrow> (\<exists>n::nat. n < 256 \<and> r = of_nat n)"
| "uint8_number _ \<longleftrightarrow> False"

definition header_ok :: "memo_header \<Rightarrow> bool" where
  "header_ok h \<longleftrightarrow> uint8_number (header_number h) \<and> 0 \<le> executorFeeUBA h \<and> executorFeeUBA h < 2 ^ 64"

definition header_wallet :: "memo_header \<Rightarrow> nat" where
  "header_wallet h = unat (num_to_uint8 (header_number h))"

definition header_bytes :: "opcode \<Rightarrow> nat \<Rightarrow> bigint \<Rightarrow> bytes" where
  "header_bytes op w fee = OPCODE op # of_nat w # be_bytes 8 fee"

lemma uint8_number_guard:
  "num_isInteger w \<and> \<not> num_less w (Finite 0) \<and> \<not> num_less (Finite 0xff) w \<longleftrightarrow> uint8_number w"
proof (cases w)
  case (Finite r)
  have "r = of_int \<lfloor>r\<rfloor> \<and> 0 \<le> r \<and> r \<le> 255 \<longleftrightarrow> (\<exists>n::nat. n < 256 \<and> r = of_nat n)"
  proof
    assume r: "r = of_int \<lfloor>r\<rfloor> \<and> 0 \<le> r \<and> r \<le> 255"
    then have "0 \<le> \<lfloor>r\<rfloor>" and "\<lfloor>r\<rfloor> \<le> 255" by (simp, linarith)
    then have "nat \<lfloor>r\<rfloor> < 256" and "r = of_nat (nat \<lfloor>r\<rfloor>)" using r by (linarith, simp)
    then show "\<exists>n::nat. n < 256 \<and> r = of_nat n" by blast
  next
    assume "\<exists>n::nat. n < 256 \<and> r = of_nat n"
    then obtain n :: nat where n: "n < 256" "r = of_nat n" by blast
    have "(of_nat n :: rat) \<le> of_nat 255" using n(1) by (subst of_nat_le_iff) simp
    with n show "r = of_int \<lfloor>r\<rfloor> \<and> 0 \<le> r \<and> r \<le> 255" by simp
  qed
  with Finite show ?thesis by (auto simp: not_less)
qed simp_all

lemma encodeHeader_eq:
  "encodeHeader op h =
    (if \<not> uint8_number (header_number h) then Inl (WalletIdNotUint8 (header_number h))
     else if executorFeeUBA h < 0 \<or> executorFeeUBA h > 0xffffffffffffffff
     then Inl (FeeNotUint64 (executorFeeUBA h))
     else Inr (header_bytes op (header_wallet h) (executorFeeUBA h)))"
  using uint8_number_guard [of "header_number h"]
  by (auto simp: encodeHeader_def header_number_def [symmetric] header_bytes_def header_wallet_def
      HEADER_BYTES_def setBigUint64_def Let_def eval_nat_numeral simp del: be_bytes.simps)

lemma encodeHeader_Inr:
  "encodeHeader op h = Inr hb \<longleftrightarrow>
    header_ok h \<and> hb = header_bytes op (header_wallet h) (executorFeeUBA h)"
  by (auto simp: encodeHeader_eq header_ok_def)

lemma length_header_bytes [simp]: "length (header_bytes op w fee) = 10"
  by (simp add: header_bytes_def)

lemma header_bytes_fields [simp]:
  "(header_bytes op w fee @ r) ! 0 = OPCODE op"
  "w < 256 \<Longrightarrow> unat ((header_bytes op w fee @ r) ! Suc 0) = w"
  "0 \<le> fee \<Longrightarrow> fee < 2 ^ 64 \<Longrightarrow> getBigUint64 2 (header_bytes op w fee @ r) = fee"
  by (simp_all add: header_bytes_def unat_of_nat getBigUint64_def js_slice_def be_value_be_bytes
      del: be_bytes.simps)

lemma header_bytes_slice [simp]:
  "js_slice 10 n (header_bytes op w fee @ r) = take (n - 10) r"
  "drop 10 (header_bytes op w fee @ r) = r"
  by (simp_all add: js_slice_def)

lemma header_wallet_less [simp]: "header_wallet h < 256"
  by (simp add: header_wallet_def)

lemma memo_split:
  assumes "HEADER_BYTES \<le> length m" and "m ! 0 = OPCODE op"
  shows "header_bytes op (unat (m ! 1)) (getBigUint64 2 m) @ drop 10 m = m"
proof -
  obtain a b r where m: "m = a # b # r" and r: "8 \<le> length r"
    using assms(1) by (auto simp: HEADER_BYTES_def length_Suc_conv numeral_eq_Suc Suc_le_length_iff)
  have "be_bytes (length (take 8 r)) (be_value (take 8 r)) = take 8 r" by (rule be_bytes_be_value)
  then have "be_bytes 8 (be_value (take 8 r)) = take 8 r" using r by simp
  with assms(2) m show ?thesis
    by (simp add: header_bytes_def getBigUint64_def js_slice_def del: be_bytes.simps)
qed

lemma getBigUint64_bounds:
  assumes "off + 8 \<le> length m"
  shows "0 \<le> getBigUint64 off m" and "getBigUint64 off m < 2 ^ 64"
proof -
  have "length (js_slice off (off + 8) m) = 8" using assms by (simp add: js_slice_def)
  then show "0 \<le> getBigUint64 off m" and "getBigUint64 off m < 2 ^ 64"
    using be_value_bounds [of "js_slice off (off + 8) m"] by (simp_all add: getBigUint64_def)
qed

text \<open>Reading hexadecimal text, for a \<open>viem\<close> that behaves as documented.\<close>

lemma hexToBytes_Some:
  assumes "isHex_doc V"
  shows "hexToBytes V s (Some n) = Inr b \<longleftrightarrow>
    hex_string s \<and> length s = 2 + 2 * n \<and> b = body_bytes (drop 2 s)"
proof (cases "hex_string s")
  case True
  then obtain t where t: "s = CHR ''0'' # CHR ''x'' # t" by (auto elim: hex_stringE)
  have "length t mod 2 = 0 \<and> length t div 2 = n \<longleftrightarrow> length t = 2 * n" by presburger
  with assms True t show ?thesis by (auto simp: hexToBytes_def isHex_doc_def Let_def)
next
  case False
  with assms show ?thesis by (simp add: hexToBytes_def isHex_doc_def)
qed

lemma hexToBytes_None:
  assumes "isHex_doc V"
  shows "hexToBytes V s None = Inr b \<longleftrightarrow>
    hex_string s \<and> even (length s) \<and> b = body_bytes (drop 2 s)"
proof (cases "hex_string s")
  case True
  then obtain t where t: "s = CHR ''0'' # CHR ''x'' # t" by (auto elim: hex_stringE)
  with assms True show ?thesis
    by (auto simp: hexToBytes_def isHex_doc_def Let_def even_iff_mod_2_eq_zero)
next
  case False
  with assms show ?thesis by (simp add: hexToBytes_def isHex_doc_def)
qed

lemma toHex_body_bytes:
  assumes "hex_string s" and "even (length s)"
  shows "toHex (body_bytes (drop 2 s)) = js_toLowerCase s"
proof -
  from assms obtain b where b: "s = CHR ''0'' # CHR ''x'' # b" "hex_body b" "even (length b)"
    by (auto elim: hex_stringE)
  then show ?thesis by (simp add: toHex_def bytes_hex_body)
qed

lemma drop_2_toHex [simp]: "drop 2 (toHex b) = bytes_hex b"
  by (simp add: toHex_def)

lemma bigint_of_toHex [simp]: "bs \<noteq> [] \<Longrightarrow> bigint_of_hex (toHex bs) = be_value bs"
  by (cases bs)
    (simp_all add: bigint_of_hex_def toHex_def js_BigInt_hex digits_val_bytes_hex del: bytes_hex_simps(2),
     simp add: js_BigInt_hex digits_val_bytes_hex [symmetric])

text \<open>The nonce loop writes the number as 32 big-endian bytes.\<close>

lemma byte_of_int_and: "(of_int (n AND 255) :: byte) = of_int n"
proof -
  have "n AND 255 = take_bit 8 n" using take_bit_eq_mask [of 8 n] by (simp add: mask_eq_exp_minus_1)
  moreover have "(of_int (take_bit 8 n) :: byte) = of_int n"
    by (simp only: word_of_int_eq_iff) simp
  ultimately show ?thesis by simp
qed

lemma nonce_loop_eq:
  assumes "k \<le> length out"
  shows "nonce_loop k n out = be_bytes k n @ drop k out"
  using assms
proof (induction k arbitrary: n out)
  case (Suc k)
  have "(of_int (n AND 255) :: byte) = of_int n"
    by (simp add: byte_of_int_and)
  with Suc show ?case
    by (simp add: drop_bit_eq_div Cons_nth_drop_Suc [symmetric])
qed simp


subsection \<open>What each encoder produces\<close>

lemma assertLength_Inr:
  "assertLength op m = Inr m' \<longleftrightarrow> m' = m \<and> (\<forall>n. MEMO_LENGTH op = Some n \<longrightarrow> length m = n)"
  by (cases op) (auto simp: assertLength_def)

lemma encodeExecuteCommittedMemo_Inr:
  assumes "isHex_doc V"
  shows "encodeExecuteCommittedMemo V h s = Inr m \<longleftrightarrow>
    header_ok h \<and> hex_string s \<and> length s = 66 \<and>
    m = header_bytes EXECUTE_COMMITTED (header_wallet h) (executorFeeUBA h) @ body_bytes (drop 2 s)"
  using assms
  by (auto simp: encodeExecuteCommittedMemo_def encodeHeader_Inr hexToBytes_Some assertLength_Inr)

lemma encodeIgnoreMemo_Inr:
  assumes "isHex_doc V"
  shows "encodeIgnoreMemo V h s = Inr m \<longleftrightarrow>
    header_ok h \<and> hex_string s \<and> length s = 66 \<and>
    m = header_bytes IGNORE_MEMO (header_wallet h) (executorFeeUBA h) @ body_bytes (drop 2 s)"
  using assms
  by (auto simp: encodeIgnoreMemo_def encodeHeader_Inr hexToBytes_Some assertLength_Inr)

lemma encodeExecuteInlineMemo_Inr:
  assumes "isHex_doc V"
  shows "encodeExecuteInlineMemo V h s = Inr m \<longleftrightarrow>
    header_ok h \<and> hex_string s \<and> even (length s) \<and> length s \<le> 2 + 2 * 1014 \<and>
    m = header_bytes EXECUTE_INLINE (header_wallet h) (executorFeeUBA h) @ body_bytes (drop 2 s)"
proof -
  have "10 + (length s - 2) div 2 \<le> 1024 \<longleftrightarrow> length s \<le> 2 + 2 * 1014" if "even (length s)"
    using that by presburger
  with assms show ?thesis
    by (auto simp: encodeExecuteInlineMemo_def encodeHeader_Inr hexToBytes_None XRPL_MEMO_MAX_BYTES_def
        Let_def not_less split: if_splits)
qed

lemma encodeSetExecutorMemo_Inr:
  assumes "isHex_doc V" and "isAddress_doc V"
  shows "encodeSetExecutorMemo V h s = Inr m \<longleftrightarrow>
    isAddress V s \<and> \<not> zero_address_text s \<and> header_ok h \<and>
    m = header_bytes SET_EXECUTOR (header_wallet h) (executorFeeUBA h) @ body_bytes (drop 2 s)"
proof -
  have "hex_string s \<and> length s = 42" if "isAddress V s"
    using assms(2) that by (rule isAddress_docD)
  with assms(1) show ?thesis
    by (auto simp: encodeSetExecutorMemo_def encodeHeader_Inr hexToBytes_Some assertLength_Inr)
qed

lemma encodeRemoveExecutorMemo_Inr:
  "encodeRemoveExecutorMemo h = Inr m \<longleftrightarrow>
    header_ok h \<and> m = header_bytes REMOVE_EXECUTOR (header_wallet h) (executorFeeUBA h)"
  by (auto simp: encodeRemoveExecutorMemo_def encodeHeader_Inr assertLength_Inr)

lemma encodeSetNonceMemo_Inr:
  "encodeSetNonceMemo h n = Inr m \<longleftrightarrow>
    header_ok h \<and> 0 \<le> n \<and> n < 2 ^ 256 \<and>
    m = header_bytes SET_NONCE (header_wallet h) (executorFeeUBA h) @ be_bytes 32 n"
  by (auto simp: encodeSetNonceMemo_def encodeHeader_Inr assertLength_Inr nonce_loop_eq Let_def
      simp del: be_bytes.simps nonce_loop.simps)

lemma encodeReplacementFeeMemo_Inr:
  assumes "isHex_doc V"
  shows "encodeReplacementFeeMemo V h s f = Inr m \<longleftrightarrow>
    header_ok h \<and> hex_string s \<and> length s = 66 \<and> 0 \<le> f \<and> f < 2 ^ 64 \<and>
    m = header_bytes SET_REPLACEMENT_FEE (header_wallet h) (executorFeeUBA h)
        @ body_bytes (drop 2 s) @ be_bytes 8 f"
  using assms
  by (auto simp: encodeReplacementFeeMemo_def encodeHeader_Inr hexToBytes_Some assertLength_Inr
      setBigUint64_def Let_def simp del: be_bytes.simps)

lemmas encoder_iffs =
  encodeExecuteCommittedMemo_Inr encodeIgnoreMemo_Inr encodeExecuteInlineMemo_Inr
  encodeSetExecutorMemo_Inr encodeRemoveExecutorMemo_Inr encodeSetNonceMemo_Inr
  encodeReplacementFeeMemo_Inr

subsection \<open>The decoder inverts the encoders\<close>

text \<open>
  The encoder of each decoded instruction, and the form in which the decoder shows it: its
  hexadecimal texts in lower case.
\<close>

definition mk_header :: "nat \<Rightarrow> bigint \<Rightarrow> memo_header" where
  "mk_header w fee = \<lparr>walletId = Some (Finite (of_nat w)), executorFeeUBA = fee\<rparr>"

fun encode_memo :: "viem \<Rightarrow> decoded_memo \<Rightarrow> memo_error + bytes" where
  "encode_memo V (DecExecuteInline w fee d) = encodeExecuteInlineMemo V (mk_header w fee) d"
| "encode_memo V (DecExecuteCommitted w fee h) = encodeExecuteCommittedMemo V (mk_header w fee) h"
| "encode_memo V (DecIgnoreMemo w fee t) = encodeIgnoreMemo V (mk_header w fee) t"
| "encode_memo V (DecSetNonce w fee n) = encodeSetNonceMemo (mk_header w fee) n"
| "encode_memo V (DecReplacementFee w fee t f) = encodeReplacementFeeMemo V (mk_header w fee) t f"
| "encode_memo V (DecSetExecutor w fee e) = encodeSetExecutorMemo V (mk_header w fee) e"
| "encode_memo V (DecRemoveExecutor w fee) = encodeRemoveExecutorMemo (mk_header w fee)"

fun canonical_memo :: "decoded_memo \<Rightarrow> decoded_memo" where
  "canonical_memo (DecExecuteInline w fee d) = DecExecuteInline w fee (js_toLowerCase d)"
| "canonical_memo (DecExecuteCommitted w fee h) = DecExecuteCommitted w fee (js_toLowerCase h)"
| "canonical_memo (DecIgnoreMemo w fee t) = DecIgnoreMemo w fee (js_toLowerCase t)"
| "canonical_memo (DecSetNonce w fee n) = DecSetNonce w fee n"
| "canonical_memo (DecReplacementFee w fee t f) = DecReplacementFee w fee (js_toLowerCase t) f"
| "canonical_memo (DecSetExecutor w fee e) = DecSetExecutor w fee (js_toLowerCase e)"
| "canonical_memo (DecRemoveExecutor w fee) = DecRemoveExecutor w fee"

lemma mk_header_ok: "header_ok (mk_header w fee) \<longleftrightarrow> w < 256 \<and> 0 \<le> fee \<and> fee < 2 ^ 64"
  by (auto simp: header_ok_def header_number_def mk_header_def)

lemma mk_header_wallet [simp]: "w < 256 \<Longrightarrow> header_wallet (mk_header w fee) = w"
  by (simp add: header_wallet_def header_number_def mk_header_def unat_of_nat)

lemma mk_header_fee [simp]: "executorFeeUBA (mk_header w fee) = fee"
  by (simp add: mk_header_def)

text \<open>Decoding bytes of the shape the encoders build.\<close>

lemmas decode_remove = header_bytes_fields [where r = "[]", simplified]

lemma decode_header:
  assumes "w < 256" and "0 \<le> fee" and "fee < 2 ^ 64"
  shows "decodeMemo (header_bytes op w fee @ r) = (case op of
      EXECUTE_INLINE \<Rightarrow> Inr (DecExecuteInline w fee (toHex r))
    | EXECUTE_COMMITTED \<Rightarrow>
        if length r = 32 then Inr (DecExecuteCommitted w fee (toHex r))
        else Inl (WrongMemoLength op 42 (10 + length r))
    | IGNORE_MEMO \<Rightarrow>
        if length r = 32 then Inr (DecIgnoreMemo w fee (toHex r))
        else Inl (WrongMemoLength op 42 (10 + length r))
    | SET_NONCE \<Rightarrow>
        if length r = 32 then Inr (DecSetNonce w fee (be_value r))
        else Inl (WrongMemoLength op 42 (10 + length r))
    | SET_REPLACEMENT_FEE \<Rightarrow>
        if length r = 40 then Inr (DecReplacementFee w fee (toHex (take 32 r)) (be_value (drop 32 r)))
        else Inl (WrongMemoLength op 50 (10 + length r))
    | SET_EXECUTOR \<Rightarrow>
        if length r = 20 then Inr (DecSetExecutor w fee (toHex r))
        else Inl (WrongMemoLength op 30 (10 + length r))
    | REMOVE_EXECUTOR \<Rightarrow>
        if length r = 0 then Inr (DecRemoveExecutor w fee)
        else Inl (WrongMemoLength op 10 (10 + length r)))"
proof -
  have op: "(header_bytes op w fee @ r) ! 0 = OPCODE op" by simp
  have fee: "getBigUint64 42 (header_bytes p w fee @ r) = be_value (take 8 (drop 32 r))" for p
    by (simp add: getBigUint64_def js_slice_def)
  have nonce: "bigint_of_hex (toHex r) = be_value r" if "length r = 32"
    using that by (intro bigint_of_toHex) auto
  show ?thesis
    unfolding decodeMemo_def Let_def op OPCODE_inject
    using assms
    by (cases op)
      (simp_all add: HEADER_BYTES_def assertLength_def fee nonce decode_remove)
qed

text \<open>Any bytes the decoder accepts have that shape.\<close>

lemma decodeMemo_shape:
  assumes "decodeMemo m = Inr d"
  obtains w fee r where "w < 256" and "0 \<le> fee" and "fee < 2 ^ 64"
    and "m = header_bytes (decoded_opcode d) w fee @ r"
proof -
  have len: "HEADER_BYTES \<le> length m"
    using assms by (auto simp: decodeMemo_def split: if_splits)
  have "m ! 0 = OPCODE (decoded_opcode d)"
    using assms by (auto simp: decodeMemo_def Let_def split: if_splits)
  then have "m = header_bytes (decoded_opcode d) (unat (m ! 1)) (getBigUint64 2 m) @ drop 10 m"
    using memo_split [OF len] by simp
  moreover have "0 \<le> getBigUint64 2 m" "getBigUint64 2 m < 2 ^ 64"
    using getBigUint64_bounds [of 2 m] len by (simp_all add: HEADER_BYTES_def)
  ultimately show ?thesis using that [of "unat (m ! 1)" "getBigUint64 2 m" "drop 10 m"] by simp
qed

lemma memo_decode_encode_aux:
  assumes V: "isHex_doc V" "isAddress_doc V" and enc: "encode_memo V d = Inr m"
  shows "decodeMemo m = Inr (canonical_memo d)"
proof (cases d)
  case (DecExecuteInline w fee s)
  with V enc show ?thesis
    by (auto simp: encodeExecuteInlineMemo_Inr mk_header_ok decode_header toHex_body_bytes)
next
  case (DecExecuteCommitted w fee s)
  with V enc show ?thesis
    by (auto simp: encodeExecuteCommittedMemo_Inr mk_header_ok decode_header toHex_body_bytes)
next
  case (DecIgnoreMemo w fee s)
  with V enc show ?thesis
    by (auto simp: encodeIgnoreMemo_Inr mk_header_ok decode_header toHex_body_bytes)
next
  case (DecSetNonce w fee n)
  with enc show ?thesis
    by (auto simp: encodeSetNonceMemo_Inr mk_header_ok decode_header be_value_be_bytes
        simp del: be_bytes.simps)
next
  case (DecReplacementFee w fee s f)
  with V enc show ?thesis
    by (auto simp: encodeReplacementFeeMemo_Inr mk_header_ok decode_header toHex_body_bytes
        be_value_be_bytes simp del: be_bytes.simps)
next
  case (DecSetExecutor w fee s)
  have "hex_string s \<and> length s = 42" if "isAddress V s"
    using V(2) that by (rule isAddress_docD)
  with DecSetExecutor V enc show ?thesis
    by (auto simp: encodeSetExecutorMemo_Inr mk_header_ok decode_header toHex_body_bytes)
next
  case (DecRemoveExecutor w fee)
  with enc show ?thesis
    by (auto simp: encodeRemoveExecutorMemo_Inr mk_header_ok decode_header [where r = "[]", simplified])
qed


lemma be_bytes_of_slice: "length r = n \<Longrightarrow> be_bytes n (be_value r) = r"
  using be_bytes_be_value by blast

lemma memo_encode_decode_aux:
  assumes V: "isHex_doc V" "isAddress_doc V"
    and shape: "w < 256" "0 \<le> fee" "fee < 2 ^ 64" "m = header_bytes op w fee @ r"
    and dec: "decodeMemo m = Inr d"
    and cap: "op = EXECUTE_INLINE \<Longrightarrow> length m \<le> XRPL_MEMO_MAX_BYTES"
    and exe: "\<And>w fee e. d = DecSetExecutor w fee e \<Longrightarrow> \<not> zero_address_text e"
  shows "encode_memo V d = Inr m"
proof (cases op)
  case EXECUTE_INLINE
  with V shape dec cap show ?thesis
    by (auto simp: encodeExecuteInlineMemo_Inr mk_header_ok decode_header XRPL_MEMO_MAX_BYTES_def)
next
  case EXECUTE_COMMITTED
  with V shape dec show ?thesis
    by (auto simp: encodeExecuteCommittedMemo_Inr mk_header_ok decode_header split: if_splits)
next
  case IGNORE_MEMO
  with V shape dec show ?thesis
    by (auto simp: encodeIgnoreMemo_Inr mk_header_ok decode_header split: if_splits)
next
  case SET_NONCE
  with shape dec have len: "length r = 32" and d: "d = DecSetNonce w fee (be_value r)"
    by (auto simp: decode_header split: if_splits)
  have "0 \<le> be_value r" "be_value r < 2 ^ 256"
    using be_value_bounds [of r] len by simp_all
  with SET_NONCE shape d len show ?thesis
    by (simp add: encodeSetNonceMemo_Inr mk_header_ok be_bytes_of_slice del: be_bytes.simps)
next
  case SET_REPLACEMENT_FEE
  with shape dec have len: "length r = 40"
    and d: "d = DecReplacementFee w fee (toHex (take 32 r)) (be_value (drop 32 r))"
    by (auto simp: decode_header split: if_splits)
  have "0 \<le> be_value (drop 32 r)" "be_value (drop 32 r) < 2 ^ 64"
    using be_value_bounds [of "drop 32 r"] len by simp_all
  with SET_REPLACEMENT_FEE V shape d len show ?thesis
    by (simp add: encodeReplacementFeeMemo_Inr mk_header_ok be_bytes_of_slice del: be_bytes.simps)
next
  case SET_EXECUTOR
  with shape dec have len: "length r = 20" and d: "d = DecSetExecutor w fee (toHex r)"
    by (auto simp: decode_header split: if_splits)
  have "isAddress V (toHex r)" using V(2) len by (intro isAddress_docI) simp_all
  with SET_EXECUTOR V shape d exe show ?thesis
    by (simp add: encodeSetExecutorMemo_Inr mk_header_ok)
next
  case REMOVE_EXECUTOR
  with shape dec have r: "r = []" by (auto simp: decode_header split: if_splits)
  with REMOVE_EXECUTOR shape dec have "d = DecRemoveExecutor w fee"
    using decode_header [of w fee REMOVE_EXECUTOR "[]"] by simp
  with REMOVE_EXECUTOR shape r show ?thesis
    by (simp add: encodeRemoveExecutorMemo_Inr mk_header_ok)
qed

lemma memo_length_aux:
  assumes "isHex_doc V" and "isAddress_doc V" and "encode_memo V d = Inr m"
  shows "m ! 0 = OPCODE (decoded_opcode d)"
    and "MEMO_LENGTH (decoded_opcode d) = Some n \<Longrightarrow> length m = n"
    and "length m \<le> XRPL_MEMO_MAX_BYTES"
proof -
  have "length s = 42" if "isAddress V s" for s
    using assms(2) that by (blast dest: isAddress_docD)
  with assms(1,2,3) show "m ! 0 = OPCODE (decoded_opcode d)"
    and "MEMO_LENGTH (decoded_opcode d) = Some n \<Longrightarrow> length m = n"
    and "length m \<le> XRPL_MEMO_MAX_BYTES"
    by (cases d; auto simp: encoder_iffs XRPL_MEMO_MAX_BYTES_def decode_remove
        simp del: be_bytes.simps)+
qed

lemma fromXrplMemoHex_aux:
  assumes "isHex_doc V"
  shows "fromXrplMemoHex V (toXrplMemoHex m) = Inr m"
proof -
  have body: "hex_body (toXrplMemoHex m)" by (simp add: toXrplMemoHex_def)
  then have "\<not> js_startsWith ''0x'' (toXrplMemoHex m)"
    by (auto simp: js_startsWith_0x_conv is_hex_char_def hex_val_def)
  with body assms show "fromXrplMemoHex V (toXrplMemoHex m) = Inr m"
    by (simp add: fromXrplMemoHex_def hexToBytes_None) (simp add: toXrplMemoHex_def)
qed

subsection \<open>Properties\<close>

text \<open>
  (C15) Decoding what an encoder built gives back the instruction, for all seven opcodes: the
  wallet, the fee, and every field, with hexadecimal text in lower case.
\<close>

theorem memo_decode_encode:
  assumes "isHex_doc V" and "isAddress_doc V" and "encode_memo V d = Inr m"
  shows "decodeMemo m = Inr (canonical_memo d)"
  using assms by (rule memo_decode_encode_aux)

text \<open>A committed memo, for the witnesses: wallet 7, fee 258, a hash with a capital letter.\<close>

definition demo_hash :: js_str where
  "demo_hash = ''0x'' @ replicate 63 (CHR ''a'') @ ''B''"

definition demo_decoded :: decoded_memo where
  "demo_decoded = DecExecuteCommitted 7 258 demo_hash"

definition demo_memo :: bytes where
  "demo_memo = header_bytes EXECUTE_COMMITTED 7 258 @ replicate 31 0xaa @ [0xab]"

lemma demo_hash_shape: "hex_string demo_hash" "length demo_hash = 66"
  by (simp_all add: demo_hash_def hex_string_def hex_body_def js_startsWith_def
      is_hex_char_def hex_val_def list_all_iff)

lemma demo_memo_encodes: "encode_memo demo_viem demo_decoded = Inr demo_memo"
proof -
  have "body_bytes (drop 2 demo_hash) = replicate 31 0xaa @ [0xab]" by code_simp
  then show ?thesis
    by (simp add: demo_decoded_def demo_memo_def encodeExecuteCommittedMemo_Inr [OF demo_viem_docs(1)]
        mk_header_ok demo_hash_shape)
qed

lemma memo_decode_encode_witness:
  "decodeMemo demo_memo = Inr (DecExecuteCommitted 7 258 (js_toLowerCase demo_hash))"
  using memo_decode_encode [OF demo_viem_docs(1,2) demo_memo_encodes] by (simp add: demo_decoded_def)

text \<open>
  (C16) The encoding is canonical: bytes the decoder accepts are exactly the bytes the encoder of
  the decoded instruction builds, so no two memos mean the same. The two exceptions are the ones
  the encoders refuse and the decoder does not: an inline memo over the ledger's cap, and the zero
  executor.
\<close>

theorem memo_encode_decode:
  assumes "isHex_doc V" and "isAddress_doc V" and "decodeMemo m = Inr d"
    and "decoded_opcode d = EXECUTE_INLINE \<Longrightarrow> length m \<le> XRPL_MEMO_MAX_BYTES"
    and "\<And>w fee e. d = DecSetExecutor w fee e \<Longrightarrow> \<not> zero_address_text e"
  shows "encode_memo V d = Inr m"
proof -
  obtain w fee r where "w < 256" "0 \<le> fee" "fee < 2 ^ 64"
    and "m = header_bytes (decoded_opcode d) w fee @ r"
    using assms(3) by (rule decodeMemo_shape)
  with assms show ?thesis by (intro memo_encode_decode_aux) simp_all
qed

lemma memo_encode_decode_witness:
  "encode_memo demo_viem (DecRemoveExecutor 3 5) = Inr (header_bytes REMOVE_EXECUTOR 3 5)"
proof -
  have d: "decodeMemo (header_bytes REMOVE_EXECUTOR 3 5) = Inr (DecRemoveExecutor 3 5)"
    using decode_header [of 3 5 REMOVE_EXECUTOR "[]"] by simp
  show ?thesis by (rule memo_encode_decode [OF demo_viem_docs(1,2) d]) simp_all
qed

text \<open>
  Every memo an encoder returns starts with its opcode, has exactly the length the contract
  requires of that opcode, and fits the ledger's memo field.
\<close>

theorem memo_contract_length:
  assumes "isHex_doc V" and "isAddress_doc V" and "encode_memo V d = Inr m"
  shows "m ! 0 = OPCODE (decoded_opcode d) \<and>
    (MEMO_LENGTH (decoded_opcode d) \<in> {None, Some (length m)}) \<and>
    length m \<le> XRPL_MEMO_MAX_BYTES"
  using memo_length_aux [OF assms] by (cases "MEMO_LENGTH (decoded_opcode d)") auto

lemma memo_contract_length_witness:
  "demo_memo ! 0 = 0xfe \<and> length demo_memo = 42"
  using memo_contract_length [OF demo_viem_docs(1,2) demo_memo_encodes]
  by (auto simp: demo_decoded_def)

text \<open>
  When the encoders succeed: the wallet is an integer in a byte, the fee fits 64 bits, and the
  field of the instruction has its exact size. Everything else throws.
\<close>

theorem memo_encoders_accept:
  assumes "isHex_doc V" and "isAddress_doc V"
  shows "(is_ok (encodeExecuteCommittedMemo V h s) = (header_ok h \<and> hex_string s \<and> length s = 66)) \<and>
    (is_ok (encodeIgnoreMemo V h s) = (header_ok h \<and> hex_string s \<and> length s = 66)) \<and>
    (is_ok (encodeExecuteInlineMemo V h s) =
      (header_ok h \<and> hex_string s \<and> even (length s) \<and> length s \<le> 2 + 2 * 1014)) \<and>
    (is_ok (encodeSetExecutorMemo V h s) = (header_ok h \<and> isAddress V s \<and> \<not> zero_address_text s)) \<and>
    (is_ok (encodeRemoveExecutorMemo h) = header_ok h) \<and>
    (is_ok (encodeSetNonceMemo h n) = (header_ok h \<and> 0 \<le> n \<and> n < 2 ^ 256)) \<and>
    (is_ok (encodeReplacementFeeMemo V h s f) =
      (header_ok h \<and> hex_string s \<and> length s = 66 \<and> 0 \<le> f \<and> f < 2 ^ 64))"
  using assms by (auto simp: is_ok_iff encoder_iffs)

lemma memo_encoders_accept_witness:
  "is_ok (encodeSetNonceMemo (mk_header 1 2) (2 ^ 256 - 1)) \<and>
    \<not> is_ok (encodeSetNonceMemo (mk_header 1 2) (2 ^ 256)) \<and>
    \<not> is_ok (encodeRemoveExecutorMemo (mk_header 256 2))"
  using memo_encoders_accept [OF demo_viem_docs(1,2), of "mk_header 1 2" _ "2 ^ 256 - 1"]
    memo_encoders_accept [OF demo_viem_docs(1,2), of "mk_header 1 2" _ "2 ^ 256"]
    memo_encoders_accept [OF demo_viem_docs(1,2), of "mk_header 256 2"]
  by (simp add: mk_header_ok)

text \<open>
  The wire format loses nothing: the upper-case text a payment carries reads back as the memo,
  and it is made of two digits a byte with no prefix.
\<close>

theorem memo_wire_roundtrip:
  assumes "isHex_doc V"
  shows "fromXrplMemoHex V (toXrplMemoHex m) = Inr m \<and>
    length (toXrplMemoHex m) = 2 * length m \<and> hex_body (toXrplMemoHex m)"
  using fromXrplMemoHex_aux [OF assms] by (simp add: toXrplMemoHex_def)

lemma memo_wire_roundtrip_witness:
  "fromXrplMemoHex demo_viem (toXrplMemoHex demo_memo) = Inr demo_memo"
  using memo_wire_roundtrip [OF demo_viem_docs(1)] by blast

end
