(* ===== verification/Userop.thy ===== *)
theory Userop
  imports Viem
begin

text \<open>
  \<open>packages/sdk/src/userop.ts\<close>: the call batch, the user operation and its commitment. The data
  types \<open>call\<close> and \<open>packed_user_operation\<close> are in the theory \<open>Viem\<close>, next to the encoders that take
  them.
\<close>

datatype userop_error =
    EmptyCallBatch
  | ViemError js_error

definition ZERO_BYTES32 :: js_str where
  "ZERO_BYTES32 = ''0x'' @ concat (replicate 32 ''00'')"

fun viem_result :: "js_error + 'a \<Rightarrow> userop_error + 'a" where
  "viem_result (Inl e) = Inl (ViemError e)"
| "viem_result (Inr a) = Inr a"

lemma viem_result_Inr [simp]: "viem_result r = Inr a \<longleftrightarrow> r = Inr a"
  by (cases r) simp_all

definition encodeCallBatch :: "viem \<Rightarrow> call list \<Rightarrow> userop_error + js_str" where
  "encodeCallBatch V calls =
    (if length calls = 0 then Inl EmptyCallBatch
     else viem_result (encodeFunctionData V
       (map (\<lambda>c. \<lparr>target = target c, val = val c, data = data c\<rparr>) calls)))"

definition buildUserOp ::
    "viem \<Rightarrow> js_str \<Rightarrow> bigint \<Rightarrow> call list \<Rightarrow> userop_error + packed_user_operation" where
  "buildUserOp V s n calls =
    bind_err (encodeCallBatch V calls) (\<lambda>cd.
    Inr \<lparr>sender = s, nonce = n, initCode = ''0x'', callData = cd,
         accountGasLimits = ZERO_BYTES32, preVerificationGas = 0, gasFees = ZERO_BYTES32,
         paymasterAndData = ''0x'', signature = ''0x''\<rparr>)"

definition encodeUserOp :: "viem \<Rightarrow> packed_user_operation \<Rightarrow> userop_error + js_str" where
  "encodeUserOp V u = viem_result (encodeAbiParameters V u)"

definition hashUserOp :: "viem \<Rightarrow> packed_user_operation \<Rightarrow> userop_error + js_str" where
  "hashUserOp V u = bind_err (encodeUserOp V u) (\<lambda>d. viem_result (keccak256 V d))"

record prepared_user_op =
  pu_userOp :: packed_user_operation
  pu_userOpData :: js_str
  pu_userOpHash :: js_str

definition prepareUserOp ::
    "viem \<Rightarrow> js_str \<Rightarrow> bigint \<Rightarrow> call list \<Rightarrow> userop_error + prepared_user_op" where
  "prepareUserOp V s n calls =
    bind_err (buildUserOp V s n calls) (\<lambda>u.
    bind_err (encodeUserOp V u) (\<lambda>d.
    bind_err (viem_result (keccak256 V d)) (\<lambda>h.
    Inr \<lparr>pu_userOp = u, pu_userOpData = d, pu_userOpHash = h\<rparr>)))"

lemma map_call_id [simp]: "map (\<lambda>c. \<lparr>target = target c, val = val c, data = data c\<rparr>) calls = calls"
  by (simp add: map_idI)

lemma encodeCallBatch_Inr:
  "encodeCallBatch V calls = Inr cd \<longleftrightarrow> calls \<noteq> [] \<and> encodeFunctionData V calls = Inr cd"
  by (simp add: encodeCallBatch_def)

lemma buildUserOp_Inr:
  "buildUserOp V s n calls = Inr u \<longleftrightarrow>
    calls \<noteq> [] \<and> (\<exists>cd. encodeFunctionData V calls = Inr cd \<and>
      u = \<lparr>sender = s, nonce = n, initCode = ''0x'', callData = cd,
         accountGasLimits = ZERO_BYTES32, preVerificationGas = 0, gasFees = ZERO_BYTES32,
         paymasterAndData = ''0x'', signature = ''0x''\<rparr>)"
  by (auto simp: buildUserOp_def encodeCallBatch_Inr)

lemma prepareUserOp_Inr:
  "prepareUserOp V s n calls = Inr p \<longleftrightarrow>
    buildUserOp V s n calls = Inr (pu_userOp p) \<and>
    encodeAbiParameters V (pu_userOp p) = Inr (pu_userOpData p) \<and>
    keccak256 V (pu_userOpData p) = Inr (pu_userOpHash p)"
  by (cases p) (auto simp: prepareUserOp_def encodeUserOp_def)

lemma prepareUserOp_fields:
  assumes "prepareUserOp V s n calls = Inr p"
  shows "sender (pu_userOp p) = s" and "nonce (pu_userOp p) = n"
    and "encodeFunctionData V calls = Inr (callData (pu_userOp p))" and "calls \<noteq> []"
  using assms by (auto simp: prepareUserOp_Inr buildUserOp_Inr)

subsection \<open>Properties\<close>

text \<open>
  The convenience function agrees with the two steps a verifier runs on its own: the
  commitment it returns is \<open>hashUserOp\<close> of the operation it returns, which binds the sender, the
  nonce and the encoded batch it was given and leaves every other field at its zero.
\<close>

theorem prepareUserOp_commits:
  assumes "prepareUserOp V s n calls = Inr p"
  shows "hashUserOp V (pu_userOp p) = Inr (pu_userOpHash p) \<and>
    encodeUserOp V (pu_userOp p) = Inr (pu_userOpData p) \<and>
    sender (pu_userOp p) = s \<and> nonce (pu_userOp p) = n \<and>
    encodeCallBatch V calls = Inr (callData (pu_userOp p)) \<and>
    initCode (pu_userOp p) = ''0x'' \<and> preVerificationGas (pu_userOp p) = 0 \<and>
    length (accountGasLimits (pu_userOp p)) = 66 \<and> gasFees (pu_userOp p) = ZERO_BYTES32"
  using assms
  by (auto simp: prepareUserOp_Inr buildUserOp_Inr hashUserOp_def encodeUserOp_def
      encodeCallBatch_Inr ZERO_BYTES32_def length_concat sum_list_replicate)

text \<open>A batch of one call, for the witnesses.\<close>

definition demo_call :: call where
  "demo_call = \<lparr>target = ''0x1612b980Ddb6c13c01039A712634035Cfb2367E8'', val = 0, data = ''0xd09de08a''\<rparr>"

definition demo_user_op :: prepared_user_op where
  "demo_user_op = (case prepareUserOp demo_viem ''0xab'' 4 [demo_call] of Inr p \<Rightarrow> p)"

lemma demo_user_op_prepared: "prepareUserOp demo_viem ''0xab'' 4 [demo_call] = Inr demo_user_op"
proof -
  obtain h where "demo_keccak (toHex (be_bytes 32 4)) = Inr h"
    using demo_keccak_shape [of "toHex (be_bytes 32 4)"] by auto
  then show ?thesis
    by (simp add: demo_user_op_def demo_viem_def prepareUserOp_def buildUserOp_def encodeUserOp_def
        encodeCallBatch_def del: be_bytes.simps)
qed

lemma prepareUserOp_commits_witness:
  "hashUserOp demo_viem (pu_userOp demo_user_op) = Inr (pu_userOpHash demo_user_op) \<and>
    nonce (pu_userOp demo_user_op) = 4"
  using prepareUserOp_commits [OF demo_user_op_prepared] by blast

end
