(* ===== verification/Fassets.thy ===== *)
theory Fassets
  imports Numbers "HOL-Library.Signed_Division"
begin

text \<open>
  \<open>packages/sdk/src/fassets.ts\<close>: the fees of direct minting and the amount a payment must carry.
  The reads of the AssetManager contract are fields of the record \<open>asset_manager\<close>, an argument of
  the definitions that use it.
\<close>

definition DROPS_PER_XRP :: bigint where
  "DROPS_PER_XRP = 1000000"

record direct_minting_fees =
  fee_executorFeeUBA :: bigint
  feeBIPS :: bigint
  minimumFeeUBA :: bigint

record payment_breakdown =
  netMintUBA :: bigint
  mintingFeeUBA :: bigint
  pay_executorFeeUBA :: bigint
  totalUBA :: bigint

text \<open>What \<open>readContract\<close> answers for the AssetManager at an address.\<close>

record asset_manager =
  rpc_directMintingPaymentAddress :: "js_str \<Rightarrow> js_error + js_str"
  rpc_getDirectMintingExecutorFeeUBA :: "js_str \<Rightarrow> js_error + bigint"
  rpc_getDirectMintingFeeBIPS :: "js_str \<Rightarrow> js_error + bigint"
  rpc_getDirectMintingMinimumFeeUBA :: "js_str \<Rightarrow> js_error + bigint"

text \<open>
  \<open>Promise.all\<close> of the three reads: all are sent, and one failure fails the whole. When several
  fail the model reports the first of the list.
\<close>

definition readDirectMintingFees ::
    "('r asset_manager_scheme) \<Rightarrow> js_str \<Rightarrow> js_error + direct_minting_fees" where
  "readDirectMintingFees R am =
    bind_err (rpc_getDirectMintingExecutorFeeUBA R am) (\<lambda>e.
    bind_err (rpc_getDirectMintingFeeBIPS R am) (\<lambda>b.
    bind_err (rpc_getDirectMintingMinimumFeeUBA R am) (\<lambda>m.
    Inr \<lparr>fee_executorFeeUBA = e, feeBIPS = b, minimumFeeUBA = m\<rparr>)))"

text \<open>Division of \<open>bigint\<close>s truncates toward zero: \<open>sdiv\<close>.\<close>

definition computePaymentAmount :: "bigint \<Rightarrow> direct_minting_fees \<Rightarrow> payment_breakdown" where
  "computePaymentAmount net fees =
    (let proportionalFeeUBA = (net * feeBIPS fees) sdiv 10000;
         minting = (if proportionalFeeUBA > minimumFeeUBA fees then proportionalFeeUBA
                    else minimumFeeUBA fees)
     in \<lparr>netMintUBA = net, mintingFeeUBA = minting, pay_executorFeeUBA = fee_executorFeeUBA fees,
         totalUBA = net + minting + fee_executorFeeUBA fees\<rparr>)"

text \<open>
  The conversions for display. Numbers are exact here, so this is what the code computes as long as
  the amounts have few enough digits for a double; \<open>Math.round\<close> rounds half up.
\<close>

definition xrpToDrops :: "js_number \<Rightarrow> js_error + bigint" where
  "xrpToDrops xrp = (case xrp of
     Finite r \<Rightarrow> Inr (floor (r * of_int DROPS_PER_XRP + 1 / 2))
   | _ \<Rightarrow> Inl (JsError ''The number cannot be converted to a BigInt because it is not an integer''))"

definition dropsToXrp :: "bigint \<Rightarrow> js_number" where
  "dropsToXrp drops = Finite (of_int drops / of_int DROPS_PER_XRP)"

lemma drops_roundtrip: "xrpToDrops (dropsToXrp d) = Inr d"
proof -
  have "floor (of_int d + 1 / 2 :: rat) = d" by (rule floor_unique) simp_all
  then show ?thesis by (simp add: xrpToDrops_def dropsToXrp_def DROPS_PER_XRP_def)
qed

lemma sdiv_pos_eq_div: "0 \<le> (a::int) \<Longrightarrow> 0 < b \<Longrightarrow> a sdiv b = a div b"
  by (cases "a = 0") (auto simp: signed_divide_int_def sgn_if)

lemma sdiv_mono:
  assumes "(a::int) \<le> b"
  shows "a sdiv 10000 \<le> b sdiv 10000"
proof -
  have eq: "x sdiv 10000 = (if 0 \<le> x then x div 10000 else - ((- x) div 10000))" for x :: int
    by (simp add: signed_divide_int_def sgn_if)
  have "0 \<le> b div 10000" if "0 \<le> b" using that by simp
  moreover have "0 \<le> (- a) div 10000" if "\<not> 0 \<le> a" using that by simp
  moreover have "(- b) div 10000 \<le> (- a) div 10000" and "a div 10000 \<le> b div 10000"
    using assms by (simp_all add: zdiv_mono1)
  ultimately show ?thesis unfolding eq using assms by auto
qed

lemma computePaymentAmount_total:
  "totalUBA (computePaymentAmount n f) =
    netMintUBA (computePaymentAmount n f) + mintingFeeUBA (computePaymentAmount n f)
    + pay_executorFeeUBA (computePaymentAmount n f)"
  by (simp add: computePaymentAmount_def Let_def)

lemma computePaymentAmount_fields [simp]:
  "netMintUBA (computePaymentAmount n f) = n"
  "pay_executorFeeUBA (computePaymentAmount n f) = fee_executorFeeUBA f"
  "mintingFeeUBA (computePaymentAmount n f) = max (minimumFeeUBA f) ((n * feeBIPS f) sdiv 10000)"
  by (auto simp: computePaymentAmount_def Let_def)

subsection \<open>Properties\<close>

text \<open>
  (C40) For the amounts that occur (none is negative), the payment covers the net amount and both
  fees and no more: the minting fee is at least the floor, at least the whole part of the
  proportional fee, and equal to one of the two, so a payer never overpays and is never short of
  the quoted rate by a full unit.
\<close>

theorem payment_amount_exact:
  assumes "0 \<le> n" and "0 \<le> feeBIPS f" and "0 \<le> minimumFeeUBA f" and "0 \<le> fee_executorFeeUBA f"
  shows "let p = computePaymentAmount n f in
    totalUBA p = n + mintingFeeUBA p + fee_executorFeeUBA f \<and>
    n \<le> totalUBA p \<and> minimumFeeUBA f \<le> mintingFeeUBA p \<and>
    n * feeBIPS f < (mintingFeeUBA p + 1) * 10000 \<and>
    (if mintingFeeUBA p = minimumFeeUBA f then True else mintingFeeUBA p * 10000 \<le> n * feeBIPS f)"
proof -
  have d: "(n * feeBIPS f) sdiv 10000 = (n * feeBIPS f) div 10000"
    using assms by (intro sdiv_pos_eq_div) simp_all
  have "n * feeBIPS f < ((n * feeBIPS f) div 10000 + 1) * 10000"
    and "(n * feeBIPS f) div 10000 * 10000 \<le> n * feeBIPS f"
    by presburger+
  with assms show ?thesis
    unfolding Let_def computePaymentAmount_total computePaymentAmount_fields d
    by (auto simp: max_def)
qed

text \<open>The parameters of Coston2: 25 basis points, a floor and an executor fee.\<close>

definition demo_fees :: direct_minting_fees where
  "demo_fees = \<lparr>fee_executorFeeUBA = 100000, feeBIPS = 25, minimumFeeUBA = 100000\<rparr>"

lemma payment_amount_exact_witness:
  "totalUBA (computePaymentAmount 100000000 demo_fees) = 100350000"
  using payment_amount_exact [of 100000000 demo_fees]
  by (simp add: demo_fees_def Let_def sdiv_pos_eq_div)

text \<open>
  The amount to pay grows with the amount to mint, strictly: two different net amounts never
  quote the same payment, and asking for more never costs less, at any fee rate that is not
  negative.
\<close>

theorem payment_amount_strict_mono:
  assumes "n < n'" and "0 \<le> feeBIPS f"
  shows "totalUBA (computePaymentAmount n f) < totalUBA (computePaymentAmount n' f)"
proof -
  have "n * feeBIPS f \<le> n' * feeBIPS f" using assms by (intro mult_right_mono) simp_all
  then have "(n * feeBIPS f) sdiv 10000 \<le> (n' * feeBIPS f) sdiv 10000" by (rule sdiv_mono)
  with assms(1) show ?thesis
    unfolding computePaymentAmount_total computePaymentAmount_fields by (auto simp: max_def)
qed

lemma payment_amount_strict_mono_witness:
  "totalUBA (computePaymentAmount 39999999 demo_fees) < totalUBA (computePaymentAmount 40000000 demo_fees)"
  by (rule payment_amount_strict_mono) (simp_all add: demo_fees_def)

end
