(* ===== verification/Prepare.thy ===== *)
theory Prepare
  imports Memo Userop Fassets
begin

text \<open>
  \<open>packages/sdk/src/prepare.ts\<close>: the client, its two caches, the chain reads and \<open>prepare\<close>, and the
  constants of \<open>config.ts\<close> it uses. The answers of the chain are the record \<open>flare_chain\<close>, an
  argument: one snapshot answers all the reads of a call.
\<close>

definition FLARE_CONTRACT_REGISTRY :: js_str where
  "FLARE_CONTRACT_REGISTRY = ''0xaD67FE66660Fb8dFE9d6b1b4240d8650e30F6019''"

record flare_chain = asset_manager +
  rpc_getContractAddressByName :: "js_str \<Rightarrow> js_str \<Rightarrow> js_error + js_str"
  rpc_getPersonalAccount :: "js_str \<Rightarrow> js_str \<Rightarrow> js_error + js_str"
  rpc_getNonce :: "js_str \<Rightarrow> js_str \<Rightarrow> js_error + bigint"
  rpc_getExecutor :: "js_str \<Rightarrow> js_str \<Rightarrow> js_error + js_str"
  rpc_getXrplProviderWallets :: "js_str \<Rightarrow> js_error + js_str list"

text \<open>The private fields \<open>#mac\<close> and \<open>#assetManager\<close>; \<open>None\<close> is \<open>undefined\<close>.\<close>

record onesig_client =
  cl_mac :: "js_str option"
  cl_assetManager :: "js_str option"

definition new_OneSigClient :: "js_str option \<Rightarrow> onesig_client" where
  "new_OneSigClient mac = \<lparr>cl_mac = mac, cl_assetManager = None\<rparr>"

text \<open>\<open>if (this.#mac)\<close>: an empty string is false.\<close>

fun truthy :: "js_str option \<Rightarrow> bool" where
  "truthy None \<longleftrightarrow> False"
| "truthy (Some s) \<longleftrightarrow> s \<noteq> []"

definition masterAccountController ::
    "flare_chain \<Rightarrow> onesig_client \<Rightarrow> onesig_client \<times> (js_error + js_str)" where
  "masterAccountController R c =
    (if truthy (cl_mac c) then (c, Inr (the (cl_mac c)))
     else case rpc_getContractAddressByName R FLARE_CONTRACT_REGISTRY ''MasterAccountController'' of
       Inl e \<Rightarrow> (c, Inl e)
     | Inr resolved \<Rightarrow> (c\<lparr>cl_mac := Some resolved\<rparr>, Inr resolved))"

definition assetManagerFXRP ::
    "flare_chain \<Rightarrow> onesig_client \<Rightarrow> onesig_client \<times> (js_error + js_str)" where
  "assetManagerFXRP R c =
    (if truthy (cl_assetManager c) then (c, Inr (the (cl_assetManager c)))
     else case rpc_getContractAddressByName R FLARE_CONTRACT_REGISTRY ''AssetManagerFXRP'' of
       Inl e \<Rightarrow> (c, Inl e)
     | Inr resolved \<Rightarrow> (c\<lparr>cl_assetManager := Some resolved\<rparr>, Inr resolved))"

definition getPersonalAccount ::
    "flare_chain \<Rightarrow> onesig_client \<Rightarrow> js_str \<Rightarrow> onesig_client \<times> (js_error + js_str)" where
  "getPersonalAccount R c xrplAddress =
    (let (c', mac) = masterAccountController R c
     in (c', bind_err mac (\<lambda>a. rpc_getPersonalAccount R a xrplAddress)))"

definition getNonce ::
    "flare_chain \<Rightarrow> onesig_client \<Rightarrow> js_str \<Rightarrow> onesig_client \<times> (js_error + bigint)" where
  "getNonce R c personalAccount =
    (let (c', mac) = masterAccountController R c
     in (c', bind_err mac (\<lambda>a. rpc_getNonce R a personalAccount)))"

definition getExecutor ::
    "flare_chain \<Rightarrow> onesig_client \<Rightarrow> js_str \<Rightarrow> onesig_client \<times> (js_error + js_str)" where
  "getExecutor R c personalAccount =
    (let (c', mac) = masterAccountController R c
     in (c', bind_err mac (\<lambda>a. rpc_getExecutor R a personalAccount)))"

definition getOperatorXrplAddresses ::
    "flare_chain \<Rightarrow> onesig_client \<Rightarrow> onesig_client \<times> (js_error + js_str list)" where
  "getOperatorXrplAddresses R c =
    (let (c', mac) = masterAccountController R c
     in (c', bind_err mac (rpc_getXrplProviderWallets R)))"

text \<open>The argument \<open>assetManager\<close> is optional: \<open>None\<close> resolves it (the operator \<open>??\<close>).\<close>

definition directMintingPaymentAddress ::
    "flare_chain \<Rightarrow> onesig_client \<Rightarrow> js_str option \<Rightarrow> onesig_client \<times> (js_error + js_str)" where
  "directMintingPaymentAddress R c am =
    (let (c', a) = (case am of Some a \<Rightarrow> (c, Inr a) | None \<Rightarrow> assetManagerFXRP R c)
     in (c', bind_err a (rpc_directMintingPaymentAddress R)))"

subsection \<open>prepare\<close>

record prepare_params =
  p_xrplAddress :: js_str
  p_calls :: "call list"
  p_label :: js_str
  p_netMintUBA :: bigint
  p_feeUBA :: "bigint option"
  p_walletId :: "js_number option"

text \<open>
  The signable payment. \<open>TransactionType\<close> is the constant \<open>Payment\<close> and \<open>Memos\<close> holds one memo, so
  \<open>MemoData\<close> stands for the array. The record has no field for a destination tag, as the type of
  the source.
\<close>

record xrpl_payment =
  Account :: js_str
  Destination :: js_str
  Amount :: js_str
  MemoData :: js_str

record prepared_request =
  personalAccount :: js_str
  pr_nonce :: bigint
  userOp :: packed_user_operation
  userOpData :: js_str
  userOpHash :: js_str
  pr_label :: js_str
  pinnedExecutor :: "js_str option"
  payment :: payment_breakdown
  totalCallValue :: bigint
  xrplPayment :: xrpl_payment

datatype prepare_error =
    ReadFailed js_error
  | UserOpError userop_error
  | MemoError memo_error

fun lift_err :: "('e \<Rightarrow> 'f) \<Rightarrow> 'e + 'a \<Rightarrow> 'f + 'a" where
  "lift_err f (Inl e) = Inl (f e)"
| "lift_err f (Inr a) = Inr a"

lemma lift_err_Inr [simp]: "lift_err f r = Inr a \<longleftrightarrow> r = Inr a"
  by (cases r) simp_all

definition ZERO_ADDRESS :: js_str where
  "ZERO_ADDRESS = ''0x0000000000000000000000000000000000000000''"

text \<open>
  The two \<open>Promise.all\<close>: every read of a group is made, whichever fails, so the state of the client
  passes through all of them; then the first failure of the list is the exception.
\<close>

definition prepare ::
    "viem \<Rightarrow> flare_chain \<Rightarrow> onesig_client \<Rightarrow> prepare_params \<Rightarrow>
     onesig_client \<times> (prepare_error + prepared_request)" where
  "prepare V R c0 params =
    (let feeUBA = (case p_feeUBA params of None \<Rightarrow> 0 | Some f \<Rightarrow> f);
         wid = (case p_walletId params of None \<Rightarrow> Finite 0 | Some w \<Rightarrow> w);
         (c1, pa_r) = getPersonalAccount R c0 (p_xrplAddress params);
         (c2, am_r) = assetManagerFXRP R c1
     in case (pa_r, am_r) of
       (Inl e, _) \<Rightarrow> (c2, Inl (ReadFailed e))
     | (Inr _, Inl e) \<Rightarrow> (c2, Inl (ReadFailed e))
     | (Inr pa, Inr am) \<Rightarrow>
        (let (c3, dest_r) = directMintingPaymentAddress R c2 (Some am);
             fees_r = readDirectMintingFees R am;
             (c4, nonce_r) = getNonce R c3 pa;
             (c5, exec_r) = getExecutor R c4 pa
         in (c5,
           bind_err (lift_err ReadFailed dest_r) (\<lambda>dest.
           bind_err (lift_err ReadFailed fees_r) (\<lambda>fees.
           bind_err (lift_err ReadFailed nonce_r) (\<lambda>n.
           bind_err (lift_err ReadFailed exec_r) (\<lambda>executor.
           let pay = computePaymentAmount (p_netMintUBA params) fees in
           bind_err (lift_err UserOpError (prepareUserOp V pa n (p_calls params))) (\<lambda>u.
           bind_err (lift_err MemoError (encodeExecuteCommittedMemo V
               \<lparr>walletId = Some wid, executorFeeUBA = feeUBA\<rparr> (pu_userOpHash u))) (\<lambda>memo.
           Inr \<lparr>personalAccount = pa, pr_nonce = n, userOp = pu_userOp u,
                userOpData = pu_userOpData u, userOpHash = pu_userOpHash u,
                pr_label = p_label params,
                pinnedExecutor = (if executor = ZERO_ADDRESS then None else Some executor),
                payment = pay,
                totalCallValue = foldl (\<lambda>acc c. acc + val c) 0 (p_calls params),
                xrplPayment =
                  \<lparr>Account = p_xrplAddress params, Destination = dest,
                   Amount = bigint_toString (totalUBA pay), MemoData = toXrplMemoHex memo\<rparr>\<rparr>))))))
         )))"

subsection \<open>The caches\<close>

text \<open>
  What the client resolves: the override of its constructor, or the registry's answer. A cache
  agrees with the chain when it holds what the registry answers.
\<close>

definition resolved_mac :: "flare_chain \<Rightarrow> onesig_client \<Rightarrow> js_error + js_str" where
  "resolved_mac R c = (if truthy (cl_mac c) then Inr (the (cl_mac c))
     else rpc_getContractAddressByName R FLARE_CONTRACT_REGISTRY ''MasterAccountController'')"

definition resolved_am :: "flare_chain \<Rightarrow> onesig_client \<Rightarrow> js_error + js_str" where
  "resolved_am R c = (if truthy (cl_assetManager c) then Inr (the (cl_assetManager c))
     else rpc_getContractAddressByName R FLARE_CONTRACT_REGISTRY ''AssetManagerFXRP'')"

lemma masterAccountController_facts:
  "snd (masterAccountController R c) = resolved_mac R c"
  "resolved_mac R (fst (masterAccountController R c)) = resolved_mac R c"
  "resolved_am R (fst (masterAccountController R c)) = resolved_am R c"
  by (auto simp: masterAccountController_def resolved_mac_def resolved_am_def split: sum.split)

lemma assetManagerFXRP_facts:
  "snd (assetManagerFXRP R c) = resolved_am R c"
  "resolved_am R (fst (assetManagerFXRP R c)) = resolved_am R c"
  "resolved_mac R (fst (assetManagerFXRP R c)) = resolved_mac R c"
  by (auto simp: assetManagerFXRP_def resolved_mac_def resolved_am_def split: sum.split)

lemma client_reads:
  "snd (getPersonalAccount R c x) = bind_err (resolved_mac R c) (\<lambda>a. rpc_getPersonalAccount R a x)"
  "snd (getNonce R c pa) = bind_err (resolved_mac R c) (\<lambda>a. rpc_getNonce R a pa)"
  "snd (getExecutor R c pa) = bind_err (resolved_mac R c) (\<lambda>a. rpc_getExecutor R a pa)"
  "snd (directMintingPaymentAddress R c (Some am)) = rpc_directMintingPaymentAddress R am"
  by (simp_all add: getPersonalAccount_def getNonce_def getExecutor_def
      directMintingPaymentAddress_def case_prod_beta masterAccountController_facts)

lemma client_state:
  "fst (getPersonalAccount R c x) = fst (masterAccountController R c)"
  "fst (getNonce R c pa) = fst (masterAccountController R c)"
  "fst (getExecutor R c pa) = fst (masterAccountController R c)"
  "fst (directMintingPaymentAddress R c (Some am)) = c"
  by (simp_all add: getPersonalAccount_def getNonce_def getExecutor_def
      directMintingPaymentAddress_def case_prod_beta)

lemmas client_facts = client_reads client_state masterAccountController_facts assetManagerFXRP_facts

datatype cached_contract = CachedController | CachedAssetManager

fun client_fetch :: "flare_chain \<Rightarrow> cached_contract \<Rightarrow> onesig_client \<Rightarrow> onesig_client \<times> (js_error + js_str)" where
  "client_fetch R CachedController = masterAccountController R"
| "client_fetch R CachedAssetManager = assetManagerFXRP R"

fun client_answer :: "flare_chain \<Rightarrow> cached_contract \<Rightarrow> onesig_client \<Rightarrow> js_error + js_str" where
  "client_answer R CachedController = resolved_mac R"
| "client_answer R CachedAssetManager = resolved_am R"

interpretation onesig: address_cache "client_fetch R" "client_answer R" for R
proof unfold_locales
  fix n m s
  show "snd (client_fetch R n s) = client_answer R n s"
    by (cases n) (simp_all add: client_facts)
  show "client_answer R m (fst (client_fetch R n s)) = client_answer R m s"
    by (cases n; cases m) (simp_all add: client_facts)
qed

text \<open>What \<open>prepare\<close> computes once its reads have answered.\<close>

definition prepared_of ::
    "viem \<Rightarrow> prepare_params \<Rightarrow> js_str \<Rightarrow> js_str \<Rightarrow> direct_minting_fees \<Rightarrow> bigint \<Rightarrow> js_str \<Rightarrow>
     prepared_user_op \<Rightarrow> bytes \<Rightarrow> prepared_request" where
  "prepared_of V params pa dest fees n executor u memo =
     \<lparr>personalAccount = pa, pr_nonce = n, userOp = pu_userOp u,
      userOpData = pu_userOpData u, userOpHash = pu_userOpHash u,
      pr_label = p_label params,
      pinnedExecutor = (if executor = ZERO_ADDRESS then None else Some executor),
      payment = computePaymentAmount (p_netMintUBA params) fees,
      totalCallValue = foldl (\<lambda>acc c. acc + val c) 0 (p_calls params),
      xrplPayment =
        \<lparr>Account = p_xrplAddress params, Destination = dest,
         Amount = bigint_toString (totalUBA (computePaymentAmount (p_netMintUBA params) fees)),
         MemoData = toXrplMemoHex memo\<rparr>\<rparr>"

definition params_header :: "prepare_params \<Rightarrow> memo_header" where
  "params_header params =
     \<lparr>walletId = Some (case p_walletId params of None \<Rightarrow> Finite 0 | Some w \<Rightarrow> w),
      executorFeeUBA = (case p_feeUBA params of None \<Rightarrow> 0 | Some f \<Rightarrow> f)\<rparr>"

definition prepare_result ::
    "viem \<Rightarrow> flare_chain \<Rightarrow> js_error + js_str \<Rightarrow> js_error + js_str \<Rightarrow> prepare_params \<Rightarrow>
     prepare_error + prepared_request" where
  "prepare_result V R mac am_r params =
    bind_err (lift_err ReadFailed (bind_err mac (\<lambda>a. rpc_getPersonalAccount R a (p_xrplAddress params)))) (\<lambda>pa.
    bind_err (lift_err ReadFailed am_r) (\<lambda>am.
    bind_err (lift_err ReadFailed (rpc_directMintingPaymentAddress R am)) (\<lambda>dest.
    bind_err (lift_err ReadFailed (readDirectMintingFees R am)) (\<lambda>fees.
    bind_err (lift_err ReadFailed (bind_err mac (\<lambda>a. rpc_getNonce R a pa))) (\<lambda>n.
    bind_err (lift_err ReadFailed (bind_err mac (\<lambda>a. rpc_getExecutor R a pa))) (\<lambda>executor.
    bind_err (lift_err UserOpError (prepareUserOp V pa n (p_calls params))) (\<lambda>u.
    bind_err (lift_err MemoError (encodeExecuteCommittedMemo V (params_header params) (pu_userOpHash u))) (\<lambda>memo.
    Inr (prepared_of V params pa dest fees n executor u memo)))))))))"

lemma prepare_eq:
  "snd (prepare V R c params) = prepare_result V R (resolved_mac R c) (resolved_am R c) params"
proof (cases "resolved_mac R c")
  case (Inr a)
  then show ?thesis
    by (cases "rpc_getPersonalAccount R a (p_xrplAddress params)"; cases "resolved_am R c")
      (simp_all add: prepare_def prepare_result_def Let_def case_prod_beta client_facts
        prepared_of_def params_header_def)
qed (simp add: prepare_def prepare_result_def Let_def case_prod_beta client_facts split: sum.split)

lemma prepare_state:
  "resolved_mac R (fst (prepare V R c params)) = resolved_mac R c \<and>
   resolved_am R (fst (prepare V R c params)) = resolved_am R c"
  by (auto simp: prepare_def Let_def case_prod_beta client_facts split: sum.split)

text \<open>The result, read backwards: every read it used and every value it was computed from.\<close>

lemma prepare_InrE:
  assumes "snd (prepare V R c params) = Inr req"
  obtains mac am dest fees executor u memo where
    "resolved_mac R c = Inr mac" "resolved_am R c = Inr am"
    "rpc_getPersonalAccount R mac (p_xrplAddress params) = Inr (personalAccount req)"
    "rpc_directMintingPaymentAddress R am = Inr dest"
    "readDirectMintingFees R am = Inr fees"
    "rpc_getNonce R mac (personalAccount req) = Inr (pr_nonce req)"
    "rpc_getExecutor R mac (personalAccount req) = Inr executor"
    "prepareUserOp V (personalAccount req) (pr_nonce req) (p_calls params) = Inr u"
    "encodeExecuteCommittedMemo V (params_header params) (pu_userOpHash u) = Inr memo"
    "req = prepared_of V params (personalAccount req) dest fees (pr_nonce req) executor u memo"
  using assms unfolding prepare_eq prepare_result_def
  by (auto simp: prepared_of_def)

lemma prepared_of_fields [simp]:
  "userOp (prepared_of V p pa dest fees n ex u memo) = pu_userOp u"
  "userOpData (prepared_of V p pa dest fees n ex u memo) = pu_userOpData u"
  "userOpHash (prepared_of V p pa dest fees n ex u memo) = pu_userOpHash u"
  "payment (prepared_of V p pa dest fees n ex u memo) = computePaymentAmount (p_netMintUBA p) fees"
  "pinnedExecutor (prepared_of V p pa dest fees n ex u memo) = (if ex = ZERO_ADDRESS then None else Some ex)"
  "Account (xrplPayment (prepared_of V p pa dest fees n ex u memo)) = p_xrplAddress p"
  "Destination (xrplPayment (prepared_of V p pa dest fees n ex u memo)) = dest"
  "Amount (xrplPayment (prepared_of V p pa dest fees n ex u memo)) =
     bigint_toString (totalUBA (computePaymentAmount (p_netMintUBA p) fees))"
  "MemoData (xrplPayment (prepared_of V p pa dest fees n ex u memo)) = toXrplMemoHex memo"
  "totalCallValue (prepared_of V p pa dest fees n ex u memo) = foldl (\<lambda>acc c. acc + val c) 0 (p_calls p)"
  by (simp_all add: prepared_of_def)

lemma committed_memo_facts:
  assumes "isHex_doc V" and "encodeExecuteCommittedMemo V h s = Inr memo" and "js_toLowerCase s = s"
  shows "length memo = 42"
    and "decodeMemo memo = Inr (DecExecuteCommitted (header_wallet h) (executorFeeUBA h) s)"
proof -
  have m: "header_ok h" "hex_string s" "length s = 66"
    "memo = header_bytes EXECUTE_COMMITTED (header_wallet h) (executorFeeUBA h) @ body_bytes (drop 2 s)"
    using assms by (simp_all add: encodeExecuteCommittedMemo_Inr)
  then show "length memo = 42" by simp
  have "header_wallet h < 256"
    unfolding header_wallet_def using unsigned_less [of "num_to_uint8 (header_number h)"] by simp
  with m assms(3) show "decodeMemo memo = Inr (DecExecuteCommitted (header_wallet h) (executorFeeUBA h) s)"
    by (simp add: decode_header header_ok_def toHex_body_bytes)
qed

lemma prepared_hash_shape:
  assumes "keccak256_doc V" and "encodeAbiParameters_doc V" and "prepareUserOp V s n cs = Inr u"
  shows "js_toLowerCase (pu_userOpHash u) = pu_userOpHash u" and "length (pu_userOpHash u) = 66"
proof -
  have d: "hex_string (pu_userOpData u)" and k: "keccak256 V (pu_userOpData u) = Inr (pu_userOpHash u)"
    using assms(2,3) unfolding encodeAbiParameters_doc_def prepareUserOp_Inr by blast+
  obtain h where "keccak256 V (pu_userOpData u) = Inr h" "length h = 66" "js_toLowerCase h = h"
    using assms(1) d by (rule keccak256_docE)
  with k show "js_toLowerCase (pu_userOpHash u) = pu_userOpHash u" "length (pu_userOpHash u) = 66"
    by simp_all
qed

subsection \<open>When prepare succeeds\<close>

lemma prepare_accepts_aux:
  assumes "isHex_doc V" and "keccak256_doc V" and "encodeAbiParameters_doc V"
    and "resolved_mac R c = Inr mac" and "resolved_am R c = Inr am"
    and "rpc_getPersonalAccount R mac (p_xrplAddress params) = Inr pa"
    and "rpc_directMintingPaymentAddress R am = Inr dest" and "readDirectMintingFees R am = Inr fees"
    and "rpc_getNonce R mac pa = Inr n" and "rpc_getExecutor R mac pa = Inr executor"
    and "\<And>cs. is_ok (encodeFunctionData V cs)" and "\<And>u. is_ok (encodeAbiParameters V u)"
  shows "is_ok (snd (prepare V R c params)) = (p_calls params \<noteq> [] \<and> header_ok (params_header params))"
proof -
  have "is_ok (prepareUserOp V pa n (p_calls params)) = (p_calls params \<noteq> [])"
  proof (cases "p_calls params = []")
    case True
    then show ?thesis by (simp add: prepareUserOp_def buildUserOp_def encodeCallBatch_def)
  next
    case False
    then obtain b where b: "buildUserOp V pa n (p_calls params) = Inr b"
      using assms(11) [of "p_calls params"] by (auto simp: is_ok_iff buildUserOp_Inr)
    obtain d where d: "encodeAbiParameters V b = Inr d" using assms(12) [of b] by (auto simp: is_ok_iff)
    then have "hex_string d" using assms(3) by (auto simp: encodeAbiParameters_doc_def)
    then obtain h where "keccak256 V d = Inr h" using assms(2) by (rule_tac keccak256_docE)
    with b d False show ?thesis by (simp add: prepareUserOp_def encodeUserOp_def)
  qed
  moreover have "is_ok (encodeExecuteCommittedMemo V (params_header params) (pu_userOpHash u)) =
      header_ok (params_header params)"
    if u: "prepareUserOp V pa n (p_calls params) = Inr u" for u
  proof -
    have d: "hex_string (pu_userOpData u)"
      using assms(3) u by (auto simp: encodeAbiParameters_doc_def prepareUserOp_Inr)
    obtain h where "keccak256 V (pu_userOpData u) = Inr h" "hex_string h" "length h = 66"
      using assms(2) d by (rule keccak256_docE)
    with u assms(1) show ?thesis by (auto simp: is_ok_iff encodeExecuteCommittedMemo_Inr prepareUserOp_Inr)
  qed
  ultimately show ?thesis
    using assms(4-10) unfolding prepare_eq prepare_result_def
    by (fastforce simp: is_ok_iff)
qed

subsection \<open>A concrete chain, for the witnesses\<close>

definition demo_chain :: flare_chain where
  "demo_chain = \<lparr>
     rpc_directMintingPaymentAddress = (\<lambda>am. Inr ''rCoreVault''),
     rpc_getDirectMintingExecutorFeeUBA = (\<lambda>am. Inr 100000),
     rpc_getDirectMintingFeeBIPS = (\<lambda>am. Inr 25),
     rpc_getDirectMintingMinimumFeeUBA = (\<lambda>am. Inr 100000),
     rpc_getContractAddressByName = (\<lambda>reg n. Inr (reg @ n)),
     rpc_getPersonalAccount = (\<lambda>mac x. Inr (''0xpa'' @ x)),
     rpc_getNonce = (\<lambda>mac pa. Inr 4),
     rpc_getExecutor = (\<lambda>mac pa. Inr ZERO_ADDRESS),
     rpc_getXrplProviderWallets = (\<lambda>mac. Inr [''rOperator''])\<rparr>"

definition demo_params :: prepare_params where
  "demo_params = \<lparr>p_xrplAddress = ''rUser'', p_calls = [demo_call], p_label = ''increment'',
     p_netMintUBA = 10000000, p_feeUBA = None, p_walletId = None\<rparr>"

definition demo_client :: onesig_client where
  "demo_client = new_OneSigClient None"

definition demo_request :: prepared_request where
  "demo_request = (case snd (prepare demo_viem demo_chain demo_client demo_params) of Inr r \<Rightarrow> r)"

lemma demo_resolved:
  "resolved_mac demo_chain demo_client = Inr (FLARE_CONTRACT_REGISTRY @ ''MasterAccountController'')"
  "resolved_am demo_chain demo_client = Inr (FLARE_CONTRACT_REGISTRY @ ''AssetManagerFXRP'')"
  by (simp_all add: resolved_mac_def resolved_am_def demo_client_def new_OneSigClient_def demo_chain_def)

lemma demo_reads:
  "rpc_getPersonalAccount demo_chain mac x = Inr (''0xpa'' @ x)"
  "rpc_directMintingPaymentAddress demo_chain am = Inr ''rCoreVault''"
  "readDirectMintingFees demo_chain am = Inr demo_fees"
  "rpc_getNonce demo_chain mac pa = Inr 4" "rpc_getExecutor demo_chain mac pa = Inr ZERO_ADDRESS"
  by (simp_all add: demo_chain_def demo_params_def readDirectMintingFees_def demo_fees_def)

lemma demo_encoders:
  "is_ok (encodeFunctionData demo_viem cs)" "is_ok (encodeAbiParameters demo_viem u)"
  by (simp_all add: demo_viem_def)

lemma demo_header: "header_ok (params_header demo_params)"
  by (simp add: header_ok_def header_number_def params_header_def demo_params_def)

lemma demo_prepare_ok:
  assumes "p_calls q \<noteq> []" and "header_ok (params_header q)"
  shows "is_ok (snd (prepare demo_viem demo_chain demo_client q))"
  using assms prepare_accepts_aux [OF demo_viem_docs(1,3,4) demo_resolved demo_reads demo_encoders]
  by simp

lemma demo_prepared: "snd (prepare demo_viem demo_chain demo_client demo_params) = Inr demo_request"
proof -
  have "is_ok (snd (prepare demo_viem demo_chain demo_client demo_params))"
    using demo_header by (intro demo_prepare_ok) (simp_all add: demo_params_def)
  then show ?thesis by (auto simp: demo_request_def is_ok_iff)
qed

lemma demo_prepared_hash:
  assumes "snd (prepare demo_viem demo_chain demo_client q) = Inr req"
  shows "\<exists>u. prepareUserOp demo_viem (''0xpa'' @ p_xrplAddress q) 4 (p_calls q) = Inr u \<and>
    userOpHash req = pu_userOpHash u"
proof -
  obtain mac dest fees executor u memo where
    a: "rpc_getPersonalAccount demo_chain mac (p_xrplAddress q) = Inr (personalAccount req)"
      "rpc_getNonce demo_chain mac (personalAccount req) = Inr (pr_nonce req)"
      "prepareUserOp demo_viem (personalAccount req) (pr_nonce req) (p_calls q) = Inr u"
    and req: "req = prepared_of demo_viem q (personalAccount req) dest fees (pr_nonce req) executor u memo"
    using assms by (rule prepare_InrE)
  have "userOpHash req = pu_userOpHash u" by (subst req, simp)
  with a show ?thesis unfolding demo_reads by (intro exI [of _ u]) (metis sum.inject(2))
qed

subsection \<open>Properties\<close>

lemma sum_of_calls: "foldl (\<lambda>acc c. acc + val c) a cs = a + sum_list (map val cs)"
  by (induction cs arbitrary: a) simp_all

text \<open>
  (C7) What \<open>prepare\<close> promises of the checks the scripts run before they broadcast: the memo on the payment
  reads back to exactly 42 bytes that decode to a hash commitment with the requested fee, the committed
  hash is the hash of the user operation handed to the executor and of its bytes, the operation is bound
  to the personal account and its nonce, the destination is what the client then answers for the Core
  Vault, and the amount is the text of the net mint plus both fees. The call value is the sum of the
  values of the calls: the check of \<open>gate1\<close> that it is zero is one on its own batch.
\<close>

theorem prepare_sound:
  assumes "isHex_doc V" and "keccak256_doc V" and "encodeAbiParameters_doc V"
    and "snd (prepare V R c params) = Inr req"
  shows "(\<exists>m w. fromXrplMemoHex V (MemoData (xrplPayment req)) = Inr m \<and> length m = 42 \<and>
      decodeMemo m = Inr (DecExecuteCommitted w (executorFeeUBA (params_header params)) (userOpHash req))) \<and>
    hashUserOp V (userOp req) = Inr (userOpHash req) \<and>
    keccak256 V (userOpData req) = Inr (userOpHash req) \<and>
    sender (userOp req) = personalAccount req \<and> nonce (userOp req) = pr_nonce req \<and>
    js_BigInt (Amount (xrplPayment req)) = Inr (netMintUBA (payment req)
      + mintingFeeUBA (payment req) + pay_executorFeeUBA (payment req)) \<and>
    netMintUBA (payment req) = p_netMintUBA params \<and>
    Account (xrplPayment req) = p_xrplAddress params \<and>
    snd (directMintingPaymentAddress R (fst (prepare V R c params)) None) = Inr (Destination (xrplPayment req)) \<and>
    totalCallValue req = sum_list (map val (p_calls params))"
proof -
  obtain am dest fees executor u memo where
    am: "resolved_am R c = Inr am" "rpc_directMintingPaymentAddress R am = Inr dest"
    and u: "prepareUserOp V (personalAccount req) (pr_nonce req) (p_calls params) = Inr u"
    and memo: "encodeExecuteCommittedMemo V (params_header params) (pu_userOpHash u) = Inr memo"
    and req: "req = prepared_of V params (personalAccount req) dest fees (pr_nonce req) executor u memo"
    using assms(4) by (rule prepare_InrE)
  have fields: "userOp req = pu_userOp u" "userOpData req = pu_userOpData u"
    "userOpHash req = pu_userOpHash u" "MemoData (xrplPayment req) = toXrplMemoHex memo"
    "payment req = computePaymentAmount (p_netMintUBA params) fees"
    "Account (xrplPayment req) = p_xrplAddress params"
    "Amount (xrplPayment req) = bigint_toString (totalUBA (computePaymentAmount (p_netMintUBA params) fees))"
    "Destination (xrplPayment req) = dest" "totalCallValue req = sum_list (map val (p_calls params))"
    by (subst req, simp add: sum_of_calls)+
  have "snd (directMintingPaymentAddress R (fst (prepare V R c params)) None) = Inr dest"
    using am by (simp add: directMintingPaymentAddress_def case_prod_beta assetManagerFXRP_facts prepare_state)
  moreover have u': "encodeAbiParameters V (pu_userOp u) = Inr (pu_userOpData u)"
    "keccak256 V (pu_userOpData u) = Inr (pu_userOpHash u)"
    using u by (simp_all add: prepareUserOp_Inr)
  note lower = prepared_hash_shape(1) [OF assms(2,3) u]
  note m = committed_memo_facts [OF assms(1) memo lower]
  ultimately show ?thesis
    using m u' fromXrplMemoHex_aux [OF assms(1)] prepareUserOp_fields [OF u]
    by (auto simp: fields hashUserOp_def encodeUserOp_def computePaymentAmount_total)
qed

lemma prepare_sound_witness:
  "hashUserOp demo_viem (userOp demo_request) = Inr (userOpHash demo_request) \<and>
    js_BigInt (Amount (xrplPayment demo_request)) = Inr (netMintUBA (payment demo_request)
      + mintingFeeUBA (payment demo_request) + pay_executorFeeUBA (payment demo_request))"
  using prepare_sound [OF demo_viem_docs(1,3,4) demo_prepared] by blast

text \<open>
  Where the values come from: the account, the nonce and the executor are the answers of the
  controller the client resolves, the destination is the AssetManager's Core Vault and the fees
  its fees; the zero address reads as no pinned executor.
\<close>

theorem prepare_reads_chain:
  assumes "snd (prepare V R c params) = Inr req"
  shows "\<exists>mac am executor fees. resolved_mac R c = Inr mac \<and> resolved_am R c = Inr am \<and>
    rpc_getPersonalAccount R mac (p_xrplAddress params) = Inr (personalAccount req) \<and>
    rpc_getNonce R mac (personalAccount req) = Inr (pr_nonce req) \<and>
    rpc_getExecutor R mac (personalAccount req) = Inr executor \<and>
    pinnedExecutor req = (if executor = ZERO_ADDRESS then None else Some executor) \<and>
    rpc_directMintingPaymentAddress R am = Inr (Destination (xrplPayment req)) \<and>
    readDirectMintingFees R am = Inr fees \<and>
    payment req = computePaymentAmount (p_netMintUBA params) fees"
proof -
  obtain mac am dest fees executor u memo where
    r: "resolved_mac R c = Inr mac" "resolved_am R c = Inr am"
      "rpc_getPersonalAccount R mac (p_xrplAddress params) = Inr (personalAccount req)"
      "rpc_directMintingPaymentAddress R am = Inr dest" "readDirectMintingFees R am = Inr fees"
      "rpc_getNonce R mac (personalAccount req) = Inr (pr_nonce req)"
      "rpc_getExecutor R mac (personalAccount req) = Inr executor"
    and req: "req = prepared_of V params (personalAccount req) dest fees (pr_nonce req) executor u memo"
    using assms by (rule prepare_InrE)
  have fields: "pinnedExecutor req = (if executor = ZERO_ADDRESS then None else Some executor)"
    "payment req = computePaymentAmount (p_netMintUBA params) fees"
    "Destination (xrplPayment req) = dest"
    by (subst req, simp)+
  from r show ?thesis unfolding fields by blast
qed

lemma prepare_reads_chain_witness:
  "pinnedExecutor demo_request = None \<and> Destination (xrplPayment demo_request) = ''rCoreVault''"
  using prepare_reads_chain [OF demo_prepared] by (auto simp: demo_reads)

text \<open>
  The caches are invisible: against one state of the chain, a client that has already served a
  request, or resolved its contracts any number of times, answers the next one exactly as a client
  that has not.
\<close>

theorem prepare_cache_transparent:
  "snd (prepare V R (fst (prepare V R c params)) params') = snd (prepare V R c params') \<and>
   snd (prepare V R (fold (\<lambda>n c. fst (client_fetch R n c)) ns c) params') = snd (prepare V R c params')"
  using prepare_state [of R V c params]
    onesig.answer_after [of R CachedController ns c] onesig.answer_after [of R CachedAssetManager ns c]
  by (simp add: prepare_eq)

text \<open>
  What the ledger sees depends on the batch only through the commitment: two batches with the
  same hash, from one account against one state of the chain, give the same payment, field by field.
\<close>

theorem prepare_payment_hides_batch:
  assumes "snd (prepare V R c params) = Inr req"
    and "snd (prepare V R c (params\<lparr>p_calls := calls', p_label := label'\<rparr>)) = Inr req'"
    and "userOpHash req = userOpHash req'"
  shows "xrplPayment req = xrplPayment req'"
proof -
  obtain mac am dest fees ex u memo where
    a: "resolved_mac R c = Inr mac" "resolved_am R c = Inr am"
      "rpc_directMintingPaymentAddress R am = Inr dest" "readDirectMintingFees R am = Inr fees"
      "encodeExecuteCommittedMemo V (params_header params) (pu_userOpHash u) = Inr memo"
    and req: "req = prepared_of V params (personalAccount req) dest fees (pr_nonce req) ex u memo"
    using assms(1) by (rule prepare_InrE)
  let ?q = "params\<lparr>p_calls := calls', p_label := label'\<rparr>"
  obtain mac' am' dest' fees' ex' u' memo' where
    b: "resolved_mac R c = Inr mac'" "resolved_am R c = Inr am'"
      "rpc_directMintingPaymentAddress R am' = Inr dest'" "readDirectMintingFees R am' = Inr fees'"
      "encodeExecuteCommittedMemo V (params_header ?q) (pu_userOpHash u') = Inr memo'"
    and req': "req' = prepared_of V ?q (personalAccount req') dest' fees' (pr_nonce req') ex' u' memo'"
    using assms(2) by (rule prepare_InrE)
  have "pu_userOpHash u = pu_userOpHash u'"
    using assms(3) req req' by (metis prepared_of_fields(3))
  moreover have "params_header ?q = params_header params" by (simp add: params_header_def)
  ultimately have "memo' = memo" and "dest' = dest" and "fees' = fees" using a b by auto
  then have "xrplPayment (prepared_of V params pa dest fees n e u memo) =
      xrplPayment (prepared_of V ?q pa' dest' fees' n' e' u' memo')" for pa n e pa' n' e'
    by (simp add: prepared_of_def)
  with req req' show ?thesis by metis
qed

lemma prepare_payment_hides_batch_witness:
  "\<exists>req. snd (prepare demo_viem demo_chain demo_client (demo_params\<lparr>p_calls := [demo_call], p_label := ''deposit''\<rparr>))
      = Inr req \<and> xrplPayment req = xrplPayment demo_request"
proof -
  let ?q = "demo_params\<lparr>p_calls := [demo_call], p_label := ''deposit''\<rparr>"
  have "is_ok (snd (prepare demo_viem demo_chain demo_client ?q))"
    using demo_header by (intro demo_prepare_ok) (simp_all add: demo_params_def params_header_def)
  then obtain req where r: "snd (prepare demo_viem demo_chain demo_client ?q) = Inr req"
    by (auto simp: is_ok_iff)
  have "userOpHash demo_request = userOpHash req"
    using demo_prepared_hash [OF demo_prepared] demo_prepared_hash [OF r] by (auto simp: demo_params_def)
  with r prepare_payment_hides_batch [OF demo_prepared r] show ?thesis by simp
qed

text \<open>
  When \<open>prepare\<close> fails: with all reads answered and the encoders of the package working, it
  succeeds exactly when the batch is not empty, the wallet id fits a byte and the fee 64 bits.
\<close>

theorem prepare_accepts:
  assumes "isHex_doc V" and "keccak256_doc V" and "encodeAbiParameters_doc V"
    and "resolved_mac R c = Inr mac" and "resolved_am R c = Inr am"
    and "rpc_getPersonalAccount R mac (p_xrplAddress params) = Inr pa"
    and "rpc_directMintingPaymentAddress R am = Inr dest" and "readDirectMintingFees R am = Inr fees"
    and "rpc_getNonce R mac pa = Inr n" and "rpc_getExecutor R mac pa = Inr executor"
    and "\<And>cs. is_ok (encodeFunctionData V cs)" and "\<And>u. is_ok (encodeAbiParameters V u)"
  shows "is_ok (snd (prepare V R c params)) = (p_calls params \<noteq> [] \<and> header_ok (params_header params))"
  using assms by (rule prepare_accepts_aux)

lemma prepare_accepts_witness:
  "is_ok (snd (prepare demo_viem demo_chain demo_client demo_params)) = True"
  using prepare_accepts [OF demo_viem_docs(1,3,4) demo_resolved demo_reads demo_encoders, of demo_params]
    demo_header
  by (simp add: demo_params_def)

end
