(* ===== verification/Fdc.thy ===== *)
theory Fdc
  imports Prelude Numbers "HOL-Library.Signed_Division"
begin

text \<open>
  \<open>packages/executor/src/fdc.ts\<close>: the attestation client. The network is the record \<open>world\<close>: what
  each server and contract answers during one call, and what the decoders of the package \<open>viem\<close>
  return. An operation is an action on the client (its address cache): it returns the transactions
  it asked the wallet to send, in order, and a result or an exception.
\<close>

subsection \<open>The network\<close>

record http_request =
  rq_url :: js_str
  rq_apiKey :: "js_str option"
  rq_body :: json

record http_response =
  http_ok :: bool
  http_status :: int
  http_text :: js_str

text \<open>\<open>XrpPaymentProof\<close>: the decoded response is a value nothing here looks into.\<close>

type_synonym decoded_response = json

record xrp_payment_proof =
  merkleProof :: "json list"
  proof_data :: decoded_response

datatype tx_request =
    RequestAttestation js_str "js_str option" bigint
  | ExecuteDirectMinting js_str xrp_payment_proof js_str bigint

record event_log =
  log_data :: js_str
  log_topics :: "js_str list"

record tx_receipt =
  rc_blockNumber :: bigint
  rc_reverted :: bool
  rc_logs :: "event_log list"

record decoded_event =
  ev_name :: js_str
  ev_executionAllowedAt :: "bigint option"

record world =
  w_getContractAddressByName :: "js_str \<Rightarrow> js_error + js_str"
  w_fetch :: "http_request \<Rightarrow> js_error + http_response"
  w_jsonParse :: "js_str \<Rightarrow> js_error + json"
  w_toHex32 :: "js_str \<Rightarrow> js_error + js_str"
  w_fdcRequestFeeConfigurations :: "js_str \<Rightarrow> js_error + js_str"
  w_getRequestFee :: "js_str \<Rightarrow> js_str option \<Rightarrow> js_error + bigint"
  w_writeContract :: "tx_request \<Rightarrow> js_error + js_str"
  w_waitForTransactionReceipt :: "js_str \<Rightarrow> js_error + tx_receipt"
  w_blockTimestamp :: "bigint \<Rightarrow> js_error + bigint"
  w_firstVotingRoundStartTs :: "js_str \<Rightarrow> js_error + bigint"
  w_votingEpochDurationSeconds :: "js_str \<Rightarrow> js_error + bigint"
  w_fdcProtocolId :: "js_str \<Rightarrow> js_error + bigint"
  w_isFinalized :: "js_str \<Rightarrow> bigint \<Rightarrow> bigint \<Rightarrow> js_error + bool"
  w_responseAbiFound :: bool
  w_decodeResponse :: "js_str \<Rightarrow> js_error + decoded_response"
  w_decodeEventLog :: "event_log \<Rightarrow> js_error + decoded_event"
  w_isTransactionIdUsed :: "js_str \<Rightarrow> js_error + bool"

subsection \<open>Actions\<close>

type_synonym ('s, 'a) action = "'s \<Rightarrow> 's \<times> tx_request list \<times> (js_error + 'a)"

definition act_result :: "js_error + 'a \<Rightarrow> ('s, 'a) action" where
  "act_result r = (\<lambda>s. (s, [], r))"

definition act_bind :: "('s, 'a) action \<Rightarrow> ('a \<Rightarrow> ('s, 'b) action) \<Rightarrow> ('s, 'b) action" where
  "act_bind m f = (\<lambda>s. case m s of
     (s1, es, Inl e) \<Rightarrow> (s1, es, Inl e)
   | (s1, es, Inr a) \<Rightarrow> (case f a s1 of (s2, es', r) \<Rightarrow> (s2, es @ es', r)))"

definition act_send :: "world \<Rightarrow> tx_request \<Rightarrow> ('s, js_str) action" where
  "act_send W tx = (\<lambda>s. (s, [tx], w_writeContract W tx))"

definition act_effects :: "('s, 'a) action \<Rightarrow> 's \<Rightarrow> tx_request list" where
  "act_effects m s = fst (snd (m s))"

definition act_value :: "('s, 'a) action \<Rightarrow> 's \<Rightarrow> js_error + 'a" where
  "act_value m s = snd (snd (m s))"

named_theorems act_simps \<open>effects and value of an action\<close>

lemma act_result_simps [act_simps]:
  "fst (act_result r s) = s" "act_effects (act_result r) s = []" "act_value (act_result r) s = r"
  by (simp_all add: act_result_def act_effects_def act_value_def)

lemma act_send_simps [act_simps]:
  "fst (act_send W tx s) = s" "act_effects (act_send W tx) s = [tx]"
  "act_value (act_send W tx) s = w_writeContract W tx"
  by (simp_all add: act_send_def act_effects_def act_value_def)

lemma act_bind_simps [act_simps]:
  "fst (act_bind m f s) = (case act_value m s of Inl e \<Rightarrow> fst (m s) | Inr a \<Rightarrow> fst (f a (fst (m s))))"
  "act_effects (act_bind m f) s = act_effects m s @
     (case act_value m s of Inl e \<Rightarrow> [] | Inr a \<Rightarrow> act_effects (f a) (fst (m s)))"
  "act_value (act_bind m f) s = (case act_value m s of Inl e \<Rightarrow> Inl e | Inr a \<Rightarrow> act_value (f a) (fst (m s)))"
  by (auto simp: act_bind_def act_effects_def act_value_def split: prod.splits sum.splits)

subsection \<open>The client\<close>

definition ATTESTATION_TYPE_XRP_PAYMENT :: js_str where
  "ATTESTATION_TYPE_XRP_PAYMENT = ''XRPPayment''"

definition XRP_SOURCE_ID_TESTNET :: js_str where
  "XRP_SOURCE_ID_TESTNET = ''testXRP''"

definition VERIFIER_BASE_TESTNET :: js_str where
  "VERIFIER_BASE_TESTNET = ''https://fdc-verifiers-testnet.flare.network''"

definition DA_LAYER_COSTON2 :: js_str where
  "DA_LAYER_COSTON2 = ''https://ctn2-data-availability.flare.network''"

definition VERIFIER_API_KEY_PLACEHOLDER :: js_str where
  "VERIFIER_API_KEY_PLACEHOLDER = ''00000000-0000-0000-0000-000000000000''"

record fdc_client =
  fc_account :: js_str
  fc_verifierBase :: js_str
  fc_daLayer :: js_str
  fc_apiKey :: js_str
  fc_sourceId :: js_str
  fc_registryCache :: "js_str \<Rightarrow> js_str option"

text \<open>\<open>s.replace(/\/$/, "")\<close>.\<close>

definition strip_slash :: "js_str \<Rightarrow> js_str" where
  "strip_slash s = (if s \<noteq> [] \<and> last s = CHR ''/'' then butlast s else s)"

fun or_else :: "'a option \<Rightarrow> 'a \<Rightarrow> 'a" where
  "or_else None d = d"
| "or_else (Some a) d = a"

definition new_FdcClient ::
    "js_str \<Rightarrow> js_str option \<Rightarrow> js_str option \<Rightarrow> js_str option \<Rightarrow> js_str option \<Rightarrow> fdc_client" where
  "new_FdcClient account verifierBaseUrl daLayerUrl apiKey sourceId =
    \<lparr>fc_account = account,
     fc_verifierBase = strip_slash (or_else verifierBaseUrl VERIFIER_BASE_TESTNET),
     fc_daLayer = strip_slash (or_else daLayerUrl DA_LAYER_COSTON2),
     fc_apiKey = or_else apiKey VERIFIER_API_KEY_PLACEHOLDER,
     fc_sourceId = or_else sourceId XRP_SOURCE_ID_TESTNET,
     fc_registryCache = Map.empty\<rparr>"

text \<open>\<open>if (cached)\<close>: an empty string is false.\<close>

definition resolve :: "world \<Rightarrow> js_str \<Rightarrow> (fdc_client, js_str) action" where
  "resolve W n = (\<lambda>c. case fc_registryCache c n of
     Some a \<Rightarrow>
       if a \<noteq> [] then (c, [], Inr a)
       else (case w_getContractAddressByName W n of
           Inl e \<Rightarrow> (c, [], Inl e)
         | Inr a' \<Rightarrow> (c\<lparr>fc_registryCache := (fc_registryCache c)(n \<mapsto> a')\<rparr>, [], Inr a'))
   | None \<Rightarrow>
       (case w_getContractAddressByName W n of
           Inl e \<Rightarrow> (c, [], Inl e)
         | Inr a' \<Rightarrow> (c\<lparr>fc_registryCache := (fc_registryCache c)(n \<mapsto> a')\<rparr>, [], Inr a')))"

subsection \<open>prepareRequest\<close>

text \<open>
  The constructors of the two retryable errors put a fixed text before the message.
\<close>

definition verifier_not_ready :: "js_str \<Rightarrow> js_str \<Rightarrow> js_error" where
  "verifier_not_ready status detail = VerifierNotReadyError
    (''verifier not ready: '' @ status @ (if detail \<noteq> [] then '' ('' @ detail @ '')'' else []))"

definition da_layer_not_ready :: "js_str \<Rightarrow> js_error" where
  "da_layer_not_ready m = DaLayerNotReadyError (''DA layer not ready: '' @ m)"

text \<open>
  A text property of a parsed response: the empty text when it is absent, \<open>null\<close> or not text; reading a
  property of \<open>null\<close> throws. A value that passes the truth test and is not text, \<open>not_text\<close>, has no
  \<open>startsWith\<close> and no place as \<open>response_hex\<close>. An encoded request that is not text is the one that still
  reads as missing here; the source hands it on.
\<close>

definition read_text :: "json \<Rightarrow> js_str \<Rightarrow> js_error + js_str" where
  "read_text v k = (if v = JNull
     then Inl (JsError (''Cannot read properties of null (reading '' @ k @ '')''))
     else Inr (case json_get v k of Some (JStr s) \<Rightarrow> s | _ \<Rightarrow> []))"

definition not_text :: "json \<Rightarrow> js_str \<Rightarrow> bool" where
  "not_text v k \<longleftrightarrow> (case json_get v k of Some (JStr _) \<Rightarrow> False | x \<Rightarrow> \<not> json_false x)"

definition http_error :: "js_str \<Rightarrow> http_response \<Rightarrow> js_error" where
  "http_error who res =
    JsError (who @ '' HTTP '' @ bigint_toString (http_status res) @ '': '' @ http_text res)"

definition classify_verifier :: "world \<Rightarrow> http_response \<Rightarrow> js_error + js_str" where
  "classify_verifier W res =
    (if \<not> http_ok res then Inl (http_error ''verifier'' res)
     else
       bind_err (w_jsonParse W (http_text res)) (\<lambda>parsed.
       bind_err (read_text parsed ''status'') (\<lambda>status.
       bind_err (read_text parsed ''errorMessage'') (\<lambda>detail.
       bind_err (read_text parsed ''abiEncodedRequest'') (\<lambda>req.
       if not_text parsed ''status'' then Inl (JsError ''parsed.status.startsWith is not a function'')
       else if status \<noteq> [] \<and> \<not> js_startsWith ''OK'' status \<and> status \<noteq> ''VALID''
       then Inl (verifier_not_ready status detail)
       else if req = []
       then Inl (JsError (''verifier response missing abiEncodedRequest: '' @ http_text res))
       else Inr req)))))"

definition prepareRequest ::
    "world \<Rightarrow> js_str \<Rightarrow> js_str option \<Rightarrow> (fdc_client, js_str) action" where
  "prepareRequest W xrplTransactionId proofOwner = (\<lambda>c.
    act_result
      (bind_err (w_toHex32 W ATTESTATION_TYPE_XRP_PAYMENT) (\<lambda>attestationType.
       bind_err (w_toHex32 W (fc_sourceId c)) (\<lambda>sourceId.
       let url = fc_verifierBase c @ ''/verifier/xrp/'' @ ATTESTATION_TYPE_XRP_PAYMENT @ ''/prepareRequest'';
           body = JObj [(''attestationType'', JStr attestationType), (''sourceId'', JStr sourceId),
             (''requestBody'', JObj [(''transactionId'', JStr xrplTransactionId),
               (''proofOwner'', JStr (or_else proofOwner (fc_account c)))])]
       in bind_err (w_fetch W \<lparr>rq_url = url, rq_apiKey = Some (fc_apiKey c), rq_body = body\<rparr>)
            (classify_verifier W)))) c)"

subsection \<open>submitRequest\<close>

text \<open>
  \<open>Number((timestamp - first) / duration)\<close>: division of \<open>bigint\<close>s, which throws on zero. The
  conversion to a number is exact for the round ids below \<open>2 ^ 53\<close>.
\<close>

definition round_of :: "bigint \<Rightarrow> bigint \<Rightarrow> bigint \<Rightarrow> js_error + int" where
  "round_of timestamp firstStart duration =
    (if duration = 0 then Inl (JsError ''Division by zero'')
     else Inr ((timestamp - firstStart) sdiv duration))"

definition submitRequest :: "world \<Rightarrow> js_str option \<Rightarrow> (fdc_client, int) action" where
  "submitRequest W abiEncodedRequest =
    act_bind (resolve W ''FdcHub'') (\<lambda>fdcHub.
    act_bind (act_result (w_fdcRequestFeeConfigurations W fdcHub)) (\<lambda>feeConfig.
    act_bind (act_result (w_getRequestFee W feeConfig abiEncodedRequest)) (\<lambda>fee.
    act_bind (act_send W (RequestAttestation fdcHub abiEncodedRequest fee)) (\<lambda>txHash.
    act_bind (act_result (w_waitForTransactionReceipt W txHash)) (\<lambda>receipt.
    act_bind (act_result (w_blockTimestamp W (rc_blockNumber receipt))) (\<lambda>timestamp.
    act_bind (resolve W ''FlareSystemsManager'') (\<lambda>fsm.
    act_bind (act_result (w_firstVotingRoundStartTs W fsm)) (\<lambda>firstRoundStartTs.
    act_bind (act_result (w_votingEpochDurationSeconds W fsm)) (\<lambda>epochDuration.
    act_result (round_of timestamp firstRoundStartTs epochDuration))))))))))"

subsection \<open>isRoundFinalized and fetchProof\<close>

text \<open>
  \<open>roundId\<close> is an option: the callers assert with \<open>!\<close> that it is set, which checks nothing at run
  time, and \<open>BigInt(undefined)\<close> throws. \<open>Promise.all\<close> resolves both names whichever fails.
\<close>

definition isRoundFinalized :: "world \<Rightarrow> int option \<Rightarrow> (fdc_client, bool) action" where
  "isRoundFinalized W roundId = (\<lambda>c.
    (let (c1, _, relay_r) = resolve W ''Relay'' c;
         (c2, _, fdcVerification_r) = resolve W ''FdcVerification'' c1
     in (c2, [],
       bind_err relay_r (\<lambda>relay.
       bind_err fdcVerification_r (\<lambda>fdcVerification.
       bind_err (w_fdcProtocolId W fdcVerification) (\<lambda>protocolId.
       case roundId of
         None \<Rightarrow> Inl (JsError ''Cannot convert undefined to a BigInt'')
       | Some r \<Rightarrow> w_isFinalized W relay protocolId r))))))"

definition classify_da_layer :: "world \<Rightarrow> http_response \<Rightarrow> js_error + xrp_payment_proof" where
  "classify_da_layer W res =
    (if \<not> http_ok res
     then Inl (da_layer_not_ready
       (''HTTP '' @ bigint_toString (http_status res) @ '': '' @ js_slice 0 200 (http_text res)))
     else
       bind_err (w_jsonParse W (http_text res)) (\<lambda>raw.
       bind_err (read_text raw ''response_hex'') (\<lambda>response_hex.
       if not_text raw ''response_hex'' then Inl (JsError ''response_hex is not text'')
       else if response_hex = [] then Inl (da_layer_not_ready ''proof not published yet'')
       else if \<not> w_responseAbiFound W
       then Inl (JsError ''IXRPPayment.Response ABI not found in the periphery package'')
       else
         bind_err (w_decodeResponse W response_hex) (\<lambda>decoded.
         Inr \<lparr>merkleProof = (case json_get raw ''proof'' of Some (JArr p) \<Rightarrow> p | _ \<Rightarrow> []),
              proof_data = decoded\<rparr>))))"

definition fetchProof ::
    "world \<Rightarrow> js_str option \<Rightarrow> int option \<Rightarrow> (fdc_client, xrp_payment_proof) action" where
  "fetchProof W abiEncodedRequest roundId = (\<lambda>c.
    act_result
      (bind_err (w_fetch W
         \<lparr>rq_url = fc_daLayer c @ ''/api/v1/fdc/proof-by-request-round-raw'', rq_apiKey = None,
          rq_body = JObj (opt_field ''votingRoundId'' (map_option (\<lambda>r. JNum (Finite (of_int r))) roundId) @
            opt_field ''requestBytes'' (map_option JStr abiEncodedRequest))\<rparr>)
       (classify_da_layer W)) c)"


subsection \<open>Effects\<close>

lemma resolve_effects [act_simps]: "act_effects (resolve W n) c = []"
  by (auto simp: resolve_def act_effects_def split: option.split sum.split)

lemma prepareRequest_effects [act_simps]: "act_effects (prepareRequest W tx owner) c = []"
  by (simp add: prepareRequest_def act_effects_def act_result_def)

lemma fetchProof_effects [act_simps]: "act_effects (fetchProof W req r) c = []"
  by (simp add: fetchProof_def act_effects_def act_result_def)

lemma isRoundFinalized_effects [act_simps]: "act_effects (isRoundFinalized W r) c = []"
  by (simp add: isRoundFinalized_def act_effects_def case_prod_beta Let_def)

text \<open>One submission asks the wallet for one transaction at most.\<close>

lemma submitRequest_effects:
  "act_effects (submitRequest W req) c = [] \<or>
   (\<exists>hub fee. act_effects (submitRequest W req) c = [RequestAttestation hub req fee])"
  by (auto simp: submitRequest_def act_simps split: sum.splits)

subsection \<open>The address cache\<close>

definition resolved_name :: "world \<Rightarrow> js_str \<Rightarrow> fdc_client \<Rightarrow> js_error + js_str" where
  "resolved_name W n c = (case fc_registryCache c n of
     Some a \<Rightarrow> if a \<noteq> [] then Inr a else w_getContractAddressByName W n
   | None \<Rightarrow> w_getContractAddressByName W n)"

lemma resolve_value: "act_value (resolve W n) c = resolved_name W n c"
  by (auto simp: resolve_def resolved_name_def act_value_def split: option.split sum.split)

lemma resolve_stable: "resolved_name W m (fst (resolve W n c)) = resolved_name W m c"
  by (auto simp: resolve_def resolved_name_def split: option.split sum.split)

definition fdc_fetch :: "world \<Rightarrow> js_str \<Rightarrow> fdc_client \<Rightarrow> fdc_client \<times> (js_error + js_str)" where
  "fdc_fetch W n c = (fst (resolve W n c), act_value (resolve W n) c)"

interpretation fdc: address_cache "fdc_fetch W" "resolved_name W" for W
  by unfold_locales (simp_all add: fdc_fetch_def resolve_value resolve_stable)

text \<open>What a submission that returned has done, read backwards.\<close>

lemma submitRequest_InrE:
  assumes "act_value (submitRequest W req) c = Inr r"
  obtains hub cfg fee hash rc ts fsm start dur where
    "resolved_name W ''FdcHub'' c = Inr hub"
    "w_fdcRequestFeeConfigurations W hub = Inr cfg" "w_getRequestFee W cfg req = Inr fee"
    "w_writeContract W (RequestAttestation hub req fee) = Inr hash"
    "w_waitForTransactionReceipt W hash = Inr rc" "w_blockTimestamp W (rc_blockNumber rc) = Inr ts"
    "resolved_name W ''FlareSystemsManager'' c = Inr fsm"
    "w_firstVotingRoundStartTs W fsm = Inr start" "w_votingEpochDurationSeconds W fsm = Inr dur"
    "round_of ts start dur = Inr r"
    "act_effects (submitRequest W req) c = [RequestAttestation hub req fee]"
  using assms
  by (auto simp: submitRequest_def act_simps resolve_value resolve_stable split: sum.splits)

lemma round_of_bounds:
  assumes "round_of ts start dur = Inr r" and "start \<le> ts" and "0 < dur"
  shows "0 \<le> r" and "start + r * dur \<le> ts" and "ts < start + (r + 1) * dur"
proof -
  have r: "r = (ts - start) div dur"
    using assms by (auto simp: round_of_def signed_divide_int_def sgn_if split: if_splits)
  then show "0 \<le> r" using assms by (simp add: pos_imp_zdiv_nonneg_iff)
  have "r * dur + (ts - start) mod dur = ts - start" unfolding r by (rule div_mult_mod_eq)
  moreover have "0 \<le> (ts - start) mod dur" "(ts - start) mod dur < dur" using assms(3) by simp_all
  moreover have "(r + 1) * dur = r * dur + dur" by (simp add: distrib_right)
  ultimately show "start + r * dur \<le> ts" "ts < start + (r + 1) * dur" by linarith+
qed

text \<open>
  The packages and servers do not throw the two error classes of this file: an exception of theirs
  is a plain error.
\<close>

definition plain :: "js_error + 'a \<Rightarrow> bool" where
  "plain r \<longleftrightarrow> (case r of Inl (JsError _) \<Rightarrow> True | Inl _ \<Rightarrow> False | Inr _ \<Rightarrow> True)"

lemma plain_simps [simp]: "plain (Inr a)" "plain (Inl (JsError m))"
  "\<not> plain (Inl (VerifierNotReadyError m))" "\<not> plain (Inl (DaLayerNotReadyError m))"
  by (simp_all add: plain_def)

definition plain_world :: "world \<Rightarrow> bool" where
  "plain_world W \<longleftrightarrow> (\<forall>q. plain (w_fetch W q)) \<and> (\<forall>t. plain (w_jsonParse W t)) \<and>
     (\<forall>t. plain (w_toHex32 W t)) \<and> (\<forall>t. plain (w_decodeResponse W t))"

lemma plain_worldD:
  assumes "plain_world W"
  shows "w_fetch W q \<noteq> Inl (VerifierNotReadyError m)" "w_fetch W q \<noteq> Inl (DaLayerNotReadyError m)"
    "w_jsonParse W t \<noteq> Inl (VerifierNotReadyError m)" "w_jsonParse W t \<noteq> Inl (DaLayerNotReadyError m)"
    "w_toHex32 W t \<noteq> Inl (VerifierNotReadyError m)" "w_decodeResponse W t \<noteq> Inl (DaLayerNotReadyError m)"
  using assms unfolding plain_world_def by (metis plain_simps)+

lemma read_text_plain [simp]:
  "read_text v k \<noteq> Inl (VerifierNotReadyError m)" "read_text v k \<noteq> Inl (DaLayerNotReadyError m)"
  by (simp_all add: read_text_def)

text \<open>The request \<open>prepareRequest\<close> sends.\<close>

definition verifier_request :: "fdc_client \<Rightarrow> js_str \<Rightarrow> js_str option \<Rightarrow> js_str \<Rightarrow> js_str \<Rightarrow> http_request" where
  "verifier_request c tx owner aty src =
    \<lparr>rq_url = fc_verifierBase c @ ''/verifier/xrp/'' @ ATTESTATION_TYPE_XRP_PAYMENT @ ''/prepareRequest'',
     rq_apiKey = Some (fc_apiKey c),
     rq_body = JObj [(''attestationType'', JStr aty), (''sourceId'', JStr src),
       (''requestBody'', JObj [(''transactionId'', JStr tx),
         (''proofOwner'', JStr (or_else owner (fc_account c)))])]\<rparr>"

lemma prepareRequest_value:
  "act_value (prepareRequest W tx owner) c =
    bind_err (w_toHex32 W ATTESTATION_TYPE_XRP_PAYMENT) (\<lambda>aty.
    bind_err (w_toHex32 W (fc_sourceId c)) (\<lambda>src.
    bind_err (w_fetch W (verifier_request c tx owner aty src)) (classify_verifier W)))"
  by (simp add: prepareRequest_def act_value_def act_result_def verifier_request_def Let_def)

definition da_layer_request :: "fdc_client \<Rightarrow> js_str option \<Rightarrow> int option \<Rightarrow> http_request" where
  "da_layer_request c req r =
    \<lparr>rq_url = fc_daLayer c @ ''/api/v1/fdc/proof-by-request-round-raw'', rq_apiKey = None,
     rq_body = JObj (opt_field ''votingRoundId'' (map_option (\<lambda>r. JNum (Finite (of_int r))) r) @
       opt_field ''requestBytes'' (map_option JStr req))\<rparr>"

lemma fetchProof_value:
  "act_value (fetchProof W req r) c =
    bind_err (w_fetch W (da_layer_request c req r)) (classify_da_layer W)"
  by (simp add: fetchProof_def act_value_def act_result_def da_layer_request_def)

lemma read_text_value: "v \<noteq> JNull \<Longrightarrow>
    read_text v k = Inr (case json_get v k of Some (JStr s) \<Rightarrow> s | _ \<Rightarrow> [])"
  by (simp add: read_text_def)

text \<open>A status that says the transaction is not there yet.\<close>

definition lag_status :: "js_str \<Rightarrow> bool" where
  "lag_status s \<longleftrightarrow> s \<noteq> [] \<and> \<not> js_startsWith ''OK'' s \<and> s \<noteq> ''VALID''"

lemma classify_verifier_lag:
  assumes "plain_world W"
  shows "(\<exists>m. classify_verifier W res = Inl (VerifierNotReadyError m)) \<longleftrightarrow>
    http_ok res \<and> (\<exists>v s. w_jsonParse W (http_text res) = Inr v \<and> read_text v ''status'' = Inr s \<and> lag_status s)"
proof (cases "http_ok res \<and> (\<exists>v. w_jsonParse W (http_text res) = Inr v \<and> v \<noteq> JNull)")
  case True
  then obtain v where v: "http_ok res" "w_jsonParse W (http_text res) = Inr v" "v \<noteq> JNull" by blast
  then show ?thesis
    by (auto simp: classify_verifier_def read_text_value lag_status_def verifier_not_ready_def not_text_def
        split: option.splits json.splits)
next
  case False
  then show ?thesis
    using plain_worldD(3) [OF assms, of "http_text res"]
    by (cases "w_jsonParse W (http_text res)")
      (auto simp: classify_verifier_def http_error_def read_text_def)
qed

lemma classify_da_layer_lag:
  assumes "plain_world W"
  shows "(\<exists>m. classify_da_layer W res = Inl (DaLayerNotReadyError m)) \<longleftrightarrow>
    \<not> http_ok res \<or> (\<exists>v. w_jsonParse W (http_text res) = Inr v \<and> \<not> not_text v ''response_hex'' \<and>
      read_text v ''response_hex'' = Inr [])"
proof (cases "http_ok res \<and> (\<exists>v. w_jsonParse W (http_text res) = Inr v \<and> v \<noteq> JNull)")
  case True
  then obtain v where v: "http_ok res" "w_jsonParse W (http_text res) = Inr v" "v \<noteq> JNull" by blast
  then show ?thesis
    using plain_worldD(6) [OF assms]
    by (simp add: classify_da_layer_def read_text_value da_layer_not_ready_def bind_err_eq_Inl)
next
  case False
  then show ?thesis
    using plain_worldD(4) [OF assms, of "http_text res"]
    by (cases "w_jsonParse W (http_text res)")
      (auto simp: classify_da_layer_def da_layer_not_ready_def read_text_def)
qed


subsection \<open>Properties\<close>

text \<open>
  A submission that returns sent exactly one transaction, the attestation request it was given
  with the fee the fee contract quotes for it, and the round it returns is the voting epoch the
  transaction's block lies in.
\<close>

theorem fdc_submission_round:
  assumes "act_value (submitRequest W req) c = Inr r"
  shows "\<exists>hub cfg fee hash rc ts fsm start dur.
    act_effects (submitRequest W req) c = [RequestAttestation hub req fee] \<and>
    w_fdcRequestFeeConfigurations W hub = Inr cfg \<and> w_getRequestFee W cfg req = Inr fee \<and>
    w_writeContract W (RequestAttestation hub req fee) = Inr hash \<and>
    w_waitForTransactionReceipt W hash = Inr rc \<and> w_blockTimestamp W (rc_blockNumber rc) = Inr ts \<and>
    w_firstVotingRoundStartTs W fsm = Inr start \<and> w_votingEpochDurationSeconds W fsm = Inr dur \<and>
    (if start \<le> ts \<and> 0 < dur then 0 \<le> r \<and> start + r * dur \<le> ts \<and> ts < start + (r + 1) * dur
     else dur \<noteq> 0)"
proof -
  obtain hub cfg fee hash rc ts fsm start dur where
    s: "act_effects (submitRequest W req) c = [RequestAttestation hub req fee]"
      "w_fdcRequestFeeConfigurations W hub = Inr cfg" "w_getRequestFee W cfg req = Inr fee"
      "w_writeContract W (RequestAttestation hub req fee) = Inr hash"
      "w_waitForTransactionReceipt W hash = Inr rc" "w_blockTimestamp W (rc_blockNumber rc) = Inr ts"
      "w_firstVotingRoundStartTs W fsm = Inr start" "w_votingEpochDurationSeconds W fsm = Inr dur"
    and r: "round_of ts start dur = Inr r"
    using assms by (rule submitRequest_InrE)
  have "if start \<le> ts \<and> 0 < dur then 0 \<le> r \<and> start + r * dur \<le> ts \<and> ts < start + (r + 1) * dur
     else dur \<noteq> 0"
    using round_of_bounds [OF r] r by (auto simp: round_of_def split: if_splits)
  with s show ?thesis by blast
qed

text \<open>A network in which everything answers, for the witnesses.\<close>

definition demo_response :: json where
  "demo_response = JObj [(''status'', JStr ''VALID''), (''abiEncodedRequest'', JStr ''0x5265''),
     (''response_hex'', JStr ''0x50''), (''proof'', JArr [JStr ''0x01''])]"

definition demo_receipt :: tx_receipt where
  "demo_receipt = \<lparr>rc_blockNumber = 17, rc_reverted = False, rc_logs = []\<rparr>"

definition demo_world :: world where
  "demo_world = \<lparr>
     w_getContractAddressByName = (\<lambda>n. Inr (''0x'' @ n)),
     w_fetch = (\<lambda>q. Inr \<lparr>http_ok = True, http_status = 200, http_text = ''{}''\<rparr>),
     w_jsonParse = (\<lambda>t. Inr demo_response),
     w_toHex32 = (\<lambda>t. Inr (''0x'' @ t)),
     w_fdcRequestFeeConfigurations = (\<lambda>a. Inr ''0xfee''),
     w_getRequestFee = (\<lambda>a req. Inr 10),
     w_writeContract = (\<lambda>tx. Inr ''0xhash''),
     w_waitForTransactionReceipt = (\<lambda>h. Inr demo_receipt),
     w_blockTimestamp = (\<lambda>n. Inr 1000),
     w_firstVotingRoundStartTs = (\<lambda>a. Inr 100),
     w_votingEpochDurationSeconds = (\<lambda>a. Inr 90),
     w_fdcProtocolId = (\<lambda>a. Inr 200),
     w_isFinalized = (\<lambda>a p r. Inr True),
     w_responseAbiFound = True,
     w_decodeResponse = (\<lambda>t. Inr (JStr t)),
     w_decodeEventLog = (\<lambda>l. Inl (JsError ''no event'')),
     w_isTransactionIdUsed = (\<lambda>t. Inr False)\<rparr>"

definition demo_fdc :: fdc_client where
  "demo_fdc = new_FdcClient ''0xexecutor'' None None None None"

lemma demo_world_fields [simp]:
  "w_getContractAddressByName demo_world n = Inr (''0x'' @ n)"
  "w_fetch demo_world q = Inr \<lparr>http_ok = True, http_status = 200, http_text = ''{}''\<rparr>"
  "w_jsonParse demo_world t = Inr demo_response" "w_toHex32 demo_world t = Inr (''0x'' @ t)"
  "w_fdcRequestFeeConfigurations demo_world a = Inr ''0xfee''"
  "w_getRequestFee demo_world a req = Inr 10" "w_writeContract demo_world tx = Inr ''0xhash''"
  "w_waitForTransactionReceipt demo_world h = Inr demo_receipt"
  "w_blockTimestamp demo_world b = Inr 1000" "w_firstVotingRoundStartTs demo_world a = Inr 100"
  "w_votingEpochDurationSeconds demo_world a = Inr 90" "w_fdcProtocolId demo_world a = Inr 200"
  "w_isFinalized demo_world a b r = Inr True" "w_responseAbiFound demo_world"
  "w_decodeResponse demo_world t = Inr (JStr t)"
  "w_decodeEventLog demo_world l = Inl (JsError ''no event'')"
  "w_isTransactionIdUsed demo_world t = Inr False"
  by (simp_all add: demo_world_def)

lemma demo_plain: "plain_world demo_world"
  by (simp add: plain_world_def)

lemma demo_resolved_name [simp]: "resolved_name demo_world n demo_fdc = Inr (''0x'' @ n)"
  by (simp add: resolved_name_def demo_fdc_def new_FdcClient_def)

lemma demo_submit: "act_value (submitRequest demo_world (Some ''0x5265'')) demo_fdc = Inr 10"
  by (simp add: submitRequest_def act_simps resolve_value resolve_stable round_of_def
      signed_divide_int_def)

lemma fdc_submission_round_witness:
  "\<exists>hub fee. act_effects (submitRequest demo_world (Some ''0x5265'')) demo_fdc =
    [RequestAttestation hub (Some ''0x5265'') fee]"
  using fdc_submission_round [OF demo_submit] by blast

text \<open>
  What counts as lag: \<open>prepareRequest\<close> fails with the retryable error exactly when the verifier
  answered and its status says the transaction is not indexed yet, and \<open>fetchProof\<close> exactly when the
  server refused or the response has no proof. No other failure is taken for lag, and neither asks
  the wallet for anything.
\<close>

theorem fdc_lag_classified:
  assumes "plain_world W"
  shows "((\<exists>m. act_value (prepareRequest W tx owner) c = Inl (VerifierNotReadyError m)) =
      (\<exists>aty src res v s. w_toHex32 W ATTESTATION_TYPE_XRP_PAYMENT = Inr aty \<and>
        w_toHex32 W (fc_sourceId c) = Inr src \<and>
        w_fetch W (verifier_request c tx owner aty src) = Inr res \<and> http_ok res \<and>
        w_jsonParse W (http_text res) = Inr v \<and> read_text v ''status'' = Inr s \<and> lag_status s)) \<and>
    ((\<exists>m. act_value (fetchProof W req r) c = Inl (DaLayerNotReadyError m)) =
      (\<exists>res. w_fetch W (da_layer_request c req r) = Inr res \<and>
        (\<not> http_ok res \<or>
          (\<exists>v. w_jsonParse W (http_text res) = Inr v \<and> \<not> not_text v ''response_hex'' \<and>
            read_text v ''response_hex'' = Inr [])))) \<and>
    act_effects (prepareRequest W tx owner) c = [] \<and> act_effects (fetchProof W req r) c = []"
proof -
  have "(\<exists>m. act_value (prepareRequest W tx owner) c = Inl (VerifierNotReadyError m)) =
    (\<exists>aty src res. w_toHex32 W ATTESTATION_TYPE_XRP_PAYMENT = Inr aty \<and>
        w_toHex32 W (fc_sourceId c) = Inr src \<and>
        w_fetch W (verifier_request c tx owner aty src) = Inr res \<and>
        (\<exists>m. classify_verifier W res = Inl (VerifierNotReadyError m)))"
    using plain_worldD [OF assms] by (auto simp: prepareRequest_value bind_err_eq_Inl)
  moreover have "(\<exists>m. act_value (fetchProof W req r) c = Inl (DaLayerNotReadyError m)) =
    (\<exists>res. w_fetch W (da_layer_request c req r) = Inr res \<and>
        (\<exists>m. classify_da_layer W res = Inl (DaLayerNotReadyError m)))"
    using plain_worldD [OF assms] by (auto simp: fetchProof_value bind_err_eq_Inl)
  ultimately show ?thesis
    unfolding classify_verifier_lag [OF assms] classify_da_layer_lag [OF assms]
    by (auto simp: act_simps)
qed

lemma fdc_lag_classified_witness:
  "\<not> (\<exists>m. act_value (fetchProof demo_world req r) demo_fdc = Inl (DaLayerNotReadyError m))"
  using fdc_lag_classified [OF demo_plain, of _ _ demo_fdc req r]
  by (auto simp: demo_response_def read_text_def)

text \<open>
  The address cache is invisible: after any sequence of lookups against the same registry, a
  submission and a finality check return what they return on a client that has looked up nothing.
\<close>

theorem fdc_cache_transparent:
  "let c' = fold (\<lambda>n c. fst (fdc_fetch W n c)) ns c in
   act_value (submitRequest W req) c' = act_value (submitRequest W req) c \<and>
   act_value (isRoundFinalized W r) c' = act_value (isRoundFinalized W r) c"
proof -
  let ?c = "fold (\<lambda>n c. fst (fdc_fetch W n c)) ns c"
  have a: "resolved_name W n ?c = resolved_name W n c" for n by (rule fdc.answer_after)
  have v: "snd (snd (resolve W n c)) = resolved_name W n c" for n c
    using resolve_value by (simp add: act_value_def)
  have "act_value (submitRequest W req) ?c = act_value (submitRequest W req) c"
    by (simp add: submitRequest_def act_simps resolve_value resolve_stable a split: sum.split)
  moreover have "act_value (isRoundFinalized W r) ?c = act_value (isRoundFinalized W r) c"
    by (simp add: isRoundFinalized_def act_value_def case_prod_beta Let_def v resolve_stable a)
  ultimately show ?thesis by (simp add: Let_def)
qed

end
