(* ===== verification/Store.thy ===== *)
theory Store
  imports Viem "HOL-Library.Multiset"
begin

text \<open>
  \<open>packages/executor/src/store.ts\<close>: the pending user operations, in memory and on disk.

  A directory is the list of its files in the order \<open>readdir\<close> gives them. A file the sources wrote
  holds \<open>JSON.stringify\<close> of a record, which \<open>JSON.parse\<close> gives back: \<open>JsonFile r\<close>. Any other content,
  such as a write cut short, is \<open>RawFile\<close>: \<open>JSON.parse\<close> throws. JSON text of another shape than the
  record's is not modelled. What happens to a write is an argument of the operation.
\<close>

subsection \<open>Files\<close>

datatype 'a file_content = JsonFile 'a | RawFile

type_synonym 'a directory = "(js_str \<times> 'a file_content) list"

datatype write_outcome =
    Written
  | NotWritten js_error
  | Torn js_error

fun write_file :: "write_outcome \<Rightarrow> js_str \<Rightarrow> 'a \<Rightarrow> 'a directory \<Rightarrow> 'a directory \<times> (js_error + unit)" where
  "write_file Written f r d = (AList.update f (JsonFile r) d, Inr ())"
| "write_file (NotWritten e) f r d = (d, Inl e)"
| "write_file (Torn e) f r d = (AList.update f RawFile d, Inl e)"

text \<open>\<open>JSON.parse(await readFile(path))\<close>; \<open>None\<close> when either throws.\<close>

definition read_json :: "js_str \<Rightarrow> 'a directory \<Rightarrow> 'a option" where
  "read_json f d = (case map_of d f of Some (JsonFile r) \<Rightarrow> Some r | _ \<Rightarrow> None)"

lemma read_json_write:
  "read_json g (fst (write_file w f r d)) =
    (if g \<noteq> f then read_json g d
     else case w of Written \<Rightarrow> Some r | NotWritten _ \<Rightarrow> read_json f d | Torn _ \<Rightarrow> None)"
  by (cases w) (simp_all add: read_json_def update_conv')

lemma read_json_update [simp]: "read_json f (AList.update f (JsonFile r) d) = Some r"
  by (simp add: read_json_def)

lemma write_file_result:
  "snd (write_file w f r d) = (case w of Written \<Rightarrow> Inr () | NotWritten e \<Rightarrow> Inl e | Torn e \<Rightarrow> Inl e)"
  by (cases w) simp_all

lemma distinct_write_file:
  "distinct (map fst d) \<Longrightarrow> distinct (map fst (fst (write_file w f r d)))"
  by (cases w) (simp_all add: distinct_update)

subsection \<open>State\<close>

record pending_user_op =
  po_commitment :: js_str
  po_userOpData :: js_str
  po_personalAccount :: js_str
  po_nonce :: js_str
  po_totalCallValue :: js_str
  po_label :: js_str
  registeredAt :: int

text \<open>The argument of \<open>register\<close>: the record without its two computed fields.\<close>

record registration =
  rg_commitment :: "js_str option"
  rg_userOpData :: js_str
  rg_personalAccount :: js_str
  rg_nonce :: js_str
  rg_totalCallValue :: js_str
  rg_label :: js_str

record pending_store =
  ps_memory :: "js_str \<Rightarrow> pending_user_op option"
  ps_disk :: "pending_user_op directory"

definition new_PendingStore :: "pending_user_op directory \<Rightarrow> pending_store" where
  "new_PendingStore d = \<lparr>ps_memory = Map.empty, ps_disk = d\<rparr>"

definition pending_file :: "js_str \<Rightarrow> js_str" where
  "pending_file commitment = js_slice_from 2 commitment @ ''.json''"

subsection \<open>Operations\<close>

definition pending_record :: "int \<Rightarrow> js_str \<Rightarrow> registration \<Rightarrow> pending_user_op" where
  "pending_record now commitment entry =
    \<lparr>po_commitment = commitment, po_userOpData = rg_userOpData entry,
     po_personalAccount = rg_personalAccount entry, po_nonce = rg_nonce entry,
     po_totalCallValue = rg_totalCallValue entry, po_label = rg_label entry, registeredAt = now\<rparr>"

definition claims_other :: "js_str option \<Rightarrow> js_str \<Rightarrow> bool" where
  "claims_other claimed commitment \<longleftrightarrow> (case claimed of
     None \<Rightarrow> False
   | Some c \<Rightarrow> c \<noteq> [] \<and> js_toLowerCase c \<noteq> js_toLowerCase commitment)"

definition mismatch_error :: "js_str option \<Rightarrow> js_str \<Rightarrow> js_error" where
  "mismatch_error claimed commitment =
    JsError (''commitment mismatch: claimed '' @ (case claimed of Some c \<Rightarrow> c | None \<Rightarrow> ''undefined'')
      @ '', keccak256(userOpData) is '' @ commitment)"

definition ps_register ::
    "viem \<Rightarrow> int \<Rightarrow> write_outcome \<Rightarrow> registration \<Rightarrow> pending_store \<Rightarrow> pending_store \<times> (js_error + js_str)" where
  "ps_register V now w entry s =
    (case keccak256 V (rg_userOpData entry) of
       Inl e \<Rightarrow> (s, Inl e)
     | Inr commitment \<Rightarrow>
        if claims_other (rg_commitment entry) commitment
        then (s, Inl (mismatch_error (rg_commitment entry) commitment))
        else
          let r = pending_record now commitment entry;
              memory' = (ps_memory s)(js_toLowerCase commitment \<mapsto> r);
              (disk', res) = write_file w (pending_file commitment) r (ps_disk s)
          in (\<lparr>ps_memory = memory', ps_disk = disk'\<rparr>, bind_err res (\<lambda>_. Inr commitment)))"

definition ps_get :: "js_str \<Rightarrow> pending_store \<Rightarrow> pending_store \<times> pending_user_op option" where
  "ps_get commitment s =
    (let key = js_toLowerCase commitment in
     case ps_memory s key of
       Some cached \<Rightarrow> (s, Some cached)
     | None \<Rightarrow>
        (case read_json (pending_file commitment) (ps_disk s) of
           Some r \<Rightarrow> (s\<lparr>ps_memory := (ps_memory s)(key \<mapsto> r)\<rparr>, Some r)
         | None \<Rightarrow> (s, None)))"

definition js_endsWith :: "js_str \<Rightarrow> js_str \<Rightarrow> bool" where
  "js_endsWith suffix s \<longleftrightarrow> length suffix \<le> length s \<and> drop (length s - length suffix) s = suffix"

fun parse_files :: "'a directory \<Rightarrow> 'a list option" where
  "parse_files [] = Some []"
| "parse_files ((f, c) # d) =
    (if \<not> js_endsWith ''.json'' f then parse_files d
     else case c of
       RawFile \<Rightarrow> None
     | JsonFile r \<Rightarrow> map_option ((#) r) (parse_files d))"

text \<open>
  \<open>out.sort((a, b) => b.registeredAt - a.registeredAt)\<close>: the sort is stable, as \<open>sort_key\<close>.
\<close>

definition ps_list :: "pending_store \<Rightarrow> pending_user_op list" where
  "ps_list s = (case parse_files (ps_disk s) of
     Some out \<Rightarrow> sort_key (\<lambda>r. - registeredAt r) out
   | None \<Rightarrow> [])"

subsection \<open>The invariant: every payload held was verified\<close>

definition verified_record :: "viem \<Rightarrow> pending_user_op \<Rightarrow> bool" where
  "verified_record V r \<longleftrightarrow> keccak256 V (po_userOpData r) = Inr (po_commitment r)"

definition store_inv :: "viem \<Rightarrow> pending_store \<Rightarrow> bool" where
  "store_inv V s \<longleftrightarrow>
    (\<forall>k r. ps_memory s k = Some r \<longrightarrow>
       verified_record V r \<and> drop 2 k = js_toLowerCase (drop 2 (po_commitment r))) \<and>
    (\<forall>f r. read_json f (ps_disk s) = Some r \<longrightarrow>
       verified_record V r \<and> f = pending_file (po_commitment r))"

lemma store_invD:
  assumes "store_inv V s"
  shows "ps_memory s k = Some r \<Longrightarrow>
      verified_record V r \<and> drop 2 k = js_toLowerCase (drop 2 (po_commitment r))"
    and "read_json f (ps_disk s) = Some r \<Longrightarrow> verified_record V r \<and> f = pending_file (po_commitment r)"
  using assms unfolding store_inv_def by blast+

lemma store_inv_empty: "store_inv V (new_PendingStore [])"
  by (simp add: store_inv_def new_PendingStore_def read_json_def)

text \<open>A restart forgets the memory and keeps the disk.\<close>

lemma store_inv_restart: "store_inv V s \<Longrightarrow> store_inv V (new_PendingStore (ps_disk s))"
  by (simp add: store_inv_def new_PendingStore_def)

lemma pending_file_eq [simp]: "pending_file a = pending_file b \<longleftrightarrow> drop 2 a = drop 2 b"
  by (simp add: pending_file_def)

lemma pending_record_fields [simp]:
  "po_commitment (pending_record now c e) = c" "po_userOpData (pending_record now c e) = rg_userOpData e"
  "po_nonce (pending_record now c e) = rg_nonce e" "registeredAt (pending_record now c e) = now"
  "po_totalCallValue (pending_record now c e) = rg_totalCallValue e"
  "po_personalAccount (pending_record now c e) = rg_personalAccount e"
  "po_label (pending_record now c e) = rg_label e"
  by (simp_all add: pending_record_def)

text \<open>The two ways \<open>register\<close> ends: nothing changed, or the record is in memory.\<close>

lemma ps_register_cases:
  obtains (refused) e where "ps_register V now w entry s = (s, Inl e)"
    and "\<And>c. keccak256 V (rg_userOpData entry) = Inr c \<Longrightarrow>
      claims_other (rg_commitment entry) c \<and> e = mismatch_error (rg_commitment entry) c"
  | (held) c where "keccak256 V (rg_userOpData entry) = Inr c"
    and "\<not> claims_other (rg_commitment entry) c"
    and "ps_register V now w entry s =
      (\<lparr>ps_memory = (ps_memory s)(js_toLowerCase c \<mapsto> pending_record now c entry),
        ps_disk = fst (write_file w (pending_file c) (pending_record now c entry) (ps_disk s))\<rparr>,
       bind_err (snd (write_file w (pending_file c) (pending_record now c entry) (ps_disk s)))
         (\<lambda>_. Inr c))"
proof (cases "keccak256 V (rg_userOpData entry)")
  case (Inl e)
  then show ?thesis by (intro refused) (simp_all add: ps_register_def)
next
  case (Inr c)
  show ?thesis
  proof (cases "claims_other (rg_commitment entry) c")
    case True
    with Inr show ?thesis
      by (intro refused [of "mismatch_error (rg_commitment entry) c"]) (simp_all add: ps_register_def)
  next
    case False
    with Inr show ?thesis by (intro held) (simp_all add: ps_register_def Let_def case_prod_beta)
  qed
qed

lemma store_inv_register:
  assumes "store_inv V s"
  shows "store_inv V (fst (ps_register V now w entry s))"
proof (cases rule: ps_register_cases [of V now w entry s])
  case (refused e)
  with assms show ?thesis by simp
next
  case (held c)
  let ?r = "pending_record now c entry"
  have v: "verified_record V ?r" using held(1) by (simp add: verified_record_def)
  have "verified_record V r \<and> f = pending_file (po_commitment r)"
    if "read_json f (fst (write_file w (pending_file c) ?r (ps_disk s))) = Some r" for f r
    using that v store_invD(2) [OF assms, of f r]
    by (auto simp: read_json_write split: if_splits write_outcome.splits)
  with held(3) v store_invD(1) [OF assms] show ?thesis
    by (auto simp: store_inv_def js_toLowerCase_drop)
qed

lemma store_inv_get:
  assumes "store_inv V s"
  shows "store_inv V (fst (ps_get c s))"
proof (cases "ps_memory s (js_toLowerCase c)")
  case None
  show ?thesis
  proof (cases "read_json (pending_file c) (ps_disk s)")
    case (Some r)
    with assms have "verified_record V r" and "drop 2 c = drop 2 (po_commitment r)"
      by (auto dest: store_invD(2))
    with assms None Some show ?thesis
      by (auto simp: ps_get_def Let_def store_inv_def js_toLowerCase_drop [symmetric])
  qed (use assms None in \<open>simp add: ps_get_def\<close>)
qed (use assms in \<open>simp add: ps_get_def\<close>)

subsection \<open>The contract of a payload store\<close>

text \<open>
  What the watcher and the service rely on: a lookup keeps the store's invariant, only returns a
  record bound to the commitment asked for, and changes no later answer.
\<close>

locale payload_store =
  fixes lookup :: "js_str \<Rightarrow> 's \<Rightarrow> 's \<times> 'r option"
    and inv :: "'s \<Rightarrow> bool"
    and canonical :: "js_str \<Rightarrow> bool"
    and binds :: "js_str \<Rightarrow> 'r \<Rightarrow> bool"
  assumes inv_lookup: "inv s \<Longrightarrow> inv (fst (lookup c s))"
    and lookup_binds: "inv s \<Longrightarrow> canonical c \<Longrightarrow> snd (lookup c s) = Some r \<Longrightarrow> binds c r"
    and lookup_stable: "canonical c \<Longrightarrow> canonical d \<Longrightarrow> snd (lookup d (fst (lookup c s))) = snd (lookup d s)"
begin

definition same_answers :: "'s \<Rightarrow> 's \<Rightarrow> bool" where
  "same_answers s s' \<longleftrightarrow> (\<forall>d. canonical d \<longrightarrow> snd (lookup d s') = snd (lookup d s))"

lemma same_answers_refl: "same_answers s s"
  by (simp add: same_answers_def)

lemma same_answers_lookup: "canonical c \<Longrightarrow> same_answers s s' \<Longrightarrow> same_answers s (fst (lookup c s'))"
  by (simp add: same_answers_def lookup_stable)

lemma same_answersD: "same_answers s s' \<Longrightarrow> canonical d \<Longrightarrow> snd (lookup d s') = snd (lookup d s)"
  by (simp add: same_answers_def)

lemma lookups_inv: "inv s \<Longrightarrow> inv (fold (\<lambda>c s. fst (lookup c s)) cs s)"
  by (induction cs arbitrary: s) (simp_all add: inv_lookup)

lemma lookups_same: "list_all canonical cs \<Longrightarrow> same_answers s (fold (\<lambda>c s. fst (lookup c s)) cs s)"
proof (induction cs arbitrary: s)
  case (Cons c cs)
  then have "same_answers (fst (lookup c s)) (fold (\<lambda>c s. fst (lookup c s)) cs (fst (lookup c s)))"
    by simp
  with Cons.prems show ?case by (simp add: same_answers_def lookup_stable)
qed (simp add: same_answers_refl)

end

definition canonical_commitment :: "js_str \<Rightarrow> bool" where
  "canonical_commitment c \<longleftrightarrow> hex_string c \<and> js_toLowerCase c = c"

definition payload_of :: "viem \<Rightarrow> js_str \<Rightarrow> pending_user_op \<Rightarrow> bool" where
  "payload_of V c r \<longleftrightarrow> keccak256 V (po_userOpData r) = Inr c \<and> po_commitment r = c"

lemma hex_string_drop2_eq:
  assumes "hex_string a" and "hex_string b" and "drop 2 a = drop 2 b"
  shows "a = b"
proof -
  have "take 2 a = take 2 b" using assms(1,2) by (simp add: hex_string_def js_startsWith_def numeral_2_eq_2)
  then show ?thesis using assms(3) by (metis append_take_drop_id)
qed

lemma hex_string_lower:
  assumes "hex_string c"
  shows "hex_string (js_toLowerCase c)"
proof -
  obtain t where "c = CHR ''0'' # CHR ''x'' # t" "hex_body t"
    using assms unfolding hex_string_def js_startsWith_0x_conv by auto
  then show ?thesis by (simp add: hex_string_def)
qed

lemma ps_get_verified:
  assumes "store_inv V s" and "keccak256_doc V" and "hex_string c" and "snd (ps_get c s) = Some r"
  shows "payload_of V (js_toLowerCase c) r"
proof -
  have r: "verified_record V r \<and> js_toLowerCase (drop 2 c) = js_toLowerCase (drop 2 (po_commitment r))"
  proof (cases "ps_memory s (js_toLowerCase c)")
    case None
    with assms(4) have "read_json (pending_file c) (ps_disk s) = Some r"
      by (auto simp: ps_get_def split: option.splits)
    then show ?thesis using store_invD(2) [OF assms(1)] by fastforce
  next
    case (Some q)
    with assms(4) have "q = r" by (simp add: ps_get_def)
    with Some store_invD(1) [OF assms(1)] show ?thesis by (auto simp: js_toLowerCase_drop)
  qed
  then have k: "keccak256 V (po_userOpData r) = Inr (po_commitment r)" by (simp add: verified_record_def)
  have d: "drop 2 (js_toLowerCase c) = drop 2 (po_commitment r)"
    using r keccak256_docD(3) [OF assms(2) k] by (simp add: js_toLowerCase_drop)
  have "js_toLowerCase c = po_commitment r"
    by (rule hex_string_drop2_eq [OF hex_string_lower [OF assms(3)] keccak256_docD(1) [OF assms(2) k] d])
  with k show ?thesis by (simp add: payload_of_def)
qed

lemma ps_get_stable:
  assumes "canonical_commitment c" and "canonical_commitment d"
  shows "snd (ps_get d (fst (ps_get c s))) = snd (ps_get d s)"
  using assms by (auto simp: canonical_commitment_def ps_get_def Let_def split: option.split)

text \<open>The store with the hash function an argument: a contract for each one that is documented.\<close>

definition sound_hash_inv :: "viem \<Rightarrow> pending_store \<Rightarrow> bool" where
  "sound_hash_inv V s \<longleftrightarrow> keccak256_doc V \<and> store_inv V s"

interpretation ps: payload_store ps_get "sound_hash_inv V" canonical_commitment "payload_of V" for V
proof unfold_locales
  fix s c assume "sound_hash_inv V s"
  then show "sound_hash_inv V (fst (ps_get c s))" by (simp add: sound_hash_inv_def store_inv_get)
next
  fix s c r assume "sound_hash_inv V s" "canonical_commitment c" "snd (ps_get c s) = Some r"
  then show "payload_of V c r"
    using ps_get_verified [of V s c r] by (simp add: sound_hash_inv_def canonical_commitment_def)
next
  fix c d s assume "canonical_commitment c" "canonical_commitment d"
  then show "snd (ps_get d (fst (ps_get c s))) = snd (ps_get d s)" by (rule ps_get_stable)
qed

subsection \<open>Registration, lookup and restart\<close>

text \<open>The states a store passes through: operations in any order, and restarts of the process.\<close>

inductive store_reach :: "viem \<Rightarrow> pending_store \<Rightarrow> bool" for V where
  reach_empty: "store_reach V (new_PendingStore [])"
| reach_register: "store_reach V s \<Longrightarrow> store_reach V (fst (ps_register V now w entry s))"
| reach_get: "store_reach V s \<Longrightarrow> store_reach V (fst (ps_get c s))"
| reach_restart: "store_reach V s \<Longrightarrow> store_reach V (new_PendingStore (ps_disk s))"

lemma store_reach_inv: "store_reach V s \<Longrightarrow> store_inv V s"
  by (induction rule: store_reach.induct)
    (simp_all add: store_inv_empty store_inv_register store_inv_get store_inv_restart)

lemma ps_register_Inr:
  assumes "ps_register V now w entry s = (s', Inr c)"
  shows "keccak256 V (rg_userOpData entry) = Inr c" and "w = Written"
    and "s' = \<lparr>ps_memory = (ps_memory s)(js_toLowerCase c \<mapsto> pending_record now c entry),
      ps_disk = AList.update (pending_file c) (JsonFile (pending_record now c entry)) (ps_disk s)\<rparr>"
  using assms
  by (auto simp: ps_register_def Let_def case_prod_beta split: sum.splits if_splits;
      cases w; simp)+

lemma ps_get_registered:
  assumes "ps_register V now w entry s = (s', Inr c)"
  shows "js_toLowerCase d = js_toLowerCase c \<Longrightarrow> snd (ps_get d s') = Some (pending_record now c entry)"
    and "snd (ps_get c (new_PendingStore (ps_disk s'))) = Some (pending_record now c entry)"
  unfolding ps_register_Inr(3) [OF assms]
  by (simp_all add: ps_get_def new_PendingStore_def read_json_def)

text \<open>What \<open>list\<close> reads: the records of the files with the right ending, if all of them parse.\<close>

definition json_files :: "'a directory \<Rightarrow> 'a file_content list" where
  "json_files d = map snd (filter (\<lambda>f. js_endsWith ''.json'' (fst f)) d)"

lemma parse_files_eq:
  "parse_files d = (if RawFile \<in> set (json_files d) then None
     else Some (concat (map (\<lambda>c. case c of JsonFile r \<Rightarrow> [r] | RawFile \<Rightarrow> []) (json_files d))))"
  by (induction d rule: parse_files.induct) (auto simp: json_files_def split: file_content.splits)

subsection \<open>Properties\<close>

text \<open>A registration, for the witnesses.\<close>

definition demo_entry :: registration where
  "demo_entry = \<lparr>rg_commitment = None, rg_userOpData = ''0xab'', rg_personalAccount = ''0xpa'',
     rg_nonce = ''4'', rg_totalCallValue = ''0'', rg_label = ''deposit''\<rparr>"

definition demo_commitment :: js_str where
  "demo_commitment = ''0xab'' @ replicate 62 (CHR ''0'')"

definition demo_store :: pending_store where
  "demo_store = fst (ps_register demo_viem 7 Written demo_entry (new_PendingStore []))"

lemma demo_commitment_hash: "keccak256 demo_viem ''0xab'' = Inr demo_commitment"
  by (simp add: demo_viem_def demo_keccak_def demo_commitment_def hex_string_def hex_body_def
      js_startsWith_def is_hex_char_def hex_val_def js_toLowerCase_def lower_char_def)

lemma demo_commitment_canonical: "canonical_commitment demo_commitment"
  using keccak256_docD [OF demo_viem_docs(3) demo_commitment_hash] by (simp add: canonical_commitment_def)

lemma demo_registered:
  "ps_register demo_viem 7 Written demo_entry (new_PendingStore []) = (demo_store, Inr demo_commitment)"
  by (simp add: demo_store_def ps_register_def demo_entry_def demo_commitment_hash claims_other_def Let_def)

lemma demo_store_get:
  "snd (ps_get demo_commitment demo_store) = Some (pending_record 7 demo_commitment demo_entry)"
  by (rule ps_get_registered(1) [OF demo_registered]) simp

text \<open>
  (C17) Registration is verified, not trusted: in every state a store can reach, whatever order its
  operations ran in and however often the process restarted or a write failed, the payload a
  lookup returns hashes to the commitment that was asked for.
\<close>

theorem pending_payload_verified:
  assumes "keccak256_doc V" and "store_reach V s" and "hex_string c" and "snd (ps_get c s) = Some r"
  shows "keccak256 V (po_userOpData r) = Inr (js_toLowerCase c) \<and> po_commitment r = js_toLowerCase c"
  using ps_get_verified [OF store_reach_inv [OF assms(2)] assms(1,3,4)] by (simp add: payload_of_def)

lemma pending_payload_verified_witness:
  "keccak256 demo_viem (po_userOpData (pending_record 7 demo_commitment demo_entry)) = Inr demo_commitment"
  using pending_payload_verified [OF demo_viem_docs(3) _ _ demo_store_get] demo_commitment_canonical
    reach_register [OF reach_empty, of demo_viem 7 Written demo_entry]
  by (simp add: demo_store_def canonical_commitment_def)

text \<open>
  A registration that succeeded is found again: at once, under any spelling of the commitment,
  and after a restart under the commitment \<open>register\<close> returned; and one commitment's registration
  does not disturb another's.
\<close>

theorem pending_register_get:
  assumes "keccak256_doc V" and "ps_register V now w entry s = (s', Inr c)"
  shows "(\<forall>d. js_toLowerCase d = c \<longrightarrow> snd (ps_get d s') = Some (pending_record now c entry)) \<and>
    snd (ps_get c (new_PendingStore (ps_disk s'))) = Some (pending_record now c entry) \<and>
    (\<forall>d. canonical_commitment d \<and> d \<noteq> c \<longrightarrow> snd (ps_get d s') = snd (ps_get d s))"
proof -
  note k = keccak256_docD [OF assms(1) ps_register_Inr(1) [OF assms(2)]]
  have "snd (ps_get d s') = snd (ps_get d s)" if "canonical_commitment d" "d \<noteq> c" for d
  proof -
    have "drop 2 d \<noteq> drop 2 c"
      using that k(1) hex_string_drop2_eq by (auto simp: canonical_commitment_def)
    with that k(3) show ?thesis
      unfolding ps_register_Inr(3) [OF assms(2)]
      by (auto simp: canonical_commitment_def ps_get_def read_json_def update_conv' split: option.split)
  qed
  with ps_get_registered [OF assms(2)] k(3) show ?thesis by auto
qed

lemma pending_register_get_witness:
  "snd (ps_get (''0xAB'' @ drop 4 demo_commitment) demo_store) =
    Some (pending_record 7 demo_commitment demo_entry)"
proof -
  have "js_toLowerCase (''0xAB'' @ drop 4 demo_commitment) = demo_commitment"
    by code_simp
  then show ?thesis using pending_register_get [OF demo_viem_docs(3) demo_registered] by blast
qed

text \<open>
  How a registration fails: a claimed commitment that is not the hash of the bytes, in any
  spelling, is refused and leaves the store untouched. A failed write throws too, but the payload
  is then already in memory, where lookups find it until the process restarts.
\<close>

theorem pending_register_refuses:
  assumes "keccak256 V (rg_userOpData entry) = Inr c"
  shows "(rg_commitment entry = Some d \<and> d \<noteq> [] \<and> js_toLowerCase d \<noteq> js_toLowerCase c \<longrightarrow>
      ps_register V now w entry s = (s, Inl (mismatch_error (Some d) c))) \<and>
    (rg_commitment entry = None \<and> w = NotWritten e \<longrightarrow>
      snd (ps_register V now w entry s) = Inl e \<and>
      snd (ps_get c (fst (ps_register V now w entry s))) = Some (pending_record now c entry) \<and>
      ps_disk (fst (ps_register V now w entry s)) = ps_disk s)"
  using assms by (auto simp: ps_register_def claims_other_def Let_def ps_get_def)

lemma pending_register_refuses_witness:
  "snd (ps_register demo_viem 7 (NotWritten (JsError ''ENOSPC'')) demo_entry (new_PendingStore [])) =
      Inl (JsError ''ENOSPC'') \<and>
    ps_register demo_viem 7 Written (demo_entry\<lparr>rg_commitment := Some ''0x00''\<rparr>) (new_PendingStore []) =
      (new_PendingStore [], Inl (mismatch_error (Some ''0x00'') demo_commitment))"
  using pending_register_refuses [of demo_viem demo_entry demo_commitment _ 7 "NotWritten (JsError ''ENOSPC'')"
      "new_PendingStore []" "JsError ''ENOSPC''"]
    pending_register_refuses [of demo_viem "demo_entry\<lparr>rg_commitment := Some ''0x00''\<rparr>" demo_commitment
      "''0x00''" 7 Written "new_PendingStore []"]
    demo_commitment_hash
  by (simp add: demo_entry_def demo_commitment_def js_toLowerCase_def lower_char_def)

text \<open>
  \<open>list\<close> returns every record on disk once, the newest first; a single file that does not parse
  makes it return nothing.
\<close>

theorem pending_list_sorted:
  "sorted_wrt (\<lambda>a b. registeredAt a \<ge> registeredAt b) (ps_list s) \<and>
   (if RawFile \<in> set (json_files (ps_disk s)) then ps_list s = []
    else mset (map JsonFile (ps_list s)) = mset (json_files (ps_disk s)))"
proof -
  have "mset (map JsonFile (concat (map (\<lambda>c. case c of JsonFile r \<Rightarrow> [r] | RawFile \<Rightarrow> []) fs))) = mset fs"
    if "RawFile \<notin> set fs" for fs :: "'a file_content list"
    using that by (induction fs) (auto split: file_content.splits)
  moreover have "sorted_wrt (\<lambda>a b. registeredAt a \<ge> registeredAt b) (sort_key (\<lambda>r. - registeredAt r) rs)"
    for rs :: "pending_user_op list"
    using sorted_sort_key [of "\<lambda>r. - registeredAt r" rs] by (simp add: sorted_map)
  ultimately show ?thesis by (auto simp: ps_list_def parse_files_eq)
qed

end
