(* ===== verification/Pipeline.thy ===== *)
theory Pipeline
  imports Fdc Store Transitions
begin

text \<open>
  \<open>packages/executor/src/pipeline.ts\<close>: the persisted state machine that takes one payment of the
  ledger to an executed user operation.

  A step is an action on the executor: the attestation client, the directory of job files and the job,
  an object the source mutates in place, so that what a step assigned before it threw stays
  assigned. What the clock and the disk do during one step is part of its environment.
\<close>

subsection \<open>The job\<close>

datatype job_state =
    observed | request_prepared | request_submitted | round_finalized | proof_fetched
  | delayed | executed | failed

record job =
  j_id :: js_str
  j_state :: job_state
  j_xrplTxId :: js_str
  j_userOpData :: js_str
  j_totalCallValue :: js_str
  j_personalAccount :: js_str
  j_nonce :: js_str
  j_abiEncodedRequest :: "js_str option"
  j_roundId :: "int option"
  j_flareTxHash :: "js_str option"
  j_executionAllowedAt :: "int option"
  j_attempts :: nat
  j_lastError :: "js_str option"
  j_updatedAt :: int

definition PAYMENT_ALREADY_CONFIRMED_SELECTOR :: js_str where
  "PAYMENT_ALREADY_CONFIRMED_SELECTOR = ''0x18dce79f''"

text \<open>\<open>/^[0-9a-fA-F]{64}$/\<close> after the prefix is cut off.\<close>

definition normalizeXrplTxId :: "js_str \<Rightarrow> js_error + js_str" where
  "normalizeXrplTxId hash =
    (let clean = strip_0x hash in
     if \<not> (length clean = 64 \<and> hex_body clean)
     then Inl (JsError (''not a 32-byte XRPL transaction hash: '' @ hash))
     else Inr (''0x'' @ js_toUpperCase clean))"

subsection \<open>Persistence\<close>

definition job_file :: "js_str \<Rightarrow> js_str" where
  "job_file i = i @ ''.json''"

definition job_load :: "js_str \<Rightarrow> job directory \<Rightarrow> job option" where
  "job_load i d = read_json (job_file i) d"

definition job_save :: "int \<Rightarrow> write_outcome \<Rightarrow> job \<Rightarrow> job directory \<Rightarrow> job directory \<times> job \<times> (js_error + unit)" where
  "job_save now w j d =
    (let j' = j\<lparr>j_updatedAt := now\<rparr>;
         (d', r) = write_file w (job_file (j_id j')) j' d
     in (d', j', r))"

record create_params =
  cp_xrplTxId :: js_str
  cp_userOpData :: js_str
  cp_totalCallValue :: bigint
  cp_personalAccount :: js_str
  cp_nonce :: bigint

definition new_job :: "int \<Rightarrow> js_str \<Rightarrow> create_params \<Rightarrow> job" where
  "new_job now txId p =
    \<lparr>j_id = js_slice_from 2 txId, j_state = observed, j_xrplTxId = txId,
     j_userOpData = cp_userOpData p, j_totalCallValue = bigint_toString (cp_totalCallValue p),
     j_personalAccount = cp_personalAccount p, j_nonce = bigint_toString (cp_nonce p),
     j_abiEncodedRequest = None, j_roundId = None, j_flareTxHash = None,
     j_executionAllowedAt = None, j_attempts = 0, j_lastError = None, j_updatedAt = now\<rparr>"

definition job_create ::
    "int \<Rightarrow> write_outcome \<Rightarrow> create_params \<Rightarrow> job directory \<Rightarrow> job directory \<times> (js_error + job)" where
  "job_create now w p d =
    (case normalizeXrplTxId (cp_xrplTxId p) of
       Inl e \<Rightarrow> (d, Inl e)
     | Inr txId \<Rightarrow>
        (case job_load (js_slice_from 2 txId) d of
           Some existing \<Rightarrow> (d, Inr existing)
         | None \<Rightarrow>
            (let (d', j', r) = job_save now w (new_job now txId p) d
             in (d', bind_err r (\<lambda>_. Inr j')))))"

subsection \<open>One step\<close>

record pipeline_options =
  pl_account :: js_str
  pl_assetManager :: js_str

text \<open>The environment of a step: the network, the two readings of the clock, and the disk.\<close>

record step_env =
  se_world :: world
  se_now :: int
  se_saveNow :: int
  se_write :: write_outcome

record executor =
  ex_fdc :: fdc_client
  ex_disk :: "job directory"
  ex_job :: job

datatype flow = Break | Return

definition on_fdc :: "(fdc_client, 'a) action \<Rightarrow> (executor, 'a) action" where
  "on_fdc m = (\<lambda>x. case m (ex_fdc x) of (c, es, r) \<Rightarrow> (x\<lparr>ex_fdc := c\<rparr>, es, r))"

definition get_job :: "(executor, job) action" where
  "get_job = (\<lambda>x. (x, [], Inr (ex_job x)))"

definition set_job :: "(job \<Rightarrow> job) \<Rightarrow> (executor, unit) action" where
  "set_job f = (\<lambda>x. (x\<lparr>ex_job := f (ex_job x)\<rparr>, [], Inr ()))"

text \<open>The last assignments of a branch, then \<open>break\<close>.\<close>

definition finish :: "(job \<Rightarrow> job) \<Rightarrow> (executor, flow) action" where
  "finish f = act_bind (set_job f) (\<lambda>_. act_result (Inr Break))"

definition is_delay_event :: "decoded_event \<Rightarrow> bool" where
  "is_delay_event ev \<longleftrightarrow>
     ev_name ev = ''DirectMintingDelayed'' \<or> ev_name ev = ''LargeDirectMintingDelayed''"

text \<open>\<open>Number(at)\<close> rounds to a double, and so does the product with 1000.\<close>

fun findDelayedEvent :: "world \<Rightarrow> event_log list \<Rightarrow> int option" where
  "findDelayedEvent W [] = None"
| "findDelayedEvent W (entry # logs) =
    (case w_decodeEventLog W entry of
       Inl _ \<Rightarrow> findDelayedEvent W logs
     | Inr decoded \<Rightarrow>
        if is_delay_event decoded
        then (case ev_executionAllowedAt decoded of
            Some t \<Rightarrow> Some (number_of_bigint t)
          | None \<Rightarrow> findDelayedEvent W logs)
        else findDelayedEvent W logs)"

definition delay_ms :: "int \<Rightarrow> int" where
  "delay_ms t = number_of_bigint (t * 1000)"

text \<open>The times \<open>toISOString\<close> prints; it throws on any other.\<close>

definition date_ok :: "int \<Rightarrow> bool" where
  "date_ok ms \<longleftrightarrow> \<bar>ms\<bar> \<le> 8640000000000000"

definition invalid_date :: js_error where
  "invalid_date = JsError ''Invalid time value''"

text \<open>\<open>if (job.executionAllowedAt && Date.now() < job.executionAllowedAt)\<close>: zero is false.\<close>

definition still_delayed :: "int \<Rightarrow> job \<Rightarrow> bool" where
  "still_delayed now j \<longleftrightarrow> (case j_executionAllowedAt j of None \<Rightarrow> False | Some t \<Rightarrow> t \<noteq> 0 \<and> now < t)"

text \<open>
  A delay is stored before the line of the log prints it, so a date that cannot be printed throws out of
  the branch with the job delayed already.
\<close>

definition execute_minting :: "pipeline_options \<Rightarrow> world \<Rightarrow> (executor, flow) action" where
  "execute_minting P W =
    act_bind get_job (\<lambda>j.
    act_bind (on_fdc (fetchProof W (j_abiEncodedRequest j) (j_roundId j))) (\<lambda>proof.
    act_bind (act_result (js_BigInt (j_totalCallValue j))) (\<lambda>v.
    act_bind (act_send W (ExecuteDirectMinting (pl_assetManager P) proof (j_userOpData j) v)) (\<lambda>hash.
    act_bind (set_job (\<lambda>j. j\<lparr>j_flareTxHash := Some hash\<rparr>)) (\<lambda>_.
    act_bind (act_result (w_waitForTransactionReceipt W hash)) (\<lambda>receipt.
    if rc_reverted receipt
    then act_result (Inl (JsError (''executeDirectMintingWithData reverted (tx '' @ hash @ '')'')))
    else (case findDelayedEvent W (rc_logs receipt) of
        Some t \<Rightarrow>
          act_bind (set_job (\<lambda>j. j\<lparr>j_executionAllowedAt := Some (delay_ms t), j_state := delayed\<rparr>)) (\<lambda>_.
          act_result (if date_ok (delay_ms t) then Inr Break else Inl invalid_date))
      | None \<Rightarrow> finish (\<lambda>j. j\<lparr>j_state := executed\<rparr>))))))))"

fun try_step :: "pipeline_options \<Rightarrow> step_env \<Rightarrow> job_state \<Rightarrow> (executor, flow) action" where
  "try_step P E observed =
    act_bind get_job (\<lambda>j.
    act_bind (on_fdc (prepareRequest (se_world E) (j_xrplTxId j) (Some (pl_account P)))) (\<lambda>req.
    finish (\<lambda>j. j\<lparr>j_abiEncodedRequest := Some req, j_state := request_prepared\<rparr>)))"
| "try_step P E request_prepared =
    act_bind get_job (\<lambda>j.
    act_bind (on_fdc (submitRequest (se_world E) (j_abiEncodedRequest j))) (\<lambda>roundId.
    finish (\<lambda>j. j\<lparr>j_roundId := Some roundId, j_state := request_submitted\<rparr>)))"
| "try_step P E request_submitted =
    act_bind get_job (\<lambda>j.
    act_bind (on_fdc (isRoundFinalized (se_world E) (j_roundId j))) (\<lambda>finalized.
    if \<not> finalized then act_result (Inr Return)
    else finish (\<lambda>j. j\<lparr>j_state := round_finalized\<rparr>)))"
| "try_step P E round_finalized =
    act_bind get_job (\<lambda>j.
    act_bind (on_fdc (fetchProof (se_world E) (j_abiEncodedRequest j) (j_roundId j))) (\<lambda>_.
    finish (\<lambda>j. j\<lparr>j_state := proof_fetched\<rparr>)))"
| "try_step P E delayed =
    act_bind get_job (\<lambda>j.
    if still_delayed (se_now E) j then act_result (Inr Return)
    else finish (\<lambda>j. j\<lparr>j_state := proof_fetched\<rparr>))"
| "try_step P E proof_fetched = execute_minting P (se_world E)"
| "try_step P E executed = act_result (Inr Return)"
| "try_step P E failed = act_result (Inr Return)"

definition isAlreadyConfirmed :: "js_error \<Rightarrow> bool" where
  "isAlreadyConfirmed e \<longleftrightarrow>
     js_includes PAYMENT_ALREADY_CONFIRMED_SELECTOR (js_toLowerCase (err_message e))"

definition isTransactionUsed :: "world \<Rightarrow> js_str \<Rightarrow> bool" where
  "isTransactionUsed W txId = (case w_isTransactionIdUsed W txId of Inr b \<Rightarrow> b | Inl _ \<Rightarrow> False)"

fun retryable :: "js_error \<Rightarrow> bool" where
  "retryable (JsError _) \<longleftrightarrow> False"
| "retryable (VerifierNotReadyError _) \<longleftrightarrow> True"
| "retryable (DaLayerNotReadyError _) \<longleftrightarrow> True"

definition catch_step :: "world \<Rightarrow> js_error \<Rightarrow> job \<Rightarrow> job" where
  "catch_step W e j =
    (if j_state j = proof_fetched \<and> isAlreadyConfirmed e \<and> isTransactionUsed W (j_xrplTxId j)
     then j\<lparr>j_state := executed, j_lastError := None\<rparr>
     else
       let j1 = j\<lparr>j_attempts := j_attempts j + 1, j_lastError := Some (err_message e)\<rparr>
       in if \<not> retryable e \<and> j_attempts j1 \<ge> 5 then j1\<lparr>j_state := failed\<rparr> else j1)"

definition save_job :: "step_env \<Rightarrow> (executor, unit) action" where
  "save_job E = (\<lambda>x. case job_save (se_saveNow E) (se_write E) (ex_job x) (ex_disk x) of
     (d', j', r) \<Rightarrow> (x\<lparr>ex_disk := d', ex_job := j'\<rparr>, [], r))"

definition step :: "pipeline_options \<Rightarrow> step_env \<Rightarrow> (executor, unit) action" where
  "step P E = (\<lambda>x. case try_step P E (j_state (ex_job x)) x of
     (x1, es, Inr Return) \<Rightarrow> (x1, es, Inr ())
   | (x1, es, Inr Break) \<Rightarrow>
      (case act_bind (set_job (\<lambda>j. j\<lparr>j_attempts := 0, j_lastError := None\<rparr>)) (\<lambda>_. save_job E) x1 of
         (x2, es2, r) \<Rightarrow> (x2, es @ es2, r))
   | (x1, es, Inl e) \<Rightarrow>
      (case act_bind (set_job (catch_step (se_world E) e)) (\<lambda>_. save_job E) x1 of
         (x2, es2, r) \<Rightarrow> (x2, es @ es2, r)))"

subsection \<open>run\<close>

definition terminal :: "job_state \<Rightarrow> bool" where
  "terminal s \<longleftrightarrow> s = executed \<or> s = failed"

text \<open>
  The loop of \<open>run\<close>: \<open>Now i\<close> is the clock at the head of iteration \<open>i\<close> and \<open>Env i\<close> the environment
  of its step. The loop has no bound of its own, so it runs on fuel: \<open>None\<close> when it is used up.
  An exception of \<open>step\<close> leaves the loop.
\<close>

fun run_loop ::
    "nat \<Rightarrow> pipeline_options \<Rightarrow> (nat \<Rightarrow> int) \<Rightarrow> (nat \<Rightarrow> step_env) \<Rightarrow> int \<Rightarrow> nat \<Rightarrow> executor \<Rightarrow>
     (executor \<times> tx_request list \<times> (js_error + unit)) option" where
  "run_loop 0 P Now Env deadline i x = None"
| "run_loop (Suc n) P Now Env deadline i x =
    (if terminal (j_state (ex_job x)) then Some (x, [], Inr ())
     else if Now i > deadline then Some (x, [], Inr ())
     else (case step P (Env i) x of
         (x1, es, Inl e) \<Rightarrow> Some (x1, es, Inl e)
       | (x1, es, Inr _) \<Rightarrow>
          (case run_loop n P Now Env deadline (Suc i) x1 of
             None \<Rightarrow> None
           | Some (x2, es2, r) \<Rightarrow> Some (x2, es @ es2, r))))"

definition run ::
    "nat \<Rightarrow> pipeline_options \<Rightarrow> (nat \<Rightarrow> int) \<Rightarrow> (nat \<Rightarrow> step_env) \<Rightarrow> int \<Rightarrow> int option \<Rightarrow> executor \<Rightarrow>
     (executor \<times> tx_request list \<times> (js_error + unit)) option" where
  "run fuel P Now Env start timeoutMs x =
    run_loop fuel P Now Env (start + (case timeoutMs of None \<Rightarrow> 30 * 60000 | Some t \<Rightarrow> t)) 0 x"


subsection \<open>Actions of the executor\<close>

lemma on_fdc_simps [act_simps]:
  "fst (on_fdc m x) = x\<lparr>ex_fdc := fst (m (ex_fdc x))\<rparr>"
  "act_effects (on_fdc m) x = act_effects m (ex_fdc x)" "act_value (on_fdc m) x = act_value m (ex_fdc x)"
  by (simp_all add: on_fdc_def act_effects_def act_value_def split: prod.split)

lemma job_action_simps [act_simps]:
  "fst (get_job x) = x" "act_effects get_job x = []" "act_value get_job x = Inr (ex_job x)"
  "fst (set_job f x) = x\<lparr>ex_job := f (ex_job x)\<rparr>" "act_effects (set_job f) x = []"
  "act_value (set_job f) x = Inr ()"
  "fst (finish f x) = x\<lparr>ex_job := f (ex_job x)\<rparr>" "act_effects (finish f) x = []"
  "act_value (finish f) x = Inr Break"
  by (simp_all add: get_job_def set_job_def finish_def act_bind_def act_result_def act_effects_def
      act_value_def)

definition stamp :: "step_env \<Rightarrow> job \<Rightarrow> job" where
  "stamp E j = j\<lparr>j_updatedAt := se_saveNow E\<rparr>"

definition settled :: "job \<Rightarrow> job" where
  "settled j = j\<lparr>j_attempts := 0, j_lastError := None\<rparr>"

text \<open>The state after a step that saves the job \<open>j\<close>.\<close>

definition saved :: "step_env \<Rightarrow> job \<Rightarrow> executor \<Rightarrow> executor" where
  "saved E j x = x\<lparr>ex_disk := fst (write_file (se_write E) (job_file (j_id j)) (stamp E j) (ex_disk x)),
     ex_job := stamp E j\<rparr>"

definition write_result :: "step_env \<Rightarrow> js_error + unit" where
  "write_result E = (case se_write E of Written \<Rightarrow> Inr () | NotWritten e \<Rightarrow> Inl e | Torn e \<Rightarrow> Inl e)"

lemma save_job_eq:
  "act_bind (set_job f) (\<lambda>_. save_job E) x = (saved E (f (ex_job x)) x, [], write_result E)"
  by (simp add: act_bind_def set_job_def save_job_def job_save_def saved_def stamp_def Let_def
      case_prod_beta write_file_result write_result_def)

lemma step_eq:
  "step P E x = (let m = try_step P E (j_state (ex_job x)); x1 = fst (m x) in
     case act_value m x of
       Inr Return \<Rightarrow> (x1, act_effects m x, Inr ())
     | Inr Break \<Rightarrow> (saved E (settled (ex_job x1)) x1, act_effects m x, write_result E)
     | Inl e \<Rightarrow> (saved E (catch_step (se_world E) e (ex_job x1)) x1, act_effects m x, write_result E))"
  by (auto simp: step_def Let_def act_value_def act_effects_def save_job_eq settled_def
      split: prod.splits sum.splits flow.splits)

subsection \<open>The specification of a step\<close>

text \<open>
  What a step may do to a job, without the client, the disk and the order of the calls: a relation
  between the job before, the transactions asked for and the job after.
\<close>

definition allowed_effects :: "pipeline_options \<Rightarrow> job \<Rightarrow> tx_request list \<Rightarrow> bool" where
  "allowed_effects P j es \<longleftrightarrow> es = [] \<or>
     (j_state j = request_prepared \<and> (\<exists>hub fee. es = [RequestAttestation hub (j_abiEncodedRequest j) fee])) \<or>
     (j_state j = proof_fetched \<and> (\<exists>proof v. js_BigInt (j_totalCallValue j) = Inr v \<and>
        es = [ExecuteDirectMinting (pl_assetManager P) proof (j_userOpData j) v]))"

definition tried :: "pipeline_options \<Rightarrow> job \<Rightarrow> tx_request list \<Rightarrow> job \<Rightarrow> bool" where
  "tried P j es j1 \<longleftrightarrow> allowed_effects P j es \<and>
     (j1 = j \<or> j_state j = proof_fetched \<and> es \<noteq> [] \<and> (\<exists>h. j1 = j\<lparr>j_flareTxHash := Some h\<rparr>))"

definition minted :: "pipeline_options \<Rightarrow> world \<Rightarrow> job \<Rightarrow> tx_request list \<Rightarrow> js_str \<Rightarrow> tx_receipt \<Rightarrow> bool" where
  "minted P W j es hash rc \<longleftrightarrow> (\<exists>proof v. js_BigInt (j_totalCallValue j) = Inr v \<and>
     es = [ExecuteDirectMinting (pl_assetManager P) proof (j_userOpData j) v] \<and>
     w_writeContract W (ExecuteDirectMinting (pl_assetManager P) proof (j_userOpData j) v) = Inr hash \<and>
     w_waitForTransactionReceipt W hash = Inr rc \<and> \<not> rc_reverted rc)"

inductive job_step :: "pipeline_options \<Rightarrow> step_env \<Rightarrow> job \<Rightarrow> tx_request list \<Rightarrow> job \<Rightarrow> bool" for P E where
  terminal_stay: "terminal (j_state j) \<Longrightarrow> job_step P E j [] j"
| round_wait: "j_state j = request_submitted \<Longrightarrow> job_step P E j [] j"
| delay_wait: "j_state j = delayed \<Longrightarrow> still_delayed (se_now E) j \<Longrightarrow> job_step P E j [] j"
| prepare_ok: "j_state j = observed \<Longrightarrow>
    job_step P E j [] (stamp E (settled (j\<lparr>j_abiEncodedRequest := Some req, j_state := request_prepared\<rparr>)))"
| submit_ok: "j_state j = request_prepared \<Longrightarrow>
    job_step P E j [RequestAttestation hub (j_abiEncodedRequest j) fee]
      (stamp E (settled (j\<lparr>j_roundId := Some r, j_state := request_submitted\<rparr>)))"
| round_ok: "j_state j = request_submitted \<Longrightarrow>
    job_step P E j [] (stamp E (settled (j\<lparr>j_state := round_finalized\<rparr>)))"
| proof_ok: "j_state j = round_finalized \<Longrightarrow>
    job_step P E j [] (stamp E (settled (j\<lparr>j_state := proof_fetched\<rparr>)))"
| delay_over: "j_state j = delayed \<Longrightarrow> \<not> still_delayed (se_now E) j \<Longrightarrow>
    job_step P E j [] (stamp E (settled (j\<lparr>j_state := proof_fetched\<rparr>)))"
| mint_delayed: "j_state j = proof_fetched \<Longrightarrow> minted P (se_world E) j es hash rc \<Longrightarrow>
    findDelayedEvent (se_world E) (rc_logs rc) = Some t \<Longrightarrow> date_ok (delay_ms t) \<Longrightarrow>
    job_step P E j es (stamp E (settled (j\<lparr>j_flareTxHash := Some hash,
      j_executionAllowedAt := Some (delay_ms t), j_state := delayed\<rparr>)))"
| mint_undated: "j_state j = proof_fetched \<Longrightarrow> minted P (se_world E) j es hash rc \<Longrightarrow>
    findDelayedEvent (se_world E) (rc_logs rc) = Some t \<Longrightarrow> \<not> date_ok (delay_ms t) \<Longrightarrow>
    job_step P E j es (stamp E (j\<lparr>j_flareTxHash := Some hash, j_executionAllowedAt := Some (delay_ms t),
      j_attempts := j_attempts j + 1, j_lastError := Some ''Invalid time value'',
      j_state := (if j_attempts j + 1 < 5 then delayed else failed)\<rparr>))"
| mint_ok: "j_state j = proof_fetched \<Longrightarrow> minted P (se_world E) j es hash rc \<Longrightarrow>
    findDelayedEvent (se_world E) (rc_logs rc) = None \<Longrightarrow>
    job_step P E j es (stamp E (settled (j\<lparr>j_flareTxHash := Some hash, j_state := executed\<rparr>)))"
| lost_race: "j_state j = proof_fetched \<Longrightarrow> tried P j es j1 \<Longrightarrow>
    isTransactionUsed (se_world E) (j_xrplTxId j) \<Longrightarrow>
    job_step P E j es (stamp E (j1\<lparr>j_state := executed, j_lastError := None\<rparr>))"
| retry: "\<not> terminal (j_state j) \<Longrightarrow> tried P j es j1 \<Longrightarrow> retryable e \<or> j_attempts j + 1 < 5 \<Longrightarrow>
    job_step P E j es (stamp E (j1\<lparr>j_attempts := j_attempts j + 1, j_lastError := Some (err_message e)\<rparr>))"
| give_up: "\<not> terminal (j_state j) \<Longrightarrow> tried P j es j1 \<Longrightarrow> \<not> retryable e \<Longrightarrow> j_attempts j + 1 \<ge> 5 \<Longrightarrow>
    job_step P E j es (stamp E (j1\<lparr>j_attempts := j_attempts j + 1,
      j_lastError := Some (err_message e), j_state := failed\<rparr>))"

lemma tried_fields:
  assumes "tried P j es j1"
  shows "j_state j1 = j_state j" "j_attempts j1 = j_attempts j" "j_xrplTxId j1 = j_xrplTxId j"
  using assms by (auto simp: tried_def)

text \<open>
  A \<open>try\<close> that threw: the job is as it was but for the hash of a transaction that was sent, or it is
  delayed to a date that cannot be printed.
\<close>

definition undated :: "pipeline_options \<Rightarrow> world \<Rightarrow> job \<Rightarrow> tx_request list \<Rightarrow> js_error \<Rightarrow> job \<Rightarrow> bool" where
  "undated P W j es e j1 \<longleftrightarrow> e = invalid_date \<and> j_state j = proof_fetched \<and>
     (\<exists>hash rc t. minted P W j es hash rc \<and> findDelayedEvent W (rc_logs rc) = Some t \<and> \<not> date_ok (delay_ms t) \<and>
        j1 = j\<lparr>j_flareTxHash := Some hash, j_executionAllowedAt := Some (delay_ms t), j_state := delayed\<rparr>)"

lemma undated_catch:
  assumes "undated P (se_world E) j es e j1"
  shows "job_step P E j es (stamp E (catch_step (se_world E) e j1))"
proof -
  obtain hash rc t where f: "e = invalid_date" "j_state j = proof_fetched" "minted P (se_world E) j es hash rc"
    "findDelayedEvent (se_world E) (rc_logs rc) = Some t" "\<not> date_ok (delay_ms t)"
    and j1: "j1 = j\<lparr>j_flareTxHash := Some hash, j_executionAllowedAt := Some (delay_ms t), j_state := delayed\<rparr>"
    using assms unfolding undated_def by blast
  have "catch_step (se_world E) e j1 = j\<lparr>j_flareTxHash := Some hash, j_executionAllowedAt := Some (delay_ms t),
      j_attempts := j_attempts j + 1, j_lastError := Some ''Invalid time value'',
      j_state := (if j_attempts j + 1 < 5 then delayed else failed)\<rparr>"
    by (cases j) (simp add: catch_step_def Let_def j1 f(1) invalid_date_def)
  with mint_undated [OF f(2-5)] show ?thesis by simp
qed

text \<open>The handler of the \<open>try\<close> realises the three rules for errors.\<close>

lemma job_step_catch:
  assumes "\<not> terminal (j_state j)" and "tried P j es j1"
  shows "job_step P E j es (stamp E (catch_step (se_world E) e j1))"
proof -
  note f = tried_fields [OF assms(2)]
  consider "j_state j = proof_fetched" "isAlreadyConfirmed e" "isTransactionUsed (se_world E) (j_xrplTxId j)"
    | "\<not> (j_state j = proof_fetched \<and> isAlreadyConfirmed e \<and> isTransactionUsed (se_world E) (j_xrplTxId j))"
      "retryable e \<or> j_attempts j + 1 < 5"
    | "\<not> (j_state j = proof_fetched \<and> isAlreadyConfirmed e \<and> isTransactionUsed (se_world E) (j_xrplTxId j))"
      "\<not> retryable e" "j_attempts j + 1 \<ge> 5"
    by linarith
  then show ?thesis
  proof cases
    case 1
    then have "catch_step (se_world E) e j1 = j1\<lparr>j_state := executed, j_lastError := None\<rparr>"
      by (simp add: catch_step_def f)
    with 1 assms(2) show ?thesis by (simp add: lost_race)
  next
    case 2
    then have eq: "catch_step (se_world E) e j1 =
        j1\<lparr>j_attempts := j_attempts j + 1, j_lastError := Some (err_message e)\<rparr>"
      by (simp only: catch_step_def f Let_def) auto
    show ?thesis unfolding eq by (rule retry [OF assms 2(2)])
  next
    case 3
    then have eq: "catch_step (se_world E) e j1 = j1\<lparr>j_attempts := j_attempts j + 1,
        j_lastError := Some (err_message e), j_state := failed\<rparr>"
      by (simp only: catch_step_def f Let_def) auto
    show ?thesis unfolding eq by (rule give_up [OF assms 3(2,3)])
  qed
qed


text \<open>The state and the transactions of a \<open>try\<close> that threw.\<close>

lemma submit_effects_allowed:
  assumes "j_state j = request_prepared"
  shows "allowed_effects P j (act_effects (submitRequest W (j_abiEncodedRequest j)) c)"
  using submitRequest_effects [of W "j_abiEncodedRequest j" c] assms by (auto simp: allowed_effects_def)

lemma execute_minting_cases:
  fixes x :: executor and P W
  defines "j \<equiv> ex_job x" and "m \<equiv> execute_minting P W"
  assumes "j_state j = proof_fetched"
  shows "(\<exists>e. act_value m x = Inl e \<and> (tried P j (act_effects m x) (ex_job (fst (m x))) \<or>
      undated P W j (act_effects m x) e (ex_job (fst (m x))))) \<or>
    (\<exists>hash rc t. act_value m x = Inr Break \<and> minted P W j (act_effects m x) hash rc \<and>
      findDelayedEvent W (rc_logs rc) = Some t \<and> date_ok (delay_ms t) \<and>
      ex_job (fst (m x)) = j\<lparr>j_flareTxHash := Some hash, j_executionAllowedAt := Some (delay_ms t),
        j_state := delayed\<rparr>) \<or>
    (\<exists>hash rc. act_value m x = Inr Break \<and> minted P W j (act_effects m x) hash rc \<and>
      findDelayedEvent W (rc_logs rc) = None \<and>
      ex_job (fst (m x)) = j\<lparr>j_flareTxHash := Some hash, j_state := executed\<rparr>)"
proof (cases "act_value (fetchProof W (j_abiEncodedRequest j) (j_roundId j)) (ex_fdc x)")
  case (Inl e)
  then show ?thesis
    by (simp add: m_def execute_minting_def act_simps j_def [symmetric] tried_def allowed_effects_def)
next
  case proof_r: (Inr pf)
  show ?thesis
  proof (cases "js_BigInt (j_totalCallValue j)")
    case (Inl e)
    with proof_r show ?thesis
      by (simp add: m_def execute_minting_def act_simps j_def [symmetric] tried_def allowed_effects_def)
  next
    case v: (Inr v)
    let ?tx = "ExecuteDirectMinting (pl_assetManager P) pf (j_userOpData j) v"
    have ok: "allowed_effects P j [?tx]" using assms(3) v by (auto simp: allowed_effects_def)
    show ?thesis
    proof (cases "w_writeContract W ?tx")
      case (Inl e)
      with proof_r v ok show ?thesis
        by (simp add: m_def execute_minting_def act_simps j_def [symmetric] tried_def)
    next
      case hash: (Inr hash)
      show ?thesis
      proof (cases "w_waitForTransactionReceipt W hash")
        case (Inl e)
        with proof_r v hash ok assms(3) show ?thesis
          by (auto simp add: m_def execute_minting_def act_simps j_def [symmetric] tried_def)
      next
        case rc: (Inr rc)
        from proof_r v hash rc have eff: "act_effects m x = [?tx]"
          by (simp add: m_def execute_minting_def act_simps j_def [symmetric] split: option.split)
        from proof_r v hash rc ok assms(3) eff show ?thesis
          unfolding eff
          by (cases "findDelayedEvent W (rc_logs rc)")
            (auto simp: m_def execute_minting_def act_simps j_def [symmetric] tried_def minted_def undated_def)
      qed
    qed
  qed
qed

text \<open>The code implements the specification.\<close>

lemma try_step_refines:
  fixes x :: executor and P E
  defines "j \<equiv> ex_job x" and "m \<equiv> try_step P E (j_state (ex_job x))"
  shows "case act_value m x of
      Inr Return \<Rightarrow> job_step P E j (act_effects m x) j \<and> ex_job (fst (m x)) = j \<and> act_effects m x = []
    | Inr Break \<Rightarrow> job_step P E j (act_effects m x) (stamp E (settled (ex_job (fst (m x)))))
    | Inl e \<Rightarrow> \<not> terminal (j_state j) \<and> (tried P j (act_effects m x) (ex_job (fst (m x))) \<or>
        undated P (se_world E) j (act_effects m x) e (ex_job (fst (m x))))"
proof (cases "j_state j")
  case observed
  then show ?thesis
    by (auto simp: m_def j_def act_simps tried_def allowed_effects_def terminal_def intro: prepare_ok
        split: sum.split)
next
  case request_prepared
  have allowed: "allowed_effects P j (act_effects (submitRequest (se_world E) (j_abiEncodedRequest j)) (ex_fdc x))"
    using request_prepared by (rule submit_effects_allowed)
  show ?thesis
  proof (cases "act_value (submitRequest (se_world E) (j_abiEncodedRequest j)) (ex_fdc x)")
    case (Inl e)
    with request_prepared allowed show ?thesis
      by (simp add: m_def j_def act_simps tried_def terminal_def)
  next
    case (Inr r)
    then obtain hub fee where
      "act_effects (submitRequest (se_world E) (j_abiEncodedRequest j)) (ex_fdc x) =
        [RequestAttestation hub (j_abiEncodedRequest j) fee]"
      by (auto elim: submitRequest_InrE)
    with Inr request_prepared show ?thesis
      by (simp add: m_def j_def act_simps submit_ok)
  qed
next
  case request_submitted
  then show ?thesis
    by (auto simp: m_def j_def act_simps tried_def allowed_effects_def terminal_def
        intro: round_ok round_wait split: sum.split)
next
  case round_finalized
  then show ?thesis
    by (auto simp: m_def j_def act_simps tried_def allowed_effects_def terminal_def intro: proof_ok
        split: sum.split)
next
  case proof_fetched
  then have st: "j_state (ex_job x) = proof_fetched" by (simp add: j_def)
  then have m: "m = execute_minting P (se_world E)" by (simp add: m_def)
  from execute_minting_cases [OF st, of P "se_world E"] show ?thesis
    unfolding m j_def
    by (elim disjE exE conjE) (simp_all add: st terminal_def mint_delayed mint_ok)
next
  case delayed
  then show ?thesis by (auto simp: m_def j_def act_simps intro: delay_wait delay_over)
next
  case executed
  then show ?thesis by (auto simp: m_def j_def act_simps terminal_def intro: terminal_stay)
next
  case failed
  then show ?thesis by (auto simp: m_def j_def act_simps terminal_def intro: terminal_stay)
qed

lemma step_refines:
  assumes "step P E x = (x', es, r)"
  shows "job_step P E (ex_job x) es (ex_job x')"
proof -
  let ?m = "try_step P E (j_state (ex_job x))"
  note refines = try_step_refines [where x = x and P = P and E = E]
  show ?thesis
  proof (cases "act_value ?m x")
    case (Inl e)
    with refines assms job_step_catch undated_catch show ?thesis by (auto simp: step_eq Let_def saved_def)
  next
    case (Inr f)
    with refines assms show ?thesis by (cases f) (auto simp: step_eq Let_def saved_def)
  qed
qed


subsection \<open>The order of the states\<close>

fun state_rank :: "job_state \<Rightarrow> nat" where
  "state_rank observed = 0"
| "state_rank request_prepared = 1"
| "state_rank request_submitted = 2"
| "state_rank round_finalized = 3"
| "state_rank proof_fetched = 4"
| "state_rank delayed = 5"
| "state_rank executed = 6"
| "state_rank failed = 7"

lemma state_rank_inj: "state_rank a = state_rank b \<longleftrightarrow> a = b"
  by (cases a; cases b) simp_all

instantiation job_state :: linorder
begin

definition less_eq_job_state :: "job_state \<Rightarrow> job_state \<Rightarrow> bool" where
  "less_eq_job_state a b \<longleftrightarrow> state_rank a \<le> state_rank b"

definition less_job_state :: "job_state \<Rightarrow> job_state \<Rightarrow> bool" where
  "less_job_state a b \<longleftrightarrow> state_rank a < state_rank b"

instance
  by standard (auto simp: less_eq_job_state_def less_job_state_def state_rank_inj)

end

lemmas state_order = less_eq_job_state_def less_job_state_def

subsection \<open>Invariants of a job\<close>

text \<open>
  Each state has the fields the code of its branch reads with \<open>!\<close>, and a failed job says why.
\<close>

definition job_wf :: "job \<Rightarrow> bool" where
  "job_wf j \<longleftrightarrow>
     (request_prepared \<le> j_state j \<and> j_state j \<le> delayed \<longrightarrow> j_abiEncodedRequest j \<noteq> None) \<and>
     (request_submitted \<le> j_state j \<and> j_state j \<le> delayed \<longrightarrow> j_roundId j \<noteq> None) \<and>
     (j_state j = delayed \<longrightarrow> j_executionAllowedAt j \<noteq> None \<and> j_flareTxHash j \<noteq> None) \<and>
     (j_state j = failed \<longrightarrow> 5 \<le> j_attempts j \<and> j_lastError j \<noteq> None)"

text \<open>What identifies a job and what it pays for: set once, by \<open>create\<close>.\<close>

definition job_identity :: "job \<Rightarrow> js_str \<times> js_str \<times> js_str \<times> js_str \<times> js_str \<times> js_str" where
  "job_identity j = (j_id j, j_xrplTxId j, j_userOpData j, j_totalCallValue j, j_personalAccount j, j_nonce j)"

lemma stamp_fields [simp]:
  "j_state (stamp E j) = j_state j" "j_abiEncodedRequest (stamp E j) = j_abiEncodedRequest j"
  "j_roundId (stamp E j) = j_roundId j" "j_flareTxHash (stamp E j) = j_flareTxHash j"
  "j_executionAllowedAt (stamp E j) = j_executionAllowedAt j" "j_attempts (stamp E j) = j_attempts j"
  "j_lastError (stamp E j) = j_lastError j" "j_id (stamp E j) = j_id j"
  "job_identity (stamp E j) = job_identity j"
  by (simp_all add: stamp_def job_identity_def)

lemma settled_fields [simp]:
  "j_state (settled j) = j_state j" "j_abiEncodedRequest (settled j) = j_abiEncodedRequest j"
  "j_roundId (settled j) = j_roundId j" "j_flareTxHash (settled j) = j_flareTxHash j"
  "j_executionAllowedAt (settled j) = j_executionAllowedAt j" "j_attempts (settled j) = 0"
  "j_lastError (settled j) = None" "j_id (settled j) = j_id j"
  "job_identity (settled j) = job_identity j"
  by (simp_all add: settled_def job_identity_def)

lemma job_identity_update [simp]:
  "job_identity (j\<lparr>j_state := s\<rparr>) = job_identity j" "job_identity (j\<lparr>j_attempts := n\<rparr>) = job_identity j"
  "job_identity (j\<lparr>j_lastError := l\<rparr>) = job_identity j" "job_identity (j\<lparr>j_roundId := r\<rparr>) = job_identity j"
  "job_identity (j\<lparr>j_flareTxHash := h\<rparr>) = job_identity j"
  "job_identity (j\<lparr>j_executionAllowedAt := t\<rparr>) = job_identity j"
  "job_identity (j\<lparr>j_abiEncodedRequest := q\<rparr>) = job_identity j"
  by (simp_all add: job_identity_def)

lemma tried_identity: "tried P j es j1 \<Longrightarrow> job_identity j1 = job_identity j"
  by (auto simp: tried_def)

lemma job_step_identity: "job_step P E j es j' \<Longrightarrow> job_identity j' = job_identity j"
  by (induction rule: job_step.induct) (auto dest: tried_identity)

lemma tried_wf: "tried P j es j1 \<Longrightarrow> job_wf j \<Longrightarrow> job_wf j1"
  by (auto simp: tried_def job_wf_def)

lemma job_step_wf:
  assumes "job_step P E j es j'" and "job_wf j"
  shows "job_wf j'"
  using assms
proof (induction rule: job_step.induct)
  case (retry j es j1 e)
  then have "job_wf j1" and "j_state j1 = j_state j" by (simp_all add: tried_wf tried_fields)
  with retry(1) show ?case by (auto simp: job_wf_def terminal_def)
qed (auto simp: job_wf_def state_order)

text \<open>The moves of the state, and how the effects depend on it.\<close>

lemma job_step_moves:
  assumes "job_step P E j es j'"
  shows "j_state j' = j_state j \<or> j_state j' = failed \<or>
    (j_state j, j_state j') \<in> {(observed, request_prepared), (request_prepared, request_submitted),
      (request_submitted, round_finalized), (round_finalized, proof_fetched), (delayed, proof_fetched),
      (proof_fetched, delayed), (proof_fetched, executed)}"
  using assms by (induction rule: job_step.induct) (auto dest: tried_fields)

lemma job_step_effects: "job_step P E j es j' \<Longrightarrow> allowed_effects P j es"
  by (induction rule: job_step.induct) (auto simp: allowed_effects_def tried_def minted_def)

lemma job_step_terminal:
  assumes "job_step P E j es j'" and "terminal (j_state j)"
  shows "j' = j \<and> es = []"
  using assms by (cases rule: job_step.cases) (auto simp: terminal_def)

subsection \<open>Runs of the executor\<close>

text \<open>
  A transition is a step in any environment, with the transactions it asked for as its label.
\<close>

definition exec_trans :: "pipeline_options \<Rightarrow> executor \<Rightarrow> tx_request list \<Rightarrow> executor \<Rightarrow> bool" where
  "exec_trans P x es x' \<longleftrightarrow> (\<exists>E r. step P E x = (x', es, r))"

lemma exec_trans_job: "exec_trans P x es x' \<Longrightarrow> \<exists>E. job_step P E (ex_job x) es (ex_job x')"
  unfolding exec_trans_def by (blast dest: step_refines)

definition is_attestation :: "tx_request \<Rightarrow> bool" where
  "is_attestation t \<longleftrightarrow> (case t of RequestAttestation _ _ _ \<Rightarrow> True | _ \<Rightarrow> False)"

definition no_attestation :: "tx_request list \<Rightarrow> bool" where
  "no_attestation es \<longleftrightarrow> list_all (\<lambda>t. \<not> is_attestation t) es"

text \<open>A transaction that pays for the operation of the job with the identity \<open>i\<close>.\<close>

fun pays_for :: "pipeline_options \<Rightarrow> js_str \<times> js_str \<times> js_str \<times> js_str \<times> js_str \<times> js_str \<Rightarrow> tx_request \<Rightarrow> bool" where
  "pays_for P i (RequestAttestation _ _ _) \<longleftrightarrow> True"
| "pays_for P (i, tx, d, v, pa, n) (ExecuteDirectMinting am _ d' v') \<longleftrightarrow>
     am = pl_assetManager P \<and> d' = d \<and> js_BigInt v = Inr v'"

interpretation pl: transition_system "exec_trans P" for P .

interpretation pl_wf: invariant_system "exec_trans P" "\<lambda>x. job_wf (ex_job x)" "\<lambda>es. length es \<le> 1" for P
proof unfold_locales
  fix x es x'
  assume "job_wf (ex_job x)" and "exec_trans P x es x'"
  then obtain E where j: "job_wf (ex_job x)" "job_step P E (ex_job x) es (ex_job x')"
    using exec_trans_job by blast
  show "job_wf (ex_job x')" using job_step_wf j by blast
  show "length es \<le> 1" using job_step_effects [OF j(2)] by (auto simp: allowed_effects_def)
qed

interpretation pl_past: invariant_system "exec_trans P" "\<lambda>x. request_submitted \<le> j_state (ex_job x)"
    no_attestation for P
proof unfold_locales
  fix x es x'
  assume inv: "request_submitted \<le> j_state (ex_job x)" and "exec_trans P x es x'"
  then obtain E where j: "job_step P E (ex_job x) es (ex_job x')" using exec_trans_job by blast
  show "request_submitted \<le> j_state (ex_job x')"
    using inv job_step_moves [OF j] by (auto simp: state_order)
  show "no_attestation es"
    using inv job_step_effects [OF j]
    by (auto simp: allowed_effects_def no_attestation_def is_attestation_def state_order)
qed

interpretation pl_pays: invariant_system "exec_trans P" "\<lambda>x. job_identity (ex_job x) = i"
    "list_all (pays_for P i)" for P i
proof unfold_locales
  fix x es x'
  assume inv: "job_identity (ex_job x) = i" and "exec_trans P x es x'"
  then obtain E where j: "job_step P E (ex_job x) es (ex_job x')" using exec_trans_job by blast
  show "job_identity (ex_job x') = i" using inv job_step_identity [OF j] by simp
  show "list_all (pays_for P i) es"
    using inv job_step_effects [OF j] by (auto simp: allowed_effects_def job_identity_def)
qed

interpretation pl_done: invariant_system "exec_trans P" "\<lambda>x. terminal (j_state (ex_job x)) \<and> ex_job x = j"
    "\<lambda>es. es = []" for P j
proof unfold_locales
  fix x es x'
  assume inv: "terminal (j_state (ex_job x)) \<and> ex_job x = j" and "exec_trans P x es x'"
  then obtain E where "job_step P E (ex_job x) es (ex_job x')" using exec_trans_job by blast
  with inv job_step_terminal show "terminal (j_state (ex_job x')) \<and> ex_job x' = j" and "es = []"
    by metis+
qed


subsection \<open>Persistence and restart\<close>

text \<open>The disk holds the job as it is in memory: what a restart would load.\<close>

definition synced :: "executor \<Rightarrow> bool" where
  "synced x \<longleftrightarrow> job_load (j_id (ex_job x)) (ex_disk x) = Some (ex_job x)"

lemma try_step_disk: "ex_disk (fst (try_step P E s x)) = ex_disk x"
  by (cases s)
    (simp_all add: act_simps execute_minting_def split: sum.split option.split)

lemma try_step_return:
  assumes "act_value (try_step P E (j_state (ex_job x))) x = Inr Return"
  shows "ex_job (fst (try_step P E (j_state (ex_job x)) x)) = ex_job x"
  using try_step_refines [where x = x and P = P and E = E] assms by simp

lemma step_saves:
  assumes "step P E x = (x', es, r)"
  shows "(ex_job x' = ex_job x \<and> ex_disk x' = ex_disk x \<and> r = Inr ()) \<or>
    (ex_disk x' = fst (write_file (se_write E) (job_file (j_id (ex_job x'))) (ex_job x') (ex_disk x)) \<and>
     r = write_result E)"
proof -
  let ?m = "try_step P E (j_state (ex_job x))"
  have id: "saved E j y = y\<lparr>ex_disk := fst (write_file (se_write E) (job_file (j_id (stamp E j))) (stamp E j)
      (ex_disk y)), ex_job := stamp E j\<rparr>" for j y
    by (simp add: saved_def)
  show ?thesis
  proof (cases "act_value ?m x")
    case (Inl e)
    with assms show ?thesis by (auto simp: step_eq Let_def id try_step_disk)
  next
    case (Inr f)
    with assms try_step_return [of P E x] show ?thesis
      by (cases f) (auto simp: step_eq Let_def id try_step_disk)
  qed
qed

lemma write_result_Written [simp]: "se_write E = Written \<Longrightarrow> write_result E = Inr ()"
  by (simp add: write_result_def)

lemma step_synced:
  assumes "step P E x = (x', es, r)" and "se_write E = Written" and "synced x"
  shows "synced x' \<and> r = Inr ()"
  using step_saves [OF assms(1)] assms(2,3)
  by (auto simp: synced_def job_load_def read_json_write)

lemma normalized_length: "normalizeXrplTxId h = Inr t \<Longrightarrow> length t = 66"
  by (auto simp: normalizeXrplTxId_def Let_def split: if_splits)

lemma job_create_Inr:
  assumes "job_create now w p d = (d', Inr j)"
  obtains txId where "normalizeXrplTxId (cp_xrplTxId p) = Inr txId"
    and "job_load (js_slice_from 2 txId) d = Some j \<and> d' = d \<or>
      job_load (js_slice_from 2 txId) d = None \<and> w = Written \<and> j = new_job now txId p \<and>
      d' = AList.update (job_file (js_slice_from 2 txId)) (JsonFile j) d"
proof (cases "normalizeXrplTxId (cp_xrplTxId p)")
  case (Inl e)
  with assms show ?thesis by (simp add: job_create_def)
next
  case (Inr txId)
  with assms that show ?thesis
    by (cases w)
      (auto simp: job_create_def job_save_def new_job_def Let_def case_prod_beta split: option.splits)
qed

subsection \<open>Errors\<close>

lemma step_error:
  assumes "act_value (try_step P E (j_state (ex_job x))) x = Inl e"
  shows "ex_job (fst (step P E x)) =
    stamp E (catch_step (se_world E) e (ex_job (fst (try_step P E (j_state (ex_job x)) x))))"
  using assms by (simp add: step_eq Let_def saved_def)

lemma observed_error:
  assumes "j_state (ex_job x) = observed"
    and "act_value (prepareRequest (se_world E) (j_xrplTxId (ex_job x)) (Some (pl_account P))) (ex_fdc x) = Inl e"
  shows "ex_job (fst (step P E x)) = stamp E ((ex_job x)\<lparr>j_attempts := j_attempts (ex_job x) + 1,
      j_lastError := Some (err_message e),
      j_state := (if \<not> retryable e \<and> 5 \<le> j_attempts (ex_job x) + 1 then failed else observed)\<rparr>)"
    and "ex_fdc (fst (step P E x)) = fst (prepareRequest (se_world E) (j_xrplTxId (ex_job x))
      (Some (pl_account P)) (ex_fdc x))"
proof -
  have v: "act_value (try_step P E (j_state (ex_job x))) x = Inl e"
    using assms by (simp add: act_simps)
  have "ex_job (fst (try_step P E (j_state (ex_job x)) x)) = ex_job x"
    using assms by (simp add: act_simps)
  then have "ex_job (fst (step P E x)) = stamp E (catch_step (se_world E) e (ex_job x))"
    by (simp only: step_error [OF v])
  then show "ex_job (fst (step P E x)) = stamp E ((ex_job x)\<lparr>j_attempts := j_attempts (ex_job x) + 1,
      j_lastError := Some (err_message e),
      j_state := (if \<not> retryable e \<and> 5 \<le> j_attempts (ex_job x) + 1 then failed else observed)\<rparr>)"
    using assms(1) by (cases "ex_job x") (auto simp: catch_step_def Let_def)
  show "ex_fdc (fst (step P E x)) = fst (prepareRequest (se_world E) (j_xrplTxId (ex_job x))
      (Some (pl_account P)) (ex_fdc x))"
    using assms v by (simp add: step_eq Let_def saved_def act_simps)
qed

lemma prepareRequest_client [act_simps]: "fst (prepareRequest W tx owner c) = c"
  by (simp add: prepareRequest_def act_result_def)

lemma observed_lag:
  assumes "j_state (ex_job x) = observed"
    and "act_value (prepareRequest (se_world E) (j_xrplTxId (ex_job x)) (Some (pl_account P))) (ex_fdc x) = Inl e"
    and "retryable e"
  shows "let y = ((\<lambda>x. fst (step P E x)) ^^ n) x in
    j_state (ex_job y) = observed \<and> j_attempts (ex_job y) = j_attempts (ex_job x) + n \<and>
    ex_fdc y = ex_fdc x \<and> j_xrplTxId (ex_job y) = j_xrplTxId (ex_job x)"
proof (induction n)
  case (Suc n)
  let ?y = "((\<lambda>x. fst (step P E x)) ^^ n) x"
  have y: "j_state (ex_job ?y) = observed" "j_attempts (ex_job ?y) = j_attempts (ex_job x) + n"
    "ex_fdc ?y = ex_fdc x" "j_xrplTxId (ex_job ?y) = j_xrplTxId (ex_job x)"
    using Suc.IH by (simp_all add: Let_def)
  have e: "act_value (prepareRequest (se_world E) (j_xrplTxId (ex_job ?y)) (Some (pl_account P))) (ex_fdc ?y) = Inl e"
    using assms(2) y by simp
  show ?case
    using observed_error [OF y(1) e] y assms(3) by (simp add: Let_def act_simps stamp_def)
qed (use assms in simp)

subsection \<open>The loop\<close>

lemma run_loop_returns:
  assumes "m \<le> n" and "Now (i + m) > deadline"
  shows "run_loop (Suc n) P Now Env deadline i x \<noteq> None"
  using assms
proof (induction n arbitrary: m i x)
  case 0
  then show ?case by simp
next
  case (Suc n)
  show ?case
  proof (cases m)
    case 0
    with Suc.prems show ?thesis by simp
  next
    case (Suc m')
    with Suc.prems Suc.IH [of m' "Suc i"] have r: "run_loop (Suc n) P Now Env deadline (Suc i) y \<noteq> None" for y
      by simp
    show ?thesis
      by (subst run_loop.simps) (auto split: prod.split sum.split option.split simp: r simp del: run_loop.simps)
  qed
qed

lemma run_loop_result:
  assumes "run_loop n P Now Env deadline i x = Some (x', es, r)"
  shows "(\<exists>ls. pl.run P x ls x' \<and> es = concat ls) \<and>
    (case r of Inl _ \<Rightarrow> True | Inr _ \<Rightarrow> terminal (j_state (ex_job x')) \<or> (\<exists>k. Now k > deadline))"
  using assms
proof (induction n arbitrary: i x es)
  case (Suc n)
  consider "x' = x" "es = []" "r = Inr ()" "terminal (j_state (ex_job x)) \<or> Now i > deadline"
    | x1 es1 e where "step P (Env i) x = (x1, es1, Inl e)" "x' = x1" "es = es1" "r = Inl e"
    | x1 es1 es2 where "step P (Env i) x = (x1, es1, Inr ())"
        "run_loop n P Now Env deadline (Suc i) x1 = Some (x', es2, r)" "es = es1 @ es2"
    using Suc.prems by (auto split: if_splits prod.splits sum.splits option.splits)
  then show ?case
  proof cases
    case 1
    then show ?thesis by (auto intro: pl.run_refl exI [of _ "[]"])
  next
    case 2
    then have "exec_trans P x es1 x'" by (auto simp: exec_trans_def)
    with 2 show ?thesis by (auto intro: pl.run_single exI [of _ "[es1]"])
  next
    case 3
    then obtain ls where "pl.run P x1 ls x'" "es2 = concat ls" using Suc.IH by blast
    moreover have "exec_trans P x es1 x1" using 3(1) by (auto simp: exec_trans_def)
    ultimately show ?thesis using Suc.IH [OF 3(2)] 3(3) by (auto intro: pl.run_Cons exI [of _ "es1 # ls"])
  qed
qed simp


subsection \<open>The undisturbed run\<close>

text \<open>Everything answers, for any state of the address cache, and the disk works.\<close>

definition smooth :: "pipeline_options \<Rightarrow> step_env \<Rightarrow> job \<Rightarrow> js_str \<Rightarrow> int \<Rightarrow> xrp_payment_proof \<Rightarrow> bigint \<Rightarrow>
    js_str \<Rightarrow> tx_receipt \<Rightarrow> bool" where
  "smooth P E j req r pf v hash rc \<longleftrightarrow> (let W = se_world E in
     (\<forall>c. act_value (prepareRequest W (j_xrplTxId j) (Some (pl_account P))) c = Inr req) \<and>
     (\<forall>c. act_value (submitRequest W (Some req)) c = Inr r) \<and>
     (\<forall>c. act_value (isRoundFinalized W (Some r)) c = Inr True) \<and>
     (\<forall>c. act_value (fetchProof W (Some req) (Some r)) c = Inr pf) \<and>
     js_BigInt (j_totalCallValue j) = Inr v \<and>
     w_writeContract W (ExecuteDirectMinting (pl_assetManager P) pf (j_userOpData j) v) = Inr hash \<and>
     w_waitForTransactionReceipt W hash = Inr rc \<and> \<not> rc_reverted rc \<and>
     findDelayedEvent W (rc_logs rc) = None \<and> se_write E = Written)"

lemma step_break:
  assumes "act_value (try_step P E (j_state (ex_job x))) x = Inr Break" and "se_write E = Written"
  shows "\<exists>x'. step P E x = (x', act_effects (try_step P E (j_state (ex_job x))) x, Inr ()) \<and>
    ex_job x' = stamp E (settled (ex_job (fst (try_step P E (j_state (ex_job x)) x))))"
  using assms by (simp add: step_eq Let_def saved_def)

definition next_job :: "step_env \<Rightarrow> job \<Rightarrow> job" where
  "next_job E j = stamp E (settled j)"

lemma smooth_steps:
  assumes "smooth P E j req r pf v hash rc"
  shows "ex_job x = j \<Longrightarrow> j_state j = observed \<Longrightarrow> \<exists>x'. step P E x = (x', [], Inr ()) \<and>
      ex_job x' = next_job E (j\<lparr>j_abiEncodedRequest := Some req, j_state := request_prepared\<rparr>)"
    and "ex_job x = k \<Longrightarrow> j_state k = request_prepared \<Longrightarrow> j_abiEncodedRequest k = Some req \<Longrightarrow>
      \<exists>x' hub fee. step P E x = (x', [RequestAttestation hub (Some req) fee], Inr ()) \<and>
      ex_job x' = next_job E (k\<lparr>j_roundId := Some r, j_state := request_submitted\<rparr>)"
    and "ex_job x = k \<Longrightarrow> j_state k = request_submitted \<Longrightarrow> j_roundId k = Some r \<Longrightarrow>
      \<exists>x'. step P E x = (x', [], Inr ()) \<and> ex_job x' = next_job E (k\<lparr>j_state := round_finalized\<rparr>)"
    and "ex_job x = k \<Longrightarrow> j_state k = round_finalized \<Longrightarrow> j_abiEncodedRequest k = Some req \<Longrightarrow>
      j_roundId k = Some r \<Longrightarrow>
      \<exists>x'. step P E x = (x', [], Inr ()) \<and> ex_job x' = next_job E (k\<lparr>j_state := proof_fetched\<rparr>)"
    and "ex_job x = k \<Longrightarrow> j_state k = proof_fetched \<Longrightarrow> j_abiEncodedRequest k = Some req \<Longrightarrow>
      j_roundId k = Some r \<Longrightarrow> job_identity k = job_identity j \<Longrightarrow>
      \<exists>x'. step P E x = (x', [ExecuteDirectMinting (pl_assetManager P) pf (j_userOpData j) v], Inr ()) \<and>
      ex_job x' = next_job E (k\<lparr>j_flareTxHash := Some hash, j_state := executed\<rparr>)"
proof -
  let ?W = "se_world E"
  have s: "\<And>c. act_value (prepareRequest ?W (j_xrplTxId j) (Some (pl_account P))) c = Inr req"
    "\<And>c. act_value (submitRequest ?W (Some req)) c = Inr r"
    "\<And>c. act_value (isRoundFinalized ?W (Some r)) c = Inr True"
    "\<And>c. act_value (fetchProof ?W (Some req) (Some r)) c = Inr pf"
    "js_BigInt (j_totalCallValue j) = Inr v"
    "w_writeContract ?W (ExecuteDirectMinting (pl_assetManager P) pf (j_userOpData j) v) = Inr hash"
    "w_waitForTransactionReceipt ?W hash = Inr rc" "\<not> rc_reverted rc"
    "findDelayedEvent ?W (rc_logs rc) = None" and w: "se_write E = Written"
    using assms by (simp_all add: smooth_def Let_def)
  {
    assume "ex_job x = j" "j_state j = observed"
    then show "\<exists>x'. step P E x = (x', [], Inr ()) \<and>
        ex_job x' = next_job E (j\<lparr>j_abiEncodedRequest := Some req, j_state := request_prepared\<rparr>)"
      using step_break [of P E x] w s by (simp add: act_simps next_job_def)
  next
    assume k: "ex_job x = k" "j_state k = request_prepared" "j_abiEncodedRequest k = Some req"
    obtain hub fee where "act_effects (submitRequest ?W (Some req)) (ex_fdc x) =
        [RequestAttestation hub (Some req) fee]"
      using s(2) by (blast elim: submitRequest_InrE)
    with k show "\<exists>x' hub fee. step P E x = (x', [RequestAttestation hub (Some req) fee], Inr ()) \<and>
        ex_job x' = next_job E (k\<lparr>j_roundId := Some r, j_state := request_submitted\<rparr>)"
      using step_break [of P E x] w s by (auto simp: act_simps next_job_def)
  next
    assume "ex_job x = k" "j_state k = request_submitted" "j_roundId k = Some r"
    then show "\<exists>x'. step P E x = (x', [], Inr ()) \<and> ex_job x' = next_job E (k\<lparr>j_state := round_finalized\<rparr>)"
      using step_break [of P E x] w s by (simp add: act_simps next_job_def)
  next
    assume "ex_job x = k" "j_state k = round_finalized" "j_abiEncodedRequest k = Some req"
      "j_roundId k = Some r"
    then show "\<exists>x'. step P E x = (x', [], Inr ()) \<and> ex_job x' = next_job E (k\<lparr>j_state := proof_fetched\<rparr>)"
      using step_break [of P E x] w s by (simp add: act_simps next_job_def)
  next
    assume "ex_job x = k" "j_state k = proof_fetched" "j_abiEncodedRequest k = Some req"
      "j_roundId k = Some r" "job_identity k = job_identity j"
    then show "\<exists>x'. step P E x = (x', [ExecuteDirectMinting (pl_assetManager P) pf (j_userOpData j) v], Inr ()) \<and>
        ex_job x' = next_job E (k\<lparr>j_flareTxHash := Some hash, j_state := executed\<rparr>)"
      using step_break [of P E x] w s
      by (simp add: act_simps next_job_def execute_minting_def job_identity_def)
  }
qed

lemma next_job_fields [simp]:
  "j_state (next_job E j) = j_state j" "j_abiEncodedRequest (next_job E j) = j_abiEncodedRequest j"
  "j_roundId (next_job E j) = j_roundId j" "j_flareTxHash (next_job E j) = j_flareTxHash j"
  "job_identity (next_job E j) = job_identity j"
  by (simp_all add: next_job_def)

lemma run_loop_step:
  assumes "\<not> terminal (j_state (ex_job x))" and "Now i \<le> deadline"
    and "step P (Env i) x = (x1, es1, Inr ())"
    and "run_loop n P Now Env deadline (Suc i) x1 = Some (x2, es2, r)"
  shows "run_loop (Suc n) P Now Env deadline i x = Some (x2, es1 @ es2, r)"
  using assms by simp

lemma run_loop_smooth:
  assumes sm: "smooth P E (ex_job x) req r pf v hash rc" and "j_state (ex_job x) = observed"
    and now: "\<And>i. Now i \<le> deadline"
  shows "\<exists>x' hub fee. run_loop (6 + n) P Now (\<lambda>_. E) deadline i x =
      Some (x', [RequestAttestation hub (Some req) fee,
        ExecuteDirectMinting (pl_assetManager P) pf (j_userOpData (ex_job x)) v], Inr ()) \<and>
    j_state (ex_job x') = executed \<and> j_flareTxHash (ex_job x') = Some hash"
proof -
  note st = smooth_steps [OF sm]
  obtain x1 where 1: "step P E x = (x1, [], Inr ())"
    "ex_job x1 = next_job E ((ex_job x)\<lparr>j_abiEncodedRequest := Some req, j_state := request_prepared\<rparr>)"
    using st(1) [OF refl assms(2)] by blast
  obtain x2 hub fee where 2: "step P E x1 = (x2, [RequestAttestation hub (Some req) fee], Inr ())"
    "ex_job x2 = next_job E ((ex_job x1)\<lparr>j_roundId := Some r, j_state := request_submitted\<rparr>)"
    using st(2) [OF refl, of x1] 1(2) by auto
  obtain x3 where 3: "step P E x2 = (x3, [], Inr ())"
    "ex_job x3 = next_job E ((ex_job x2)\<lparr>j_state := round_finalized\<rparr>)"
    using st(3) [OF refl, of x2] 2(2) by auto
  obtain x4 where 4: "step P E x3 = (x4, [], Inr ())"
    "ex_job x4 = next_job E ((ex_job x3)\<lparr>j_state := proof_fetched\<rparr>)"
    using st(4) [OF refl, of x3] 1(2) 2(2) 3(2) by auto
  obtain x5 where 5: "step P E x4 = (x5, [ExecuteDirectMinting (pl_assetManager P) pf (j_userOpData (ex_job x)) v], Inr ())"
    "ex_job x5 = next_job E ((ex_job x4)\<lparr>j_flareTxHash := Some hash, j_state := executed\<rparr>)"
    using st(5) [OF refl, of x4] 1(2) 2(2) 3(2) 4(2) by auto
  have fin: "run_loop (Suc n) P Now (\<lambda>_. E) deadline i' x5 = Some (x5, [], Inr ())" for i'
    using 5(2) by (simp add: terminal_def)
  have go: "run_loop (Suc m) P Now (\<lambda>_. E) deadline i' y = Some (x5, es1 @ es2, Inr ())"
    if "run_loop m P Now (\<lambda>_. E) deadline (Suc i') z = Some (x5, es2, Inr ())"
      and "step P E y = (z, es1, Inr ())" and "\<not> terminal (j_state (ex_job y))" for m i' y z es1 es2
    using that now by (intro run_loop_step)
  have nt: "\<not> terminal (j_state (ex_job x))" "\<not> terminal (j_state (ex_job x1))"
    "\<not> terminal (j_state (ex_job x2))" "\<not> terminal (j_state (ex_job x3))" "\<not> terminal (j_state (ex_job x4))"
    using assms(2) 1(2) 2(2) 3(2) 4(2) by (auto simp: terminal_def)
  have "6 + n = Suc (Suc (Suc (Suc (Suc (Suc n)))))" by simp
  then have "run_loop (6 + n) P Now (\<lambda>_. E) deadline i x =
      Some (x5, [] @ [RequestAttestation hub (Some req) fee] @ [] @ [] @
        [ExecuteDirectMinting (pl_assetManager P) pf (j_userOpData (ex_job x)) v] @ [], Inr ())"
    using go [OF go [OF go [OF go [OF go [OF fin 5(1) nt(5)] 4(1) nt(4)] 3(1) nt(3)] 2(1) nt(2)] 1(1) nt(1)]
    by (simp only:)
  then show ?thesis using 5(2) by auto
qed

end
