(* ===== verification/Delivery.thy ===== *)
theory Delivery
  imports Pipeline
begin

text \<open>
  The properties of the executor pipeline: what holds of one step, of any run of steps in any
  environment, of a restart, and of the undisturbed run.
\<close>

subsection \<open>A concrete executor, for the witnesses\<close>

definition demo_txid :: js_str where
  "demo_txid = ''0x'' @ replicate 64 (CHR ''A'')"

definition demo_create :: create_params where
  "demo_create = \<lparr>cp_xrplTxId = demo_txid, cp_userOpData = ''0xab'', cp_totalCallValue = 5,
     cp_personalAccount = ''0xpa'', cp_nonce = 4\<rparr>"

definition demo_job :: job where
  "demo_job = new_job 1 demo_txid demo_create"

definition demo_options :: pipeline_options where
  "demo_options = \<lparr>pl_account = ''0xexecutor'', pl_assetManager = ''0xmanager''\<rparr>"

definition demo_env :: step_env where
  "demo_env = \<lparr>se_world = demo_world, se_now = 0, se_saveNow = 2, se_write = Written\<rparr>"

definition demo_executor :: executor where
  "demo_executor = \<lparr>ex_fdc = demo_fdc, ex_disk = [(job_file (j_id demo_job), JsonFile demo_job)],
     ex_job = demo_job\<rparr>"

text \<open>The verifier answers that the transaction is not indexed yet; the network is down.\<close>

definition lagging_env :: step_env where
  "lagging_env = demo_env\<lparr>se_world := demo_world\<lparr>w_jsonParse :=
     (\<lambda>t. Inr (JObj [(''status'', JStr ''INVALID: TRANSACTION DOES NOT EXIST'')]))\<rparr>\<rparr>"

definition broken_env :: step_env where
  "broken_env = demo_env\<lparr>se_world := demo_world\<lparr>w_fetch := (\<lambda>q. Inl (JsError ''fetch failed''))\<rparr>\<rparr>"

lemma demo_job_fields [simp]:
  "j_state demo_job = observed" "j_attempts demo_job = 0" "j_userOpData demo_job = ''0xab''"
  "j_totalCallValue demo_job = bigint_toString 5" "job_wf demo_job" "j_xrplTxId demo_job = demo_txid"
  by (simp_all add: demo_job_def new_job_def demo_create_def job_wf_def state_order)

lemma demo_executor_fields [simp]: "ex_job demo_executor = demo_job" "ex_fdc demo_executor = demo_fdc"
  by (simp_all add: demo_executor_def)

lemma demo_env_fields [simp]: "se_world demo_env = demo_world" "se_write demo_env = Written"
  by (simp_all add: demo_env_def)

lemma demo_options_fields [simp]: "pl_assetManager demo_options = ''0xmanager''"
  by (simp add: demo_options_def)

lemma demo_synced: "synced demo_executor"
  by (simp add: synced_def demo_executor_def job_load_def read_json_def)

lemma demo_classify [simp]:
  "classify_verifier demo_world \<lparr>http_ok = True, http_status = 200, http_text = ''{}''\<rparr> = Inr ''0x5265''"
  "classify_da_layer demo_world \<lparr>http_ok = True, http_status = 200, http_text = ''{}''\<rparr> =
    Inr \<lparr>merkleProof = [JStr ''0x01''], proof_data = JStr ''0x50''\<rparr>"
  by (simp_all add: classify_verifier_def classify_da_layer_def demo_response_def read_text_def not_text_def)

definition demo_proof :: xrp_payment_proof where
  "demo_proof = \<lparr>merkleProof = [JStr ''0x01''], proof_data = JStr ''0x50''\<rparr>"

lemma demo_resolves: "\<exists>a. resolved_name demo_world n c = Inr a"
  by (auto simp: resolved_name_def split: option.split)

lemma demo_submit_any: "act_value (submitRequest demo_world (Some ''0x5265'')) c = Inr 10"
proof -
  obtain a b where "resolved_name demo_world ''FdcHub'' c = Inr a"
    "resolved_name demo_world ''FlareSystemsManager'' c = Inr b"
    using demo_resolves by metis
  then show ?thesis
    by (simp add: submitRequest_def act_simps resolve_value resolve_stable round_of_def signed_divide_int_def)
qed

lemma demo_finalized_any: "act_value (isRoundFinalized demo_world (Some r)) c = Inr True"
proof -
  have v: "snd (snd (resolve W n c)) = resolved_name W n c" for W n c
    using resolve_value by (simp add: act_value_def)
  obtain a b where "resolved_name demo_world ''Relay'' c = Inr a"
    "resolved_name demo_world ''FdcVerification'' c = Inr b"
    using demo_resolves by metis
  then show ?thesis
    by (simp add: isRoundFinalized_def act_value_def case_prod_beta Let_def v resolve_stable)
qed

lemma demo_smooth:
  "smooth demo_options demo_env demo_job ''0x5265'' 10 demo_proof 5 ''0xhash'' demo_receipt"
  by (simp add: smooth_def Let_def demo_submit_any demo_finalized_any prepareRequest_value
      fetchProof_value demo_proof_def)
    (simp add: demo_receipt_def)

lemma demo_run:
  "\<exists>x' hub fee. run 6 demo_options (\<lambda>_. 0) (\<lambda>_. demo_env) 0 None demo_executor =
    Some (x', [RequestAttestation hub (Some ''0x5265'') fee,
      ExecuteDirectMinting ''0xmanager'' demo_proof ''0xab'' 5], Inr ()) \<and>
    j_state (ex_job x') = executed"
proof -
  have "smooth demo_options demo_env (ex_job demo_executor) ''0x5265'' 10 demo_proof 5 ''0xhash'' demo_receipt"
    and "j_state (ex_job demo_executor) = observed"
    using demo_smooth by simp_all
  from run_loop_smooth [OF this, of "\<lambda>_. 0" "30 * 60000" 0 0] show ?thesis
    unfolding run_def by (simp only: add_0 add_0_right option.case demo_executor_fields demo_job_fields
      demo_options_fields) fastforce
qed

lemma demo_pl_run:
  "\<exists>x' ls hub fee. pl.run demo_options demo_executor ls x' \<and>
    concat ls = [RequestAttestation hub (Some ''0x5265'') fee,
      ExecuteDirectMinting ''0xmanager'' demo_proof ''0xab'' 5] \<and> j_state (ex_job x') = executed"
proof -
  obtain x' hub fee where r: "run 6 demo_options (\<lambda>_. 0) (\<lambda>_. demo_env) 0 None demo_executor =
      Some (x', [RequestAttestation hub (Some ''0x5265'') fee,
        ExecuteDirectMinting ''0xmanager'' demo_proof ''0xab'' 5], Inr ())"
    and e: "j_state (ex_job x') = executed"
    using demo_run by blast
  obtain ls where "pl.run demo_options demo_executor ls x'"
    "[RequestAttestation hub (Some ''0x5265'') fee,
        ExecuteDirectMinting ''0xmanager'' demo_proof ''0xab'' 5] = concat ls"
    using run_loop_result [OF r [unfolded run_def]] by blast
  with e show ?thesis by metis
qed

subsection \<open>One step\<close>

text \<open>
  (C6) The step function implements its specification: whatever the network, the clock and the disk
  do, the job before, the transactions the wallet was asked for and the job after are related by one
  of the rules of \<open>job_step\<close>.
\<close>

theorem pipeline_step_refines:
  assumes "step P E x = (x', es, r)"
  shows "job_step P E (ex_job x) es (ex_job x')"
  using assms by (rule step_refines)

lemma pipeline_step_refines_witness:
  "\<exists>j. job_step demo_options demo_env demo_job [] j \<and> j_state j = request_prepared"
proof -
  obtain x' where x': "step demo_options demo_env demo_executor = (x', [], Inr ())"
    "ex_job x' = next_job demo_env (demo_job\<lparr>j_abiEncodedRequest := Some ''0x5265'', j_state := request_prepared\<rparr>)"
    using smooth_steps(1) [OF demo_smooth, of demo_executor] by auto
  from pipeline_step_refines [OF x'(1)] x'(2) show ?thesis by (intro exI [of _ "ex_job x'"]) simp
qed

text \<open>
  The state moves along the edges of the protocol only: forward one stage at a time, from
  \<open>delayed\<close> back to \<open>proof_fetched\<close>, to \<open>failed\<close>, or not at all; and a finished job never changes
  and sends nothing.
\<close>

theorem pipeline_legal_moves:
  assumes "step P E x = (x', es, r)"
  shows "(j_state (ex_job x') = j_state (ex_job x) \<or> j_state (ex_job x') = failed \<or>
      (j_state (ex_job x), j_state (ex_job x')) \<in> {(observed, request_prepared),
        (request_prepared, request_submitted), (request_submitted, round_finalized),
        (round_finalized, proof_fetched), (delayed, proof_fetched), (proof_fetched, delayed),
        (proof_fetched, executed)}) \<and>
    (if terminal (j_state (ex_job x)) then ex_job x' = ex_job x \<and> es = [] else True)"
  using job_step_moves [OF step_refines [OF assms]] job_step_terminal [OF step_refines [OF assms]]
  by auto

lemma pipeline_legal_moves_witness:
  "\<exists>x' es r. step demo_options broken_env demo_executor = (x', es, r) \<and>
    j_state (ex_job x') \<in> {observed, failed, request_prepared}"
proof -
  obtain x' es r where s: "step demo_options broken_env demo_executor = (x', es, r)"
    by (metis prod_cases3)
  from pipeline_legal_moves [OF s] s show ?thesis by auto
qed

text \<open>
  (C8) A job is only called executed when the operation ran: either the transaction this executor
  sent was mined, was not reverted and did not emit a delay event, or the chain says the payment
  was already used.
\<close>

theorem pipeline_executed_means_minted:
  assumes "step P E x = (x', es, r)" and "j_state (ex_job x) \<noteq> executed" and "j_state (ex_job x') = executed"
  shows "j_state (ex_job x) = proof_fetched \<and>
    ((\<exists>hash rc proof v. es = [ExecuteDirectMinting (pl_assetManager P) proof (j_userOpData (ex_job x)) v] \<and>
        js_BigInt (j_totalCallValue (ex_job x)) = Inr v \<and>
        w_writeContract (se_world E)
          (ExecuteDirectMinting (pl_assetManager P) proof (j_userOpData (ex_job x)) v) = Inr hash \<and>
        j_flareTxHash (ex_job x') = Some hash \<and>
        w_waitForTransactionReceipt (se_world E) hash = Inr rc \<and> \<not> rc_reverted rc \<and>
        findDelayedEvent (se_world E) (rc_logs rc) = None) \<or>
     w_isTransactionIdUsed (se_world E) (j_xrplTxId (ex_job x)) = Inr True)"
  using step_refines [OF assms(1)] assms(2,3)
proof (cases rule: job_step.cases)
  case (mint_ok hash rc)
  then show ?thesis by (auto simp: minted_def)
next
  case (lost_race j1)
  then show ?thesis by (auto simp: isTransactionUsed_def split: sum.splits)
next
  case (retry j1 e)
  with assms(2,3) show ?thesis by (simp add: tried_fields)
next
  case (mint_undated hash rc t)
  with assms(3) show ?thesis by (simp split: if_splits)
qed auto

definition ready_executor :: executor where
  "ready_executor = demo_executor\<lparr>ex_job := demo_job\<lparr>j_state := proof_fetched,
     j_abiEncodedRequest := Some ''0x5265'', j_roundId := Some 10\<rparr>\<rparr>"

lemma ready_mints:
  "\<exists>x'. step demo_options demo_env ready_executor =
      (x', [ExecuteDirectMinting ''0xmanager'' demo_proof ''0xab'' 5], Inr ()) \<and>
    j_state (ex_job x') = executed \<and> j_flareTxHash (ex_job x') = Some ''0xhash''"
  using smooth_steps(5) [OF demo_smooth, of ready_executor]
  by (auto simp: ready_executor_def demo_options_def)

lemma pipeline_executed_means_minted_witness:
  "\<exists>hash rc. w_waitForTransactionReceipt demo_world hash = Inr rc \<and> \<not> rc_reverted rc \<and>
    findDelayedEvent demo_world (rc_logs rc) = None"
proof -
  obtain x' where x': "step demo_options demo_env ready_executor =
      (x', [ExecuteDirectMinting ''0xmanager'' demo_proof ''0xab'' 5], Inr ())"
    and e: "j_state (ex_job x') = executed"
    using ready_mints by blast
  have "j_state (ex_job ready_executor) \<noteq> executed" by (simp add: ready_executor_def)
  from pipeline_executed_means_minted [OF x' this e] show ?thesis
    unfolding demo_env_fields demo_world_fields by blast
qed


subsection \<open>Any run\<close>

text \<open>
  (C38) Once an attestation request is on the chain it is never sent again, as long as the steps of the job are
  taken one after another, as \<open>run\<close> takes them and ticks that do not overlap: from a job that has reached
  \<open>request_submitted\<close>, no sequence of steps, under any errors, delays and failing writes, asks the wallet for
  another one. Ticks that overlap can (\<open>overlap_attests_twice\<close> in \<open>Overlap\<close>).
\<close>

theorem pipeline_attests_once:
  assumes "pl.run P x ls x'" and "request_submitted \<le> j_state (ex_job x)"
  shows "request_submitted \<le> j_state (ex_job x') \<and> filter is_attestation (concat ls) = []"
  using pl_past.inv_run_label [OF assms]
  by (auto simp: list_all_iff no_attestation_def filter_empty_conv)

lemma pipeline_attests_once_witness:
  "\<exists>x'. pl.run demo_options ready_executor [[ExecuteDirectMinting ''0xmanager'' demo_proof ''0xab'' 5]] x' \<and>
    request_submitted \<le> j_state (ex_job x')"
proof -
  obtain x' where "step demo_options demo_env ready_executor =
      (x', [ExecuteDirectMinting ''0xmanager'' demo_proof ''0xab'' 5], Inr ())"
    using ready_mints by blast
  then have r: "pl.run demo_options ready_executor [[ExecuteDirectMinting ''0xmanager'' demo_proof ''0xab'' 5]] x'"
    by (intro pl.run_single) (auto simp: exec_trans_def)
  have "request_submitted \<le> j_state (ex_job ready_executor)"
    by (simp add: ready_executor_def state_order)
  with pipeline_attests_once [OF r] r show ?thesis by blast
qed

text \<open>
  (C9) What is executed is what was registered: over any run, every minting transaction goes to the
  AssetManager with the job's own user operation and exactly its call value, and no step changes
  the job's identity.
\<close>

theorem pipeline_pays_what_was_registered:
  assumes "pl.run P x ls x'"
  shows "job_identity (ex_job x') = job_identity (ex_job x) \<and>
    list_all (pays_for P (job_identity (ex_job x))) (concat ls)"
  using pl_pays.inv_run_label [OF assms, of "job_identity (ex_job x)"]
  by (auto simp: list_all_iff)

lemma pipeline_pays_what_was_registered_witness:
  "\<exists>x' ls. pl.run demo_options demo_executor ls x' \<and> job_identity (ex_job x') = job_identity demo_job"
proof -
  obtain x' ls where r: "pl.run demo_options demo_executor ls x'" using demo_pl_run by blast
  from pipeline_pays_what_was_registered [OF r] r show ?thesis by auto
qed

text \<open>
  (C14) Every job a run can reach is well formed: each state has the fields its branch reads without
  a check, a delayed job knows until when and by which transaction, a failed job has five attempts
  and a reason; and no step asks for more than one transaction.
\<close>

theorem pipeline_job_wf:
  assumes "pl.run P x ls x'" and "ex_job x = new_job now txId p"
  shows "job_wf (ex_job x') \<and> list_all (\<lambda>es. length es \<le> 1) ls"
proof -
  have "job_wf (ex_job x)" by (simp add: assms(2) new_job_def job_wf_def state_order)
  with pl_wf.inv_run_label [OF assms(1)] show ?thesis by blast
qed

lemma pipeline_job_wf_witness:
  "\<exists>x' ls. pl.run demo_options demo_executor ls x' \<and> job_wf (ex_job x')"
proof -
  obtain x' ls where r: "pl.run demo_options demo_executor ls x'" using demo_pl_run by blast
  have "ex_job demo_executor = new_job 1 demo_txid demo_create" by (simp add: demo_job_def)
  from pipeline_job_wf [OF r this] r show ?thesis by blast
qed

subsection \<open>Persistence\<close>

text \<open>
  A restart between two steps loses nothing: when the write of a step succeeds, the file of the
  job holds exactly the job in memory, so loading it resumes in the same state with the same
  request, round and proof.
\<close>

theorem pipeline_restart_resumes:
  assumes "synced x" and "se_write E = Written" and "step P E x = (x', es, r)"
  shows "r = Inr () \<and> job_load (j_id (ex_job x)) (ex_disk x') = Some (ex_job x')"
proof -
  have "j_id (ex_job x') = j_id (ex_job x)"
    using job_step_identity [OF step_refines [OF assms(3)]] by (simp add: job_identity_def)
  with step_synced [OF assms(3,2,1)] show ?thesis by (simp add: synced_def)
qed

lemma pipeline_restart_resumes_witness:
  "\<exists>es x'. step demo_options demo_env demo_executor = (x', es, Inr ()) \<and>
    job_load (j_id demo_job) (ex_disk x') = Some (ex_job x') \<and> j_state (ex_job x') = request_prepared"
proof -
  obtain x' where x': "step demo_options demo_env demo_executor = (x', [], Inr ())"
    "ex_job x' = next_job demo_env (demo_job\<lparr>j_abiEncodedRequest := Some ''0x5265'', j_state := request_prepared\<rparr>)"
    using smooth_steps(1) [OF demo_smooth, of demo_executor] by auto
  from pipeline_restart_resumes [OF demo_synced demo_env_fields(2) x'(1)] x'(2)
  have "job_load (j_id demo_job) (ex_disk x') = Some (ex_job x') \<and> j_state (ex_job x') = request_prepared"
    by simp
  with x'(1) show ?thesis by blast
qed

text \<open>
  \<open>create\<close> is idempotent: a transaction id in any accepted spelling names one job, keyed by its
  upper-case digits; a second \<open>create\<close> returns the job on disk unchanged, in whatever state it has
  reached, and writes nothing.
\<close>

theorem pipeline_create_idempotent:
  assumes "job_create now w p d = (d', Inr j)"
    and "normalizeXrplTxId (cp_xrplTxId q) = normalizeXrplTxId (cp_xrplTxId p)"
  shows "job_create now' w' q d' = (d', Inr j) \<and>
    (\<exists>txId. normalizeXrplTxId (cp_xrplTxId p) = Inr txId \<and> length txId = 66 \<and>
      job_load (drop 2 txId) d' = Some j)"
proof -
  obtain txId where t: "normalizeXrplTxId (cp_xrplTxId p) = Inr txId"
    and c: "job_load (js_slice_from 2 txId) d = Some j \<and> d' = d \<or>
      job_load (js_slice_from 2 txId) d = None \<and> w = Written \<and> j = new_job now txId p \<and>
      d' = AList.update (job_file (js_slice_from 2 txId)) (JsonFile j) d"
    using assms(1) by (rule job_create_Inr)
  then have "job_load (drop 2 txId) d' = Some j" by (auto simp: job_load_def)
  with t assms(2) show ?thesis by (auto simp: job_create_def normalized_length)
qed

lemma demo_normalized: "normalizeXrplTxId demo_txid = Inr demo_txid"
  by code_simp

lemma pipeline_create_idempotent_witness:
  "\<exists>d j. job_create 1 Written demo_create [] = (d, Inr j) \<and> job_create 9 Written demo_create d = (d, Inr j)"
proof -
  have i: "cp_xrplTxId demo_create = demo_txid" by (simp add: demo_create_def)
  have "j_updatedAt_update (\<lambda>_. 1) (new_job 1 demo_txid demo_create) = demo_job"
    by (simp add: demo_job_def new_job_def)
  then obtain d where c: "job_create 1 Written demo_create [] = (d, Inr demo_job)"
    by (simp add: job_create_def i demo_normalized job_load_def read_json_def job_save_def Let_def)
  from pipeline_create_idempotent [OF c refl] c show ?thesis by blast
qed

subsection \<open>Errors and delays\<close>

lemma catch_step_fields:
  assumes "j_state j1 = j_state j" "j_attempts j1 = j_attempts j" "j_xrplTxId j1 = j_xrplTxId j"
  shows "let j' = stamp E (catch_step W e j1) in
    if j_state j = proof_fetched \<and> isAlreadyConfirmed e \<and> isTransactionUsed W (j_xrplTxId j)
    then j_state j' = executed \<and> j_lastError j' = None \<and> j_attempts j' = j_attempts j
    else j_attempts j' = j_attempts j + 1 \<and> j_lastError j' = Some (err_message e) \<and>
      j_state j' = (if \<not> retryable e \<and> 5 \<le> j_attempts j + 1 then failed else j_state j)"
  using assms by (simp add: catch_step_def Let_def)

lemma threw_fields:
  assumes "tried P j es j1 \<or> undated P W j es e j1"
  shows "let j' = stamp E (catch_step W e j1) in
    if j_state j = proof_fetched \<and> isAlreadyConfirmed e \<and> isTransactionUsed W (j_xrplTxId j)
    then j_state j' = executed \<and> j_lastError j' = None \<and> j_attempts j' = j_attempts j
    else j_attempts j' = j_attempts j + 1 \<and> j_lastError j' = Some (err_message e) \<and>
      j_state j' = (if \<not> retryable e \<and> 5 \<le> j_attempts j + 1 then failed
        else if undated P W j es e j1 then delayed else j_state j)"
  using assms
proof
  assume t: "tried P j es j1"
  then have n: "undated P W j es e j1 \<longleftrightarrow> False" by (auto simp: undated_def dest: tried_fields(1))
  show ?thesis unfolding n if_False by (rule catch_step_fields [OF tried_fields [OF t]])
next
  assume u: "undated P W j es e j1"
  then have "j_state j1 = delayed" "j_attempts j1 = j_attempts j" "e = invalid_date" by (auto simp: undated_def)
  moreover have "\<not> isAlreadyConfirmed invalid_date" by code_simp
  ultimately show ?thesis using u by (simp add: catch_step_def Let_def)
qed

text \<open>
  The handling of errors, in full: when a branch throws, the attempt is counted and the message
  kept; the job is finished off only if the error is not lag and this was the fifth attempt or
  later, and otherwise stays where it was, unless another relayer's confirmation is on the chain, or
  the job was delayed to a date that cannot be printed.
\<close>

theorem pipeline_error_handling:
  assumes "act_value (try_step P E (j_state (ex_job x))) x = Inl e"
  shows "let j = ex_job x; j' = ex_job (fst (step P E x)); m = try_step P E (j_state j) in
    if j_state j = proof_fetched \<and> isAlreadyConfirmed e \<and> isTransactionUsed (se_world E) (j_xrplTxId j)
    then j_state j' = executed \<and> j_lastError j' = None \<and> j_attempts j' = j_attempts j
    else j_attempts j' = j_attempts j + 1 \<and> j_lastError j' = Some (err_message e) \<and>
      j_state j' = (if \<not> retryable e \<and> 5 \<le> j_attempts j + 1 then failed
        else if undated P (se_world E) j (act_effects m x) e (ex_job (fst (m x))) then delayed else j_state j)"
  unfolding Let_def step_error [OF assms]
  by (rule threw_fields [unfolded Let_def]) (use try_step_refines [where x = x and P = P and E = E] assms in auto)

text \<open>The witness: the network is down, so the first attempt of a new job throws.\<close>

lemma broken_request:
  "act_value (prepareRequest (se_world broken_env) tx owner) c = Inl (JsError ''fetch failed'')"
  by (simp add: prepareRequest_value broken_env_def)

lemma lagging_request:
  "act_value (prepareRequest (se_world lagging_env) tx owner) c =
    Inl (verifier_not_ready ''INVALID: TRANSACTION DOES NOT EXIST'' [])"
  by (simp add: prepareRequest_value lagging_env_def classify_verifier_def read_text_def not_text_def js_startsWith_def)

lemma pipeline_error_handling_witness:
  "j_attempts (ex_job (fst (step demo_options broken_env demo_executor))) = 1 \<and>
    j_state (ex_job (fst (step demo_options broken_env demo_executor))) = observed"
proof -
  have "act_value (try_step demo_options broken_env (j_state (ex_job demo_executor))) demo_executor =
      Inl (JsError ''fetch failed'')"
    by (simp add: act_simps broken_request)
  from pipeline_error_handling [OF this] show ?thesis by (simp add: Let_def undated_def)
qed

text \<open>
  Lag alone never fails a job, however long it lasts, but it uses up the budget of the errors
  that do: a job that has waited out \<open>n\<close> rounds of a lagging verifier has counted \<open>n\<close> attempts, and
  the first error of another kind then fails it as soon as \<open>n\<close> is four.
\<close>

theorem pipeline_lag_uses_up_attempts:
  assumes "j_state (ex_job x) = observed" and "j_attempts (ex_job x) = 0"
    and "act_value (prepareRequest (se_world E) (j_xrplTxId (ex_job x)) (Some (pl_account P))) (ex_fdc x) = Inl e"
    and "retryable e"
    and "act_value (prepareRequest (se_world E') (j_xrplTxId (ex_job x)) (Some (pl_account P))) (ex_fdc x) = Inl e'"
    and "\<not> retryable e'"
  shows "let y = ((\<lambda>x. fst (step P E x)) ^^ n) x in
    j_state (ex_job y) = observed \<and> j_attempts (ex_job y) = n \<and>
    j_state (ex_job (fst (step P E' y))) = (if 4 \<le> n then failed else observed)"
proof -
  let ?y = "((\<lambda>x. fst (step P E x)) ^^ n) x"
  have y: "j_state (ex_job ?y) = observed" "j_attempts (ex_job ?y) = n" "ex_fdc ?y = ex_fdc x"
    "j_xrplTxId (ex_job ?y) = j_xrplTxId (ex_job x)"
    using observed_lag [OF assms(1,3,4), of n] assms(2) by (simp_all add: Let_def)
  have "act_value (prepareRequest (se_world E') (j_xrplTxId (ex_job ?y)) (Some (pl_account P))) (ex_fdc ?y) = Inl e'"
    using assms(5) y by simp
  from observed_error(1) [OF y(1) this] show ?thesis using y assms(6) by (simp add: Let_def)
qed

lemma pipeline_lag_uses_up_attempts_witness:
  "j_state (ex_job (fst (step demo_options broken_env
      (((\<lambda>x. fst (step demo_options lagging_env x)) ^^ 4) demo_executor)))) = failed"
proof -
  have "retryable (verifier_not_ready ''INVALID: TRANSACTION DOES NOT EXIST'' [])"
    by (simp add: verifier_not_ready_def)
  from pipeline_lag_uses_up_attempts [OF _ _ lagging_request this broken_request,
      where x = demo_executor and P = demo_options and n = 4]
  show ?thesis by (simp add: Let_def)
qed

text \<open>
  A rate limit delays, it does not reject: a minting transaction that emits a delay event leaves
  the job delayed until that time, in which it sends nothing; after it the same job, with the same
  request and round, is ready to be executed again without a new payment.
\<close>

theorem pipeline_delay_resumes:
  assumes "job_step P E j es j'" and "j_state j' = delayed" and "j_state j \<noteq> delayed"
    and "step P E2 x = (x2, es2, r2)" and "ex_job x = j'"
  shows "j_state j = proof_fetched \<and> j_abiEncodedRequest j' = j_abiEncodedRequest j \<and> j_roundId j' = j_roundId j \<and>
    (\<exists>ms. j_executionAllowedAt j' = Some ms \<and> es2 = [] \<and>
      (if ms \<noteq> 0 \<and> se_now E2 < ms then ex_job x2 = j'
       else j_state (ex_job x2) = proof_fetched \<and> j_abiEncodedRequest (ex_job x2) = j_abiEncodedRequest j \<and>
         j_roundId (ex_job x2) = j_roundId j \<and> job_identity (ex_job x2) = job_identity j))"
proof -
  have st: "j_state j = proof_fetched" using job_step_moves [OF assms(1)] assms(2,3) by auto
  obtain ms where d: "j_executionAllowedAt j' = Some ms" "j_abiEncodedRequest j' = j_abiEncodedRequest j"
      "j_roundId j' = j_roundId j" "job_identity j' = job_identity j"
    using assms(1)
  proof (cases rule: job_step.cases)
    case (mint_delayed hash rc t)
    with that show ?thesis by simp
  next
    case (mint_undated hash rc t)
    with that show ?thesis by simp
  next
    case (retry j1 e)
    with assms(2) st show ?thesis by (simp add: tried_fields(1) [OF retry(3)])
  qed (use assms(2) st in \<open>simp_all add: terminal_def\<close>)
  have "try_step P E2 delayed x = (if still_delayed (se_now E2) j' then (x, [], Inr Return)
      else (x\<lparr>ex_job := j'\<lparr>j_state := proof_fetched\<rparr>\<rparr>, [], Inr Break))"
    by (simp add: assms(5) act_bind_def get_job_def act_result_def finish_def set_job_def)
  then have "es2 = [] \<and> (if still_delayed (se_now E2) j' then ex_job x2 = j'
      else ex_job x2 = stamp E2 (settled (j'\<lparr>j_state := proof_fetched\<rparr>)))"
    using assms(2,4,5)
    by (cases "still_delayed (se_now E2) j'")
      (auto simp: step_eq Let_def act_value_def act_effects_def saved_def simp del: try_step.simps)
  moreover have "still_delayed (se_now E2) j' = (ms \<noteq> 0 \<and> se_now E2 < ms)"
    using d(1) by (simp add: still_delayed_def)
  ultimately show ?thesis using d st by simp
qed


text \<open>A receipt with a delay event, and the step after it, for the witness.\<close>

definition delay_env :: step_env where
  "delay_env = demo_env\<lparr>se_world := demo_world
     \<lparr>w_waitForTransactionReceipt := (\<lambda>h. Inr \<lparr>rc_blockNumber = 17, rc_reverted = False,
        rc_logs = [\<lparr>log_data = ''0x'', log_topics = []\<rparr>]\<rparr>),
      w_decodeEventLog := (\<lambda>l. Inr \<lparr>ev_name = ''DirectMintingDelayed'', ev_executionAllowedAt = Some 60\<rparr>)\<rparr>\<rparr>"

definition delayed_job :: job where
  "delayed_job = stamp delay_env (settled (ex_job ready_executor
     \<lparr>j_flareTxHash := Some ''0xhash'', j_executionAllowedAt := Some (delay_ms 60), j_state := delayed\<rparr>))"

lemma demo_delay: "delay_ms 60 = 60000" "number_of_bigint 60 = 60"
  by (simp_all add: delay_ms_def number_of_bigint_exact)

lemma delay_step:
  "job_step demo_options delay_env (ex_job ready_executor)
     [ExecuteDirectMinting ''0xmanager'' demo_proof ''0xab'' 5] delayed_job"
  unfolding delayed_job_def
  by (rule mint_delayed [where rc = "\<lparr>rc_blockNumber = 17, rc_reverted = False,
        rc_logs = [\<lparr>log_data = ''0x'', log_topics = []\<rparr>]\<rparr>"])
    (simp_all add: ready_executor_def minted_def delay_env_def is_delay_event_def demo_delay date_ok_def)

lemma pipeline_delay_resumes_witness:
  "\<exists>x2 es2 r2. step demo_options (demo_env\<lparr>se_now := 60000\<rparr>) (demo_executor\<lparr>ex_job := delayed_job\<rparr>) = (x2, es2, r2) \<and>
    j_state (ex_job x2) = proof_fetched \<and> es2 = []"
proof -
  let ?x = "demo_executor\<lparr>ex_job := delayed_job\<rparr>" and ?E = "demo_env\<lparr>se_now := 60000\<rparr>"
  obtain x2 es2 r2 where s: "step demo_options ?E ?x = (x2, es2, r2)" by (metis prod_cases3)
  have "j_state delayed_job = delayed" "j_state (ex_job ready_executor) \<noteq> delayed"
    and t: "j_executionAllowedAt delayed_job = Some 60000"
    by (simp_all add: delayed_job_def ready_executor_def demo_delay)
  from pipeline_delay_resumes [OF delay_step this(1,2) s] t s show ?thesis by auto
qed

subsection \<open>The driver\<close>

text \<open>
  (C13) \<open>run\<close> returns: once the clock has passed the deadline, at the head of iteration \<open>m\<close>, fuel
  for \<open>m\<close> steps is enough. It returns with a finished job, past the deadline, or with the exception
  of a failed write; and what it did is a run of the steps above.
\<close>

theorem pipeline_run_returns:
  assumes "Now m > start + (case timeoutMs of None \<Rightarrow> 30 * 60000 | Some t \<Rightarrow> t)"
  shows "\<exists>x' ls r. run (Suc m) P Now Env start timeoutMs x = Some (x', concat ls, r) \<and> pl.run P x ls x' \<and>
    (case r of Inl _ \<Rightarrow> True
     | Inr _ \<Rightarrow> terminal (j_state (ex_job x')) \<or>
        (\<exists>k. Now k > start + (case timeoutMs of None \<Rightarrow> 30 * 60000 | Some t \<Rightarrow> t)))"
proof -
  let ?d = "start + (case timeoutMs of None \<Rightarrow> 30 * 60000 | Some t \<Rightarrow> t)"
  have "run_loop (Suc m) P Now Env ?d 0 x \<noteq> None"
    using assms by (intro run_loop_returns [of m]) simp_all
  then obtain x' es r where r: "run_loop (Suc m) P Now Env ?d 0 x = Some (x', es, r)"
    by (metis not_None_eq prod_cases3)
  from run_loop_result [OF r] r show ?thesis unfolding run_def by blast
qed

lemma pipeline_run_returns_witness:
  "\<exists>x' es r. run 4 demo_options (\<lambda>i. int i * 1000) (\<lambda>_. lagging_env) 0 (Some 2500) demo_executor = Some (x', es, r)"
proof -
  have "\<exists>x' ls r. run (Suc 3) demo_options (\<lambda>i. int i * 1000) (\<lambda>_. lagging_env) 0 (Some 2500) demo_executor =
      Some (x', concat ls, r)"
    using pipeline_run_returns [where Now = "\<lambda>i. int i * 1000" and m = 3 and start = 0
        and timeoutMs = "Some 2500" and P = demo_options and Env = "\<lambda>_. lagging_env" and x = demo_executor]
    by (simp del: run_loop.simps) blast
  then show ?thesis by (simp del: run_loop.simps add: eval_nat_numeral) blast
qed

text \<open>
  The undisturbed run: when every server and contract answers and nothing is delayed, a new job
  is executed after five steps, with exactly two transactions in this order: the attestation
  request for its payment, and the minting with its proof, its user operation and its call value.
\<close>

theorem pipeline_happy_path:
  assumes "smooth P E (ex_job x) req r pf v hash rc" and "j_state (ex_job x) = observed"
    and "\<And>i. Now i \<le> start + 30 * 60000"
  shows "\<exists>x' hub fee. run (6 + n) P Now (\<lambda>_. E) start None x =
      Some (x', [RequestAttestation hub (Some req) fee,
        ExecuteDirectMinting (pl_assetManager P) pf (j_userOpData (ex_job x)) v], Inr ()) \<and>
    j_state (ex_job x') = executed \<and> j_flareTxHash (ex_job x') = Some hash"
  using run_loop_smooth [OF assms(1,2), of Now "start + 30 * 60000" n 0] assms(3)
  by (simp add: run_def del: run_loop.simps)

lemma pipeline_happy_path_witness:
  "\<exists>x' es. run 9 demo_options (\<lambda>_. 0) (\<lambda>_. demo_env) 0 None demo_executor = Some (x', es, Inr ()) \<and>
    length es = 2 \<and> j_state (ex_job x') = executed"
proof -
  have "smooth demo_options demo_env (ex_job demo_executor) ''0x5265'' 10 demo_proof 5 ''0xhash'' demo_receipt"
    and "j_state (ex_job demo_executor) = observed"
    using demo_smooth by simp_all
  from pipeline_happy_path [OF this, of "\<lambda>_. 0" 0 3] show ?thesis by fastforce
qed

end
