(* ===== verification/Watcher.thy ===== *)
theory Watcher
  imports Memo Store
begin

text \<open>
  \<open>packages/executor/src/watcher.ts\<close>: the filter of the Core Vault's payments, its cursor and the
  set of payments it has reported.

  The answer of \<open>account_tx\<close> is typed as the interface \<open>AccountTxEntry\<close> of the source; a payment's
  own fields stay JSON values. A \<open>hash\<close> inside the payment that is not text counts as absent, and the
  reported amount and sender are the values \<open>String(...)\<close> prints.
\<close>

subsection \<open>The commitment of a payment\<close>

text \<open>\<open>wrapper?.Memo?.MemoData\<close>, when it is text.\<close>

definition memo_data :: "json \<Rightarrow> js_str option" where
  "memo_data wrapper =
    (case json_get wrapper ''Memo'' of
       None \<Rightarrow> None
     | Some m \<Rightarrow> (case json_get m ''MemoData'' of Some (JStr d) \<Rightarrow> Some d | _ \<Rightarrow> None))"

definition committed_hash :: "js_str \<Rightarrow> js_str option" where
  "committed_hash d = (case decodeMemo (buffer_from_hex d) of
     Inr (DecExecuteCommitted _ _ h) \<Rightarrow> Some h
   | _ \<Rightarrow> None)"

fun memos_loop :: "json list \<Rightarrow> js_str option" where
  "memos_loop [] = None"
| "memos_loop (wrapper # ws) =
    (case memo_data wrapper of
       None \<Rightarrow> memos_loop ws
     | Some d \<Rightarrow> (case committed_hash d of Some h \<Rightarrow> Some h | None \<Rightarrow> memos_loop ws))"

definition commitmentFromMemos :: "json \<Rightarrow> js_str option" where
  "commitmentFromMemos tx =
    (case json_get tx ''Memos'' of Some (JArr memos) \<Rightarrow> memos_loop memos | _ \<Rightarrow> None)"

subsection \<open>The poll\<close>

record account_tx_entry =
  e_hash :: "js_str option"
  e_ledger_index :: "int option"
  e_validated :: "bool option"
  e_tx_json :: "json option"
  e_tx :: "json option"

record account_tx_params =
  q_account :: js_str
  q_limit :: int
  q_ledger_index_min :: int

record observed_payment =
  xrplTxId :: js_str
  ob_commitment :: js_str
  ob_amount :: json
  ob_sender :: json
  ob_ledgerIndex :: int

record watcher =
  w_lastLedger :: int
  w_seen :: "js_str set"

definition new_Watcher :: watcher where
  "new_Watcher = \<lparr>w_lastLedger = 0, w_seen = {}\<rparr>"

definition setStartLedger :: "int \<Rightarrow> watcher \<Rightarrow> watcher" where
  "setStartLedger i w = w\<lparr>w_lastLedger := i\<rparr>"

definition seenCount :: "watcher \<Rightarrow> nat" where
  "seenCount w = card (w_seen w)"

text \<open>\<open>a ?? b\<close> on JSON values and \<open>!tx\<close>.\<close>

definition nullish :: "json option \<Rightarrow> json option \<Rightarrow> json option" where
  "nullish a b = (case a of None \<Rightarrow> b | Some JNull \<Rightarrow> b | Some v \<Rightarrow> Some v)"

fun json_truthy :: "json \<Rightarrow> bool" where
  "json_truthy JNull \<longleftrightarrow> False"
| "json_truthy (JBool b) \<longleftrightarrow> b"
| "json_truthy (JNum n) \<longleftrightarrow> n \<noteq> Finite 0 \<and> n \<noteq> NaN"
| "json_truthy (JStr s) \<longleftrightarrow> s \<noteq> []"
| "json_truthy (JArr _) \<longleftrightarrow> True"
| "json_truthy (JObj _) \<longleftrightarrow> True"

definition entry_tx :: "account_tx_entry \<Rightarrow> json option" where
  "entry_tx entry = nullish (e_tx_json entry) (e_tx entry)"

definition is_payment :: "json option \<Rightarrow> bool" where
  "is_payment tx \<longleftrightarrow> (case tx of
     None \<Rightarrow> False
   | Some t \<Rightarrow> json_truthy t \<and> json_get t ''TransactionType'' = Some (JStr ''Payment''))"

definition entry_hash :: "account_tx_entry \<Rightarrow> json \<Rightarrow> js_str option" where
  "entry_hash entry tx = (case e_hash entry of
     Some h \<Rightarrow> Some h
   | None \<Rightarrow> (case json_get tx ''hash'' of Some (JStr h) \<Rightarrow> Some h | _ \<Rightarrow> None))"

definition entry_ledger :: "account_tx_entry \<Rightarrow> int" where
  "entry_ledger entry = (case e_ledger_index entry of None \<Rightarrow> 0 | Some i \<Rightarrow> i)"

definition observe :: "js_str \<Rightarrow> js_str \<Rightarrow> account_tx_entry \<Rightarrow> json \<Rightarrow> observed_payment" where
  "observe hash commitment entry tx =
    \<lparr>xrplTxId = hash, ob_commitment = commitment,
     ob_amount = (case nullish (json_get tx ''Amount'') None of None \<Rightarrow> JStr ''0'' | Some a \<Rightarrow> a),
     ob_sender = (case nullish (json_get tx ''Account'') None of None \<Rightarrow> JStr [] | Some a \<Rightarrow> a),
     ob_ledgerIndex = entry_ledger entry\<rparr>"

text \<open>
  One round of the loop: the watcher, the store (a lookup can fill its memory) and the payment, if
  the entry is one to report.
\<close>

definition poll_entry ::
    "account_tx_entry \<Rightarrow> watcher \<Rightarrow> pending_store \<Rightarrow> watcher \<times> pending_store \<times> observed_payment option" where
  "poll_entry entry w s =
    (if e_validated entry = Some False \<or> \<not> is_payment (entry_tx entry) then (w, s, None)
     else
       let tx = the (entry_tx entry);
           w1 = (if entry_ledger entry > w_lastLedger w
                 then w\<lparr>w_lastLedger := entry_ledger entry\<rparr> else w)
       in (case entry_hash entry tx of
             Some h \<Rightarrow>
               (if h \<noteq> [] \<and> h \<in> w_seen w1 then (w1, s, None)
                else (case commitmentFromMemos tx of
                  None \<Rightarrow> (w1, s, None)
                | Some c \<Rightarrow>
                    (let (s1, pending) = ps_get c s in
                     case pending of
                       None \<Rightarrow> (w1, s1, None)
                     | Some _ \<Rightarrow>
                        (if h = [] then (w1, s1, None)
                         else (w1\<lparr>w_seen := insert h (w_seen w1)\<rparr>, s1, Some (observe h c entry tx))))))
           | None \<Rightarrow>
               (case commitmentFromMemos tx of
                  None \<Rightarrow> (w1, s, None)
                | Some c \<Rightarrow> (w1, fst (ps_get c s), None))))"

fun poll_loop ::
    "account_tx_entry list \<Rightarrow> watcher \<Rightarrow> pending_store \<Rightarrow> watcher \<times> pending_store \<times> observed_payment list" where
  "poll_loop [] w s = (w, s, [])"
| "poll_loop (entry # es) w s =
    (let (w1, s1, found) = poll_entry entry w s;
         (w2, s2, rest) = poll_loop es w1 s1
     in (w2, s2, (case found of None \<Rightarrow> rest | Some p \<Rightarrow> p # rest)))"

definition poll_params :: "js_str \<Rightarrow> int \<Rightarrow> watcher \<Rightarrow> account_tx_params" where
  "poll_params vault limit w =
    \<lparr>q_account = vault, q_limit = limit,
     q_ledger_index_min = (if w_lastLedger w > 0 then w_lastLedger w else - 1)\<rparr>"

text \<open>\<open>rpc\<close> is \<open>xrpl.call("account_tx", params)\<close>: an exception, or the list \<open>transactions\<close>.\<close>

definition poll ::
    "(account_tx_params \<Rightarrow> js_error + account_tx_entry list option) \<Rightarrow> js_str \<Rightarrow> int \<Rightarrow>
     watcher \<Rightarrow> pending_store \<Rightarrow> watcher \<times> pending_store \<times> (js_error + observed_payment list)" where
  "poll rpc vault limit w s =
    (case rpc (poll_params vault limit w) of
       Inl e \<Rightarrow> (w, s, Inl e)
     | Inr transactions \<Rightarrow>
        (let (w', s', found) = poll_loop (case transactions of None \<Rightarrow> [] | Some es \<Rightarrow> es) w s
         in (w', s', Inr found)))"

subsection \<open>The commitment\<close>

lemma buffer_from_memo_hex [simp]: "buffer_from_hex (toXrplMemoHex m) = m"
proof -
  have "hex_body (toXrplMemoHex m)" by (simp add: toXrplMemoHex_def)
  then show ?thesis by (simp add: buffer_from_hex_body) (simp add: toXrplMemoHex_def)
qed

lemma committed_hash_encoded:
  "decodeMemo m = Inr (DecExecuteCommitted w fee h) \<Longrightarrow> committed_hash (toXrplMemoHex m) = Some h"
  by (simp add: committed_hash_def)

lemma canonical_toHex: "canonical_commitment (toHex bs)"
  by (simp add: canonical_commitment_def)

lemma committed_hash_canonical:
  assumes "committed_hash d = Some c"
  shows "canonical_commitment c \<and> length c = 66"
proof -
  obtain w fee where d: "decodeMemo (buffer_from_hex d) = Inr (DecExecuteCommitted w fee c)"
    using assms by (auto simp: committed_hash_def split: sum.splits decoded_memo.splits)
  obtain w' fee' r where "w' < 256" "0 \<le> fee'" "fee' < 2 ^ 64"
    and "buffer_from_hex d = header_bytes EXECUTE_COMMITTED w' fee' @ r"
    using d by (rule decodeMemo_shape) (simp only: decoded_opcode.simps)
  with d have "c = toHex r" and "length r = 32"
    by (auto simp: decode_header split: if_splits)
  then show ?thesis by (simp add: canonical_toHex)
qed

lemma commitmentFromMemos_canonical:
  assumes "commitmentFromMemos tx = Some c"
  shows "canonical_commitment c \<and> length c = 66"
proof -
  have "canonical_commitment c \<and> length c = 66" if "memos_loop ms = Some c" for ms
    using that by (induction ms) (auto split: option.splits dest: committed_hash_canonical)
  with assms show ?thesis
    by (auto simp: commitmentFromMemos_def split: option.splits json.splits)
qed

text \<open>The JSON form of a payment's memo array.\<close>

definition memo_json :: "js_str \<Rightarrow> json" where
  "memo_json d = JObj [(''Memo'', JObj [(''MemoData'', JStr d)])]"

lemma memo_data_json [simp]: "memo_data (memo_json d) = Some d"
  by (simp add: memo_data_def memo_json_def)

lemma memos_loop_skip:
  "list_all (\<lambda>d. committed_hash d = None) ds \<Longrightarrow> memos_loop (map memo_json ds @ ws) = memos_loop ws"
  by (induction ds) simp_all

subsection \<open>One entry\<close>

text \<open>When an entry is a payment to report, under which hash and for which commitment.\<close>

definition considered :: "account_tx_entry \<Rightarrow> bool" where
  "considered e \<longleftrightarrow> e_validated e \<noteq> Some False \<and> is_payment (entry_tx e)"

definition reportable :: "pending_store \<Rightarrow> account_tx_entry \<Rightarrow> js_str \<Rightarrow> js_str \<Rightarrow> bool" where
  "reportable s e h c \<longleftrightarrow> considered e \<and> h \<noteq> [] \<and> entry_hash e (the (entry_tx e)) = Some h \<and>
     commitmentFromMemos (the (entry_tx e)) = Some c \<and> snd (ps_get c s) \<noteq> None"

lemma poll_entry_found:
  "snd (snd (poll_entry e w s)) = Some p \<longleftrightarrow>
    (\<exists>h c. reportable s e h c \<and> h \<notin> w_seen w \<and> p = observe h c e (the (entry_tx e)))"
  by (auto simp: poll_entry_def reportable_def considered_def Let_def case_prod_beta
      split: option.splits)

lemma poll_entry_seen:
  "w_seen (fst (poll_entry e w s)) =
    (case snd (snd (poll_entry e w s)) of None \<Rightarrow> w_seen w | Some p \<Rightarrow> insert (xrplTxId p) (w_seen w))"
  by (auto simp: poll_entry_def Let_def case_prod_beta observe_def split: option.splits)

lemma poll_entry_ledger:
  "w_lastLedger (fst (poll_entry e w s)) =
    (if considered e then max (w_lastLedger w) (entry_ledger e) else w_lastLedger w)"
  by (auto simp: poll_entry_def considered_def Let_def case_prod_beta max_def split: option.splits)

lemma poll_entry_store:
  "fst (snd (poll_entry e w s)) = s \<or>
   (\<exists>c. canonical_commitment c \<and> fst (snd (poll_entry e w s)) = fst (ps_get c s))"
proof -
  have "fst (snd (poll_entry e w s)) = s \<or>
    (\<exists>c. commitmentFromMemos (the (entry_tx e)) = Some c \<and> fst (snd (poll_entry e w s)) = fst (ps_get c s))"
    by (auto simp: poll_entry_def Let_def case_prod_beta split: option.splits)
  then show ?thesis by (blast dest: commitmentFromMemos_canonical)
qed

lemma poll_entry_same: "ps.same_answers s (fst (snd (poll_entry e w s)))"
  using poll_entry_store [of e w s] ps.same_answers_refl ps.same_answers_lookup by metis

lemma poll_entry_inv: "sound_hash_inv V s \<Longrightarrow> sound_hash_inv V (fst (snd (poll_entry e w s)))"
  using poll_entry_store [of e w s] ps.inv_lookup by metis

lemma reportable_same:
  "ps.same_answers s s' \<Longrightarrow> reportable s' e h c \<longleftrightarrow> reportable s e h c"
  unfolding reportable_def
  using ps.same_answersD [of s s' c] commitmentFromMemos_canonical by metis

subsection \<open>The loop\<close>

lemma poll_loop_Cons:
  "fst (poll_loop (e # es) w s) = fst (poll_loop es (fst (poll_entry e w s)) (fst (snd (poll_entry e w s))))"
  "fst (snd (poll_loop (e # es) w s)) =
    fst (snd (poll_loop es (fst (poll_entry e w s)) (fst (snd (poll_entry e w s)))))"
  "snd (snd (poll_loop (e # es) w s)) =
    (case snd (snd (poll_entry e w s)) of None \<Rightarrow> [] | Some p \<Rightarrow> [p]) @
    snd (snd (poll_loop es (fst (poll_entry e w s)) (fst (snd (poll_entry e w s)))))"
  by (simp_all add: case_prod_beta Let_def split: option.split)

lemma poll_loop_store:
  "ps.same_answers s (fst (snd (poll_loop es w s)))"
  "sound_hash_inv V s \<Longrightarrow> sound_hash_inv V (fst (snd (poll_loop es w s)))"
proof (induction es arbitrary: w s)
  case (Cons e es)
  case 1
  show ?case
    using Cons.IH(1) [of "fst (snd (poll_entry e w s))" "fst (poll_entry e w s)"] poll_entry_same [of s e w]
    unfolding poll_loop_Cons ps.same_answers_def by metis
  case 2
  then show ?case unfolding poll_loop_Cons by (intro Cons.IH(2) poll_entry_inv)
qed (simp_all add: ps.same_answers_refl)

lemma poll_loop_seen:
  "w_seen (fst (poll_loop es w s)) = w_seen w \<union> xrplTxId ` set (snd (snd (poll_loop es w s)))"
proof (induction es arbitrary: w s)
  case (Cons e es)
  show ?case unfolding poll_loop_Cons Cons.IH poll_entry_seen by (auto split: option.splits)
qed simp

lemma poll_loop_fresh:
  "distinct (map xrplTxId (snd (snd (poll_loop es w s)))) \<and>
   xrplTxId ` set (snd (snd (poll_loop es w s))) \<inter> w_seen w = {}"
proof (induction es arbitrary: w s)
  case (Cons e es)
  let ?w = "fst (poll_entry e w s)" and ?s = "fst (snd (poll_entry e w s))"
  show ?case
  proof (cases "snd (snd (poll_entry e w s))")
    case None
    then show ?thesis using Cons.IH [of ?w ?s] unfolding poll_loop_Cons poll_entry_seen by simp
  next
    case (Some p)
    then have "xrplTxId p \<notin> w_seen w" by (auto simp: poll_entry_found observe_def)
    with Some show ?thesis using Cons.IH [of ?w ?s] unfolding poll_loop_Cons poll_entry_seen by auto
  qed
qed simp

lemma poll_loop_ledger:
  "w_lastLedger w \<le> w_lastLedger (fst (poll_loop es w s))"
proof (induction es arbitrary: w s)
  case (Cons a es)
  have "w_lastLedger w \<le> w_lastLedger (fst (poll_entry a w s))" by (simp add: poll_entry_ledger)
  then show ?case unfolding poll_loop_Cons using Cons.IH by (rule order_trans)
qed simp

lemma poll_loop_ledger_entry:
  assumes "e \<in> set es" and "considered e"
  shows "entry_ledger e \<le> w_lastLedger (fst (poll_loop es w s))"
  using assms
proof (induction es arbitrary: w s)
  case (Cons a es)
  show ?case
  proof (cases "e = a")
    case True
    with Cons.prems have "entry_ledger e \<le> w_lastLedger (fst (poll_entry a w s))"
      by (simp add: poll_entry_ledger)
    then show ?thesis unfolding poll_loop_Cons using poll_loop_ledger by (rule order_trans)
  next
    case False
    with Cons.prems show ?thesis unfolding poll_loop_Cons by (intro Cons.IH) simp_all
  qed
qed simp

lemma poll_loop_sound:
  assumes "p \<in> set (snd (snd (poll_loop es w s)))"
  shows "\<exists>e h c. e \<in> set es \<and> reportable s e h c \<and> p = observe h c e (the (entry_tx e))"
  using assms
proof (induction es arbitrary: w s)
  case (Cons e es)
  let ?w = "fst (poll_entry e w s)" and ?s = "fst (snd (poll_entry e w s))"
  from Cons.prems consider "snd (snd (poll_entry e w s)) = Some p" | "p \<in> set (snd (snd (poll_loop es ?w ?s)))"
    unfolding poll_loop_Cons by (auto split: option.splits)
  then show ?case
  proof cases
    case 1
    then show ?thesis by (auto simp: poll_entry_found)
  next
    case 2
    from Cons.IH [OF this] show ?thesis
      using reportable_same [OF poll_entry_same] by (metis list.set_intros(2))
  qed
qed simp

lemma poll_loop_complete:
  assumes "e \<in> set es" and "reportable s e h c"
  shows "h \<in> w_seen (fst (poll_loop es w s))"
  using assms
proof (induction es arbitrary: w s)
  case (Cons a es)
  let ?w = "fst (poll_entry a w s)" and ?s = "fst (snd (poll_entry a w s))"
  show ?case
  proof (cases "e = a")
    case True
    have "h \<in> w_seen ?w"
    proof (cases "h \<in> w_seen w")
      case False
      with Cons.prems True have "snd (snd (poll_entry a w s)) = Some (observe h c a (the (entry_tx a)))"
        by (auto simp: poll_entry_found)
      then show ?thesis by (simp add: poll_entry_seen observe_def)
    qed (auto simp: poll_entry_seen split: option.split)
    then show ?thesis unfolding poll_loop_Cons using poll_loop_seen [of es ?w ?s] by blast
  next
    case False
    with Cons.prems have "e \<in> set es" and "reportable ?s e h c"
      using reportable_same [OF poll_entry_same] by auto
    then show ?thesis unfolding poll_loop_Cons by (rule Cons.IH)
  qed
qed simp


subsection \<open>Several polls\<close>

text \<open>The payments reported by polls in a row, each with its own answer of the ledger.\<close>

fun polls ::
    "(account_tx_params \<Rightarrow> js_error + account_tx_entry list option) list \<Rightarrow> js_str \<Rightarrow> int \<Rightarrow>
     watcher \<Rightarrow> pending_store \<Rightarrow> watcher \<times> pending_store \<times> observed_payment list" where
  "polls [] vault limit w s = (w, s, [])"
| "polls (rpc # rpcs) vault limit w s =
    (let (w1, s1, r) = poll rpc vault limit w s;
         (w2, s2, rest) = polls rpcs vault limit w1 s1
     in (w2, s2, (case r of Inl _ \<Rightarrow> rest | Inr found \<Rightarrow> found @ rest)))"

definition answer_entries :: "js_error + account_tx_entry list option \<Rightarrow> account_tx_entry list" where
  "answer_entries a = (case a of Inr (Some es) \<Rightarrow> es | _ \<Rightarrow> [])"

lemma poll_eq:
  "fst (poll rpc vault l w s) = fst (poll_loop (answer_entries (rpc (poll_params vault l w))) w s)"
  "fst (snd (poll rpc vault l w s)) = fst (snd (poll_loop (answer_entries (rpc (poll_params vault l w))) w s))"
  "(case snd (snd (poll rpc vault l w s)) of Inl _ \<Rightarrow> [] | Inr found \<Rightarrow> found) =
    snd (snd (poll_loop (answer_entries (rpc (poll_params vault l w))) w s))"
  by (auto simp: poll_def answer_entries_def case_prod_beta Let_def split: sum.split option.split)

lemma polls_fresh:
  "distinct (map xrplTxId (snd (snd (polls rpcs vault l w s)))) \<and>
   xrplTxId ` set (snd (snd (polls rpcs vault l w s))) \<inter> w_seen w = {} \<and>
   w_lastLedger w \<le> w_lastLedger (fst (polls rpcs vault l w s))"
proof (induction rpcs arbitrary: w s)
  case (Cons rpc rpcs)
  let ?w = "fst (poll rpc vault l w s)" and ?s = "fst (snd (poll rpc vault l w s))"
  let ?es = "answer_entries (rpc (poll_params vault l w))"
  have eq: "snd (snd (polls (rpc # rpcs) vault l w s)) =
      snd (snd (poll_loop ?es w s)) @ snd (snd (polls rpcs vault l ?w ?s))"
    "fst (polls (rpc # rpcs) vault l w s) = fst (polls rpcs vault l ?w ?s)"
    unfolding poll_eq(3) [symmetric] by (simp_all add: case_prod_beta Let_def split: sum.split)
  have seen: "w_seen ?w = w_seen w \<union> xrplTxId ` set (snd (snd (poll_loop ?es w s)))"
    by (simp add: poll_eq poll_loop_seen)
  have led: "w_lastLedger w \<le> w_lastLedger ?w" by (simp add: poll_eq poll_loop_ledger)
  from Cons.IH [of ?w ?s] led poll_loop_fresh [of ?es w s] show ?case
    unfolding eq seen by auto
qed simp

lemma poll_found_Inr:
  assumes "poll rpc vault l w s = (w', s', Inr found)"
  shows "w' = fst (poll_loop (answer_entries (rpc (poll_params vault l w))) w s)"
    and "s' = fst (snd (poll_loop (answer_entries (rpc (poll_params vault l w))) w s))"
    and "found = snd (snd (poll_loop (answer_entries (rpc (poll_params vault l w))) w s))"
  using poll_eq [of rpc vault l w s] assms by simp_all

lemma poll_found_sound:
  assumes "poll rpc vault l w s = (w', s', Inr found)" and "p \<in> set found"
  shows "\<exists>e h c. e \<in> set (answer_entries (rpc (poll_params vault l w))) \<and> reportable s e h c \<and> h \<notin> w_seen w \<and>
    p = observe h c e (the (entry_tx e))"
proof -
  let ?es = "answer_entries (rpc (poll_params vault l w))"
  obtain e h c where "e \<in> set ?es" "reportable s e h c" "p = observe h c e (the (entry_tx e))"
    using poll_loop_sound assms(2) unfolding poll_found_Inr(3) [OF assms(1)] by blast
  moreover from this(3) have "h \<notin> w_seen w"
    using poll_loop_fresh [of ?es w s] assms(2) by (force simp: poll_found_Inr(3) [OF assms(1)] observe_def)
  ultimately show ?thesis by blast
qed

lemma poll_found_complete:
  assumes "poll rpc vault l w s = (w', s', Inr found)"
    and "e \<in> set (answer_entries (rpc (poll_params vault l w)))" and "reportable s e h c" and "h \<notin> w_seen w"
  shows "h \<in> xrplTxId ` set found"
  using poll_loop_complete [OF assms(2,3), of w] assms(4) poll_loop_seen by (auto simp: poll_found_Inr(3) [OF assms(1)])

subsection \<open>Properties\<close>

text \<open>
  The commitment of a payment is recovered from the memo the SDK put on it, whatever other
  memos come before it, as long as none of those is itself a commitment.
\<close>

theorem watcher_recovers_commitment:
  assumes "isHex_doc V" and "encodeExecuteCommittedMemo V h c = Inr m"
    and "list_all (\<lambda>d. committed_hash d = None) ds"
    and "json_get tx ''Memos'' = Some (JArr (map memo_json ds @ memo_json (toXrplMemoHex m) # ws))"
  shows "commitmentFromMemos tx = Some (js_toLowerCase c)"
proof -
  have m: "header_ok h" "hex_string c" "length c = 66"
    "m = header_bytes EXECUTE_COMMITTED (header_wallet h) (executorFeeUBA h) @ body_bytes (drop 2 c)"
    using assms(1,2) by (simp_all add: encodeExecuteCommittedMemo_Inr)
  have "header_wallet h < 256"
    unfolding header_wallet_def using unsigned_less [of "num_to_uint8 (header_number h)"] by simp
  with m have "decodeMemo m =
      Inr (DecExecuteCommitted (header_wallet h) (executorFeeUBA h) (js_toLowerCase c))"
    by (simp add: decode_header header_ok_def toHex_body_bytes)
  then have "committed_hash (toXrplMemoHex m) = Some (js_toLowerCase c)"
    by (rule committed_hash_encoded)
  with assms(3,4) show ?thesis by (simp add: commitmentFromMemos_def memos_loop_skip)
qed

definition demo_tx :: json where
  "demo_tx = JObj [(''TransactionType'', JStr ''Payment''),
     (''Memos'', JArr (map memo_json [''ABCD''] @ memo_json (toXrplMemoHex demo_memo) # []))]"

lemma watcher_recovers_commitment_witness:
  "commitmentFromMemos demo_tx = Some (js_toLowerCase demo_hash)"
proof (rule watcher_recovers_commitment [OF demo_viem_docs(1)])
  show "encodeExecuteCommittedMemo demo_viem (mk_header 7 258) demo_hash = Inr demo_memo"
    using demo_memo_encodes by (simp add: demo_decoded_def)
  have "committed_hash ''ABCD'' = None" by code_simp
  then show "list_all (\<lambda>d. committed_hash d = None) [''ABCD'']" by simp
qed (simp add: demo_tx_def)

text \<open>
  (C22) A poll reports exactly the payments it should: those validated payments to the vault whose
  memo commits to a payload the store holds and which were not reported before. Nothing else is
  reported, none of them is missed, and each is reported once.
\<close>

theorem watcher_poll_exact:
  assumes "poll rpc vault l w s = (w', s', Inr found)"
  shows "set (map xrplTxId found) =
      {h. \<exists>e c. e \<in> set (answer_entries (rpc (poll_params vault l w))) \<and> reportable s e h c} - w_seen w \<and>
    distinct (map xrplTxId found) \<and>
    w_seen w' = w_seen w \<union> set (map xrplTxId found)"
proof -
  let ?es = "answer_entries (rpc (poll_params vault l w))"
  note f = poll_found_Inr [OF assms]
  have "xrplTxId p \<in> {h. \<exists>e c. e \<in> set ?es \<and> reportable s e h c} - w_seen w" if "p \<in> set found" for p
    using poll_found_sound [OF assms that] by (fastforce simp: observe_def)
  moreover have "h \<in> xrplTxId ` set found"
    if "e \<in> set ?es" "reportable s e h c" "h \<notin> w_seen w" for e h c
    using poll_found_complete [OF assms that] .
  ultimately show ?thesis
    using poll_loop_fresh [of ?es w s] poll_loop_seen [of ?es w s] unfolding f by auto
qed

text \<open>An entry of the ledger that carries the demo registration's commitment.\<close>

definition demo_registered_memo :: bytes where
  "demo_registered_memo = header_bytes EXECUTE_COMMITTED 0 0 @ 0xab # replicate 31 0"

definition demo_entry_tx :: account_tx_entry where
  "demo_entry_tx = \<lparr>e_hash = Some ''AB12'', e_ledger_index = Some 90, e_validated = Some True,
     e_tx_json = Some (JObj [(''TransactionType'', JStr ''Payment''),
       (''Memos'', JArr [memo_json (toXrplMemoHex demo_registered_memo)])]), e_tx = None\<rparr>"

definition demo_rpc :: "account_tx_params \<Rightarrow> js_error + account_tx_entry list option" where
  "demo_rpc q = Inr (Some [demo_entry_tx, demo_entry_tx])"

lemma demo_commitment_from_memos:
  "commitmentFromMemos (the (entry_tx demo_entry_tx)) = Some demo_commitment"
proof -
  have "toHex (0xab # replicate 31 0) = demo_commitment" by code_simp
  then have "committed_hash (toXrplMemoHex demo_registered_memo) = Some demo_commitment"
    by (intro committed_hash_encoded [of _ 0 0]) (simp add: demo_registered_memo_def decode_header)
  then show ?thesis
    by (simp add: demo_entry_tx_def entry_tx_def nullish_def commitmentFromMemos_def)
qed

lemma demo_reportable: "reportable demo_store demo_entry_tx ''AB12'' demo_commitment"
  using demo_commitment_from_memos demo_store_get
  by (simp add: reportable_def considered_def is_payment_def)
    (simp add: demo_entry_tx_def entry_tx_def nullish_def entry_hash_def)

lemma watcher_poll_exact_witness:
  "\<exists>w' s' found. poll demo_rpc ''rVault'' 30 new_Watcher demo_store = (w', s', Inr found) \<and>
    set (map xrplTxId found) = {''AB12''}"
proof -
  obtain w' s' found where p: "poll demo_rpc ''rVault'' 30 new_Watcher demo_store = (w', s', Inr found)"
    by (auto simp: poll_def demo_rpc_def case_prod_beta Let_def)
  have "{h. \<exists>e c. e \<in> set (answer_entries (demo_rpc q)) \<and> reportable demo_store e h c} = {''AB12''}" for q
    using demo_reportable
    by (auto simp: answer_entries_def demo_rpc_def reportable_def demo_entry_tx_def entry_hash_def)
  with watcher_poll_exact [OF p] p show ?thesis by (simp add: new_Watcher_def)
qed

text \<open>
  (C23) Over any sequence of polls, with any answers of the ledger and failures in between, no
  payment is reported twice, and the cursor never moves back.
\<close>

theorem watcher_never_repeats:
  "distinct (map xrplTxId (snd (snd (polls rpcs vault l w s)))) \<and>
   xrplTxId ` set (snd (snd (polls rpcs vault l w s))) \<inter> w_seen w = {} \<and>
   w_lastLedger w \<le> w_lastLedger (fst (polls rpcs vault l w s))"
  by (rule polls_fresh)

text \<open>
  A reported payment is backed by bytes: with a store that verifies what it registers, the
  payload a later lookup returns for the reported commitment hashes to it, and the poll has not
  disturbed the store.
\<close>

theorem watcher_reports_verified:
  assumes "keccak256_doc V" and "store_inv V s" and "poll rpc vault l w s = (w', s', Inr found)"
    and "p \<in> set found"
  shows "\<exists>r. snd (ps_get (ob_commitment p) s') = Some r \<and>
    keccak256 V (po_userOpData r) = Inr (ob_commitment p) \<and> store_inv V s'"
proof -
  let ?es = "answer_entries (rpc (poll_params vault l w))"
  note f = poll_found_Inr [OF assms(3)]
  obtain e h c where p: "reportable s e h c" "p = observe h c e (the (entry_tx e))"
    using poll_loop_sound [of p ?es w s] assms(4) by (auto simp: f(3))
  have c: "canonical_commitment c" using p(1) commitmentFromMemos_canonical by (auto simp: reportable_def)
  have inv: "sound_hash_inv V s'"
    using assms(1,2) poll_loop_store(2) [of V s ?es w] by (simp add: f(2) sound_hash_inv_def)
  have "snd (ps_get c s') = snd (ps_get c s)"
    unfolding f(2) using poll_loop_store(1) c by (rule ps.same_answersD)
  then obtain r where "snd (ps_get c s') = Some r" using p(1) by (auto simp: reportable_def)
  with ps.lookup_binds [OF inv c this] inv p(2) show ?thesis
    by (auto simp: payload_of_def sound_hash_inv_def observe_def)
qed

lemma watcher_reports_verified_witness:
  "\<exists>w' s' p r. poll demo_rpc ''rVault'' 30 new_Watcher demo_store = (w', s', Inr [p]) \<and>
    snd (ps_get (ob_commitment p) s') = Some r \<and>
    keccak256 demo_viem (po_userOpData r) = Inr (ob_commitment p)"
proof -
  have inv: "store_inv demo_viem demo_store"
    using store_inv_register [OF store_inv_empty] by (simp add: demo_store_def)
  define r where "r = poll_entry demo_entry_tx new_Watcher demo_store"
  have 1: "snd (snd r) = Some (observe ''AB12'' demo_commitment demo_entry_tx (the (entry_tx demo_entry_tx)))"
    unfolding r_def poll_entry_found using demo_reportable by (auto simp: new_Watcher_def)
  have 2: "snd (snd (poll_entry demo_entry_tx (fst r) (fst (snd r)))) = None"
  proof (rule ccontr)
    assume "\<not> ?thesis"
    then obtain h c where "reportable (fst (snd r)) demo_entry_tx h c" "h \<notin> w_seen (fst r)"
      by (metis not_None_eq poll_entry_found)
    then show False
      using 1 by (auto simp: r_def poll_entry_seen reportable_def observe_def)
        (simp add: demo_entry_tx_def entry_hash_def)
  qed
  obtain w' s' found where p: "poll demo_rpc ''rVault'' 30 new_Watcher demo_store = (w', s', Inr found)"
    by (auto simp: poll_def demo_rpc_def case_prod_beta Let_def)
  have "found = [observe ''AB12'' demo_commitment demo_entry_tx (the (entry_tx demo_entry_tx))]"
    unfolding poll_found_Inr(3) [OF p] answer_entries_def demo_rpc_def sum.case option.case
    unfolding poll_loop_Cons r_def [symmetric] 1 2 by simp
  then show ?thesis
    using watcher_reports_verified [OF demo_viem_docs(3) inv p] p by fastforce
qed

end
