(* ===== verification/Xrpl.thy ===== *)
theory Xrpl
  imports Fdc
begin

text \<open>
  \<open>packages/executor/src/xrpl.ts\<close>: JSON-RPC calls to the XRP Ledger and the submission of a payment.

  The network is a function \<open>net\<close> from the number of the request, counted from the first one an
  operation makes, and its body to the response of the server; \<open>JSON.parse\<close> and the offline signer
  of the package \<open>xrpl\<close> are arguments too. \<open>submitPayment\<close> also returns the bodies it posted.
\<close>

type_synonym xrpl_net = "nat \<Rightarrow> json \<Rightarrow> js_error + http_response"
type_synonym json_parser = "js_str \<Rightarrow> js_error + json"

subsection \<open>call\<close>

definition rpc_body :: "js_str \<Rightarrow> json \<Rightarrow> json" where
  "rpc_body method params = JObj [(''method'', JStr method), (''params'', JArr [params])]"

definition json_text :: "json option \<Rightarrow> js_str" where
  "json_text v = (case v of Some (JStr s) \<Rightarrow> s | _ \<Rightarrow> [])"

text \<open>
  \<open>result.error_message ?? result.error\<close>: texts, by the type the source declares for them.
\<close>

definition rpc_error_text :: "json \<Rightarrow> js_str" where
  "rpc_error_text result = (case json_get result ''error_message'' of
     Some (JStr m) \<Rightarrow> m
   | _ \<Rightarrow> json_text (json_get result ''error''))"

definition read_result :: "json_parser \<Rightarrow> js_str \<Rightarrow> http_response \<Rightarrow> js_error + json" where
  "read_result parse method res =
    (if \<not> http_ok res then Inl (JsError (''XRPL HTTP '' @ bigint_toString (http_status res)))
     else bind_err (parse (http_text res)) (\<lambda>body.
       if body = JNull then Inl (JsError ''Cannot read properties of null (reading 'result')'')
       else if json_false (json_get body ''result'') then Inl (JsError ''XRPL response missing result'')
       else let result = the (json_get body ''result'') in
         if \<not> json_false (json_get result ''error'')
         then Inl (JsError (''XRPL '' @ method @ '': '' @ rpc_error_text result))
         else Inr result))"

definition xrpl_call :: "xrpl_net \<Rightarrow> json_parser \<Rightarrow> nat \<Rightarrow> js_str \<Rightarrow> json \<Rightarrow> js_error + json" where
  "xrpl_call net parse k method params =
    bind_err (net k (rpc_body method params)) (read_result parse method)"

definition account_info_params :: "js_str \<Rightarrow> json" where
  "account_info_params address = JObj [(''account'', JStr address), (''ledger_index'', JStr ''validated'')]"

text \<open>The sequence number, and the balance in drops; reading a property of nothing throws.\<close>

definition accountInfo ::
    "xrpl_net \<Rightarrow> json_parser \<Rightarrow> nat \<Rightarrow> js_str \<Rightarrow> js_error + (json option \<times> json option)" where
  "accountInfo net parse k address =
    bind_err (xrpl_call net parse k ''account_info'' (account_info_params address)) (\<lambda>r.
    case json_get r ''account_data'' of
      None \<Rightarrow> Inl (JsError ''Cannot read properties of undefined (reading 'Sequence')'')
    | Some JNull \<Rightarrow> Inl (JsError ''Cannot read properties of null (reading 'Sequence')'')
    | Some d \<Rightarrow> Inr (json_get d ''Sequence'', json_get d ''Balance''))"

text \<open>An index that is not a number is outside the declared type, and \<open>undefined + 20\<close> is NaN.\<close>

definition json_number :: "json option \<Rightarrow> js_number" where
  "json_number v = (case v of Some (JNum n) \<Rightarrow> n | _ \<Rightarrow> NaN)"

definition currentLedger :: "xrpl_net \<Rightarrow> json_parser \<Rightarrow> nat \<Rightarrow> js_error + js_number" where
  "currentLedger net parse k =
    bind_err (xrpl_call net parse k ''ledger_current'' (JObj [])) (\<lambda>r.
    Inr (json_number (json_get r ''ledger_current_index'')))"

fun num_plus :: "js_number \<Rightarrow> rat \<Rightarrow> js_number" where
  "num_plus (Finite a) b = Finite (a + b)"
| "num_plus n b = n"

subsection \<open>submitPayment\<close>

record xrpl_payment_input =
  pi_account :: js_str
  pi_destination :: js_str
  pi_amount :: js_str
  pi_memoData :: js_str

record submitted_payment =
  sp_hash :: js_str
  sp_engineResult :: js_str
  sp_validated :: bool
  sp_ledgerIndex :: "json option"

record signed_tx =
  tx_blob :: js_str
  tx_hash :: js_str

record wallet =
  wl_publicKey :: js_str
  wl_sign :: "json \<Rightarrow> js_error + signed_tx"

definition payment_tx :: "xrpl_payment_input \<Rightarrow> js_str \<Rightarrow> json option \<Rightarrow> js_number \<Rightarrow> json" where
  "payment_tx i publicKey sequence ledger = JObj
    ([(''TransactionType'', JStr ''Payment''), (''Account'', JStr (pi_account i)),
      (''Destination'', JStr (pi_destination i)), (''Amount'', JStr (pi_amount i)),
      (''Memos'', JArr [JObj [(''Memo'', JObj [(''MemoData'', JStr (pi_memoData i))])]]),
      (''Fee'', JStr ''12'')] @ opt_field ''Sequence'' sequence @
     [(''LastLedgerSequence'', JNum (num_plus ledger 20)), (''SigningPubKey'', JStr publicKey)])"

definition tx_params :: "js_str \<Rightarrow> json" where
  "tx_params hash = JObj [(''transaction'', JStr hash), (''binary'', JBool False)]"

text \<open>\<open>r.meta?.TransactionResult ?? submitted.engine_result\<close>.\<close>

definition engine_result_of :: "json \<Rightarrow> js_str \<Rightarrow> js_str" where
  "engine_result_of r provisional = (case json_get r ''meta'' of
     None \<Rightarrow> provisional
   | Some m \<Rightarrow> (case json_get m ''TransactionResult'' of Some (JStr t) \<Rightarrow> t | _ \<Rightarrow> provisional))"

text \<open>
  The polling loop, with the number of rounds left. Every exception of \<open>call\<close> is swallowed.
\<close>

fun poll_validation ::
    "xrpl_net \<Rightarrow> json_parser \<Rightarrow> nat \<Rightarrow> nat \<Rightarrow> js_str \<Rightarrow> js_str \<Rightarrow> json list \<times> submitted_payment" where
  "poll_validation net parse 0 k hash eng =
    ([], \<lparr>sp_hash = hash, sp_engineResult = eng, sp_validated = False, sp_ledgerIndex = None\<rparr>)"
| "poll_validation net parse (Suc n) k hash eng =
    (let again = poll_validation net parse n (Suc k) hash eng;
         body = rpc_body ''tx'' (tx_params hash)
     in case xrpl_call net parse k ''tx'' (tx_params hash) of
          Inl _ \<Rightarrow> (body # fst again, snd again)
        | Inr r \<Rightarrow>
            if json_false (json_get r ''validated'') then (body # fst again, snd again)
            else ([body], \<lparr>sp_hash = hash, sp_engineResult = engine_result_of r eng,
              sp_validated = True, sp_ledgerIndex = json_get r ''ledger_index''\<rparr>))"

definition provisional_ok :: "js_str \<Rightarrow> bool" where
  "provisional_ok e \<longleftrightarrow> js_startsWith ''tes'' e \<or> js_startsWith ''ter'' e"

definition submitPayment ::
    "xrpl_net \<Rightarrow> json_parser \<Rightarrow> xrpl_payment_input \<Rightarrow> wallet \<Rightarrow> nat option \<Rightarrow>
     json list \<times> (js_error + submitted_payment)" where
  "submitPayment net parse i w maxPolls =
    (let info = accountInfo net parse 0 (pi_account i);
         ledger = currentLedger net parse 1;
         reads = [rpc_body ''account_info'' (account_info_params (pi_account i)),
           rpc_body ''ledger_current'' (JObj [])]
     in case (info, ledger) of
          (Inl e, _) \<Rightarrow> (reads, Inl e)
        | (Inr _, Inl e) \<Rightarrow> (reads, Inl e)
        | (Inr (sequence, _), Inr current) \<Rightarrow>
           (case wl_sign w (payment_tx i (wl_publicKey w) sequence current) of
              Inl e \<Rightarrow> (reads, Inl e)
            | Inr stx \<Rightarrow>
               (let params = JObj [(''tx_blob'', JStr (tx_blob stx))];
                    posted = reads @ [rpc_body ''submit'' params]
                in case xrpl_call net parse 2 ''submit'' params of
                     Inl e \<Rightarrow> (posted, Inl e)
                   | Inr submitted \<Rightarrow>
                      (case json_get submitted ''engine_result'' of
                         Some (JStr eng) \<Rightarrow>
                          if \<not> provisional_ok eng
                          then (posted, Inr \<lparr>sp_hash = tx_hash stx, sp_engineResult = eng,
                                  sp_validated = False, sp_ledgerIndex = None\<rparr>)
                          else
                            (let (polled, r) = poll_validation net parse (or_else maxPolls 30) 3
                                   (tx_hash stx) eng
                             in (posted @ polled, Inr r))
                       | _ \<Rightarrow> (posted, Inl (JsError ''engine_result is not text''))))))"

subsection \<open>The polling loop\<close>

lemma poll_validation_hash: "sp_hash (snd (poll_validation net parse n k hash eng)) = hash"
  by (induction n arbitrary: k) (auto simp: Let_def split: sum.split)

text \<open>The query with number \<open>k\<close> finds the transaction in a validated ledger.\<close>

definition validated_at :: "xrpl_net \<Rightarrow> json_parser \<Rightarrow> js_str \<Rightarrow> nat \<Rightarrow> bool" where
  "validated_at net parse hash k \<longleftrightarrow> (case xrpl_call net parse k ''tx'' (tx_params hash) of
     Inl _ \<Rightarrow> False
   | Inr r \<Rightarrow> \<not> json_false (json_get r ''validated''))"

text \<open>The loop stops at the first query that does, and otherwise makes all it may.\<close>

definition polled_until :: "xrpl_net \<Rightarrow> json_parser \<Rightarrow> js_str \<Rightarrow> nat \<Rightarrow> nat \<Rightarrow> nat \<Rightarrow> bool \<Rightarrow> bool" where
  "polled_until net parse hash k n m found \<longleftrightarrow>
    (if found then \<exists>l<n. m = Suc l \<and> validated_at net parse hash (k + l) \<and> (\<forall>l'<l. \<not> validated_at net parse hash (k + l'))
     else m = n \<and> (\<forall>l<n. \<not> validated_at net parse hash (k + l)))"

lemma polled_until_Suc:
  "polled_until net parse hash k (Suc n) m found \<longleftrightarrow>
    (if validated_at net parse hash k then found \<and> m = 1
     else \<exists>m'. m = Suc m' \<and> polled_until net parse hash (Suc k) n m' found)"
  by (auto simp: polled_until_def Ex_less_Suc2 All_less_Suc2)

lemma poll_validation_exact:
  "\<exists>m. fst (poll_validation net parse n k hash eng) = replicate m (rpc_body ''tx'' (tx_params hash)) \<and>
    polled_until net parse hash k n m (sp_validated (snd (poll_validation net parse n k hash eng)))"
proof (induction n arbitrary: k)
  case 0
  show ?case by (simp add: polled_until_def)
next
  case (Suc n)
  from Suc.IH [of "Suc k"] obtain m where
    "fst (poll_validation net parse n (Suc k) hash eng) = replicate m (rpc_body ''tx'' (tx_params hash))"
    "polled_until net parse hash (Suc k) n m (sp_validated (snd (poll_validation net parse n (Suc k) hash eng)))" by blast
  then show ?case
    by (cases "validated_at net parse hash k")
      (auto simp: polled_until_Suc Let_def validated_at_def split: sum.splits
        intro: exI [of _ "Suc m"] exI [of _ "Suc 0"])
qed

text \<open>A submission that returned signed one transaction and posted its blob once.\<close>

lemma submitPayment_InrE:
  assumes "submitPayment net parse i w maxPolls = (posted, Inr r)"
  obtains sequence b current stx sub eng polled where
    "accountInfo net parse 0 (pi_account i) = Inr (sequence, b)" "currentLedger net parse 1 = Inr current"
    "wl_sign w (payment_tx i (wl_publicKey w) sequence current) = Inr stx"
    "xrpl_call net parse 2 ''submit'' (JObj [(''tx_blob'', JStr (tx_blob stx))]) = Inr sub"
    "json_get sub ''engine_result'' = Some (JStr eng)"
    "posted = [rpc_body ''account_info'' (account_info_params (pi_account i)),
       rpc_body ''ledger_current'' (JObj []),
       rpc_body ''submit'' (JObj [(''tx_blob'', JStr (tx_blob stx))])] @ polled"
    "if provisional_ok eng
     then polled = fst (poll_validation net parse (or_else maxPolls 30) 3 (tx_hash stx) eng) \<and>
       r = snd (poll_validation net parse (or_else maxPolls 30) 3 (tx_hash stx) eng)
     else polled = [] \<and> r = \<lparr>sp_hash = tx_hash stx, sp_engineResult = eng, sp_validated = False,
       sp_ledgerIndex = None\<rparr>"
proof -
  obtain sequence b where a: "accountInfo net parse 0 (pi_account i) = Inr (sequence, b)"
    using assms by (auto simp: submitPayment_def Let_def split: sum.splits)
  obtain current where l: "currentLedger net parse 1 = Inr current"
    using assms a by (auto simp: submitPayment_def Let_def split: sum.splits)
  obtain stx where s: "wl_sign w (payment_tx i (wl_publicKey w) sequence current) = Inr stx"
    using assms a l by (auto simp: submitPayment_def Let_def split: sum.splits)
  obtain sub where c: "xrpl_call net parse 2 ''submit'' (JObj [(''tx_blob'', JStr (tx_blob stx))]) = Inr sub"
    using assms a l s by (auto simp: submitPayment_def Let_def split: sum.splits)
  obtain eng where e: "json_get sub ''engine_result'' = Some (JStr eng)"
    using assms a l s c by (auto simp: submitPayment_def Let_def split: option.splits json.splits)
  show ?thesis
  proof (rule that [OF a l s c e])
    show "posted = [rpc_body ''account_info'' (account_info_params (pi_account i)),
       rpc_body ''ledger_current'' (JObj []),
       rpc_body ''submit'' (JObj [(''tx_blob'', JStr (tx_blob stx))])] @ drop 3 posted"
      and "if provisional_ok eng
       then drop 3 posted = fst (poll_validation net parse (or_else maxPolls 30) 3 (tx_hash stx) eng) \<and>
         r = snd (poll_validation net parse (or_else maxPolls 30) 3 (tx_hash stx) eng)
       else drop 3 posted = [] \<and> r = \<lparr>sp_hash = tx_hash stx, sp_engineResult = eng,
         sp_validated = False, sp_ledgerIndex = None\<rparr>"
      using assms a l s c e
      by (auto simp: submitPayment_def Let_def case_prod_beta split: if_splits)
  qed
qed

subsection \<open>Properties\<close>

text \<open>
  (C34) What a submission posts and what it says. The blob is posted at most once, after the two reads, and
  when the submission throws nothing follows it: no query is made for the hash, and the hash is lost with
  the exception. When it returns, the hash is the one of the signed transaction, and the answer to the blob
  decides: a provisional success is followed by queries for the hash up to the first one that finds it
  in a validated ledger, or by all that are allowed; any other result by none. The payment is reported
  validated exactly when one of these queries found it.
\<close>

theorem submit_payment_final:
  "let (posted, res) = submitPayment net parse i w maxPolls;
      reads = [rpc_body ''account_info'' (account_info_params (pi_account i)), rpc_body ''ledger_current'' (JObj [])];
      blob = (\<lambda>stx. JObj [(''tx_blob'', JStr (tx_blob stx))]); submit = (\<lambda>stx. rpc_body ''submit'' (blob stx))
    in case res of
         Inl e \<Rightarrow> posted = reads \<or> (\<exists>tx stx. wl_sign w tx = Inr stx \<and> posted = reads @ [submit stx])
       | Inr r \<Rightarrow> \<exists>tx stx sub eng m. wl_sign w tx = Inr stx \<and> sp_hash r = tx_hash stx \<and>
           xrpl_call net parse 2 ''submit'' (blob stx) = Inr sub \<and> json_get sub ''engine_result'' = Some (JStr eng) \<and>
           posted = reads @ submit stx # replicate m (rpc_body ''tx'' (tx_params (sp_hash r))) \<and>
           (if provisional_ok eng then polled_until net parse (sp_hash r) 3 (or_else maxPolls 30) m (sp_validated r)
            else m = 0 \<and> \<not> sp_validated r)"
proof (cases "snd (submitPayment net parse i w maxPolls)")
  case (Inl e)
  then show ?thesis
    by (auto simp: submitPayment_def Let_def case_prod_beta split: sum.splits option.splits json.splits if_splits)
next
  case (Inr r)
  then obtain posted where p: "submitPayment net parse i w maxPolls = (posted, Inr r)" by (cases "submitPayment net parse i w maxPolls") auto
  show ?thesis
  proof (rule submitPayment_InrE [OF p])
    fix sequence current sub eng polled and stx :: signed_tx
    let ?poll = "poll_validation net parse (or_else maxPolls 30) 3 (tx_hash stx) eng"
    assume s: "wl_sign w (payment_tx i (wl_publicKey w) sequence current) = Inr stx"
      "xrpl_call net parse 2 ''submit'' (JObj [(''tx_blob'', JStr (tx_blob stx))]) = Inr sub"
      "json_get sub ''engine_result'' = Some (JStr eng)"
      and posted: "posted = [rpc_body ''account_info'' (account_info_params (pi_account i)), rpc_body ''ledger_current'' (JObj []),
        rpc_body ''submit'' (JObj [(''tx_blob'', JStr (tx_blob stx))])] @ polled"
      and r: "if provisional_ok eng then polled = fst ?poll \<and> r = snd ?poll
        else polled = [] \<and> r = \<lparr>sp_hash = tx_hash stx, sp_engineResult = eng, sp_validated = False, sp_ledgerIndex = None\<rparr>"
    have h: "sp_hash r = tx_hash stx" using r by (auto simp: poll_validation_hash split: if_splits)
    obtain m where "polled = replicate m (rpc_body ''tx'' (tx_params (tx_hash stx)))"
      "if provisional_ok eng then polled_until net parse (tx_hash stx) 3 (or_else maxPolls 30) m (sp_validated r)
       else m = 0 \<and> \<not> sp_validated r"
      using r poll_validation_exact [of net parse "or_else maxPolls 30" 3 "tx_hash stx" eng] by (auto split: if_splits)
    with s posted h show ?thesis
      unfolding p Let_def prod.case sum.case
      by - (rule exI [of _ "payment_tx i (wl_publicKey w) sequence current"], rule exI [of _ stx], rule exI [of _ sub],
        rule exI [of _ eng], rule exI [of _ m], simp)
  qed
qed

text \<open>The answer to the blob that never arrives: the transaction may be on its way, and its hash is not handed out.\<close>

lemma submit_lost:
  assumes "accountInfo net parse 0 (pi_account i) = Inr (sequence, b)" and "currentLedger net parse 1 = Inr current"
    and "wl_sign w (payment_tx i (wl_publicKey w) sequence current) = Inr stx"
    and "xrpl_call net parse 2 ''submit'' (JObj [(''tx_blob'', JStr (tx_blob stx))]) = Inl e"
  shows "submitPayment net parse i w maxPolls = ([rpc_body ''account_info'' (account_info_params (pi_account i)),
    rpc_body ''ledger_current'' (JObj []), rpc_body ''submit'' (JObj [(''tx_blob'', JStr (tx_blob stx))])], Inl e)"
  using assms by (simp add: submitPayment_def Let_def)

text \<open>A server that validates on the second query, and a signer, for the witnesses.\<close>

definition demo_parse :: json_parser where
  "demo_parse t = Inr (JObj [(''result'', JObj
     ([(''account_data'', JObj [(''Sequence'', JNum (Finite 7))]), (''ledger_current_index'', JNum (Finite 100)),
       (''engine_result'', JStr ''tesSUCCESS'')] @ opt_field ''validated'' (if t = ''validated'' then Some (JBool True) else None)))])"

definition demo_net :: xrpl_net where
  "demo_net k b = Inr \<lparr>http_ok = True, http_status = 200,
     http_text = (if k = 4 then ''validated'' else [])\<rparr>"

definition demo_wallet :: wallet where
  "demo_wallet = \<lparr>wl_publicKey = ''ED'', wl_sign = (\<lambda>tx. Inr \<lparr>tx_blob = ''12'', tx_hash = ''AB''\<rparr>)\<rparr>"

definition demo_input :: xrpl_payment_input where
  "demo_input = \<lparr>pi_account = ''rUser'', pi_destination = ''rVault'', pi_amount = ''100'', pi_memoData = ''FE''\<rparr>"

lemma demo_call:
  "xrpl_call demo_net demo_parse k m p = Inr (JObj
     ([(''account_data'', JObj [(''Sequence'', JNum (Finite 7))]), (''ledger_current_index'', JNum (Finite 100)),
       (''engine_result'', JStr ''tesSUCCESS'')] @ opt_field ''validated'' (if k = 4 then Some (JBool True) else None)))"
  by (simp add: xrpl_call_def demo_net_def read_result_def demo_parse_def opt_field_def)

lemma submit_payment_final_witness:
  "\<exists>posted r. submitPayment demo_net demo_parse demo_input demo_wallet (Some 5) = (posted, Inr r) \<and>
    sp_hash r = ''AB'' \<and> sp_validated r \<and> length posted = 5"
proof -
  obtain posted r where s: "submitPayment demo_net demo_parse demo_input demo_wallet (Some 5) = (posted, Inr r)" and h: "sp_hash r = ''AB''"
    by (simp add: submitPayment_def accountInfo_def currentLedger_def demo_call demo_wallet_def Let_def
        provisional_ok_def js_startsWith_def case_prod_beta poll_validation_hash del: poll_validation.simps)
  have v: "validated_at demo_net demo_parse ''AB'' k \<longleftrightarrow> k = 4" for k
    by (simp add: validated_at_def demo_call opt_field_def)
  obtain m where "length posted = 3 + m" "polled_until demo_net demo_parse ''AB'' 3 5 m (sp_validated r)"
    using submit_payment_final [of demo_net demo_parse demo_input demo_wallet "Some 5"] s h
    by (auto simp: demo_call provisional_ok_def js_startsWith_def split: if_splits)
  then have "sp_validated r \<and> m = 2" by (auto simp: polled_until_def v split: if_splits dest: spec [of _ 1])
  with s h \<open>length posted = 3 + m\<close> show ?thesis by auto
qed

text \<open>
  The transaction that is signed is a plain payment of what was asked for: the account, the
  destination, the amount and the one memo are those of the input, it expires twenty ledgers after
  the current one, and it has no destination tag.
\<close>

theorem submit_payment_transaction:
  "let tx = payment_tx i key sequence (Finite n) in
   json_get tx ''TransactionType'' = Some (JStr ''Payment'') \<and>
   json_get tx ''Account'' = Some (JStr (pi_account i)) \<and>
   json_get tx ''Destination'' = Some (JStr (pi_destination i)) \<and>
   json_get tx ''Amount'' = Some (JStr (pi_amount i)) \<and>
   json_get tx ''Memos'' = Some (JArr [JObj [(''Memo'', JObj [(''MemoData'', JStr (pi_memoData i))])]]) \<and>
   json_get tx ''Sequence'' = sequence \<and>
   json_get tx ''LastLedgerSequence'' = Some (JNum (Finite (n + 20))) \<and>
   json_get tx ''DestinationTag'' = None"
  by (simp add: payment_tx_def opt_field_def split: option.split)

end
