(* ===== verification/Xaman.thy ===== *)
theory Xaman
  imports Xrpl
begin

text \<open>
  \<open>packages/executor/src/xaman.ts\<close>: the sign requests of the wallet service. The service is a
  function from the request to its response; the fields of a response stay JSON values. The arrow and
  the dash in two of the messages are written \<open>->\<close> and \<open>-\<close> here.
\<close>

definition XAMAN_API :: js_str where
  "XAMAN_API = ''https://xumm.app/api/v1/platform''"

definition XAMAN_IDENTIFIER_MAX :: nat where
  "XAMAN_IDENTIFIER_MAX = 40"

definition toXamanIdentifier :: "js_str \<Rightarrow> js_str" where
  "toXamanIdentifier commitment = js_slice 0 XAMAN_IDENTIFIER_MAX (strip_0x commitment)"

record sign_request_input =
  si_account :: "js_str option"
  si_destination :: js_str
  si_amount :: js_str
  si_memoData :: js_str
  si_instruction :: js_str
  si_identifier :: "js_str option"
  si_signers :: "js_str list option"
  si_expireMinutes :: "int option"

record sign_request =
  rs_uuid :: "json option"
  rs_next :: "json option"
  rs_qrPng :: "json option"
  rs_pushed :: "json option"

record sign_request_status =
  st_uuid :: js_str
  st_resolved :: "json option"
  st_signed :: "json option"
  st_cancelled :: "json option"
  st_expired :: "json option"
  st_txid :: "json option"
  st_account :: "json option"

record xaman_client =
  xm_key :: js_str
  xm_secret :: js_str
  xm_base :: js_str

record xaman_env =
  env_XAMAN_API_KEY :: "js_str option"
  env_XAMAN_API_SECRET :: "js_str option"

fun given :: "js_str option \<Rightarrow> bool" where
  "given None \<longleftrightarrow> False"
| "given (Some s) \<longleftrightarrow> s \<noteq> []"

definition new_XamanClient ::
    "xaman_env \<Rightarrow> js_str option \<Rightarrow> js_str option \<Rightarrow> js_str option \<Rightarrow> js_error + xaman_client" where
  "new_XamanClient env apiKey apiSecret baseUrl =
    (let key = (case apiKey of Some k \<Rightarrow> Some k | None \<Rightarrow> env_XAMAN_API_KEY env);
         secret = (case apiSecret of Some s \<Rightarrow> Some s | None \<Rightarrow> env_XAMAN_API_SECRET env)
     in if \<not> given key \<or> \<not> given secret
        then Inl (JsError
          ''XAMAN_API_KEY / XAMAN_API_SECRET not set - get them free from https://apps.xumm.dev'')
        else Inr \<lparr>xm_key = the key, xm_secret = the secret,
               xm_base = strip_slash (or_else baseUrl XAMAN_API)\<rparr>)"

definition isConfigured :: "xaman_env \<Rightarrow> bool" where
  "isConfigured env \<longleftrightarrow> given (env_XAMAN_API_KEY env) \<and> given (env_XAMAN_API_SECRET env)"

subsection \<open>The request\<close>

datatype http_method = GET | POST

record xaman_request =
  xr_method :: http_method
  xr_url :: js_str
  xr_apiKey :: js_str
  xr_apiSecret :: js_str
  xr_body :: "json option"

type_synonym xaman_net = "xaman_request \<Rightarrow> js_error + http_response"

fun method_name :: "http_method \<Rightarrow> js_str" where
  "method_name GET = ''GET''"
| "method_name POST = ''POST''"

definition xaman_call ::
    "xaman_net \<Rightarrow> json_parser \<Rightarrow> xaman_client \<Rightarrow> http_method \<Rightarrow> js_str \<Rightarrow> json option \<Rightarrow> js_error + json" where
  "xaman_call net parse x m path body =
    bind_err (net \<lparr>xr_method = m, xr_url = xm_base x @ path, xr_apiKey = xm_key x,
        xr_apiSecret = xm_secret x, xr_body = (if json_false body then None else body)\<rparr>) (\<lambda>res.
    if \<not> http_ok res
    then Inl (JsError (''Xaman '' @ method_name m @ '' '' @ path @ '' -> HTTP ''
      @ bigint_toString (http_status res) @ '': '' @ js_slice 0 300 (http_text res)))
    else parse (http_text res))"

text \<open>\<open>r.k1.k2\<close>: reading a property of nothing throws.\<close>

definition read_path :: "json \<Rightarrow> js_str \<Rightarrow> js_str \<Rightarrow> js_error + json option" where
  "read_path r k1 k2 = (if r = JNull
     then Inl (JsError (''Cannot read properties of null (reading '' @ k1 @ '')''))
     else case json_get r k1 of
       None \<Rightarrow> Inl (JsError (''Cannot read properties of undefined (reading '' @ k2 @ '')''))
     | Some JNull \<Rightarrow> Inl (JsError (''Cannot read properties of null (reading '' @ k2 @ '')''))
     | Some v \<Rightarrow> Inr (json_get v k2))"

definition ping :: "xaman_net \<Rightarrow> json_parser \<Rightarrow> xaman_client \<Rightarrow> js_error + (json option \<times> json option)" where
  "ping net parse x =
    bind_err (xaman_call net parse x POST ''/ping'' (Some (JObj []))) (\<lambda>r.
    if r = JNull then Inl (JsError ''Cannot read properties of null (reading pong)'')
    else
      let app = (case json_get r ''auth'' of None \<Rightarrow> None | Some a \<Rightarrow> json_get a ''application'')
      in Inr (json_get r ''pong'', if json_false app then None else app))"

definition sign_payload :: "sign_request_input \<Rightarrow> json" where
  "sign_payload i = JObj
    [(''txjson'', JObj ([(''TransactionType'', JStr ''Payment''), (''Destination'', JStr (si_destination i)),
        (''Amount'', JStr (si_amount i)),
        (''Memos'', JArr [JObj [(''Memo'', JObj [(''MemoData'', JStr (si_memoData i))])]])] @
        (case si_account i of Some a \<Rightarrow> if a \<noteq> [] then [(''Account'', JStr a)] else [] | None \<Rightarrow> []))),
     (''options'', JObj ([(''submit'', JBool True),
        (''expire'', JNum (Finite (of_int (or_else (si_expireMinutes i) 10)))),
        (''force_network'', JStr ''TESTNET'')] @
        (case si_signers i of
           Some ss \<Rightarrow> if length ss \<noteq> 0 then [(''signers'', JArr (map JStr ss))] else []
         | None \<Rightarrow> []))),
     (''custom_meta'', JObj ([(''instruction'', JStr (si_instruction i))] @
        (case si_identifier i of
           Some c \<Rightarrow> if c \<noteq> [] then [(''identifier'', JStr (toXamanIdentifier c))] else []
         | None \<Rightarrow> [])))]"

definition signin_payload :: "js_str \<Rightarrow> json" where
  "signin_payload instruction = JObj
    [(''txjson'', JObj [(''TransactionType'', JStr ''SignIn'')]),
     (''options'', JObj [(''expire'', JNum (Finite 10))]),
     (''custom_meta'', JObj [(''instruction'', JStr instruction)])]"

definition sign_request_of :: "json \<Rightarrow> js_error + sign_request" where
  "sign_request_of r =
    bind_err (read_path r ''next'' ''always'') (\<lambda>nxt.
    bind_err (read_path r ''refs'' ''qr_png'') (\<lambda>qr.
    Inr \<lparr>rs_uuid = json_get r ''uuid'', rs_next = nxt, rs_qrPng = qr, rs_pushed = json_get r ''pushed''\<rparr>))"

definition createSignRequest ::
    "xaman_net \<Rightarrow> json_parser \<Rightarrow> xaman_client \<Rightarrow> sign_request_input \<Rightarrow> js_error + sign_request" where
  "createSignRequest net parse x i =
    bind_err (xaman_call net parse x POST ''/payload'' (Some (sign_payload i))) sign_request_of"

definition createSignInRequest ::
    "xaman_net \<Rightarrow> json_parser \<Rightarrow> xaman_client \<Rightarrow> js_str \<Rightarrow> js_error + sign_request" where
  "createSignInRequest net parse x instruction =
    bind_err (xaman_call net parse x POST ''/payload'' (Some (signin_payload instruction))) sign_request_of"

definition getSignRequest ::
    "xaman_net \<Rightarrow> json_parser \<Rightarrow> xaman_client \<Rightarrow> js_str \<Rightarrow> js_error + sign_request_status" where
  "getSignRequest net parse x uuid =
    bind_err (xaman_call net parse x GET (''/payload/'' @ uuid) None) (\<lambda>r.
    bind_err (read_path r ''meta'' ''resolved'') (\<lambda>resolved.
    bind_err (read_path r ''meta'' ''signed'') (\<lambda>sgn'.
    bind_err (read_path r ''meta'' ''cancelled'') (\<lambda>cancelled.
    bind_err (read_path r ''meta'' ''expired'') (\<lambda>expired.
    bind_err (read_path r ''response'' ''txid'') (\<lambda>txid.
    bind_err (read_path r ''response'' ''account'') (\<lambda>account.
    Inr \<lparr>st_uuid = uuid, st_resolved = resolved, st_signed = sgn', st_cancelled = cancelled,
         st_expired = expired, st_txid = (if json_false txid then None else txid),
         st_account = (if json_false account then None else account)\<rparr>)))))))"

subsection \<open>Properties\<close>

text \<open>The two levels of a payload.\<close>

definition payload_field :: "json \<Rightarrow> js_str \<Rightarrow> js_str \<Rightarrow> json option" where
  "payload_field p k1 k2 = (case json_get p k1 of None \<Rightarrow> None | Some v \<Rightarrow> json_get v k2)"

text \<open>
  What a user is asked to sign: the payment of the request, on the test network and submitted by
  the wallet, with the signers it names enforced, the summary for the user to read, an identifier
  that is a prefix of the commitment's digits short enough for the service, and no destination tag.
\<close>

theorem xaman_payload_faithful:
  assumes "si_signers i = Some (a # ss)" and "si_identifier i = Some c" and "hex_string c" and "length c = 66"
  shows "payload_field (sign_payload i) ''txjson'' ''Destination'' = Some (JStr (si_destination i)) \<and>
    payload_field (sign_payload i) ''txjson'' ''Amount'' = Some (JStr (si_amount i)) \<and>
    payload_field (sign_payload i) ''txjson'' ''Memos'' =
      Some (JArr [JObj [(''Memo'', JObj [(''MemoData'', JStr (si_memoData i))])]]) \<and>
    payload_field (sign_payload i) ''txjson'' ''DestinationTag'' = None \<and>
    payload_field (sign_payload i) ''options'' ''signers'' = Some (JArr (map JStr (a # ss))) \<and>
    payload_field (sign_payload i) ''options'' ''force_network'' = Some (JStr ''TESTNET'') \<and>
    payload_field (sign_payload i) ''custom_meta'' ''instruction'' = Some (JStr (si_instruction i)) \<and>
    (\<exists>d rest. payload_field (sign_payload i) ''custom_meta'' ''identifier'' = Some (JStr d) \<and>
      c = ''0x'' @ d @ rest \<and> length d = XAMAN_IDENTIFIER_MAX)"
proof -
  obtain t where t: "c = CHR ''0'' # CHR ''x'' # t"
    using assms(3) unfolding hex_string_def js_startsWith_0x_conv by auto
  then have d: "toXamanIdentifier c = take 40 t" "length t = 64"
    using assms(4) by (simp_all add: toXamanIdentifier_def js_slice_def XAMAN_IDENTIFIER_MAX_def)
  have "c = ''0x'' @ take 40 t @ drop 40 t" using t by simp
  with d t assms(1,2) show ?thesis
    by (auto simp: payload_field_def sign_payload_def XAMAN_IDENTIFIER_MAX_def split: option.split
        intro: exI [of _ "drop 40 t"])
qed

definition demo_sign_input :: sign_request_input where
  "demo_sign_input = \<lparr>si_account = Some ''rUser'', si_destination = ''rVault'', si_amount = ''100'',
     si_memoData = ''FE'', si_instruction = ''Deposit'', si_identifier = Some (''0x'' @ replicate 64 (CHR ''0'')),
     si_signers = Some [''rUser''], si_expireMinutes = None\<rparr>"

lemma xaman_payload_faithful_witness:
  "payload_field (sign_payload demo_sign_input) ''options'' ''signers'' = Some (JArr [JStr ''rUser''])"
proof -
  have "hex_string (''0x'' @ replicate 64 (CHR ''0''))" by code_simp
  with xaman_payload_faithful [of demo_sign_input "''rUser''" "[]" "''0x'' @ replicate 64 (CHR ''0'')"]
  show ?thesis by (simp add: demo_sign_input_def)
qed

end
