(* ===== verification/Scripts.thy ===== *)
theory Scripts
  imports Prepare Delivery Watcher Xaman
begin

text \<open>
  What the command-line programs of \<open>scripts/\<close> share: a script is a sequence of awaited operations on
  a session (the client, the attestation client, the directory of jobs), which records what was
  posted to the ledger and sent to the chain, and ends early with an exit code or an exception.
  \<open>packages/executor/src/client.ts\<close>, which every script calls, is here too. The lines a script prints
  are not modelled.
\<close>

subsection \<open>Sessions\<close>

datatype script_end =
    Exit int
  | Threw js_error
  | PrepareThrew prepare_error
  | MemoThrew memo_error
  | StillRunning

record session =
  ss_client :: onesig_client
  ss_fdc :: fdc_client
  ss_disk :: "job directory"
  ss_posted :: "json list"
  ss_sent :: "tx_request list"

type_synonym 'a script = "session \<Rightarrow> session \<times> (script_end + 'a)"

definition sc_return :: "'a \<Rightarrow> 'a script" where
  "sc_return a = (\<lambda>s. (s, Inr a))"

definition sc_stop :: "script_end \<Rightarrow> 'a script" where
  "sc_stop e = (\<lambda>s. (s, Inl e))"

definition sc_bind :: "'a script \<Rightarrow> ('a \<Rightarrow> 'b script) \<Rightarrow> 'b script" where
  "sc_bind m f = (\<lambda>s. case m s of
     (s1, Inl e) \<Rightarrow> (s1, Inl e)
   | (s1, Inr a) \<Rightarrow> f a s1)"

text \<open>An operation of the outside world, one of the decoder of memos, one of the client.\<close>

definition sc_await :: "js_error + 'a \<Rightarrow> 'a script" where
  "sc_await r = (\<lambda>s. (s, lift_err Threw r))"

definition sc_memo :: "memo_error + 'a \<Rightarrow> 'a script" where
  "sc_memo r = (\<lambda>s. (s, lift_err MemoThrew r))"

definition sc_client :: "(onesig_client \<Rightarrow> onesig_client \<times> (js_error + 'a)) \<Rightarrow> 'a script" where
  "sc_client m = (\<lambda>s. case m (ss_client s) of (c, r) \<Rightarrow> (s\<lparr>ss_client := c\<rparr>, lift_err Threw r))"

definition sc_prepare :: "viem \<Rightarrow> flare_chain \<Rightarrow> prepare_params \<Rightarrow> prepared_request script" where
  "sc_prepare V R params = (\<lambda>s. case prepare V R (ss_client s) params of
     (c, r) \<Rightarrow> (s\<lparr>ss_client := c\<rparr>, lift_err PrepareThrew r))"

text \<open>\<open>if (bad) process.exit(n)\<close>.\<close>

definition sc_exit_if :: "bool \<Rightarrow> int \<Rightarrow> unit script" where
  "sc_exit_if b n = (if b then sc_stop (Exit n) else sc_return ())"

text \<open>A payment of the ledger, with everything it posted.\<close>

definition sc_submit :: "xrpl_net \<Rightarrow> json_parser \<Rightarrow> xrpl_payment_input \<Rightarrow> wallet \<Rightarrow> submitted_payment script" where
  "sc_submit net parse i w = (\<lambda>s. case submitPayment net parse i w None of
     (posted, r) \<Rightarrow> (s\<lparr>ss_posted := ss_posted s @ posted\<rparr>, lift_err Threw r))"

text \<open>The three operations of the pipeline. What the clock and the disk do is an argument.\<close>

record run_env =
  rn_fuel :: nat
  rn_now :: "nat \<Rightarrow> int"
  rn_step :: "nat \<Rightarrow> step_env"
  rn_start :: int

definition sc_create :: "int \<Rightarrow> write_outcome \<Rightarrow> create_params \<Rightarrow> job script" where
  "sc_create now w p = (\<lambda>s. case job_create now w p (ss_disk s) of
     (d, r) \<Rightarrow> (s\<lparr>ss_disk := d\<rparr>, lift_err Threw r))"

definition sc_load :: "js_str \<Rightarrow> job option script" where
  "sc_load i = (\<lambda>s. (s, Inr (job_load i (ss_disk s))))"

definition sc_save :: "int \<Rightarrow> write_outcome \<Rightarrow> job \<Rightarrow> job script" where
  "sc_save now w j = (\<lambda>s. case job_save now w j (ss_disk s) of
     (d, j', r) \<Rightarrow> (s\<lparr>ss_disk := d\<rparr>, bind_err (lift_err Threw r) (\<lambda>_. Inr j')))"

definition sc_run :: "pipeline_options \<Rightarrow> run_env \<Rightarrow> job \<Rightarrow> job script" where
  "sc_run P N j = (\<lambda>s.
     case run (rn_fuel N) P (rn_now N) (rn_step N) (rn_start N) (Some (25 * 60000))
         \<lparr>ex_fdc = ss_fdc s, ex_disk = ss_disk s, ex_job = j\<rparr> of
       None \<Rightarrow> (s, Inl StillRunning)
     | Some (x, es, r) \<Rightarrow>
        (s\<lparr>ss_fdc := ex_fdc x, ss_disk := ex_disk x, ss_sent := ss_sent s @ es\<rparr>,
         bind_err (lift_err Threw r) (\<lambda>_. Inr (ex_job x))))"

subsection \<open>The clients of the executor\<close>

text \<open>The two variables of the process environment, and the derivation of an account from its key.\<close>

record executor_env =
  xe_CHAIN_URL :: "js_str option"
  xe_DEPLOYER_PRIVATE_KEY :: "js_str option"
  xe_privateKeyToAccount :: "js_str \<Rightarrow> js_error + js_str"

record executor_clients =
  ec_address :: js_str
  ec_rpcUrl :: js_str

definition COSTON2_rpcUrl :: js_str where
  "COSTON2_rpcUrl = ''https://coston2-api.flare.network/ext/C/rpc''"

definition makeClients :: "executor_env \<Rightarrow> js_str option \<Rightarrow> js_str option \<Rightarrow> js_error + executor_clients" where
  "makeClients env rpcUrl privateKey =
    (let url = or_else rpcUrl (or_else (xe_CHAIN_URL env) COSTON2_rpcUrl);
         raw = (case privateKey of Some k \<Rightarrow> Some k | None \<Rightarrow> xe_DEPLOYER_PRIVATE_KEY env)
     in if \<not> given raw then Inl (JsError ''DEPLOYER_PRIVATE_KEY not set - copy .env.example to .env'')
        else
          let key = (if js_startsWith ''0x'' (the raw) then the raw else ''0x'' @ the raw)
          in bind_err (xe_privateKeyToAccount env key) (\<lambda>address.
             Inr \<lparr>ec_address = address, ec_rpcUrl = url\<rparr>))"

subsection \<open>Reasoning about scripts\<close>

lemma sc_bind_Inr:
  "sc_bind m f s = (s', Inr b) \<longleftrightarrow> (\<exists>s1 a. m s = (s1, Inr a) \<and> f a s1 = (s', Inr b))"
  by (auto simp: sc_bind_def split: prod.split sum.split)

lemma sc_bind_Inl:
  "sc_bind m f s = (s', Inl e) \<longleftrightarrow>
    m s = (s', Inl e) \<or> (\<exists>s1 a. m s = (s1, Inr a) \<and> f a s1 = (s', Inl e))"
  by (auto simp: sc_bind_def split: prod.split sum.split)

lemma sc_bind_cases:
  assumes "sc_bind m f s = (s', r)"
  obtains e where "m s = (s', Inl e)" "r = Inl e"
    | s1 a where "m s = (s1, Inr a)" "f a s1 = (s', r)"
  using assms by (auto simp: sc_bind_def split: prod.splits sum.splits)

lemma lift_err_Inl [simp]: "lift_err f r = Inl e \<longleftrightarrow> (\<exists>e'. r = Inl e' \<and> e = f e')"
  by (cases r) auto

lemma sc_await_ends:
  "sc_await r s = (s', Inr a) \<longleftrightarrow> s' = s \<and> r = Inr a"
  "sc_await r s = (s', Inl e) \<longleftrightarrow> s' = s \<and> (\<exists>e'. r = Inl e' \<and> e = Threw e')"
  by (auto simp: sc_await_def)

lemma sc_memo_ends:
  "sc_memo r s = (s', Inr b) \<longleftrightarrow> s' = s \<and> r = Inr b"
  "sc_memo r s = (s', Inl e) \<longleftrightarrow> s' = s \<and> (\<exists>e'. r = Inl e' \<and> e = MemoThrew e')"
  by (auto simp: sc_memo_def)

lemma sc_return_ends: "sc_return a s = (s', r) \<longleftrightarrow> s' = s \<and> r = Inr a"
  by (auto simp: sc_return_def)

lemma sc_stop_ends: "sc_stop e s = (s', r) \<longleftrightarrow> s' = s \<and> r = Inl e"
  by (auto simp: sc_stop_def)

lemma sc_exit_if_ends:
  "sc_exit_if b n s = (s', Inr u) \<longleftrightarrow> s' = s \<and> \<not> b"
  "sc_exit_if b n s = (s', Inl e) \<longleftrightarrow> s' = s \<and> b \<and> e = Exit n"
  by (auto simp: sc_exit_if_def sc_return_def sc_stop_def)

lemma sc_load_ends: "sc_load i s = (s', r) \<longleftrightarrow> s' = s \<and> r = Inr (job_load i (ss_disk s))"
  by (auto simp: sc_load_def)

lemma sc_client_ends:
  "sc_client m s = (s', Inr a) \<longleftrightarrow> s' = s\<lparr>ss_client := fst (m (ss_client s))\<rparr> \<and> snd (m (ss_client s)) = Inr a"
  "sc_client m s = (s', Inl e) \<longleftrightarrow> s' = s\<lparr>ss_client := fst (m (ss_client s))\<rparr> \<and>
    (\<exists>e'. snd (m (ss_client s)) = Inl e' \<and> e = Threw e')"
  by (auto simp: sc_client_def split: prod.split)

lemma sc_prepare_ends:
  "sc_prepare V R p s = (s', Inr req) \<longleftrightarrow>
    s' = s\<lparr>ss_client := fst (prepare V R (ss_client s) p)\<rparr> \<and> snd (prepare V R (ss_client s) p) = Inr req"
  "sc_prepare V R p s = (s', Inl e) \<longleftrightarrow> s' = s\<lparr>ss_client := fst (prepare V R (ss_client s) p)\<rparr> \<and>
    (\<exists>e'. snd (prepare V R (ss_client s) p) = Inl e' \<and> e = PrepareThrew e')"
  by (auto simp: sc_prepare_def split: prod.split)

lemma sc_submit_ends:
  "sc_submit net parse i w s = (s', Inr r) \<longleftrightarrow>
    s' = s\<lparr>ss_posted := ss_posted s @ fst (submitPayment net parse i w None)\<rparr> \<and>
    snd (submitPayment net parse i w None) = Inr r"
  "sc_submit net parse i w s = (s', Inl e) \<longleftrightarrow>
    s' = s\<lparr>ss_posted := ss_posted s @ fst (submitPayment net parse i w None)\<rparr> \<and>
    (\<exists>e'. snd (submitPayment net parse i w None) = Inl e' \<and> e = Threw e')"
  by (auto simp: sc_submit_def split: prod.split)

lemma sc_create_ends:
  "sc_create now wr p s = (s', Inr j) \<longleftrightarrow>
    s' = s\<lparr>ss_disk := fst (job_create now wr p (ss_disk s))\<rparr> \<and> snd (job_create now wr p (ss_disk s)) = Inr j"
  "sc_create now wr p s = (s', Inl e) \<longleftrightarrow> s' = s\<lparr>ss_disk := fst (job_create now wr p (ss_disk s))\<rparr> \<and>
    (\<exists>e'. snd (job_create now wr p (ss_disk s)) = Inl e' \<and> e = Threw e')"
  by (auto simp: sc_create_def split: prod.split)

lemmas sc_ends = sc_bind_Inr sc_bind_Inl sc_await_ends sc_memo_ends sc_return_ends sc_stop_ends
  sc_exit_if_ends sc_load_ends sc_client_ends sc_prepare_ends sc_submit_ends sc_create_ends

text \<open>Saving keeps the identity of the job and touches nothing but the disk.\<close>

lemma sc_save_Inr:
  assumes "sc_save now wr j s = (s', Inr j')"
  shows "job_identity j' = job_identity j" and "j_state j' = j_state j" and "ss_sent s' = ss_sent s"
  using assms by (auto simp: sc_save_def job_save_def job_identity_def Let_def split: prod.splits)

text \<open>
  A script that is quiet posts nothing to the ledger and sends nothing to the chain; one that is
  unpaid posts nothing to the ledger.
\<close>

definition unpaid :: "'a script \<Rightarrow> bool" where
  "unpaid m \<longleftrightarrow> (\<forall>s. ss_posted (fst (m s)) = ss_posted s)"

definition quiet :: "'a script \<Rightarrow> bool" where
  "quiet m \<longleftrightarrow> (\<forall>s. ss_posted (fst (m s)) = ss_posted s \<and> ss_sent (fst (m s)) = ss_sent s)"

lemma quiet_unpaid: "quiet m \<Longrightarrow> unpaid m"
  by (simp add: quiet_def unpaid_def)

lemma quietD: "quiet m \<Longrightarrow> m s = (s', r) \<Longrightarrow> ss_posted s' = ss_posted s \<and> ss_sent s' = ss_sent s"
  unfolding quiet_def by (metis fst_conv)

lemma unpaidD: "unpaid m \<Longrightarrow> m s = (s', r) \<Longrightarrow> ss_posted s' = ss_posted s"
  unfolding unpaid_def by (metis fst_conv)

named_theorems quiet_intros \<open>scripts that post and send nothing\<close>

lemma quiet_bind [quiet_intros]: "quiet m \<Longrightarrow> (\<And>a. quiet (f a)) \<Longrightarrow> quiet (sc_bind m f)"
  by (auto simp: quiet_def sc_bind_def split: prod.split sum.split) (metis fst_conv)+

lemma quiet_basic [quiet_intros]:
  "quiet (sc_return a)" "quiet (sc_stop e)" "quiet (sc_await r)" "quiet (sc_memo q)"
  "quiet (sc_exit_if b n)" "quiet (sc_client c)" "quiet (sc_prepare V R p)" "quiet (sc_load i)"
  "quiet (sc_create now w cp)" "quiet (sc_save now w j)"
  by (auto simp: quiet_def sc_return_def sc_stop_def sc_await_def sc_memo_def sc_exit_if_def
      sc_client_def sc_prepare_def sc_load_def sc_create_def sc_save_def split: prod.split)

named_theorems unpaid_intros \<open>scripts that post nothing\<close>

lemma unpaid_bind [unpaid_intros]: "unpaid m \<Longrightarrow> (\<And>a. unpaid (f a)) \<Longrightarrow> unpaid (sc_bind m f)"
  by (auto simp: unpaid_def sc_bind_def split: prod.split sum.split) (metis fst_conv)+

lemma unpaid_run [unpaid_intros]: "unpaid (sc_run P N j)"
  by (auto simp: unpaid_def sc_run_def split: option.split prod.split)

lemmas unpaid_basic [unpaid_intros] = quiet_basic [THEN quiet_unpaid]

lemma unpaid_if [unpaid_intros]: "unpaid m \<Longrightarrow> unpaid n \<Longrightarrow> unpaid (if b then m else n)"
  by simp

text \<open>A submission posts at least its two reads.\<close>

lemma submitPayment_posts: "fst (submitPayment net parse i w maxPolls) \<noteq> []"
  by (auto simp: submitPayment_def Let_def split: sum.split prod.split option.split json.split)

text \<open>The loop of \<open>run\<close> is a run of the executor, so its invariants hold over it.\<close>

lemma sc_run_pays:
  assumes "sc_run P N j s = (s', r)"
  obtains es where "ss_sent s' = ss_sent s @ es" "list_all (pays_for P (job_identity j)) es"
    "\<And>j'. r = Inr j' \<Longrightarrow> job_identity j' = job_identity j"
proof (cases "run (rn_fuel N) P (rn_now N) (rn_step N) (rn_start N) (Some (25 * 60000))
    \<lparr>ex_fdc = ss_fdc s, ex_disk = ss_disk s, ex_job = j\<rparr>")
  case None
  with assms that [of "[]"] show thesis by (auto simp: sc_run_def)
next
  case (Some p)
  obtain x es q where p: "p = (x, es, q)" by (metis prod_cases3)
  with Some obtain ls where run: "pl.run P \<lparr>ex_fdc = ss_fdc s, ex_disk = ss_disk s, ex_job = j\<rparr> ls x"
    and es: "concat ls = es"
    using run_loop_result unfolding run_def by blast
  from pl_pays.inv_run_label [OF run, of "job_identity j"]
  have "job_identity (ex_job x) = job_identity j" "list_all (pays_for P (job_identity j)) es"
    by (auto simp: list_all_iff simp flip: es)
  moreover have "ss_sent s' = ss_sent s @ es" "\<And>j'. r = Inr j' \<Longrightarrow> j' = ex_job x"
    using assms Some p by (auto simp: sc_run_def)
  ultimately show thesis using that by blast
qed

lemma sc_run_never_exits: "sc_run P N j s = (s', Inl e) \<Longrightarrow> e \<noteq> Exit n"
  by (auto simp: sc_run_def bind_err_eq_Inl split: option.splits prod.splits)

text \<open>The identity of a job that was created rather than found.\<close>

lemma new_job_identity:
  "job_identity (new_job now t p) = (js_slice_from 2 t, t, cp_userOpData p,
     bigint_toString (cp_totalCallValue p), cp_personalAccount p, bigint_toString (cp_nonce p))"
  by (simp add: job_identity_def new_job_def)

lemma job_created_identity:
  assumes "job_create now w p d = (d', Inr j)"
    and "\<And>t. normalizeXrplTxId (cp_xrplTxId p) = Inr t \<Longrightarrow> job_load (js_slice_from 2 t) d = None"
  obtains t where "job_identity j = (js_slice_from 2 t, t, cp_userOpData p,
    bigint_toString (cp_totalCallValue p), cp_personalAccount p, bigint_toString (cp_nonce p))"
    "normalizeXrplTxId (cp_xrplTxId p) = Inr t" "j_state j = observed" "w = Written"
proof -
  obtain t where t: "normalizeXrplTxId (cp_xrplTxId p) = Inr t"
    and "job_load (js_slice_from 2 t) d = Some j \<and> d' = d \<or>
      job_load (js_slice_from 2 t) d = None \<and> w = Written \<and> j = new_job now t p \<and>
      d' = AList.update (job_file (js_slice_from 2 t)) (JsonFile j) d"
    using assms(1) by (rule job_create_Inr)
  with assms(2) have "j = new_job now t p" "w = Written" by auto
  with that t show ?thesis by (simp add: new_job_identity) (simp add: new_job_def)
qed

lemma pays_for_created:
  "pays_for P (a, b, d, bigint_toString v, pa, n) (ExecuteDirectMinting am pf bytes v') \<Longrightarrow>
    am = pl_assetManager P \<and> bytes = d \<and> v' = v"
  by simp

text \<open>Whatever becomes of a job that was just created, its transactions carry what it was created with.\<close>

lemma created_run_pays:
  assumes "sc_create now w p s = (s1, Inr job)" and "sc_run P N job s1 = (s2, r)"
    and fresh: "\<And>t. normalizeXrplTxId (cp_xrplTxId p) = Inr t \<Longrightarrow> job_load (js_slice_from 2 t) (ss_disk s) = None"
  shows "\<exists>es. ss_sent s2 = ss_sent s @ es \<and> (\<forall>am pf bytes v. ExecuteDirectMinting am pf bytes v \<in> set es \<longrightarrow>
      bytes = cp_userOpData p \<and> v = cp_totalCallValue p)"
    and "j_userOpData job = cp_userOpData p"
proof -
  have "job_create now w p (ss_disk s) = (fst (job_create now w p (ss_disk s)), Inr job)"
    using assms(1) by (auto simp: sc_ends intro: prod_eqI)
  then obtain t where t: "job_identity job = (js_slice_from 2 t, t, cp_userOpData p,
      bigint_toString (cp_totalCallValue p), cp_personalAccount p, bigint_toString (cp_nonce p))"
    by (rule job_created_identity) (rule fresh)
  obtain es where es: "ss_sent s2 = ss_sent s1 @ es" "list_all (pays_for P (job_identity job)) es"
    using assms(2) by (rule sc_run_pays) blast
  have "bytes = cp_userOpData p \<and> v = cp_totalCallValue p"
    if "ExecuteDirectMinting am pf bytes v \<in> set es" for am pf bytes v
    using that es(2) pays_for_created unfolding t list_all_iff by blast
  moreover have "ss_sent s1 = ss_sent s" using assms(1) by (simp add: sc_ends)
  ultimately show "\<exists>es. ss_sent s2 = ss_sent s @ es \<and> (\<forall>am pf bytes v.
      ExecuteDirectMinting am pf bytes v \<in> set es \<longrightarrow> bytes = cp_userOpData p \<and> v = cp_totalCallValue p)"
    using es(1) by auto
  show "j_userOpData job = cp_userOpData p" using t by (simp add: job_identity_def)
qed

text \<open>What the memo of a prepared request decodes to, read as the scripts read it.\<close>

lemma prepared_memo:
  assumes "isHex_doc V" and "keccak256_doc V" and "encodeAbiParameters_doc V"
    and "snd (prepare V R c params) = Inr req"
  shows "\<exists>w. decodeMemo (buffer_from_hex (MemoData (xrplPayment req))) =
      Inr (DecExecuteCommitted w (executorFeeUBA (params_header params)) (userOpHash req))"
    and "length (buffer_from_hex (MemoData (xrplPayment req))) = 42"
    and "sender (userOp req) = personalAccount req" and "nonce (userOp req) = pr_nonce req"
    and "totalCallValue req = foldl (\<lambda>acc c. acc + val c) 0 (p_calls params)"
    and "fromXrplMemoHex V (MemoData (xrplPayment req)) = Inr (buffer_from_hex (MemoData (xrplPayment req)))"
proof -
  obtain dest fees executor u memo where
    u: "prepareUserOp V (personalAccount req) (pr_nonce req) (p_calls params) = Inr u"
    and memo: "encodeExecuteCommittedMemo V (params_header params) (pu_userOpHash u) = Inr memo"
    and req: "req = prepared_of V params (personalAccount req) dest fees (pr_nonce req) executor u memo"
    using assms(4) by (rule prepare_InrE)
  have fields: "userOp req = pu_userOp u" "userOpHash req = pu_userOpHash u"
    "MemoData (xrplPayment req) = toXrplMemoHex memo"
    by (subst req, simp)+
  note m = committed_memo_facts [OF assms(1) memo prepared_hash_shape(1) [OF assms(2,3) u]]
  show "\<exists>w. decodeMemo (buffer_from_hex (MemoData (xrplPayment req))) =
      Inr (DecExecuteCommitted w (executorFeeUBA (params_header params)) (userOpHash req))"
    and "length (buffer_from_hex (MemoData (xrplPayment req))) = 42"
    and "fromXrplMemoHex V (MemoData (xrplPayment req)) = Inr (buffer_from_hex (MemoData (xrplPayment req)))"
    using m fromXrplMemoHex_aux [OF assms(1)] by (auto simp: fields)
  show "sender (userOp req) = personalAccount req" and "nonce (userOp req) = pr_nonce req"
    using prepareUserOp_fields [OF u] by (simp_all add: fields)
  show "totalCallValue req = foldl (\<lambda>acc c. acc + val c) 0 (p_calls params)"
    by (subst req) (simp add: prepared_of_def)
qed

subsection \<open>A network for the witnesses\<close>

lemma demo_smooth_any:
  assumes "js_BigInt (j_totalCallValue j) = Inr v"
  shows "smooth P demo_env j ''0x5265'' 10 demo_proof v ''0xhash'' demo_receipt"
  using assms
  by (simp add: smooth_def Let_def demo_submit_any demo_finalized_any prepareRequest_value
      fetchProof_value demo_proof_def)
    (simp add: demo_receipt_def)

definition demo_run_env :: run_env where
  "demo_run_env = \<lparr>rn_fuel = 6, rn_now = (\<lambda>_. 0), rn_step = (\<lambda>_. demo_env), rn_start = 0\<rparr>"

lemma demo_sc_run:
  assumes "js_BigInt (j_totalCallValue j) = Inr v" and "j_state j = observed"
  shows "\<exists>s' j' hub fee. sc_run P demo_run_env j s = (s', Inr j') \<and> j_state j' = executed \<and>
    job_identity j' = job_identity j \<and> ss_posted s' = ss_posted s \<and>
    ss_sent s' = ss_sent s @ [RequestAttestation hub (Some ''0x5265'') fee,
      ExecuteDirectMinting (pl_assetManager P) demo_proof (j_userOpData j) v]"
proof -
  let ?x = "\<lparr>ex_fdc = ss_fdc s, ex_disk = ss_disk s, ex_job = j\<rparr>"
  have "smooth P demo_env (ex_job ?x) ''0x5265'' 10 demo_proof v ''0xhash'' demo_receipt"
    and "j_state (ex_job ?x) = observed"
    using demo_smooth_any [OF assms(1)] assms(2) by simp_all
  from run_loop_smooth [OF this, of "\<lambda>_. 0" "25 * 60000" 0 0]
  obtain x' hub fee where r: "run_loop 6 P (\<lambda>_. 0) (\<lambda>_. demo_env) (25 * 60000) 0 ?x =
      Some (x', [RequestAttestation hub (Some ''0x5265'') fee,
        ExecuteDirectMinting (pl_assetManager P) demo_proof (j_userOpData j) v], Inr ())"
    and e: "j_state (ex_job x') = executed"
    by (auto simp del: run_loop.simps)
  let ?s' = "s\<lparr>ss_fdc := ex_fdc x', ss_disk := ex_disk x',
      ss_sent := ss_sent s @ [RequestAttestation hub (Some ''0x5265'') fee,
        ExecuteDirectMinting (pl_assetManager P) demo_proof (j_userOpData j) v]\<rparr>"
  have ran: "sc_run P demo_run_env j s = (?s', Inr (ex_job x'))"
    using r by (simp add: sc_run_def run_def demo_run_env_def del: run_loop.simps)
  have "job_identity (ex_job x') = job_identity j"
    by (rule sc_run_pays [OF ran]) simp
  with ran e show ?thesis
    by (intro exI [of _ ?s'] exI [of _ "ex_job x'"] exI [of _ hub] exI [of _ fee]) simp
qed

end
