(* ===== verification/Service.thy ===== *)
theory Service
  imports Pipeline Watcher Xaman
begin

text \<open>
  \<open>packages/executor/src/service.ts\<close>: the routes of the HTTP server and the two loops of a tick.

  A request comes with its URL already split, as \<open>new URL\<close> does, and its body as text. Of the JSON
  bodies the model reads the text fields the source declares; a field of another type counts as
  absent. The injected functions, the clock, the disk and the wallet service are the environment.
  One tick runs to its end before the next one starts: the timer of the source does not wait for
  that, which the header of the library lists among the things not modelled.
\<close>

subsection \<open>State\<close>

record service =
  sv_store :: pending_store
  sv_watcher :: watcher
  sv_live :: "(js_str \<times> job) list"
  sv_fdc :: fdc_client
  sv_jobs :: "job directory"

record service_options =
  so_pipeline :: pipeline_options
  so_viem :: viem
  so_coreVaultAddress :: js_str
  so_xaman :: "xaman_client option"

definition new_ExecutorService :: "pending_store \<Rightarrow> fdc_client \<Rightarrow> job directory \<Rightarrow> service" where
  "new_ExecutorService st c d =
    \<lparr>sv_store = st, sv_watcher = new_Watcher, sv_live = [], sv_fdc = c, sv_jobs = d\<rparr>"

text \<open>\<open>start\<close>: the watcher starts at the current ledger; no job is loaded.\<close>

definition service_start :: "js_error + int \<Rightarrow> service \<Rightarrow> service \<times> (js_error + unit)" where
  "service_start ledger s = (case ledger of
     Inl e \<Rightarrow> (s, Inl e)
   | Inr startLedger \<Rightarrow> (s\<lparr>sv_watcher := setStartLedger startLedger (sv_watcher s)\<rparr>, Inr ()))"

subsection \<open>Requests and responses\<close>

record request =
  hr_method :: js_str
  hr_path :: js_str
  hr_query :: "(js_str \<times> js_str) list"
  hr_body :: js_str

datatype response =
    RJson int json
  | RNoContent
  | RHtml js_str

record prepared_for_web =
  pw_personalAccount :: js_str
  pw_nonce :: js_str
  pw_label :: js_str
  pw_userOpData :: js_str
  pw_userOpHash :: js_str
  pw_totalCallValue :: js_str
  pw_memoHex :: js_str
  pw_destination :: js_str
  pw_amountDrops :: js_str
  pw_calls :: json

record handler_env =
  he_now :: int
  he_write :: write_outcome
  he_parse :: json_parser
  he_html :: "js_str option"
  he_prepare :: "(js_str \<Rightarrow> js_error + prepared_for_web) option"
  he_readVaultBalance :: "(js_str \<Rightarrow> js_error + js_str) option"
  he_xamanNet :: xaman_net

definition json_error :: "int \<Rightarrow> js_str \<Rightarrow> response" where
  "json_error code m = RJson code (JObj [(''error'', JStr m)])"

definition readBody :: "json_parser \<Rightarrow> js_str \<Rightarrow> js_error + json" where
  "readBody parse raw = (if raw \<noteq> [] then parse raw else Inr (JObj []))"

text \<open>A text field: \<open>None\<close> when it is absent, \<open>null\<close> or not text.\<close>

definition text_field :: "json \<Rightarrow> js_str \<Rightarrow> js_str option" where
  "text_field v k = (case json_get v k of Some (JStr s) \<Rightarrow> Some s | _ \<Rightarrow> None)"

definition body_object :: "json_parser \<Rightarrow> js_str \<Rightarrow> js_str \<Rightarrow> js_error + json" where
  "body_object parse raw k = bind_err (readBody parse raw) (\<lambda>b.
     if b = JNull then Inl (JsError (''Cannot read properties of null (reading '' @ k @ '')'')) else Inr b)"

fun state_name :: "job_state \<Rightarrow> js_str" where
  "state_name observed = ''observed''"
| "state_name request_prepared = ''request_prepared''"
| "state_name request_submitted = ''request_submitted''"
| "state_name round_finalized = ''round_finalized''"
| "state_name proof_fetched = ''proof_fetched''"
| "state_name delayed = ''delayed''"
| "state_name executed = ''executed''"
| "state_name failed = ''failed''"

text \<open>\<open>JSON.stringify\<close> leaves out what is undefined.\<close>

definition status_json :: "job \<Rightarrow> json" where
  "status_json j = JObj ([(''state'', JStr (state_name (j_state j)))] @
     opt_field ''roundId'' (map_option json_int (j_roundId j)) @
     opt_field ''flareTxHash'' (map_option JStr (j_flareTxHash j)) @
     opt_field ''executionAllowedAt'' (map_option json_int (j_executionAllowedAt j)) @
     opt_field ''lastError'' (map_option JStr (j_lastError j)))"

definition pending_json :: "pending_user_op \<Rightarrow> json" where
  "pending_json p = JObj [(''commitment'', JStr (po_commitment p)), (''label'', JStr (po_label p)),
     (''personalAccount'', JStr (po_personalAccount p)), (''registeredAt'', json_int (registeredAt p))]"

definition sign_json :: "sign_request \<Rightarrow> json" where
  "sign_json r = JObj (opt_field ''uuid'' (rs_uuid r) @ opt_field ''next'' (rs_next r) @
     opt_field ''qr'' (rs_qrPng r))"

definition sign_status_json :: "sign_request_status \<Rightarrow> json" where
  "sign_status_json r = JObj ([(''uuid'', JStr (st_uuid r))] @ opt_field ''resolved'' (st_resolved r) @
     opt_field ''signed'' (st_signed r) @ opt_field ''cancelled'' (st_cancelled r) @
     opt_field ''expired'' (st_expired r) @ opt_field ''txid'' (st_txid r) @
     opt_field ''account'' (st_account r))"

definition prepared_json :: "prepared_for_web \<Rightarrow> json" where
  "prepared_json p = JObj [(''personalAccount'', JStr (pw_personalAccount p)), (''nonce'', JStr (pw_nonce p)),
     (''label'', JStr (pw_label p)), (''userOpData'', JStr (pw_userOpData p)),
     (''userOpHash'', JStr (pw_userOpHash p)), (''totalCallValue'', JStr (pw_totalCallValue p)),
     (''memoHex'', JStr (pw_memoHex p)), (''destination'', JStr (pw_destination p)),
     (''amountDrops'', JStr (pw_amountDrops p)), (''calls'', pw_calls p)]"

subsection \<open>The routes\<close>

definition store_register ::
    "service_options \<Rightarrow> handler_env \<Rightarrow> registration \<Rightarrow> service \<Rightarrow> service \<times> (js_error + js_str)" where
  "store_register Opt E entry s =
    (let (st, r) = ps_register (so_viem Opt) (he_now E) (he_write E) entry (sv_store s)
     in (s\<lparr>sv_store := st\<rparr>, r))"

definition route_register ::
    "service_options \<Rightarrow> handler_env \<Rightarrow> request \<Rightarrow> service \<Rightarrow> service \<times> (js_error + response)" where
  "route_register Opt E q s = (case body_object (he_parse E) (hr_body q) ''userOpData'' of
     Inl e \<Rightarrow> (s, Inl e)
   | Inr body \<Rightarrow>
      (case (text_field body ''userOpData'', text_field body ''personalAccount'') of
         (Some d, Some pa) \<Rightarrow>
           (if d = [] \<or> pa = []
            then (s, Inr (json_error 400 ''userOpData and personalAccount are required''))
            else
              let (s', r) = store_register Opt E
                \<lparr>rg_commitment = (if given (text_field body ''commitment'')
                    then text_field body ''commitment'' else None),
                 rg_userOpData = d, rg_personalAccount = pa,
                 rg_nonce = or_else (text_field body ''nonce'') ''0'',
                 rg_totalCallValue = or_else (text_field body ''totalCallValue'') ''0'',
                 rg_label = or_else (text_field body ''label'') ''(unlabelled)''\<rparr> s
              in (s', bind_err r (\<lambda>c. Inr (RJson 200 (JObj [(''commitment'', JStr c)])))))
       | _ \<Rightarrow> (s, Inr (json_error 400 ''userOpData and personalAccount are required''))))"

definition route_status :: "request \<Rightarrow> service \<Rightarrow> response" where
  "route_status q s = (case map_of (hr_query q) ''tx'' of
     Some i \<Rightarrow>
       if i = [] then json_error 400 ''tx query parameter is required''
       else (case job_load (js_toUpperCase (strip_0x i)) (sv_jobs s) of
           None \<Rightarrow> json_error 404 ''no job for that XRPL transaction''
         | Some j \<Rightarrow> RJson 200 (status_json j))
   | None \<Rightarrow> json_error 400 ''tx query parameter is required'')"

definition route_pending :: "service \<Rightarrow> response" where
  "route_pending s = RJson 200 (JObj [(''pending'', JArr (map pending_json (ps_list (sv_store s))))])"

definition route_prepare ::
    "service_options \<Rightarrow> handler_env \<Rightarrow> request \<Rightarrow> service \<Rightarrow> service \<times> (js_error + response)" where
  "route_prepare Opt E q s = (case he_prepare E of
     None \<Rightarrow> (s, Inr (json_error 503 ''prepare is not wired on this executor''))
   | Some prep \<Rightarrow>
      (case body_object (he_parse E) (hr_body q) ''xrplAddress'' of
         Inl e \<Rightarrow> (s, Inl e)
       | Inr body \<Rightarrow>
          (if \<not> given (text_field body ''xrplAddress'')
           then (s, Inr (json_error 400 ''xrplAddress is required''))
           else let addr = the (text_field body ''xrplAddress'') in
             (case prep addr of
                Inl e \<Rightarrow> (s, Inl e)
              | Inr p \<Rightarrow>
                 (let (s', r) = store_register Opt E
                    \<lparr>rg_commitment = Some (pw_userOpHash p), rg_userOpData = pw_userOpData p,
                     rg_personalAccount = pw_personalAccount p, rg_nonce = pw_nonce p,
                     rg_totalCallValue = pw_totalCallValue p, rg_label = pw_label p\<rparr> s
                  in (s', bind_err r (\<lambda>_. case so_xaman Opt of
                       None \<Rightarrow> Inr (RJson 200 (JObj [(''prepared'', prepared_json p), (''sign'', JNull)]))
                     | Some x \<Rightarrow>
                        bind_err (createSignRequest (he_xamanNet E) (he_parse E) x
                          \<lparr>si_account = Some addr, si_destination = pw_destination p,
                           si_amount = pw_amountDrops p, si_memoData = pw_memoHex p,
                           si_instruction = pw_label p, si_identifier = Some (pw_userOpHash p),
                           si_signers = Some [addr], si_expireMinutes = Some 15\<rparr>) (\<lambda>sg.
                        Inr (RJson 200 (JObj [(''prepared'', prepared_json p), (''sign'', sign_json sg)]))))))))))"

definition not_configured :: response where
  "not_configured = json_error 503 ''Xaman is not configured on this executor''"

definition route_signin :: "service_options \<Rightarrow> handler_env \<Rightarrow> js_error + response" where
  "route_signin Opt E = (case so_xaman Opt of
     None \<Rightarrow> Inr not_configured
   | Some x \<Rightarrow> bind_err (createSignInRequest (he_xamanNet E) (he_parse E) x ''Sign in to ONESIG'')
       (\<lambda>r. Inr (RJson 200 (sign_json r))))"

definition route_xaman :: "service_options \<Rightarrow> handler_env \<Rightarrow> request \<Rightarrow> js_error + response" where
  "route_xaman Opt E q = (case so_xaman Opt of
     None \<Rightarrow> Inr not_configured
   | Some x \<Rightarrow> bind_err (getSignRequest (he_xamanNet E) (he_parse E) x
         (js_slice_from (length ''/xaman/'') (hr_path q)))
       (\<lambda>r. Inr (RJson 200 (sign_status_json r))))"

definition route_vault :: "handler_env \<Rightarrow> request \<Rightarrow> js_error + response" where
  "route_vault E q = (case he_readVaultBalance E of
     None \<Rightarrow> Inr (json_error 503 ''vault reads are not wired'')
   | Some readBalance \<Rightarrow>
      if \<not> given (map_of (hr_query q) ''account'')
      then Inr (json_error 400 ''account query parameter is required'')
      else bind_err (readBalance (the (map_of (hr_query q) ''account'')))
        (\<lambda>b. Inr (RJson 200 (JObj [(''balance'', JStr b)]))))"

definition handle_routes ::
    "service_options \<Rightarrow> handler_env \<Rightarrow> request \<Rightarrow> service \<Rightarrow> service \<times> (js_error + response)" where
  "handle_routes Opt E q s = (let m = hr_method q; p = hr_path q in
     if m = ''OPTIONS'' then (s, Inr RNoContent)
     else if m = ''POST'' \<and> p = ''/register'' then route_register Opt E q s
     else if m = ''GET'' \<and> p = ''/status'' then (s, Inr (route_status q s))
     else if m = ''GET'' \<and> p = ''/pending'' then (s, Inr (route_pending s))
     else if m = ''GET'' \<and> (p = ''/'' \<or> p = ''/index.html'')
     then (s, Inr (case he_html E of Some h \<Rightarrow> RHtml h | None \<Rightarrow> json_error 404 ''demo page not found''))
     else if m = ''GET'' \<and> p = ''/config''
     then (s, Inr (RJson 200 (JObj [(''xamanConfigured'', JBool (so_xaman Opt \<noteq> None)),
       (''coreVault'', JStr (so_coreVaultAddress Opt))])))
     else if m = ''POST'' \<and> p = ''/signin'' then (s, route_signin Opt E)
     else if m = ''GET'' \<and> js_startsWith ''/xaman/'' p then (s, route_xaman Opt E q)
     else if m = ''POST'' \<and> p = ''/prepare'' then route_prepare Opt E q s
     else if m = ''GET'' \<and> p = ''/vault'' then (s, route_vault E q)
     else if m = ''GET'' \<and> p = ''/health''
     then (s, Inr (RJson 200 (JObj [(''ok'', JBool True), (''live'', json_int (int (length (sv_live s))))])))
     else (s, Inr (json_error 404 ''not found'')))"

text \<open>The callback of \<open>createServer\<close>: an exception is a response with status 500.\<close>

definition handle :: "service_options \<Rightarrow> handler_env \<Rightarrow> request \<Rightarrow> service \<Rightarrow> service \<times> response" where
  "handle Opt E q s = (let (s', r) = handle_routes Opt E q s in
     (s', case r of Inr resp \<Rightarrow> resp | Inl e \<Rightarrow> json_error 500 (err_message e)))"

subsection \<open>A tick\<close>

record tick_env =
  te_rpc :: "account_tx_params \<Rightarrow> js_error + account_tx_entry list option"
  te_createNow :: int
  te_createWrite :: "js_str \<Rightarrow> write_outcome"
  te_step :: "js_str \<Rightarrow> step_env"

definition POLL_LIMIT :: int where
  "POLL_LIMIT = 30"

definition create_from ::
    "tick_env \<Rightarrow> observed_payment \<Rightarrow> pending_user_op \<Rightarrow> job directory \<Rightarrow> job directory \<times> (js_error + job)" where
  "create_from E p pending d = (case js_BigInt (po_totalCallValue pending) of
     Inl e \<Rightarrow> (d, Inl e)
   | Inr v \<Rightarrow> (case js_BigInt (po_nonce pending) of
       Inl e \<Rightarrow> (d, Inl e)
     | Inr n \<Rightarrow> job_create (te_createNow E) (te_createWrite E (xrplTxId p))
         \<lparr>cp_xrplTxId = xrplTxId p, cp_userOpData = po_userOpData pending, cp_totalCallValue = v,
          cp_personalAccount = po_personalAccount pending, cp_nonce = n\<rparr> d))"

text \<open>The first loop: an exception leaves it, with the payments after it unhandled.\<close>

fun intake :: "tick_env \<Rightarrow> observed_payment list \<Rightarrow> service \<Rightarrow> service \<times> (js_error + unit)" where
  "intake E [] s = (s, Inr ())"
| "intake E (p # ps) s =
    (if xrplTxId p \<in> fst ` set (sv_live s) then intake E ps s
     else
       let (st, pending) = ps_get (ob_commitment p) (sv_store s); s1 = s\<lparr>sv_store := st\<rparr>
       in (case pending of
             None \<Rightarrow> intake E ps s1
           | Some r \<Rightarrow>
              (let (d, res) = create_from E p r (sv_jobs s1); s2 = s1\<lparr>sv_jobs := d\<rparr>
               in (case res of
                     Inl e \<Rightarrow> (s2, Inl e)
                   | Inr j \<Rightarrow> intake E ps (s2\<lparr>sv_live := AList.update (xrplTxId p) j (sv_live s2)\<rparr>)))))"

definition watch :: "service_options \<Rightarrow> tick_env \<Rightarrow> service \<Rightarrow> service \<times> (js_error + unit)" where
  "watch Opt E s =
    (let (w, st, r) = poll (te_rpc E) (so_coreVaultAddress Opt) POLL_LIMIT (sv_watcher s) (sv_store s);
         s1 = s\<lparr>sv_watcher := w, sv_store := st\<rparr>
     in case r of
          Inl e \<Rightarrow> (s1, Inl e)
        | Inr found \<Rightarrow> intake E found s1)"

text \<open>
  The second loop, over the live map in its order. The job in the map is the object the step mutates,
  so the map holds what the step left, whether it returned or threw.
\<close>

definition drive_one ::
    "service_options \<Rightarrow> tick_env \<Rightarrow> js_str \<Rightarrow> job \<Rightarrow> service \<Rightarrow> service \<times> tx_request list" where
  "drive_one Opt E i j s =
    (case step (so_pipeline Opt) (te_step E i) \<lparr>ex_fdc = sv_fdc s, ex_disk = sv_jobs s, ex_job = j\<rparr> of
       (x, es, r) \<Rightarrow>
         let s1 = s\<lparr>sv_fdc := ex_fdc x, sv_jobs := ex_disk x,
               sv_live := AList.update i (ex_job x) (sv_live s)\<rparr>
         in (case r of
               Inl _ \<Rightarrow> (s1, es)
             | Inr _ \<Rightarrow>
                 (if terminal (j_state (ex_job x))
                  then (s1\<lparr>sv_live := AList.delete i (sv_live s1)\<rparr>, es) else (s1, es))))"

fun drive :: "service_options \<Rightarrow> tick_env \<Rightarrow> (js_str \<times> job) list \<Rightarrow> service \<Rightarrow> service \<times> tx_request list" where
  "drive Opt E [] s = (s, [])"
| "drive Opt E ((i, j) # js) s =
    (let (s1, es) = drive_one Opt E i j s; (s2, es2) = drive Opt E js s1 in (s2, es @ es2))"

definition tick :: "service_options \<Rightarrow> tick_env \<Rightarrow> service \<Rightarrow> service \<times> tx_request list" where
  "tick Opt E s = (let s1 = fst (watch Opt E s) in drive Opt E (sv_live s1) s1)"


subsection \<open>What a response can depend on\<close>

text \<open>
  The service with every payload blanked out, in the store, on disk, and in the jobs, and with \<open>f\<close> in the
  place of the last error of every job.
\<close>

definition blank_pending :: "pending_user_op \<Rightarrow> pending_user_op" where
  "blank_pending r = r\<lparr>po_userOpData := []\<rparr>"

definition blank_job :: "(js_str option \<Rightarrow> js_str option) \<Rightarrow> job \<Rightarrow> job" where
  "blank_job f j = j\<lparr>j_userOpData := [], j_lastError := f (j_lastError j)\<rparr>"

definition map_directory :: "('a \<Rightarrow> 'b) \<Rightarrow> 'a directory \<Rightarrow> 'b directory" where
  "map_directory f d = map (\<lambda>(n, c). (n, map_file_content f c)) d"

definition blank_service :: "(js_str option \<Rightarrow> js_str option) \<Rightarrow> service \<Rightarrow> service" where
  "blank_service f s = s\<lparr>
     sv_store := \<lparr>ps_memory = (\<lambda>k. map_option blank_pending (ps_memory (sv_store s) k)),
       ps_disk = map_directory blank_pending (ps_disk (sv_store s))\<rparr>,
     sv_live := map (\<lambda>(i, j). (i, blank_job f j)) (sv_live s),
     sv_jobs := map_directory (blank_job f) (sv_jobs s)\<rparr>"

lemma read_json_map: "read_json f (map_directory g d) = map_option g (read_json f d)"
proof -
  have "map_of (map_directory g d) f = map_option (map_file_content g) (map_of d f)"
    by (induction d) (auto simp: map_directory_def)
  then show ?thesis by (auto simp: read_json_def split: option.split file_content.split)
qed

lemma parse_files_map: "parse_files (map_directory g d) = map_option (map g) (parse_files d)"
  by (induction d rule: parse_files.induct)
    (auto simp: map_directory_def option.map_comp comp_def split: file_content.split)

lemma insort_key_map:
  "(\<And>x. k (g x) = k x) \<Longrightarrow> insort_key k (g x) (map g xs) = map g (insort_key k x xs)"
  by (induction xs) simp_all

lemma sort_key_map: "(\<And>x. k (g x) = k x) \<Longrightarrow> sort_key k (map g xs) = map g (sort_key k xs)"
  by (induction xs) (simp_all add: insort_key_map)

lemma ps_list_blank:
  "ps_disk s' = map_directory blank_pending (ps_disk s) \<Longrightarrow> ps_list s' = map blank_pending (ps_list s)"
  by (auto simp: ps_list_def parse_files_map blank_pending_def intro!: sort_key_map split: option.split)

lemma pending_json_blank [simp]: "pending_json (blank_pending r) = pending_json r"
  by (simp add: pending_json_def blank_pending_def)

lemma status_json_blank [simp]: "status_json (blank_job id j) = status_json j"
  by (simp add: status_json_def blank_job_def)

lemma route_status_blank: "route_status q (blank_service id s) = route_status q s"
  by (auto simp: route_status_def blank_service_def job_load_def read_json_map split: option.split)

lemma route_pending_blank: "route_pending (blank_service f s) = route_pending s"
proof -
  have "map pending_json (ps_list (sv_store (blank_service f s))) = map pending_json (ps_list (sv_store s))"
    using ps_list_blank [of "sv_store (blank_service f s)" "sv_store s"]
    by (simp add: blank_service_def comp_def)
  then show ?thesis by (simp add: route_pending_def)
qed

subsection \<open>The loops of a tick\<close>

lemma drive_one_live:
  "fst (drive_one Opt E i j s) = s1 \<Longrightarrow>
    \<exists>x es r. step (so_pipeline Opt) (te_step E i) \<lparr>ex_fdc = sv_fdc s, ex_disk = sv_jobs s, ex_job = j\<rparr> = (x, es, r) \<and>
      snd (drive_one Opt E i j s) = es \<and>
      sv_live s1 = (if is_ok r \<and> terminal (j_state (ex_job x))
        then AList.delete i (AList.update i (ex_job x) (sv_live s)) else AList.update i (ex_job x) (sv_live s))"
proof -
  assume s1: "fst (drive_one Opt E i j s) = s1"
  obtain x es r where st: "step (so_pipeline Opt) (te_step E i)
      \<lparr>ex_fdc = sv_fdc s, ex_disk = sv_jobs s, ex_job = j\<rparr> = (x, es, r)"
    by (metis prod_cases3)
  then have "snd (drive_one Opt E i j s) = es \<and>
      sv_live s1 = (if is_ok r \<and> terminal (j_state (ex_job x))
        then AList.delete i (AList.update i (ex_job x) (sv_live s)) else AList.update i (ex_job x) (sv_live s))"
    unfolding s1 [symmetric] by (cases r) (simp_all add: drive_one_def Let_def)
  with st show ?thesis by blast
qed

lemma drive_one_step:
  obtains j' es where "job_step (so_pipeline Opt) (te_step E i) j es j'"
    and "snd (drive_one Opt E i j s) = es"
    and "map_of (sv_live (fst (drive_one Opt E i j s))) = (map_of (sv_live s))(i \<mapsto> j') \<or>
      terminal (j_state j') \<and> map_of (sv_live (fst (drive_one Opt E i j s))) = (map_of (sv_live s))(i := None)"
proof -
  obtain x es r where st: "step (so_pipeline Opt) (te_step E i)
      \<lparr>ex_fdc = sv_fdc s, ex_disk = sv_jobs s, ex_job = j\<rparr> = (x, es, r)"
    and e: "snd (drive_one Opt E i j s) = es"
    and l: "sv_live (fst (drive_one Opt E i j s)) = (if is_ok r \<and> terminal (j_state (ex_job x))
        then AList.delete i (AList.update i (ex_job x) (sv_live s)) else AList.update i (ex_job x) (sv_live s))"
    using drive_one_live [OF refl, where Opt = Opt and E = E and i = i and j = j and s = s] by blast
  have j: "job_step (so_pipeline Opt) (te_step E i) j es (ex_job x)"
    using step_refines [OF st] by simp
  show ?thesis
    by (rule that [OF j e]) (auto simp: l update_conv' delete_conv' fun_eq_iff)
qed

text \<open>After the loop, what became of the job under each key.\<close>

definition stepped ::
    "service_options \<Rightarrow> tick_env \<Rightarrow> js_str \<Rightarrow> job \<Rightarrow> service \<Rightarrow> bool" where
  "stepped Opt E i j s' \<longleftrightarrow> (\<exists>es j'. job_step (so_pipeline Opt) (te_step E i) j es j' \<and>
     (map_of (sv_live s') i = Some j' \<or> map_of (sv_live s') i = None \<and> terminal (j_state j')))"

lemma drive_stepped:
  assumes "distinct (map fst js)"
  shows "(\<forall>i j. (i, j) \<in> set js \<longrightarrow> stepped Opt E i j (fst (drive Opt E js s))) \<and>
    (\<forall>i. i \<notin> fst ` set js \<longrightarrow> map_of (sv_live (fst (drive Opt E js s))) i = map_of (sv_live s) i)"
  using assms
proof (induction js arbitrary: s)
  case (Cons p js)
  obtain i j where p: "p = (i, j)" by force
  let ?s1 = "fst (drive_one Opt E i j s)"
  have d: "fst (drive Opt E (p # js) s) = fst (drive Opt E js ?s1)"
    by (simp add: p case_prod_beta Let_def)
  have i: "i \<notin> fst ` set js" and dist: "distinct (map fst js)" using Cons.prems p by auto
  note IH = Cons.IH [OF dist, of ?s1]
  obtain j' es where st: "job_step (so_pipeline Opt) (te_step E i) j es j'"
    and m: "map_of (sv_live ?s1) = (map_of (sv_live s))(i \<mapsto> j') \<or>
      terminal (j_state j') \<and> map_of (sv_live ?s1) = (map_of (sv_live s))(i := None)"
    by (rule drive_one_step [of Opt E i j s])
  have "map_of (sv_live (fst (drive Opt E js ?s1))) i = map_of (sv_live ?s1) i"
    using IH i by blast
  with m st have "stepped Opt E i j (fst (drive Opt E js ?s1))"
    unfolding stepped_def by (metis fun_upd_same)
  moreover have "map_of (sv_live ?s1) k = map_of (sv_live s) k" if "k \<noteq> i" for k
    using m that by auto
  ultimately show ?case using IH i unfolding d by (auto simp: p)
qed simp

lemma intake_Cons:
  "intake E (p # ps) s = (case intake E [p] s of
     (s', Inl e) \<Rightarrow> (s', Inl e)
   | (s', Inr _) \<Rightarrow> intake E ps s')"
  by (simp add: Let_def case_prod_beta split: option.split sum.split)

declare intake.simps(2) [simp del]

lemma intake_append:
  "intake E (ps @ qs) s = (case intake E ps s of
     (s', Inl e) \<Rightarrow> (s', Inl e)
   | (s', Inr _) \<Rightarrow> intake E qs s')"
proof (induction ps arbitrary: s)
  case (Cons p ps)
  show ?case
    unfolding append_Cons intake_Cons [of E p "ps @ qs"] intake_Cons [of E p ps]
    by (auto simp: Cons.IH split: prod.split sum.split)
qed simp

lemma intake_watcher: "sv_watcher (fst (intake E ps s)) = sv_watcher s"
  by (induction ps arbitrary: s) (simp_all add: intake.simps(2) case_prod_beta Let_def split: option.split sum.split)

text \<open>One payment: nothing happens to the live map, or the job created for it is entered.\<close>

lemma intake_one_cases:
  obtains "sv_live (fst (intake E [p] s)) = sv_live s"
  | r j where "xrplTxId p \<notin> fst ` set (sv_live s)" "snd (ps_get (ob_commitment p) (sv_store s)) = Some r"
    "snd (create_from E p r (sv_jobs s)) = Inr j"
    "sv_live (fst (intake E [p] s)) = AList.update (xrplTxId p) j (sv_live s)"
proof (cases "xrplTxId p \<in> fst ` set (sv_live s)")
  case True
  then show ?thesis by (intro that(1)) (simp add: intake.simps(2))
next
  case new: False
  show ?thesis
  proof (cases "snd (ps_get (ob_commitment p) (sv_store s))")
    case None
    with new show ?thesis by (intro that(1)) (simp add: intake.simps(2) case_prod_beta Let_def)
  next
    case r: (Some r)
    show ?thesis
    proof (cases "snd (create_from E p r (sv_jobs s))")
      case (Inl e)
      with new r show ?thesis by (intro that(1)) (simp add: intake.simps(2) case_prod_beta Let_def)
    next
      case (Inr j)
      with new r show ?thesis
        by (intro that(2) [of r j]) (simp_all add: intake.simps(2) case_prod_beta Let_def)
    qed
  qed
qed

lemma intake_live_keys: "distinct (map fst (sv_live s)) \<Longrightarrow> distinct (map fst (sv_live (fst (intake E ps s))))"
proof (induction ps arbitrary: s)
  case (Cons p ps)
  have "distinct (map fst (sv_live (fst (intake E [p] s))))"
    by (rule intake_one_cases [of E p s]) (simp_all add: Cons.prems distinct_update)
  with Cons.IH show ?case by (subst intake_Cons) (auto split: prod.split sum.split)
qed simp

lemma watch_live_keys: "distinct (map fst (sv_live s)) \<Longrightarrow> distinct (map fst (sv_live (fst (watch Opt E s))))"
  by (auto simp: watch_def Let_def case_prod_beta split: sum.split intro!: intake_live_keys)

lemma drive_live_keys: "distinct (map fst (sv_live s)) \<Longrightarrow> distinct (map fst (sv_live (fst (drive Opt E js s))))"
proof (induction js arbitrary: s)
  case (Cons p js)
  obtain i j where p: "p = (i, j)" by force
  have "distinct (map fst (sv_live (fst (drive_one Opt E i j s))))"
    using Cons.prems drive_one_live [OF refl, where Opt = Opt and E = E and i = i and j = j and s = s]
    by (auto simp: distinct_update distinct_delete)
  then show ?case using Cons.IH by (simp add: p case_prod_beta Let_def)
qed simp

lemma tick_live_keys: "distinct (map fst (sv_live s)) \<Longrightarrow> distinct (map fst (sv_live (fst (tick Opt E s))))"
  by (simp add: tick_def Let_def drive_live_keys watch_live_keys)


subsection \<open>Properties\<close>

text \<open>
  (C33) No route that reads looks at a payload: the response to any request that is not a \<open>POST\<close> is
  the same when every user operation held in memory and on disk, pending or in a job, is blanked, and
  but for \<open>GET /status\<close> also when the error texts of the jobs, which may quote one, are replaced.
\<close>

theorem service_reads_hide_payloads:
  assumes "hr_method q \<noteq> ''POST''" and "hr_path q = ''/status'' \<Longrightarrow> f = id"
  shows "snd (handle Opt E q (blank_service f s)) = snd (handle Opt E q s)"
proof -
  have "length (sv_live (blank_service f s)) = length (sv_live s)" by (simp add: blank_service_def)
  with assms show ?thesis
    by (auto simp: handle_def handle_routes_def Let_def route_status_blank route_pending_blank)
qed

text \<open>An executor with one pending operation, for the witnesses.\<close>

definition demo_service :: service where
  "demo_service = new_ExecutorService demo_store demo_fdc []"

definition demo_service_options :: service_options where
  "demo_service_options = \<lparr>so_pipeline = \<lparr>pl_account = ''0xexecutor'', pl_assetManager = ''0xmanager''\<rparr>,
     so_viem = demo_viem, so_coreVaultAddress = ''rVault'', so_xaman = None\<rparr>"

definition demo_handler_env :: handler_env where
  "demo_handler_env = \<lparr>he_now = 7, he_write = Written,
     he_parse = (\<lambda>t. Inr (JObj [(''userOpData'', JStr ''0xab''), (''personalAccount'', JStr ''0xpa'')])),
     he_html = None, he_prepare = None, he_readVaultBalance = None,
     he_xamanNet = (\<lambda>q. Inl (JsError ''offline''))\<rparr>"

definition pending_request :: request where
  "pending_request = \<lparr>hr_method = ''GET'', hr_path = ''/pending'', hr_query = [], hr_body = []\<rparr>"

lemma service_reads_hide_payloads_witness:
  "snd (handle demo_service_options demo_handler_env pending_request (blank_service (\<lambda>_. None) demo_service)) =
    snd (handle demo_service_options demo_handler_env pending_request demo_service)"
  by (rule service_reads_hide_payloads) (simp_all add: pending_request_def)


text \<open>
  What \<open>POST /register\<close> does with a body that has the two required fields: the commitment is
  recomputed; a body that claims another one gets status 500 and changes nothing; otherwise the
  answer is the commitment, under which the payload is found.
\<close>

theorem service_register_route:
  assumes "hr_method q = ''POST''" and "hr_path q = ''/register''"
    and "readBody (he_parse E) (hr_body q) = Inr body" and "text_field body ''userOpData'' = Some d"
    and "text_field body ''personalAccount'' = Some pa" and "d \<noteq> []" and "pa \<noteq> []"
    and "keccak256 (so_viem Opt) d = Inr c" and "he_write E = Written"
  shows "if given (text_field body ''commitment'') \<and>
      js_toLowerCase (the (text_field body ''commitment'')) \<noteq> js_toLowerCase c
    then fst (handle Opt E q s) = s \<and> (\<exists>m. snd (handle Opt E q s) = json_error 500 m)
    else snd (handle Opt E q s) = RJson 200 (JObj [(''commitment'', JStr c)]) \<and>
      (\<exists>r. snd (ps_get c (sv_store (fst (handle Opt E q s)))) = Some r \<and> po_userOpData r = d)"
proof -
  define cl where "cl = (if given (text_field body ''commitment'') then text_field body ''commitment'' else None)"
  let ?e = "\<lparr>rg_commitment = cl, rg_userOpData = d, rg_personalAccount = pa,
    rg_nonce = or_else (text_field body ''nonce'') ''0'',
    rg_totalCallValue = or_else (text_field body ''totalCallValue'') ''0'',
    rg_label = or_else (text_field body ''label'') ''(unlabelled)''\<rparr>"
  have "body \<noteq> JNull" using assms(4) by (auto simp: text_field_def)
  then have h: "handle Opt E q s = (let (s', r) = store_register Opt E ?e s in
      (s', case bind_err r (\<lambda>c. Inr (RJson 200 (JObj [(''commitment'', JStr c)]))) of
        Inr resp \<Rightarrow> resp | Inl e \<Rightarrow> json_error 500 (err_message e)))"
    using assms(1-7)
    by (simp add: handle_def handle_routes_def route_register_def body_object_def cl_def case_prod_beta Let_def)
  have cl: "claims_other cl c = (given (text_field body ''commitment'') \<and>
      js_toLowerCase (the (text_field body ''commitment'')) \<noteq> js_toLowerCase c)"
    by (cases "text_field body ''commitment''") (simp_all add: cl_def claims_other_def)
  show ?thesis
    unfolding cl [symmetric] h store_register_def
    using assms(8,9)
    by (auto simp: ps_register_def Let_def ps_get_def case_prod_beta)
qed

lemma service_register_route_witness:
  "snd (handle demo_service_options demo_handler_env
      \<lparr>hr_method = ''POST'', hr_path = ''/register'', hr_query = [], hr_body = ''{}''\<rparr> demo_service) =
    RJson 200 (JObj [(''commitment'', JStr demo_commitment)])"
  using service_register_route [of "\<lparr>hr_method = ''POST'', hr_path = ''/register'', hr_query = [], hr_body = ''{}''\<rparr>"
      demo_handler_env "JObj [(''userOpData'', JStr ''0xab''), (''personalAccount'', JStr ''0xpa'')]"
      "''0xab''" "''0xpa''" demo_service_options demo_commitment demo_service]
    demo_commitment_hash
  by (simp add: demo_handler_env_def demo_service_options_def readBody_def text_field_def)

text \<open>
  The job created for an observed payment carries the bytes behind its commitment: with a store
  that only ever held verified payloads, the new job's user operation hashes to the commitment in
  the payment, its value is the registered one, and it is on disk under the payment's id.
\<close>

theorem service_job_verified:
  assumes "keccak256_doc V" and "store_inv V (sv_store s)" and "canonical_commitment (ob_commitment p)"
    and "snd (ps_get (ob_commitment p) (sv_store s)) = Some r" and "xrplTxId p \<notin> fst ` set (sv_live s)"
    and "normalizeXrplTxId (xrplTxId p) = Inr txId" and "job_load (drop 2 txId) (sv_jobs s) = None"
    and "js_BigInt (po_totalCallValue r) = Inr v" and "js_BigInt (po_nonce r) = Inr n"
    and "te_createWrite E (xrplTxId p) = Written"
  shows "\<exists>s' j. intake E [p] s = (s', Inr ()) \<and> map_of (sv_live s') (xrplTxId p) = Some j \<and>
    keccak256 V (j_userOpData j) = Inr (ob_commitment p) \<and> j_state j = observed \<and>
    js_BigInt (j_totalCallValue j) = Inr v \<and> job_load (drop 2 txId) (sv_jobs s') = Some j"
proof -
  have "sound_hash_inv V (sv_store s)" using assms(1,2) by (simp add: sound_hash_inv_def)
  from ps.lookup_binds [OF this assms(3,4)]
  have k: "keccak256 V (po_userOpData r) = Inr (ob_commitment p)" by (simp add: payload_of_def)
  have "x \<noteq> xrplTxId p" if "(x, y) \<in> set (sv_live s)" for x y using assms(5) that by force
  with assms(4-10) k show ?thesis
    by (auto simp: intake.simps(2) case_prod_beta Let_def create_from_def job_create_def job_save_def
        new_job_def job_load_def update_conv')
qed

definition demo_observed :: observed_payment where
  "demo_observed = observe (replicate 64 (CHR ''A'')) demo_commitment demo_entry_tx JNull"

definition demo_tick_env :: tick_env where
  "demo_tick_env = \<lparr>te_rpc = (\<lambda>q. Inr None), te_createNow = 1, te_createWrite = (\<lambda>i. Written),
     te_step = (\<lambda>i. \<lparr>se_world = demo_world, se_now = 0, se_saveNow = 2, se_write = Written\<rparr>)\<rparr>"

lemma demo_store_inv: "store_inv demo_viem demo_store"
  using store_inv_register [OF store_inv_empty] by (simp add: demo_store_def)

lemma demo_BigInt: "js_BigInt ''0'' = Inr 0" "js_BigInt ''4'' = Inr 4"
  by code_simp+

lemma demo_normalize_bare:
  "normalizeXrplTxId (replicate 64 (CHR ''A'')) = Inr (''0x'' @ replicate 64 (CHR ''A''))"
  by code_simp

lemma service_job_verified_witness:
  "\<exists>s' j. intake demo_tick_env [demo_observed] demo_service = (s', Inr ()) \<and>
    map_of (sv_live s') (xrplTxId demo_observed) = Some j \<and>
    keccak256 demo_viem (j_userOpData j) = Inr demo_commitment \<and> j_state j = observed"
proof -
  have "\<exists>s' j. intake demo_tick_env [demo_observed] demo_service = (s', Inr ()) \<and>
      map_of (sv_live s') (xrplTxId demo_observed) = Some j \<and>
      keccak256 demo_viem (j_userOpData j) = Inr (ob_commitment demo_observed) \<and> j_state j = observed \<and>
      js_BigInt (j_totalCallValue j) = Inr 0 \<and>
      job_load (drop 2 (''0x'' @ replicate 64 (CHR ''A''))) (sv_jobs s') = Some j"
    by (rule service_job_verified [OF demo_viem_docs(3), where r = "pending_record 7 demo_commitment demo_entry"
          and n = 4])
      (simp_all add: demo_service_def new_ExecutorService_def demo_store_inv demo_observed_def observe_def
        demo_commitment_canonical demo_store_get demo_normalize_bare job_load_def read_json_def
        demo_BigInt demo_tick_env_def, simp_all add: demo_entry_def demo_BigInt)
  then show ?thesis by (auto simp: demo_observed_def observe_def)
qed

text \<open>
  No job holds up another: a tick steps every live job exactly once, each in its own
  environment, whichever of the others wait or throw; a job leaves the map only when it is finished.
\<close>

theorem service_steps_every_job:
  assumes "distinct (map fst (sv_live s))" and "s1 = fst (watch Opt E s)"
    and "map_of (sv_live s1) i = Some j"
  shows "stepped Opt E i j (fst (tick Opt E s)) \<and> distinct (map fst (sv_live (fst (tick Opt E s))))"
proof -
  have d: "distinct (map fst (sv_live s1))" using assms(1,2) by (simp add: watch_live_keys)
  have "(i, j) \<in> set (sv_live s1)" using assms(3) by (rule map_of_SomeD)
  with drive_stepped [OF d, of Opt E s1] tick_live_keys [OF assms(1), of Opt E] assms(2)
  show ?thesis by (simp add: tick_def Let_def)
qed

definition busy_service :: service where
  "busy_service = demo_service\<lparr>sv_live := [(''A'', new_job 1 ''0xA'' \<lparr>cp_xrplTxId = ''A'', cp_userOpData = ''0xab'',
     cp_totalCallValue = 0, cp_personalAccount = ''0xpa'', cp_nonce = 0\<rparr>)]\<rparr>"

lemma service_steps_every_job_witness:
  "\<exists>j. stepped demo_service_options demo_tick_env ''A'' j
    (fst (tick demo_service_options demo_tick_env busy_service))"
proof -
  have "sv_live (fst (watch demo_service_options demo_tick_env busy_service)) = sv_live busy_service"
    by (simp add: watch_def poll_def demo_tick_env_def case_prod_beta Let_def)
  then obtain j where "map_of (sv_live (fst (watch demo_service_options demo_tick_env busy_service))) ''A'' = Some j"
    by (simp add: busy_service_def)
  moreover have "distinct (map fst (sv_live busy_service))" by (simp add: busy_service_def)
  ultimately show ?thesis using service_steps_every_job [OF _ refl] by blast
qed

text \<open>
  (C36) A payment whose job cannot be created is lost, although the log says it will be retried: the
  watcher has recorded every payment of the batch as reported before the first job is created, so
  when creating the job of one of them throws, for whatever reason (a value or a nonce that is not a
  number, an id that is not a hash, a write that fails), neither it nor any one after it in the batch
  gets a job in this tick, and no later poll, whatever the ledger answers, reports them again.
\<close>

theorem service_drops_failed_intake:
  assumes "poll (te_rpc E) (so_coreVaultAddress Opt) POLL_LIMIT (sv_watcher s) (sv_store s) = (w, st, Inr (ps @ p # qs))"
    and "intake E ps (s\<lparr>sv_watcher := w, sv_store := st\<rparr>) = (s1, Inr ())"
    and "xrplTxId p \<notin> fst ` set (sv_live s1)" and "snd (ps_get (ob_commitment p) (sv_store s1)) = Some r"
    and "snd (create_from E p r (sv_jobs s1)) = Inl e"
  shows "snd (watch Opt E s) = Inl e \<and> sv_live (fst (watch Opt E s)) = sv_live s1 \<and>
    (\<forall>p'. p' \<in> set (p # qs) \<longrightarrow> xrplTxId p' \<notin> xrplTxId `
      set (snd (snd (polls rpcs vault l (sv_watcher (fst (watch Opt E s))) (sv_store (fst (watch Opt E s)))))))"
proof -
  have "watch Opt E s = intake E (p # qs) s1"
    using assms(1,2) by (simp add: watch_def intake_append)
  also have "\<dots> = (s1\<lparr>sv_store := fst (ps_get (ob_commitment p) (sv_store s1)), sv_jobs := fst (create_from E p r (sv_jobs s1))\<rparr>, Inl e)"
    using assms(3-5) by (simp add: intake.simps(2) case_prod_beta Let_def)
  finally have one: "watch Opt E s = \<dots>" .
  have "sv_watcher s1 = w" using intake_watcher [of E ps "s\<lparr>sv_watcher := w, sv_store := st\<rparr>"] assms(2) by simp
  moreover have "xrplTxId ` set (ps @ p # qs) \<subseteq> w_seen w"
    unfolding poll_found_Inr(1) [OF assms(1)] poll_loop_seen poll_found_Inr(3) [OF assms(1)] by blast
  moreover have "xrplTxId ` set (snd (snd (polls rpcs vault l w st'))) \<inter> w_seen w = {}" for st'
    using polls_fresh [of rpcs vault l w st'] by blast
  ultimately show ?thesis unfolding one by fastforce
qed

definition spoilt_store :: pending_store where
  "spoilt_store = fst (ps_register demo_viem 7 Written (demo_entry\<lparr>rg_totalCallValue := ''1.5''\<rparr>) (new_PendingStore []))"

lemma spoilt_get:
  "snd (ps_get demo_commitment spoilt_store) = Some (pending_record 7 demo_commitment (demo_entry\<lparr>rg_totalCallValue := ''1.5''\<rparr>))"
  by (simp add: spoilt_store_def ps_register_def demo_entry_def demo_commitment_hash claims_other_def Let_def ps_get_def)

definition spoilt_service :: service where
  "spoilt_service = new_ExecutorService spoilt_store demo_fdc []"

definition spoilt_env :: tick_env where
  "spoilt_env = demo_tick_env\<lparr>te_rpc := (\<lambda>q. Inr (Some [demo_entry_tx]))\<rparr>"

lemma service_drops_failed_intake_witness:
  "snd (watch demo_service_options spoilt_env spoilt_service) \<noteq> Inr () \<and>
    sv_live (fst (watch demo_service_options spoilt_env spoilt_service)) = []"
proof -
  let ?p = "observe ''AB12'' demo_commitment demo_entry_tx (the (entry_tx demo_entry_tx))"
  have rep: "reportable spoilt_store demo_entry_tx ''AB12'' demo_commitment"
    using demo_reportable spoilt_get by (simp add: reportable_def)
  have "snd (snd (poll_entry demo_entry_tx new_Watcher spoilt_store)) = Some ?p"
    unfolding poll_entry_found using rep by (auto simp: new_Watcher_def)
  then obtain w st where p: "poll (te_rpc spoilt_env) (so_coreVaultAddress demo_service_options) POLL_LIMIT
      (sv_watcher spoilt_service) (sv_store spoilt_service) = (w, st, Inr [?p])"
    by (simp add: poll_def spoilt_env_def spoilt_service_def new_ExecutorService_def case_prod_beta Let_def)
  have "ps.same_answers spoilt_store st"
    using poll_found_Inr(2) [OF p] poll_loop_store(1) by (simp add: spoilt_service_def new_ExecutorService_def)
  then have g: "snd (ps_get (ob_commitment ?p) st) =
      Some (pending_record 7 demo_commitment (demo_entry\<lparr>rg_totalCallValue := ''1.5''\<rparr>))"
    using ps.same_answersD [OF _ demo_commitment_canonical] spoilt_get by (simp add: observe_def)
  have "js_BigInt ''1.5'' = Inl (JsError ''Cannot convert 1.5 to a BigInt'')" by code_simp
  then obtain e where e: "js_BigInt (po_totalCallValue (pending_record 7 demo_commitment
      (demo_entry\<lparr>rg_totalCallValue := ''1.5''\<rparr>))) = Inl e"
    by auto
  have "xrplTxId ?p \<notin> fst ` set (sv_live spoilt_service)"
    by (simp add: spoilt_service_def new_ExecutorService_def)
  moreover have "snd (create_from spoilt_env ?p (pending_record 7 demo_commitment (demo_entry\<lparr>rg_totalCallValue := ''1.5''\<rparr>))
      (sv_jobs spoilt_service)) = Inl e" using e by (simp add: create_from_def)
  ultimately show ?thesis
    using service_drops_failed_intake [where ps = "[]" and qs = "[]" and p = ?p and s = spoilt_service and E = spoilt_env
        and Opt = demo_service_options and w = w and st = st] p g
    by (simp add: spoilt_service_def new_ExecutorService_def)
qed

end
