(* ===== verification/Web.thy ===== *)
theory Web
  imports Scripts Service
begin

text \<open>
  \<open>scripts/run-executor.ts\<close>: the service as it is run, with the \<open>prepare\<close> it is given for the demo page,
  the reading of the vault and the start. The ABI encoder of viem is a parameter, called with the name
  of a function and its arguments; so is the text of an error, which is all the service reads of it.
\<close>

subsection \<open>The deposit\<close>

definition DEPLOYED_MockFXRP :: js_str where
  "DEPLOYED_MockFXRP = ''0xA2c647c06a3014842e22a3f5C6F390A8d74a52ED''"

definition DEPLOYED_MockVault :: js_str where
  "DEPLOYED_MockVault = ''0x64b89db12C2D91410011ce1Fcb626C87620Db444''"

datatype abi_arg = ArgAddress js_str | ArgUint bigint

type_synonym abi_encoder = "js_str \<Rightarrow> abi_arg list \<Rightarrow> js_error + js_str"

definition deposit_calls :: "abi_encoder \<Rightarrow> bigint \<Rightarrow> js_error + call list" where
  "deposit_calls enc amount =
    bind_err (enc ''approve'' [ArgAddress DEPLOYED_MockVault, ArgUint amount]) (\<lambda>approveData.
    bind_err (enc ''deposit'' [ArgUint amount]) (\<lambda>depositData.
    Inr [\<lparr>target = DEPLOYED_MockFXRP, val = 0, data = approveData\<rparr>,
         \<lparr>target = DEPLOYED_MockVault, val = 0, data = depositData\<rparr>]))"

definition deposit_params :: "js_str \<Rightarrow> call list \<Rightarrow> js_str \<Rightarrow> prepare_params" where
  "deposit_params address calls lbl =
    \<lparr>p_xrplAddress = address, p_calls = calls, p_label = lbl, p_netMintUBA = 1000000,
     p_feeUBA = None, p_walletId = None\<rparr>"

definition WEB_DEPOSIT :: bigint where
  "WEB_DEPOSIT = 10000000"

definition WEB_LABEL :: js_str where
  "WEB_LABEL = ''Deposit 10 mFXRP into MockVault''"

subsection \<open>What the page is served\<close>

record web_env =
  we_executor :: executor_env
  we_viem :: viem
  we_chain :: flare_chain
  we_encode :: abi_encoder
  we_balanceOf :: "js_str \<Rightarrow> js_error + bigint"
  we_message :: "script_end \<Rightarrow> js_str"
  we_xaman :: xaman_env

definition web_header :: memo_header where
  "web_header = \<lparr>walletId = None, executorFeeUBA = 0\<rparr>"

definition web_call :: "js_str \<Rightarrow> js_str \<Rightarrow> js_str \<Rightarrow> json" where
  "web_call tgt lbl sel = JObj [(''target'', JStr tgt), (''label'', JStr lbl), (''selector'', JStr sel)]"

definition web_request :: "prepared_request \<Rightarrow> bytes \<Rightarrow> prepared_for_web" where
  "web_request req memo =
    \<lparr>pw_personalAccount = personalAccount req, pw_nonce = bigint_toString (pr_nonce req),
     pw_label = pr_label req, pw_userOpData = userOpData req, pw_userOpHash = userOpHash req,
     pw_totalCallValue = bigint_toString (totalCallValue req), pw_memoHex = toXrplMemoHex memo,
     pw_destination = Destination (xrplPayment req), pw_amountDrops = Amount (xrplPayment req),
     pw_calls = JArr
       [web_call DEPLOYED_MockFXRP ''approve(MockVault, 10)'' ''0x095ea7b3'',
        web_call DEPLOYED_MockVault ''deposit(10)'' ''0xb6b55f25'']\<rparr>"

definition web_prepare ::
    "web_env \<Rightarrow> onesig_client \<Rightarrow> js_str \<Rightarrow> onesig_client \<times> (script_end + prepared_for_web)" where
  "web_prepare W c address = (case deposit_calls (we_encode W) WEB_DEPOSIT of
     Inl e \<Rightarrow> (c, Inl (Threw e))
   | Inr calls \<Rightarrow>
      (let (c', r) = prepare (we_viem W) (we_chain W) c (deposit_params address calls WEB_LABEL)
       in (c', bind_err (lift_err PrepareThrew r) (\<lambda>req.
            bind_err (lift_err MemoThrew (encodeExecuteCommittedMemo (we_viem W) web_header (userOpHash req))) (\<lambda>memo.
            Inr (web_request req memo))))))"

definition readVaultBalance :: "web_env \<Rightarrow> js_str \<Rightarrow> js_error + js_str" where
  "readVaultBalance W pa = bind_err (we_balanceOf W pa) (\<lambda>bal. Inr (bigint_toString bal))"

text \<open>The two functions as the service is given them, with the client in the state \<open>c\<close>.\<close>

definition served :: "web_env \<Rightarrow> onesig_client \<Rightarrow> js_str \<Rightarrow> js_error + prepared_for_web" where
  "served W c address = lift_err (\<lambda>e. JsError (we_message W e)) (snd (web_prepare W c address))"

subsection \<open>The start\<close>

definition service_xaman :: "xaman_env \<Rightarrow> js_error + xaman_client option" where
  "service_xaman env = (if isConfigured env
     then bind_err (new_XamanClient env None None None) (\<lambda>x. Inr (Some x)) else Inr None)"

definition run_executor ::
    "web_env \<Rightarrow> pending_store \<Rightarrow> fdc_client \<Rightarrow> job directory \<Rightarrow> js_error + int \<Rightarrow> onesig_client \<Rightarrow>
     onesig_client \<times> (js_error + service_options \<times> service)" where
  "run_executor W st fdc jobs ledger c = (case makeClients (we_executor W) None None of
     Inl e \<Rightarrow> (c, Inl e)
   | Inr ec \<Rightarrow>
      (let (c1, am_r) = assetManagerFXRP (we_chain W) c
       in case am_r of
            Inl e \<Rightarrow> (c1, Inl e)
          | Inr am \<Rightarrow>
             (let (c2, vault_r) = directMintingPaymentAddress (we_chain W) c1 (Some am)
              in (c2,
                bind_err vault_r (\<lambda>coreVault.
                bind_err (service_xaman (we_xaman W)) (\<lambda>x.
                let (s, started) = service_start ledger (new_ExecutorService st fdc jobs)
                in bind_err started (\<lambda>_.
                   Inr (\<lparr>so_pipeline = \<lparr>pl_account = ec_address ec, pl_assetManager = am\<rparr>,
                     so_viem = we_viem W, so_coreVaultAddress = coreVault, so_xaman = x\<rparr>, s))))))))"

subsection \<open>A request and its registration\<close>

text \<open>What is registered of a prepared request, by the route \<open>/prepare\<close> and by the demos.\<close>

definition registration_of :: "prepared_request \<Rightarrow> registration" where
  "registration_of req =
    \<lparr>rg_commitment = Some (userOpHash req), rg_userOpData = userOpData req,
     rg_personalAccount = personalAccount req, rg_nonce = bigint_toString (pr_nonce req),
     rg_totalCallValue = bigint_toString (totalCallValue req), rg_label = pr_label req\<rparr>"

lemma prepared_commitment:
  assumes "isHex_doc V" and "keccak256_doc V" and "encodeAbiParameters_doc V"
    and "snd (prepare V R c params) = Inr req"
  shows "keccak256 V (userOpData req) = Inr (userOpHash req)"
    and "js_toLowerCase (userOpHash req) = userOpHash req"
    and "committed_hash (MemoData (xrplPayment req)) = Some (userOpHash req)"
proof -
  obtain dest fees executor u memo where
    u: "prepareUserOp V (personalAccount req) (pr_nonce req) (p_calls params) = Inr u"
    and memo: "encodeExecuteCommittedMemo V (params_header params) (pu_userOpHash u) = Inr memo"
    and req: "req = prepared_of V params (personalAccount req) dest fees (pr_nonce req) executor u memo"
    using assms(4) by (rule prepare_InrE)
  have fields: "userOpData req = pu_userOpData u" "userOpHash req = pu_userOpHash u"
    "MemoData (xrplPayment req) = toXrplMemoHex memo"
    by (subst req, simp)+
  note lower = prepared_hash_shape(1) [OF assms(2,3) u]
  show "keccak256 V (userOpData req) = Inr (userOpHash req)" using u by (simp add: fields prepareUserOp_Inr)
  show "js_toLowerCase (userOpHash req) = userOpHash req" by (simp add: fields lower)
  show "committed_hash (MemoData (xrplPayment req)) = Some (userOpHash req)"
    unfolding fields by (rule committed_hash_encoded [OF committed_memo_facts(2) [OF assms(1) memo lower]])
qed

lemma registered_request:
  assumes "isHex_doc V" and "keccak256_doc V" and "encodeAbiParameters_doc V"
    and "snd (prepare V R c params) = Inr req"
  shows "\<exists>store'. ps_register V now Written (registration_of req) (new_PendingStore []) =
    (store', Inr (userOpHash req))"
  using prepared_commitment(1,2) [OF assms]
  by (simp add: ps_register_def registration_of_def claims_other_def Let_def)

text \<open>The memo the page shows is encoded again from the hash; it is the memo of the payment.\<close>

lemma web_memo_again:
  assumes "isHex_doc V"
    and "snd (prepare V R c (deposit_params address calls lbl)) = Inr req"
  shows "\<exists>memo. encodeExecuteCommittedMemo V web_header (userOpHash req) = Inr memo \<and>
    toXrplMemoHex memo = MemoData (xrplPayment req)"
proof -
  let ?q = "deposit_params address calls lbl"
  obtain dest fees executor u m where
    m: "encodeExecuteCommittedMemo V (params_header ?q) (pu_userOpHash u) = Inr m"
    and req: "req = prepared_of V ?q (personalAccount req) dest fees (pr_nonce req) executor u m"
    using assms(2) by (rule prepare_InrE)
  have fields: "userOpHash req = pu_userOpHash u" "MemoData (xrplPayment req) = toXrplMemoHex m"
    by (subst req, simp)+
  have "header_ok (params_header ?q) = header_ok web_header" "header_wallet (params_header ?q) = header_wallet web_header"
    "executorFeeUBA (params_header ?q) = executorFeeUBA web_header"
    by (simp_all add: header_ok_def header_wallet_def header_number_def params_header_def deposit_params_def web_header_def)
  with m have "encodeExecuteCommittedMemo V web_header (userOpHash req) = Inr m"
    by (simp add: fields encodeExecuteCommittedMemo_Inr [OF assms(1)])
  with fields show ?thesis by simp
qed

lemma web_memo:
  assumes "isHex_doc V"
    and "snd (prepare V R c (deposit_params address calls lbl)) = Inr req"
    and "encodeExecuteCommittedMemo V web_header (userOpHash req) = Inr memo"
  shows "toXrplMemoHex memo = MemoData (xrplPayment req)"
  using web_memo_again [OF assms(1,2)] assms(3) by auto

lemma web_prepare_Inr:
  assumes "snd (web_prepare W c address) = Inr p"
  obtains calls req memo where "deposit_calls (we_encode W) WEB_DEPOSIT = Inr calls"
    "snd (prepare (we_viem W) (we_chain W) c (deposit_params address calls WEB_LABEL)) = Inr req"
    "encodeExecuteCommittedMemo (we_viem W) web_header (userOpHash req) = Inr memo" "p = web_request req memo"
  using assms by (auto simp: web_prepare_def case_prod_beta Let_def split: sum.splits)

text \<open>What a successful answer of \<open>/prepare\<close> went through.\<close>

lemma route_prepare_ok:
  assumes "route_prepare Opt E q s = (s', Inr (RJson 200 v))" and "he_prepare E = Some prep"
  obtains address p st where "prep address = Inr p"
    "ps_register (so_viem Opt) (he_now E) (he_write E)
      \<lparr>rg_commitment = Some (pw_userOpHash p), rg_userOpData = pw_userOpData p,
       rg_personalAccount = pw_personalAccount p, rg_nonce = pw_nonce p,
       rg_totalCallValue = pw_totalCallValue p, rg_label = pw_label p\<rparr> (sv_store s) = (sv_store s', Inr st)"
    "json_get v ''prepared'' = Some (prepared_json p)"
    "so_xaman Opt = None \<and> json_get v ''sign'' = Some JNull \<or>
     (\<exists>x sg. so_xaman Opt = Some x \<and> createSignRequest (he_xamanNet E) (he_parse E) x
        \<lparr>si_account = Some address, si_destination = pw_destination p, si_amount = pw_amountDrops p,
         si_memoData = pw_memoHex p, si_instruction = pw_label p, si_identifier = Some (pw_userOpHash p),
         si_signers = Some [address], si_expireMinutes = Some 15\<rparr> = Inr sg \<and>
        json_get v ''sign'' = Some (sign_json sg))"
proof -
  let ?reg = "\<lambda>p. ps_register (so_viem Opt) (he_now E) (he_write E)
      \<lparr>rg_commitment = Some (pw_userOpHash p), rg_userOpData = pw_userOpData p,
       rg_personalAccount = pw_personalAccount p, rg_nonce = pw_nonce p,
       rg_totalCallValue = pw_totalCallValue p, rg_label = pw_label p\<rparr> (sv_store s)"
  obtain body where body: "body_object (he_parse E) (hr_body q) ''xrplAddress'' = Inr body"
    "given (text_field body ''xrplAddress'')"
    using assms by (auto simp: route_prepare_def json_error_def split: sum.splits if_splits)
  let ?a = "the (text_field body ''xrplAddress'')"
  obtain p where p: "prep ?a = Inr p"
    using assms body by (auto simp: route_prepare_def Let_def split: sum.splits)
  obtain st where st: "snd (?reg p) = Inr st"
    using assms body p by (auto simp: route_prepare_def store_register_def Let_def case_prod_beta bind_err_eq_Inr)
  moreover have "s' = s\<lparr>sv_store := fst (?reg p)\<rparr>"
    using assms body p by (simp add: route_prepare_def store_register_def Let_def case_prod_beta)
  ultimately have r: "?reg p = (sv_store s', Inr st)" by (intro prod_eqI) simp_all
  show thesis
  proof (cases "so_xaman Opt")
    case None
    then have "v = JObj [(''prepared'', prepared_json p), (''sign'', JNull)]"
      using assms body p st by (simp add: route_prepare_def store_register_def Let_def case_prod_beta)
    with None p r show ?thesis by (intro that [of ?a p st]) simp_all
  next
    case (Some x)
    then obtain sg where "createSignRequest (he_xamanNet E) (he_parse E) x
        \<lparr>si_account = Some ?a, si_destination = pw_destination p, si_amount = pw_amountDrops p,
         si_memoData = pw_memoHex p, si_instruction = pw_label p, si_identifier = Some (pw_userOpHash p),
         si_signers = Some [?a], si_expireMinutes = Some 15\<rparr> = Inr sg"
      "v = JObj [(''prepared'', prepared_json p), (''sign'', sign_json sg)]"
      using assms body p st
      by (auto simp: route_prepare_def store_register_def Let_def case_prod_beta bind_err_eq_Inr)
    with Some p r show ?thesis by (intro that [of ?a p st]) simp_all
  qed
qed

lemma handle_prepare_ok:
  assumes "handle Opt E q s = (s', RJson 200 v)" and "hr_method q = ''POST''" and "hr_path q = ''/prepare''"
  shows "route_prepare Opt E q s = (s', Inr (RJson 200 v))"
  using assms
  by (auto simp: handle_def handle_routes_def json_error_def case_prod_beta js_startsWith_def intro!: prod_eqI
      split: sum.splits)

text \<open>
  (C19) What the demo page is told to sign is what the service holds: when \<open>/prepare\<close> answers 200, the store
  has the registration of the request that was prepared for the account of the body, under the
  commitment its payment carries; the memo, the amount and the destination shown are those of the
  payment, and the sign request, if a wallet is configured, carries the same and binds the signer.
\<close>

theorem page_signs_what_is_registered:
  assumes "isHex_doc (we_viem W)" and "keccak256_doc (we_viem W)" and "encodeAbiParameters_doc (we_viem W)"
    and "so_viem Opt = we_viem W" and "he_prepare E = Some (served W c)"
    and "hr_method q = ''POST''" and "hr_path q = ''/prepare''" and "handle Opt E q s = (s', RJson 200 v)"
  shows "\<exists>address calls req p. deposit_calls (we_encode W) WEB_DEPOSIT = Inr calls \<and>
    snd (prepare (we_viem W) (we_chain W) c (deposit_params address calls WEB_LABEL)) = Inr req \<and>
    snd (ps_get (userOpHash req) (sv_store s')) =
      Some (pending_record (he_now E) (userOpHash req) (registration_of req)) \<and>
    committed_hash (pw_memoHex p) = Some (userOpHash req) \<and>
    json_get v ''prepared'' = Some (prepared_json p) \<and> pw_memoHex p = MemoData (xrplPayment req) \<and>
    pw_amountDrops p = Amount (xrplPayment req) \<and> pw_destination p = Destination (xrplPayment req) \<and>
    (so_xaman Opt = None \<and> json_get v ''sign'' = Some JNull \<or>
     (\<exists>x sg. so_xaman Opt = Some x \<and> createSignRequest (he_xamanNet E) (he_parse E) x
        \<lparr>si_account = Some address, si_destination = Destination (xrplPayment req),
         si_amount = Amount (xrplPayment req), si_memoData = MemoData (xrplPayment req),
         si_instruction = pr_label req, si_identifier = Some (userOpHash req),
         si_signers = Some [address], si_expireMinutes = Some 15\<rparr> = Inr sg \<and>
        json_get v ''sign'' = Some (sign_json sg)))"
proof -
  obtain address p h where p: "served W c address = Inr p"
    and reg: "ps_register (so_viem Opt) (he_now E) (he_write E)
      \<lparr>rg_commitment = Some (pw_userOpHash p), rg_userOpData = pw_userOpData p,
       rg_personalAccount = pw_personalAccount p, rg_nonce = pw_nonce p,
       rg_totalCallValue = pw_totalCallValue p, rg_label = pw_label p\<rparr> (sv_store s) = (sv_store s', Inr h)"
    and shown: "json_get v ''prepared'' = Some (prepared_json p)"
    and sign: "so_xaman Opt = None \<and> json_get v ''sign'' = Some JNull \<or>
     (\<exists>x sg. so_xaman Opt = Some x \<and> createSignRequest (he_xamanNet E) (he_parse E) x
        \<lparr>si_account = Some address, si_destination = pw_destination p, si_amount = pw_amountDrops p,
         si_memoData = pw_memoHex p, si_instruction = pw_label p, si_identifier = Some (pw_userOpHash p),
         si_signers = Some [address], si_expireMinutes = Some 15\<rparr> = Inr sg \<and>
        json_get v ''sign'' = Some (sign_json sg))"
    using handle_prepare_ok [OF assms(8,6,7)] assms(5) by (rule route_prepare_ok)
  have "snd (web_prepare W c address) = Inr p" using p by (simp add: served_def)
  then obtain calls req memo where
    r: "deposit_calls (we_encode W) WEB_DEPOSIT = Inr calls"
      "snd (prepare (we_viem W) (we_chain W) c (deposit_params address calls WEB_LABEL)) = Inr req"
      "encodeExecuteCommittedMemo (we_viem W) web_header (userOpHash req) = Inr memo"
    and pw: "p = web_request req memo"
    by (rule web_prepare_Inr)
  note k = prepared_commitment [OF assms(1-3) r(2)]
  have fields: "pw_memoHex p = MemoData (xrplPayment req)" "pw_amountDrops p = Amount (xrplPayment req)"
    "pw_destination p = Destination (xrplPayment req)" "pw_userOpHash p = userOpHash req" "pw_label p = pr_label req"
    using web_memo [OF assms(1) r(2,3)] by (simp_all add: pw web_request_def)
  have reg': "ps_register (we_viem W) (he_now E) (he_write E) (registration_of req) (sv_store s) = (sv_store s', Inr h)"
    using reg by (simp add: assms(4) pw web_request_def registration_of_def)
  have h: "h = userOpHash req" using ps_register_Inr(1) [OF reg'] k(1) by (simp add: registration_of_def)
  have "snd (ps_get (userOpHash req) (sv_store s')) =
      Some (pending_record (he_now E) (userOpHash req) (registration_of req))"
    using ps_get_registered(1) [OF reg', of "userOpHash req"] by (simp add: h)
  with r(1,2) k(3) shown sign show ?thesis
    unfolding fields by (intro exI [of _ address] exI [of _ calls] exI [of _ req] exI [of _ p]) (simp add: fields)
qed

text \<open>The page of an executor without a wallet service.\<close>

definition web_demo :: web_env where
  "web_demo = \<lparr>we_executor = \<lparr>xe_CHAIN_URL = None, xe_DEPLOYER_PRIVATE_KEY = Some ''0xkey'',
       xe_privateKeyToAccount = (\<lambda>k. Inr ''0xexecutor'')\<rparr>,
     we_viem = demo_viem, we_chain = demo_chain, we_encode = (\<lambda>f args. Inr ''0xdd''),
     we_balanceOf = (\<lambda>pa. Inr 42), we_message = (\<lambda>e. ''error''),
     we_xaman = \<lparr>env_XAMAN_API_KEY = None, env_XAMAN_API_SECRET = None\<rparr>\<rparr>"

definition web_body :: json where
  "web_body = JObj [(''xrplAddress'', JStr ''rUser'')]"

definition web_handler_env :: handler_env where
  "web_handler_env = demo_handler_env\<lparr>he_parse := (\<lambda>t. Inr web_body),
     he_prepare := Some (served web_demo demo_client)\<rparr>"

definition web_post :: request where
  "web_post = \<lparr>hr_method = ''POST'', hr_path = ''/prepare'', hr_query = [], hr_body = ''{}''\<rparr>"

lemma demo_deposit_prepared:
  "\<exists>req. snd (prepare demo_viem demo_chain demo_client
    (deposit_params address [\<lparr>target = t1, val = 0, data = d1\<rparr>, \<lparr>target = t2, val = 0, data = d2\<rparr>] lbl)) = Inr req"
proof -
  let ?q = "deposit_params address [\<lparr>target = t1, val = 0, data = d1\<rparr>, \<lparr>target = t2, val = 0, data = d2\<rparr>] lbl"
  have "is_ok (snd (prepare demo_viem demo_chain demo_client ?q))"
    by (rule demo_prepare_ok) (simp_all add: deposit_params_def header_ok_def header_number_def params_header_def)
  then show ?thesis by (simp add: is_ok_iff)
qed

lemma web_demo_serves: "\<exists>req memo. served web_demo demo_client address = Inr (web_request req memo) \<and>
  keccak256 demo_viem (userOpData req) = Inr (userOpHash req)"
proof -
  have v: "we_viem web_demo = demo_viem" "we_chain web_demo = demo_chain"
    "we_encode web_demo = (\<lambda>f args. Inr ''0xdd'')" by (simp_all add: web_demo_def)
  let ?calls = "[\<lparr>target = DEPLOYED_MockFXRP, val = 0, data = ''0xdd''\<rparr>,
    \<lparr>target = DEPLOYED_MockVault, val = 0, data = ''0xdd''\<rparr>]"
  have c: "deposit_calls (we_encode web_demo) WEB_DEPOSIT = Inr ?calls" by (simp add: deposit_calls_def v)
  obtain req where r: "snd (prepare demo_viem demo_chain demo_client (deposit_params address ?calls WEB_LABEL)) = Inr req"
    using demo_deposit_prepared by blast
  obtain memo where "encodeExecuteCommittedMemo demo_viem web_header (userOpHash req) = Inr memo"
    using web_memo_again [OF demo_viem_docs(1) r] by blast
  with c r prepared_commitment(1) [OF demo_viem_docs(1,3,4) r] show ?thesis
    by (auto simp: served_def web_prepare_def v case_prod_beta Let_def)
qed

lemma web_demo_answers:
  "\<exists>s' v. handle demo_service_options web_handler_env web_post demo_service = (s', RJson 200 v)"
proof -
  obtain req memo where s: "served web_demo demo_client ''rUser'' = Inr (web_request req memo)"
    and k: "keccak256 demo_viem (userOpData req) = Inr (userOpHash req)"
    using web_demo_serves by blast
  have e: "he_prepare web_handler_env = Some (served web_demo demo_client)"
    "body_object (he_parse web_handler_env) (hr_body web_post) ''xrplAddress'' = Inr web_body"
    "text_field web_body ''xrplAddress'' = Some ''rUser''" "he_write web_handler_env = Written"
    "hr_method web_post = ''POST''" "hr_path web_post = ''/prepare''"
    "so_viem demo_service_options = demo_viem" "so_xaman demo_service_options = None"
    by (simp_all add: web_handler_env_def demo_handler_env_def web_post_def web_body_def body_object_def
        readBody_def text_field_def demo_service_options_def)
  have "snd (route_prepare demo_service_options web_handler_env web_post demo_service) =
      Inr (RJson 200 (JObj [(''prepared'', prepared_json (web_request req memo)), (''sign'', JNull)]))"
    using s k by (simp add: route_prepare_def e store_register_def case_prod_beta Let_def
        ps_register_def web_request_def claims_other_def)
  then obtain s' v where "route_prepare demo_service_options web_handler_env web_post demo_service = (s', Inr (RJson 200 v))"
    by (metis prod.collapse)
  then have "handle demo_service_options web_handler_env web_post demo_service = (s', RJson 200 v)"
    by (simp add: handle_def handle_routes_def e js_startsWith_def)
  then show ?thesis by blast
qed

lemma page_signs_what_is_registered_witness:
  "\<exists>s' v req. handle demo_service_options web_handler_env web_post demo_service = (s', RJson 200 v) \<and>
    snd (ps_get (userOpHash req) (sv_store s')) = Some (pending_record 7 (userOpHash req) (registration_of req))"
proof -
  obtain s' v where h: "handle demo_service_options web_handler_env web_post demo_service = (s', RJson 200 v)"
    using web_demo_answers by blast
  have e: "we_viem web_demo = demo_viem" "so_viem demo_service_options = demo_viem"
    "he_prepare web_handler_env = Some (served web_demo demo_client)" "he_now web_handler_env = 7"
    "hr_method web_post = ''POST''" "hr_path web_post = ''/prepare''"
    by (simp_all add: web_demo_def demo_service_options_def web_handler_env_def demo_handler_env_def web_post_def)
  have "\<exists>req. snd (ps_get (userOpHash req) (sv_store s')) = Some (pending_record 7 (userOpHash req) (registration_of req))"
    using page_signs_what_is_registered [OF _ _ _ _ e(3,5,6) h] e demo_viem_docs(1,3,4) by auto
  with h show ?thesis by blast
qed

text \<open>
  The executor watches the account its page tells users to pay: after a start, a payment prepared by
  the same client goes to the vault the service watches and its job is minted by the AssetManager the
  pipeline calls; the watcher starts at the current ledger with no job in flight, whatever the
  directory of jobs holds.
\<close>

theorem executor_watches_its_vault:
  assumes "run_executor W st fdc jobs ledger c = (c', Inr (Opt, s))"
    and "snd (prepare (we_viem W) (we_chain W) c' params) = Inr req"
  shows "Destination (xrplPayment req) = so_coreVaultAddress Opt \<and>
    resolved_am (we_chain W) c' = Inr (pl_assetManager (so_pipeline Opt)) \<and>
    (\<exists>n. ledger = Inr n \<and> sv_watcher s = setStartLedger n new_Watcher) \<and>
    sv_live s = [] \<and> sv_store s = st \<and> sv_jobs s = jobs"
proof -
  let ?R = "we_chain W"
  obtain ec where ec: "makeClients (we_executor W) None None = Inr ec"
    using assms(1) by (auto simp: run_executor_def split: sum.splits)
  obtain c1 am where am: "assetManagerFXRP ?R c = (c1, Inr am)"
    using assms(1) ec by (auto simp: run_executor_def split: sum.splits prod.splits)
  have r: "resolved_am ?R c1 = Inr am"
    using assetManagerFXRP_facts [of ?R c] by (simp add: am)
  have c': "c' = c1"
    using assms(1) ec am client_state(4) [of ?R c1 am] by (auto simp: run_executor_def case_prod_beta Let_def)
  obtain vault where vault: "rpc_directMintingPaymentAddress ?R am = Inr vault"
    and Opt: "so_coreVaultAddress Opt = vault" "pl_assetManager (so_pipeline Opt) = am"
    and s: "\<exists>n. ledger = Inr n \<and> sv_watcher s = setStartLedger n new_Watcher" "sv_live s = []" "sv_store s = st"
      "sv_jobs s = jobs"
    using assms(1) ec am
    by (auto simp: run_executor_def case_prod_beta Let_def client_reads service_start_def new_ExecutorService_def
        bind_err_eq_Inr split: sum.splits)
  obtain mac am' dest fees executor u memo where d: "resolved_am ?R c' = Inr am'"
      "rpc_directMintingPaymentAddress ?R am' = Inr dest"
    and req: "req = prepared_of (we_viem W) params (personalAccount req) dest fees (pr_nonce req) executor u memo"
    using assms(2) by (rule prepare_InrE)
  have "Destination (xrplPayment req) = dest" by (subst req) simp
  with d r c' vault Opt s show ?thesis by simp
qed

lemma web_demo_starts:
  "\<exists>c' Opt s. run_executor web_demo demo_store demo_fdc [] (Inr 90) demo_client = (c', Inr (Opt, s))"
proof -
  have "we_executor web_demo = \<lparr>xe_CHAIN_URL = None, xe_DEPLOYER_PRIVATE_KEY = Some ''0xkey'',
      xe_privateKeyToAccount = (\<lambda>k. Inr ''0xexecutor'')\<rparr>" "we_chain web_demo = demo_chain"
    "we_xaman web_demo = \<lparr>env_XAMAN_API_KEY = None, env_XAMAN_API_SECRET = None\<rparr>"
    by (simp_all add: web_demo_def)
  then show ?thesis
    by (simp add: run_executor_def makeClients_def assetManagerFXRP_def demo_chain_def directMintingPaymentAddress_def
        service_xaman_def isConfigured_def service_start_def)
qed

lemma executor_watches_its_vault_witness:
  "\<exists>c' Opt s. run_executor web_demo demo_store demo_fdc [] (Inr 90) demo_client = (c', Inr (Opt, s)) \<and>
    sv_watcher s = setStartLedger 90 new_Watcher"
proof -
  obtain c' Opt s where run: "run_executor web_demo demo_store demo_fdc [] (Inr 90) demo_client = (c', Inr (Opt, s))"
    using web_demo_starts by blast
  have "is_ok (snd (prepare demo_viem demo_chain c' demo_params))"
  proof -
    have c: "c' = fst (assetManagerFXRP demo_chain demo_client)"
      using run client_state(4) by (auto simp: run_executor_def case_prod_beta Let_def web_demo_def split: sum.splits)
    show ?thesis
      using demo_prepared client_facts(11) [of demo_chain demo_client] assetManagerFXRP_facts(2,3) [of demo_chain demo_client]
      by (simp add: is_ok_iff prepare_eq c)
  qed
  then obtain req where "snd (prepare (we_viem web_demo) (we_chain web_demo) c' demo_params) = Inr req"
    by (auto simp: is_ok_iff web_demo_def)
  from executor_watches_its_vault [OF run this] run show ?thesis by auto
qed

end
