(* ===== verification/Gate.thy ===== *)
theory Gate
  imports Scripts
begin

text \<open>
  \<open>scripts/gate1.ts\<close>, the end-to-end run that pays for itself: its checks before anything is spent,
  the payment, and the execution by a pipeline of its own; and \<open>scripts/resume-job.ts\<close>, which drives a
  job that was left behind. A reading of a contract is an argument, one for each time it is read.
\<close>

subsection \<open>Before the payment\<close>

definition DEPLOYED_Counter :: js_str where
  "DEPLOYED_Counter = ''0x1612b980Ddb6c13c01039A712634035Cfb2367E8''"

record gate_env =
  ge_seed :: "js_str option"
  ge_dryRun :: bool
  ge_viem :: viem
  ge_fromSeed :: "js_str \<Rightarrow> js_error + js_str \<times> wallet"
  ge_incrementData :: "js_error + js_str"
  ge_chain :: flare_chain
  ge_laterChain :: flare_chain
  ge_parse :: json_parser
  ge_infoNet :: xrpl_net
  ge_payNet :: xrpl_net
  ge_showDrops :: "bigint \<Rightarrow> js_str"
  ge_executor :: executor_env
  ge_createNow :: int
  ge_createWrite :: write_outcome
  ge_run :: run_env
  ge_countBefore :: "js_error + bigint"
  ge_countAfter :: "js_error + bigint"
  ge_lastCaller :: "js_error + js_str"

definition gate1_params :: "js_str \<Rightarrow> js_str \<Rightarrow> prepare_params" where
  "gate1_params address increment =
    \<lparr>p_xrplAddress = address, p_calls = [\<lparr>target = DEPLOYED_Counter, val = 0, data = increment\<rparr>],
     p_label = ''Increment the Gate 1 counter'', p_netMintUBA = 1000000, p_feeUBA = None,
     p_walletId = None\<rparr>"

text \<open>The keys of the payment object a prepared request holds.\<close>

definition payment_object :: "xrpl_payment \<Rightarrow> json" where
  "payment_object p = JObj [(''TransactionType'', JStr ''Payment''), (''Account'', JStr (Account p)),
     (''Destination'', JStr (Destination p)), (''Amount'', JStr (Amount p)),
     (''Memos'', JArr [JObj [(''Memo'', JObj [(''MemoData'', JStr (MemoData p))])]])]"

definition commits_to :: "decoded_memo \<Rightarrow> js_str \<Rightarrow> bool" where
  "commits_to d h \<longleftrightarrow> decoded_opcode d = EXECUTE_COMMITTED \<and>
     (case d of DecExecuteCommitted _ _ h' \<Rightarrow> h' = h | _ \<Rightarrow> False)"

definition gate1_checks :: "prepared_request \<Rightarrow> bytes \<Rightarrow> decoded_memo \<Rightarrow> js_str \<Rightarrow> bool list" where
  "gate1_checks req memoBytes decoded coreVault =
    [length memoBytes = 42,
     decoded_opcode decoded = EXECUTE_COMMITTED,
     commits_to decoded (userOpHash req),
     json_get (payment_object (xrplPayment req)) ''DestinationTag'' = None,
     Destination (xrplPayment req) = coreVault,
     sender (userOp req) = personalAccount req,
     totalCallValue req = 0]"

definition bad_checks :: "bool list \<Rightarrow> nat" where
  "bad_checks cs = length (filter (\<lambda>ok. \<not> ok) cs)"

definition gate1_preflight :: "gate_env \<Rightarrow> (js_str \<times> wallet \<times> prepared_request \<times> bigint) script" where
  "gate1_preflight G =
    sc_bind (sc_await (if given (ge_seed G) then Inr (the (ge_seed G))
      else Inl (JsError ''XRPL_SEED not set - source scripts/env.sh''))) (\<lambda>seed.
    sc_bind (sc_await (ge_fromSeed G seed)) (\<lambda>(address, w).
    sc_bind (sc_await (ge_incrementData G)) (\<lambda>increment.
    sc_bind (sc_prepare (ge_viem G) (ge_chain G) (gate1_params address increment)) (\<lambda>req.
    let memoBytes = buffer_from_hex (MemoData (xrplPayment req)) in
    sc_bind (sc_memo (decodeMemo memoBytes)) (\<lambda>decoded.
    sc_bind (sc_client (\<lambda>c. directMintingPaymentAddress (ge_laterChain G) c None)) (\<lambda>coreVault.
    sc_bind (sc_await (ge_countBefore G)) (\<lambda>countBefore.
    sc_bind (sc_exit_if (bad_checks (gate1_checks req memoBytes decoded coreVault) > 0) 1) (\<lambda>_.
    sc_bind (sc_exit_if (ge_dryRun G) 0) (\<lambda>_.
    sc_return (address, w, req, countBefore))))))))))"

subsection \<open>The payment\<close>

text \<open>\<open>BigInt(balanceDrops)\<close>: text, by the type the source declares.\<close>

definition balance_drops :: "json option \<Rightarrow> js_error + bigint" where
  "balance_drops b = (case b of Some (JStr t) \<Rightarrow> js_BigInt t | _ \<Rightarrow> Inl (JsError ''Cannot convert to a BigInt''))"

definition payment_input :: "js_str \<Rightarrow> prepared_request \<Rightarrow> xrpl_payment_input" where
  "payment_input address req =
    \<lparr>pi_account = address, pi_destination = Destination (xrplPayment req),
     pi_amount = Amount (xrplPayment req), pi_memoData = MemoData (xrplPayment req)\<rparr>"

definition succeeded :: "submitted_payment \<Rightarrow> bool" where
  "succeeded r \<longleftrightarrow> sp_validated r \<and> sp_engineResult r = ''tesSUCCESS''"

definition gate1_pay :: "gate_env \<Rightarrow> js_str \<Rightarrow> wallet \<Rightarrow> prepared_request \<Rightarrow> js_str script" where
  "gate1_pay G address w req =
    sc_bind (sc_await (accountInfo (ge_infoNet G) (ge_parse G) 0 address)) (\<lambda>(_, b).
    sc_bind (sc_await (balance_drops b)) (\<lambda>balanceDrops.
    sc_bind (sc_await (if balanceDrops < totalUBA (payment req) + 1000000
      then Inl (JsError (''insufficient XRP: have '' @ ge_showDrops G balanceDrops @ '', need '' @
        ge_showDrops G (totalUBA (payment req)) @ '' + reserve''))
      else Inr ())) (\<lambda>_.
    sc_bind (sc_submit (ge_payNet G) (ge_parse G) (payment_input address req) w) (\<lambda>submitted.
    sc_bind (sc_exit_if (\<not> succeeded submitted) 1) (\<lambda>_.
    sc_return (sp_hash submitted))))))"

subsection \<open>The execution\<close>

definition gate1_passed :: "job \<Rightarrow> bigint \<Rightarrow> bigint \<Rightarrow> js_str \<Rightarrow> js_str \<Rightarrow> bool" where
  "gate1_passed finished countBefore countAfter lastCaller pa \<longleftrightarrow>
     j_state finished = executed \<and> countAfter = countBefore + 1 \<and>
     js_toLowerCase lastCaller = js_toLowerCase pa"

definition gate1_result :: "gate_env \<Rightarrow> prepared_request \<Rightarrow> bigint \<Rightarrow> job \<Rightarrow> unit script" where
  "gate1_result G req countBefore finished =
    sc_bind (sc_await (ge_countAfter G)) (\<lambda>countAfter.
    sc_bind (sc_await (ge_lastCaller G)) (\<lambda>lastCaller.
    sc_stop (Exit (if gate1_passed finished countBefore countAfter lastCaller (personalAccount req)
      then 0 else 1))))"

definition gate1_execute :: "gate_env \<Rightarrow> prepared_request \<Rightarrow> bigint \<Rightarrow> js_str \<Rightarrow> unit script" where
  "gate1_execute G req countBefore xrplTxHash =
    sc_bind (sc_await (makeClients (ge_executor G) None None)) (\<lambda>ec.
    sc_bind (sc_client (assetManagerFXRP (ge_laterChain G))) (\<lambda>am.
    let P = \<lparr>pl_account = ec_address ec, pl_assetManager = am\<rparr> in
    sc_bind (sc_create (ge_createNow G) (ge_createWrite G)
      \<lparr>cp_xrplTxId = xrplTxHash, cp_userOpData = userOpData req, cp_totalCallValue = totalCallValue req,
       cp_personalAccount = personalAccount req, cp_nonce = pr_nonce req\<rparr>) (\<lambda>job.
    sc_bind (sc_run P (ge_run G) job) (\<lambda>finished.
    gate1_result G req countBefore finished))))"

definition gate1 :: "gate_env \<Rightarrow> unit script" where
  "gate1 G =
    sc_bind (gate1_preflight G) (\<lambda>(address, w, req, countBefore).
    sc_bind (gate1_pay G address w req) (\<lambda>xrplTxHash.
    gate1_execute G req countBefore xrplTxHash))"

subsection \<open>Resuming a job\<close>

record resume_env =
  re_arg :: "js_str option"
  re_executor :: executor_env
  re_chain :: flare_chain
  re_saveNow :: int
  re_saveWrite :: write_outcome
  re_run :: run_env
  re_countBefore :: "js_error + bigint"
  re_countAfter :: "js_error + bigint"
  re_lastCaller :: "js_error + js_str"

text \<open>The three assignments before \<open>save\<close>, which recover-mint makes too.\<close>

definition reset_job :: "job \<Rightarrow> job" where
  "reset_job j = j\<lparr>j_state := observed, j_attempts := 0, j_lastError := None\<rparr>"

definition revive :: "resume_env \<Rightarrow> job \<Rightarrow> job script" where
  "revive R job = (if j_state job = failed
    then sc_save (re_saveNow R) (re_saveWrite R) (reset_job job) else sc_return job)"

definition resume_passed :: "job \<Rightarrow> bigint \<Rightarrow> bigint \<Rightarrow> js_str \<Rightarrow> bool" where
  "resume_passed finished countBefore countAfter lastCaller \<longleftrightarrow>
     j_state finished = executed \<and> countAfter > countBefore \<and>
     js_toLowerCase lastCaller = js_toLowerCase (j_personalAccount finished)"

definition resume_result :: "resume_env \<Rightarrow> bigint \<Rightarrow> job \<Rightarrow> unit script" where
  "resume_result R countBefore finished =
    sc_bind (sc_await (re_countAfter R)) (\<lambda>countAfter.
    sc_bind (sc_await (re_lastCaller R)) (\<lambda>lastCaller.
    sc_stop (Exit (if resume_passed finished countBefore countAfter lastCaller then 0 else 1))))"

definition resume_job :: "resume_env \<Rightarrow> unit script" where
  "resume_job R =
    sc_bind (sc_exit_if (\<not> given (re_arg R)) 1) (\<lambda>_.
    sc_bind (sc_await (normalizeXrplTxId (the (re_arg R)))) (\<lambda>txId.
    sc_bind (sc_await (makeClients (re_executor R) None None)) (\<lambda>ec.
    sc_bind (sc_client (assetManagerFXRP (re_chain R))) (\<lambda>am.
    let P = \<lparr>pl_account = ec_address ec, pl_assetManager = am\<rparr> in
    sc_bind (sc_load (js_slice_from 2 txId)) (\<lambda>loaded.
    sc_bind (sc_exit_if (loaded = None) 1) (\<lambda>_.
    sc_bind (revive R (the loaded)) (\<lambda>job.
    sc_bind (sc_await (re_countBefore R)) (\<lambda>countBefore.
    sc_bind (sc_run P (re_run R) job) (\<lambda>finished.
    resume_result R countBefore finished)))))))))"

subsection \<open>The stages\<close>

lemma preflight_facts:
  assumes "gate1_preflight G s = (s1, Inr (address, w, req, n))"
  obtains increment d coreVault where
    "given (ge_seed G)" "ge_fromSeed G (the (ge_seed G)) = Inr (address, w)"
    "ge_incrementData G = Inr increment"
    "snd (prepare (ge_viem G) (ge_chain G) (ss_client s) (gate1_params address increment)) = Inr req"
    "decodeMemo (buffer_from_hex (MemoData (xrplPayment req))) = Inr d"
    "bad_checks (gate1_checks req (buffer_from_hex (MemoData (xrplPayment req))) d coreVault) = 0"
    "ge_countBefore G = Inr n" "\<not> ge_dryRun G"
    "snd (directMintingPaymentAddress (ge_laterChain G)
      (fst (prepare (ge_viem G) (ge_chain G) (ss_client s) (gate1_params address increment))) None) = Inr coreVault"
  using assms by (auto simp: gate1_preflight_def sc_ends Let_def split: if_splits)

lemma preflight_quiet: "quiet (gate1_preflight G)"
  by (auto simp: gate1_preflight_def Let_def split: prod.split intro!: quiet_intros)

lemma pay_facts:
  assumes "gate1_pay G address w req s = (s2, Inr hash)"
  shows "ss_posted s2 = ss_posted s @ fst (submitPayment (ge_payNet G) (ge_parse G) (payment_input address req) w None)"
    and "\<exists>r. snd (submitPayment (ge_payNet G) (ge_parse G) (payment_input address req) w None) = Inr r \<and>
      succeeded r \<and> sp_hash r = hash"
    and "ss_sent s2 = ss_sent s" and "ss_disk s2 = ss_disk s" and "ss_client s2 = ss_client s"
  using assms by (auto simp: gate1_pay_def sc_ends Let_def split: if_splits)

text \<open>Where a payment posts anything, the balance was read and is enough.\<close>

lemma pay_covered:
  assumes "gate1_pay G address w req s = (s2, r)" and "ss_posted s2 \<noteq> ss_posted s \<or> ss_sent s2 \<noteq> ss_sent s"
  shows "\<exists>q b drops. accountInfo (ge_infoNet G) (ge_parse G) 0 address = Inr (q, b) \<and> balance_drops b = Inr drops \<and>
      totalUBA (payment req) + 1000000 \<le> drops"
    and "ss_posted s2 = ss_posted s @ fst (submitPayment (ge_payNet G) (ge_parse G) (payment_input address req) w None)"
  using assms by (cases r; auto simp: gate1_pay_def sc_ends Let_def split: if_splits)+

lemma execute_unpaid: "unpaid (gate1_execute G req n hash)"
  by (auto simp: gate1_execute_def gate1_result_def Let_def intro!: unpaid_intros)

lemma pay_stops_unsent:
  assumes "gate1_pay G address w req s = (s2, r)"
  shows "ss_sent s2 = ss_sent s"
  using assms by (cases r; auto simp: gate1_pay_def sc_ends Let_def split: if_splits)

text \<open>
  (C21) Nothing is spent on a request the checks have not passed: whenever the run posts anything to the
  ledger or sends anything to the chain, it is not a dry run, every check of the list held on the request
  that was prepared, the balance covers the payment and the reserve, and what was posted is that
  payment and nothing else.
\<close>

theorem gate1_spends_checked:
  assumes "gate1 G s = (s', r)" and "ss_posted s' \<noteq> ss_posted s \<or> ss_sent s' \<noteq> ss_sent s"
  shows "\<not> ge_dryRun G \<and> (\<exists>address w increment req d coreVault q b drops.
    ge_fromSeed G (the (ge_seed G)) = Inr (address, w) \<and>
    snd (prepare (ge_viem G) (ge_chain G) (ss_client s) (gate1_params address increment)) = Inr req \<and>
    decodeMemo (buffer_from_hex (MemoData (xrplPayment req))) = Inr d \<and>
    list_all (\<lambda>ok. ok) (gate1_checks req (buffer_from_hex (MemoData (xrplPayment req))) d coreVault) \<and>
    snd (directMintingPaymentAddress (ge_laterChain G)
      (fst (prepare (ge_viem G) (ge_chain G) (ss_client s) (gate1_params address increment))) None) = Inr coreVault \<and>
    accountInfo (ge_infoNet G) (ge_parse G) 0 address = Inr (q, b) \<and> balance_drops b = Inr drops \<and>
    totalUBA (payment req) + 1000000 \<le> drops \<and>
    ss_posted s' = ss_posted s @ fst (submitPayment (ge_payNet G) (ge_parse G) (payment_input address req) w None))"
proof -
  obtain s1 r1 where pre: "gate1_preflight G s = (s1, r1)" by fastforce
  note q = quietD [OF preflight_quiet pre]
  have "\<not> isl r1" using assms pre q by (cases r1) (auto simp: gate1_def sc_bind_def)
  then obtain address w req n where r1: "r1 = Inr (address, w, req, n)" by (cases r1) auto
  obtain s2 r2 where pay: "gate1_pay G address w req s1 = (s2, r2)" by fastforce
  have ended: "ss_posted s' = ss_posted s2 \<and> (isl r2 \<longrightarrow> s' = s2)"
    using assms(1) pre r1 pay unpaidD [OF execute_unpaid]
    by (cases r2) (auto simp: gate1_def sc_bind_def)
  have "ss_posted s2 \<noteq> ss_posted s1 \<or> ss_sent s2 \<noteq> ss_sent s1"
  proof (cases r2)
    case (Inl e)
    with ended assms(2) q show ?thesis by auto
  next
    case (Inr hash)
    with pay_facts(1) pay submitPayment_posts show ?thesis by fastforce
  qed
  note paid = pay_covered [OF pay this]
  have posted: "ss_posted s' = ss_posted s @
      fst (submitPayment (ge_payNet G) (ge_parse G) (payment_input address req) w None)"
    using paid(2) ended q by simp
  obtain increment d coreVault where f: "ge_fromSeed G (the (ge_seed G)) = Inr (address, w)"
    "snd (prepare (ge_viem G) (ge_chain G) (ss_client s) (gate1_params address increment)) = Inr req"
    "decodeMemo (buffer_from_hex (MemoData (xrplPayment req))) = Inr d"
    "bad_checks (gate1_checks req (buffer_from_hex (MemoData (xrplPayment req))) d coreVault) = 0"
    "\<not> ge_dryRun G"
    "snd (directMintingPaymentAddress (ge_laterChain G)
      (fst (prepare (ge_viem G) (ge_chain G) (ss_client s) (gate1_params address increment))) None) = Inr coreVault"
    using pre [unfolded r1] by (rule preflight_facts)
  have "list_all (\<lambda>ok. ok) (gate1_checks req (buffer_from_hex (MemoData (xrplPayment req))) d coreVault)"
    using f(4) by (simp add: bad_checks_def filter_empty_conv list_all_iff)
  moreover obtain k b drops where "accountInfo (ge_infoNet G) (ge_parse G) 0 address = Inr (k, b)"
    "balance_drops b = Inr drops" "totalUBA (payment req) + 1000000 \<le> drops"
    using paid(1) by blast
  ultimately show ?thesis using f(1,2,3,5,6) posted by blast
qed

lemma prepared_passes:
  assumes "isHex_doc V" and "keccak256_doc V" and "encodeAbiParameters_doc V"
    and "snd (prepare V R c (gate1_params address increment)) = Inr req"
  shows "\<exists>d. decodeMemo (buffer_from_hex (MemoData (xrplPayment req))) = Inr d \<and>
    bad_checks (gate1_checks req (buffer_from_hex (MemoData (xrplPayment req))) d coreVault) =
      (if Destination (xrplPayment req) = coreVault then 0 else 1)"
proof -
  note m = prepared_memo [OF assms]
  obtain w where "decodeMemo (buffer_from_hex (MemoData (xrplPayment req))) =
      Inr (DecExecuteCommitted w (executorFeeUBA (params_header (gate1_params address increment))) (userOpHash req))"
    using m(1) by blast
  with m(2,3,5) show ?thesis
    by (simp add: bad_checks_def gate1_checks_def commits_to_def payment_object_def gate1_params_def)
qed

text \<open>
  The checks of the run agree with the library: on a request \<open>prepare\<close> returned, all seven hold,
  unless the payment address of the chain is no longer the one the request was prepared with.
\<close>

theorem gate1_checks_exact:
  assumes "isHex_doc V" and "keccak256_doc V" and "encodeAbiParameters_doc V"
    and "snd (prepare V R c (gate1_params address increment)) = Inr req"
  shows "\<exists>d. decodeMemo (buffer_from_hex (MemoData (xrplPayment req))) = Inr d \<and>
    bad_checks (gate1_checks req (buffer_from_hex (MemoData (xrplPayment req))) d coreVault) =
      (if Destination (xrplPayment req) = coreVault then 0 else 1)"
  using assms by (rule prepared_passes)

text \<open>The steps after a successful payment.\<close>

lemma execute_sends:
  assumes "gate1_execute G req n hash s = (s', r)"
    and fresh: "\<And>i. job_load i (ss_disk s) = None"
  shows "\<exists>es. ss_sent s' = ss_sent s @ es \<and> (\<forall>am pf bytes v. ExecuteDirectMinting am pf bytes v \<in> set es \<longrightarrow>
      bytes = userOpData req \<and> v = totalCallValue req)"
    and "r = Inl (Exit 0) \<Longrightarrow> ge_countAfter G = Inr (n + 1) \<and>
      (\<exists>x. ge_lastCaller G = Inr x \<and> js_toLowerCase x = js_toLowerCase (personalAccount req))"
proof -
  let ?p = "\<lparr>cp_xrplTxId = hash, cp_userOpData = userOpData req, cp_totalCallValue = totalCallValue req,
    cp_personalAccount = personalAccount req, cp_nonce = pr_nonce req\<rparr>"
  have q: "quiet (gate1_result G req n finished)" for finished
    unfolding gate1_result_def by (intro quiet_intros)
  consider (early) e where "r = Inl (Threw e)" "ss_sent s' = ss_sent s"
    | (ran) P job s2 s3 s4 r4 where "ss_disk s2 = ss_disk s" "ss_sent s2 = ss_sent s"
      "sc_create (ge_createNow G) (ge_createWrite G) ?p s2 = (s3, Inr job)"
      "sc_run P (ge_run G) job s3 = (s4, r4)"
      "ss_sent s' = ss_sent s4" "r = Inl (Exit 0) \<longrightarrow> (\<exists>j. gate1_result G req n j s4 = (s', r))"
    using assms(1) unfolding gate1_execute_def Let_def
  proof (elim sc_bind_cases)
    fix s1 ec s2 am s3 job e
    assume a: "sc_await (makeClients (ge_executor G) None None) s = (s1, Inr ec)"
      "sc_client (assetManagerFXRP (ge_laterChain G)) s1 = (s2, Inr am)"
      "sc_create (ge_createNow G) (ge_createWrite G) ?p s2 = (s3, Inr job)"
      "sc_run \<lparr>pl_account = ec_address ec, pl_assetManager = am\<rparr> (ge_run G) job s3 = (s', Inl e)" "r = Inl e"
    have "ss_disk s2 = ss_disk s" "ss_sent s2 = ss_sent s" using a(1,2) by (auto simp: sc_ends)
    from ran [OF this a(3,4)] a(5) sc_run_never_exits [OF a(4)] show ?thesis by simp
  next
    fix s1 ec s2 am s3 job s4 j
    assume a: "sc_await (makeClients (ge_executor G) None None) s = (s1, Inr ec)"
      "sc_client (assetManagerFXRP (ge_laterChain G)) s1 = (s2, Inr am)"
      "sc_create (ge_createNow G) (ge_createWrite G) ?p s2 = (s3, Inr job)"
      "sc_run \<lparr>pl_account = ec_address ec, pl_assetManager = am\<rparr> (ge_run G) job s3 = (s4, Inr j)"
      "gate1_result G req n j s4 = (s', r)"
    have "ss_disk s2 = ss_disk s" "ss_sent s2 = ss_sent s" using a(1,2) by (auto simp: sc_ends)
    from ran [OF this a(3,4)] quietD [OF q a(5)] a(5) show ?thesis by blast
  qed (auto simp: sc_ends intro: early)
  note ended = this
  show "\<exists>es. ss_sent s' = ss_sent s @ es \<and> (\<forall>am pf bytes v. ExecuteDirectMinting am pf bytes v \<in> set es \<longrightarrow>
      bytes = userOpData req \<and> v = totalCallValue req)"
    using ended
  proof cases
    case ran
    with created_run_pays(1) [OF ran(3,4)] fresh show ?thesis by simp
  qed auto
  show "ge_countAfter G = Inr (n + 1) \<and>
      (\<exists>x. ge_lastCaller G = Inr x \<and> js_toLowerCase x = js_toLowerCase (personalAccount req))"
    if "r = Inl (Exit 0)"
    using ended that by cases (auto simp: gate1_result_def sc_ends gate1_passed_def split: if_splits)
qed

lemma preflight_exit: "gate1_preflight G s = (s', Inl (Exit 0)) \<Longrightarrow> ge_dryRun G"
  by (auto simp: gate1_preflight_def sc_ends Let_def split: if_splits)

lemma preflight_disk: "gate1_preflight G s = (s', r) \<Longrightarrow> ss_disk s' = ss_disk s"
  by (cases r; auto simp: gate1_preflight_def sc_ends Let_def split: if_splits)

lemma pay_exit: "gate1_pay G address w req s \<noteq> (s', Inl (Exit 0))"
  by (auto simp: gate1_pay_def sc_ends Let_def split: if_splits)

text \<open>
  What the exit code 0 of the full run means, on a disk without old jobs: the request was prepared
  and its payment validated, every minting transaction that was sent carries the prepared operation
  and the sum of its call values, the counter grew by one, and its last caller is the personal
  account of the request.
\<close>

theorem gate1_success:
  assumes "gate1 G s = (s', Inl (Exit 0))" and "\<not> ge_dryRun G" and "\<And>i. job_load i (ss_disk s) = None"
  shows "\<exists>address w increment req res es n x.
    ge_fromSeed G (the (ge_seed G)) = Inr (address, w) \<and> ge_incrementData G = Inr increment \<and>
    snd (prepare (ge_viem G) (ge_chain G) (ss_client s) (gate1_params address increment)) = Inr req \<and>
    snd (submitPayment (ge_payNet G) (ge_parse G) (payment_input address req) w None) = Inr res \<and>
    sp_validated res \<and> sp_engineResult res = ''tesSUCCESS'' \<and> ss_sent s' = ss_sent s @ es \<and>
    (\<forall>am pf bytes v. ExecuteDirectMinting am pf bytes v \<in> set es \<longrightarrow>
      bytes = userOpData req \<and> v = totalCallValue req) \<and>
    ge_countBefore G = Inr n \<and> ge_countAfter G = Inr (n + 1) \<and>
    ge_lastCaller G = Inr x \<and> js_toLowerCase x = js_toLowerCase (personalAccount req)"
proof -
  obtain s1 p where pre0: "gate1_preflight G s = (s1, Inr p)"
    and rest: "(case p of (address, w, req, n) \<Rightarrow> sc_bind (gate1_pay G address w req)
      (\<lambda>hash. gate1_execute G req n hash)) s1 = (s', Inl (Exit 0))"
    using assms(1) unfolding gate1_def
  proof (rule sc_bind_cases)
    fix e :: script_end
    assume "gate1_preflight G s = (s', Inl e)" and "(Inl (Exit 0) :: script_end + unit) = Inl e"
    then show thesis using assms(2) preflight_exit [of G s s'] by simp
  qed (rule that)
  obtain address w req n where p: "p = (address, w, req, n)" by (rule prod_cases4)
  obtain s2 hash where pay: "gate1_pay G address w req s1 = (s2, Inr hash)"
    and ex: "gate1_execute G req n hash s2 = (s', Inl (Exit 0))"
    using rest unfolding p prod.case
  proof (rule sc_bind_cases)
    fix e :: script_end
    assume "gate1_pay G address w req s1 = (s', Inl e)" and "(Inl (Exit 0) :: script_end + unit) = Inl e"
    then show thesis using pay_exit [of G address w req s1 s'] by simp
  qed (rule that)
  note pre = pre0 [unfolded p]
  obtain increment where f: "ge_countBefore G = Inr n"
    "ge_fromSeed G (the (ge_seed G)) = Inr (address, w)" "ge_incrementData G = Inr increment"
    "snd (prepare (ge_viem G) (ge_chain G) (ss_client s) (gate1_params address increment)) = Inr req"
    using pre by (rule preflight_facts)
  obtain res where res: "snd (submitPayment (ge_payNet G) (ge_parse G) (payment_input address req) w None) = Inr res"
    "sp_validated res" "sp_engineResult res = ''tesSUCCESS''"
    using pay_facts(2) [OF pay] by (auto simp: succeeded_def)
  have fresh: "job_load i (ss_disk s2) = None" for i
    using assms(3) by (simp add: pay_facts(4) [OF pay] preflight_disk [OF pre])
  obtain es where es: "ss_sent s' = ss_sent s2 @ es"
    "\<forall>am pf bytes v. ExecuteDirectMinting am pf bytes v \<in> set es \<longrightarrow> bytes = userOpData req \<and> v = totalCallValue req"
    using execute_sends(1) [OF ex fresh] by blast
  note counted = execute_sends(2) [OF ex fresh refl]
  have "ss_sent s' = ss_sent s @ es"
    using es(1) pay_facts(3) [OF pay] quietD [OF preflight_quiet pre] by simp
  with f res es(2) counted show ?thesis by blast
qed

text \<open>
  The key of the executor is only read after the money is gone: when the checks and the payment
  succeed but no key is set, the run ends with the exception of \<open>makeClients\<close>, the payment is on the
  ledger, and no job was created, so the operation it pays for is on no disk.
\<close>

theorem gate1_pays_without_key:
  assumes "gate1_preflight G s = (s1, Inr (address, w, req, n))"
    and "gate1_pay G address w req s1 = (s2, Inr hash)"
    and "\<not> given (xe_DEPLOYER_PRIVATE_KEY (ge_executor G))"
  shows "gate1 G s = (s2, Inl (Threw (JsError ''DEPLOYER_PRIVATE_KEY not set - copy .env.example to .env''))) \<and>
    ss_disk s2 = ss_disk s \<and>
    ss_posted s2 = ss_posted s @ fst (submitPayment (ge_payNet G) (ge_parse G) (payment_input address req) w None) \<and>
    (\<exists>res. snd (submitPayment (ge_payNet G) (ge_parse G) (payment_input address req) w None) = Inr res \<and>
      sp_validated res \<and> sp_hash res = hash)"
proof -
  have "makeClients (ge_executor G) None None =
      Inl (JsError ''DEPLOYER_PRIVATE_KEY not set - copy .env.example to .env'')"
    using assms(3) by (simp add: makeClients_def)
  then have "gate1_execute G req n hash s2 =
      (s2, Inl (Threw (JsError ''DEPLOYER_PRIVATE_KEY not set - copy .env.example to .env'')))"
    by (simp add: gate1_execute_def sc_bind_def sc_await_def)
  then have "gate1 G s = (s2, Inl (Threw (JsError ''DEPLOYER_PRIVATE_KEY not set - copy .env.example to .env'')))"
    using assms(1,2) by (simp add: gate1_def sc_bind_def)
  moreover have "ss_disk s2 = ss_disk s"
    using pay_facts(4) [OF assms(2)] preflight_disk [OF assms(1)] by simp
  ultimately show ?thesis
    using pay_facts(1,2) [OF assms(2)] quietD [OF preflight_quiet assms(1)] by (auto simp: succeeded_def)
qed

subsection \<open>Resuming\<close>

lemma reset_job_identity [simp]: "job_identity (reset_job j) = job_identity j"
  by (simp add: reset_job_def job_identity_def)

lemma revive_quiet: "quiet (revive R j)"
  by (simp add: revive_def quiet_intros)

lemma revived:
  "revive R j s = (s', Inr j') \<Longrightarrow> job_identity j' = job_identity j \<and> ss_sent s' = ss_sent s"
  by (auto simp: revive_def sc_return_ends dest: sc_save_Inr split: if_splits)

lemma not_revived: "revive R j s = (s', Inl e) \<Longrightarrow> ss_sent s' = ss_sent s"
  by (rule quietD [OF revive_quiet, THEN conjunct2])

lemma resume_unpaid: "unpaid (resume_job R)"
  by (auto simp: resume_job_def resume_result_def Let_def intro!: unpaid_intros revive_quiet [THEN quiet_unpaid])

text \<open>What is sent belongs to the job with the identity \<open>i\<close>.\<close>

lemma pays_for_identity:
  "pays_for P (job_identity j) (ExecuteDirectMinting am pf bytes v) \<Longrightarrow>
    bytes = j_userOpData j \<and> js_BigInt (j_totalCallValue j) = Inr v"
  by (simp add: job_identity_def)

text \<open>
  Resuming never pays twice: whatever happens, the script posts nothing to the ledger, and when it
  sends anything to the chain, the job was on disk under the hash it was given and every minting
  transaction carries the bytes and the value that job was saved with.
\<close>

theorem resume_never_pays:
  assumes "resume_job R s = (s', r)"
  shows "ss_posted s' = ss_posted s \<and> (\<exists>es. ss_sent s' = ss_sent s @ es \<and> (es = [] \<or> (\<exists>txId j.
    normalizeXrplTxId (the (re_arg R)) = Inr txId \<and> job_load (js_slice_from 2 txId) (ss_disk s) = Some j \<and>
    (\<forall>am pf bytes v. ExecuteDirectMinting am pf bytes v \<in> set es \<longrightarrow>
      bytes = j_userOpData j \<and> js_BigInt (j_totalCallValue j) = Inr v))))"
proof -
  have q: "quiet (resume_result R n finished)" for n finished
    unfolding resume_result_def by (intro quiet_intros)
  consider (early) "ss_sent s' = ss_sent s"
    | (ran) txId j job P s2 s3 r3 where "normalizeXrplTxId (the (re_arg R)) = Inr txId"
      "job_load (js_slice_from 2 txId) (ss_disk s) = Some j" "job_identity job = job_identity j"
      "ss_sent s2 = ss_sent s" "sc_run P (re_run R) job s2 = (s3, r3)" "ss_sent s' = ss_sent s3"
    using assms unfolding resume_job_def Let_def
  proof (elim sc_bind_cases, goal_cases)
    case (9 s1 a s1a aa s1b ab s1c ac s1d ad s1e ae s1f af s1g ag e)
    show ?case
      by (rule 9(2) [of aa "the ad" af s1g]) (use 9(3-) in \<open>auto simp: sc_ends dest!: revived\<close>)
  next
    case (10 s1 a s1a aa s1b ab s1c ac s1d ad s1e ae s1f af s1g ag s1h ah)
    show ?case
      by (rule 10(2) [of aa "the ad" af s1g _ s1h]) (use 10(3-) in \<open>auto simp: sc_ends dest!: revived quietD [OF q]\<close>)
  qed (auto simp: sc_ends dest!: revived not_revived)
  then have "\<exists>es. ss_sent s' = ss_sent s @ es \<and> (es = [] \<or> (\<exists>txId j.
    normalizeXrplTxId (the (re_arg R)) = Inr txId \<and> job_load (js_slice_from 2 txId) (ss_disk s) = Some j \<and>
    (\<forall>am pf bytes v. ExecuteDirectMinting am pf bytes v \<in> set es \<longrightarrow>
      bytes = j_userOpData j \<and> js_BigInt (j_totalCallValue j) = Inr v)))"
  proof cases
    case early
    then show ?thesis by auto
  next
    case ran
    obtain es where es: "ss_sent s3 = ss_sent s2 @ es" "list_all (pays_for P (job_identity job)) es"
      using ran(5) by (rule sc_run_pays) blast
    have "bytes = j_userOpData j \<and> js_BigInt (j_totalCallValue j) = Inr v"
      if "ExecuteDirectMinting am pf bytes v \<in> set es" for am pf bytes v
      using that es(2) pays_for_identity unfolding ran(3) list_all_iff by blast
    with es(1) ran(1,2,4,6) show ?thesis by auto
  qed
  with unpaidD [OF resume_unpaid assms] show ?thesis by blast
qed

subsection \<open>Witnesses\<close>

definition gate_parse :: json_parser where
  "gate_parse t = Inr (JObj [(''result'', JObj
     [(''account_data'', JObj [(''Sequence'', JNum (Finite 7)), (''Balance'', JStr (bigint_toString 9000000))]),
      (''ledger_current_index'', JNum (Finite 100)), (''engine_result'', JStr ''tesSUCCESS''),
      (''validated'', JBool True)])])"

definition gate_net :: xrpl_net where
  "gate_net k b = Inr \<lparr>http_ok = True, http_status = 200, http_text = ''{}''\<rparr>"

definition gate_wallet :: wallet where
  "gate_wallet = \<lparr>wl_publicKey = ''ED'',
     wl_sign = (\<lambda>tx. Inr \<lparr>tx_blob = ''12'', tx_hash = replicate 64 (CHR ''A'')\<rparr>)\<rparr>"

definition gate_executor :: "js_str option \<Rightarrow> executor_env" where
  "gate_executor key = \<lparr>xe_CHAIN_URL = None, xe_DEPLOYER_PRIVATE_KEY = key,
     xe_privateKeyToAccount = (\<lambda>k. Inr ''0xexecutor'')\<rparr>"

definition gate_session :: session where
  "gate_session = \<lparr>ss_client = demo_client, ss_fdc = demo_fdc, ss_disk = [], ss_posted = [], ss_sent = []\<rparr>"

definition gate_demo :: "js_str option \<Rightarrow> gate_env" where
  "gate_demo key = \<lparr>ge_seed = Some ''sEd'', ge_dryRun = False, ge_viem = demo_viem,
     ge_fromSeed = (\<lambda>seed. Inr (''rUser'', gate_wallet)), ge_incrementData = Inr ''0xd09de08a'',
     ge_chain = demo_chain, ge_laterChain = demo_chain, ge_parse = gate_parse, ge_infoNet = gate_net,
     ge_payNet = gate_net, ge_showDrops = bigint_toString, ge_executor = gate_executor key,
     ge_createNow = 1, ge_createWrite = Written, ge_run = demo_run_env,
     ge_countBefore = Inr 41, ge_countAfter = Inr 42, ge_lastCaller = Inr ''0xparUser''\<rparr>"

definition gate_params :: prepare_params where
  "gate_params = gate1_params ''rUser'' ''0xd09de08a''"

definition gate_request :: prepared_request where
  "gate_request = (case snd (prepare demo_viem demo_chain demo_client gate_params) of Inr r \<Rightarrow> r)"

lemma gate_prepared: "snd (prepare demo_viem demo_chain demo_client gate_params) = Inr gate_request"
proof -
  have "is_ok (snd (prepare demo_viem demo_chain demo_client gate_params))"
    by (rule demo_prepare_ok)
      (simp_all add: gate_params_def gate1_params_def header_ok_def header_number_def params_header_def)
  then show ?thesis by (auto simp: gate_request_def is_ok_iff)
qed

lemma gate_request_fields:
  "Destination (xrplPayment gate_request) = ''rCoreVault''"
  "personalAccount gate_request = ''0xparUser''" "totalUBA (payment gate_request) = 1200000"
proof -
  obtain mac am dest fees executor u memo where
    "rpc_getPersonalAccount demo_chain mac (p_xrplAddress gate_params) = Inr (personalAccount gate_request)"
    "rpc_directMintingPaymentAddress demo_chain am = Inr dest" "readDirectMintingFees demo_chain am = Inr fees"
    and req: "gate_request = prepared_of demo_viem gate_params (personalAccount gate_request) dest fees
      (pr_nonce gate_request) executor u memo"
    using gate_prepared by (rule prepare_InrE)
  then have f: "personalAccount gate_request = ''0xparUser''" "dest = ''rCoreVault''" "fees = demo_fees"
    by (simp_all add: demo_reads gate_params_def gate1_params_def)
  then show "personalAccount gate_request = ''0xparUser''" by simp
  show "Destination (xrplPayment gate_request) = ''rCoreVault''" by (subst req) (simp add: f prepared_of_def)
  show "totalUBA (payment gate_request) = 1200000"
    by (subst req) (simp add: f prepared_of_def computePaymentAmount_def demo_fees_def gate_params_def gate1_params_def)
qed

lemma demo_vault: "snd (directMintingPaymentAddress demo_chain c None) = Inr ''rCoreVault''"
  by (simp add: directMintingPaymentAddress_def assetManagerFXRP_def demo_chain_def split: prod.split)

lemma gate_preflight:
  "\<exists>s1. gate1_preflight (gate_demo key) gate_session = (s1, Inr (''rUser'', gate_wallet, gate_request, 41))"
proof -
  obtain d where "decodeMemo (buffer_from_hex (MemoData (xrplPayment gate_request))) = Inr d"
    "bad_checks (gate1_checks gate_request (buffer_from_hex (MemoData (xrplPayment gate_request))) d ''rCoreVault'') = 0"
    using prepared_passes [OF demo_viem_docs(1,3,4) gate_prepared [unfolded gate_params_def], of "''rCoreVault''"]
    by (auto simp: gate_request_fields)
  then show ?thesis
    using gate_prepared
    by (simp add: gate1_preflight_def sc_ends Let_def gate_demo_def gate_session_def gate_params_def demo_vault)
qed

lemma gate_call: "xrpl_call gate_net gate_parse k m p = Inr (JObj
     [(''account_data'', JObj [(''Sequence'', JNum (Finite 7)), (''Balance'', JStr (bigint_toString 9000000))]),
      (''ledger_current_index'', JNum (Finite 100)), (''engine_result'', JStr ''tesSUCCESS''),
      (''validated'', JBool True)])"
  by (simp add: xrpl_call_def gate_net_def read_result_def gate_parse_def)

lemma gate_polled_Suc: "succeeded (snd (poll_validation gate_net gate_parse (Suc n) k h ''tesSUCCESS''))"
  by (simp add: gate_call engine_result_of_def Let_def succeeded_def)

lemmas gate_polled = gate_polled_Suc [of 29, simplified]

lemma gate_submitted:
  "\<exists>posted r. submitPayment gate_net gate_parse i gate_wallet None = (posted, Inr r) \<and> succeeded r \<and>
    sp_hash r = replicate 64 (CHR ''A'')"
proof -
  have "accountInfo gate_net gate_parse 0 (pi_account i) = Inr (Some (JNum (Finite 7)), Some (JStr (bigint_toString 9000000)))"
    by (simp add: accountInfo_def gate_call)
  moreover have "currentLedger gate_net gate_parse 1 = Inr (Finite 100)"
    by (simp add: currentLedger_def gate_call json_number_def)
  moreover have "provisional_ok ''tesSUCCESS''" by (simp add: provisional_ok_def js_startsWith_def)
  ultimately show ?thesis
    using gate_polled [of 3 "replicate 64 (CHR ''A'')"]
    by (simp add: submitPayment_def gate_call gate_wallet_def Let_def case_prod_beta poll_validation_hash
        del: poll_validation.simps)
qed

lemma gate_pay:
  "\<exists>s2. gate1_pay (gate_demo key) ''rUser'' gate_wallet gate_request s = (s2, Inr (replicate 64 (CHR ''A'')))"
proof -
  obtain posted r where "submitPayment gate_net gate_parse (payment_input ''rUser'' gate_request) gate_wallet None =
      (posted, Inr r)" "succeeded r" "sp_hash r = replicate 64 (CHR ''A'')"
    using gate_submitted by blast
  then show ?thesis
    by (simp add: gate1_pay_def sc_ends gate_demo_def accountInfo_def gate_call balance_drops_def
        gate_request_fields)
qed

lemma gate_normalized: "normalizeXrplTxId (replicate 64 (CHR ''A'')) = Inr (''0x'' @ replicate 64 (CHR ''A''))"
  by code_simp

lemma demo_manager: "\<exists>c am. assetManagerFXRP demo_chain c0 = (c, Inr am)"
  by (simp add: assetManagerFXRP_def demo_chain_def)

lemma gate_clients: "makeClients (gate_executor (Some ''0xkey'')) None None =
    Inr \<lparr>ec_address = ''0xexecutor'', ec_rpcUrl = COSTON2_rpcUrl\<rparr>"
  by (simp add: makeClients_def gate_executor_def)

lemma gate_executes:
  assumes "ss_disk s = []"
  shows "\<exists>s'. gate1_execute (gate_demo (Some ''0xkey'')) gate_request 41 (replicate 64 (CHR ''A'')) s =
    (s', Inl (Exit 0)) \<and> ss_sent s' \<noteq> ss_sent s"
proof -
  let ?p = "\<lparr>cp_xrplTxId = replicate 64 (CHR ''A''), cp_userOpData = userOpData gate_request,
    cp_totalCallValue = totalCallValue gate_request, cp_personalAccount = personalAccount gate_request,
    cp_nonce = pr_nonce gate_request\<rparr>"
  obtain d j where j: "job_create 1 Written ?p [] = (d, Inr j)"
    by (simp add: job_create_def job_save_def gate_normalized job_load_def read_json_def Let_def)
  obtain t where t: "job_identity j = (js_slice_from 2 t, t, cp_userOpData ?p,
      bigint_toString (cp_totalCallValue ?p), cp_personalAccount ?p, bigint_toString (cp_nonce ?p))" "j_state j = observed"
    using j by (rule job_created_identity) (simp_all add: job_load_def read_json_def)
  have v: "js_BigInt (j_totalCallValue j) = Inr (totalCallValue gate_request)"
    using t(1) by (simp add: job_identity_def)
  obtain c am where am: "assetManagerFXRP demo_chain (ss_client s) = (c, Inr am)"
    using demo_manager by blast
  let ?P = "\<lparr>pl_account = ''0xexecutor'', pl_assetManager = am\<rparr>"
  let ?s = "s\<lparr>ss_client := c, ss_disk := d\<rparr>"
  obtain s' j' hub fee where r: "sc_run ?P demo_run_env j ?s = (s', Inr j')" "j_state j' = executed"
    "ss_sent s' = ss_sent ?s @ [RequestAttestation hub (Some ''0x5265'') fee,
      ExecuteDirectMinting (pl_assetManager ?P) demo_proof (j_userOpData j) (totalCallValue gate_request)]"
    using demo_sc_run [OF v t(2)] by blast
  have "gate1_result (gate_demo (Some ''0xkey'')) gate_request 41 j' s' = (s', Inl (Exit 0))"
    using r(2) by (simp add: gate1_result_def sc_ends gate_demo_def gate1_passed_def gate_request_fields)
  moreover note gate_clients
  moreover have "ge_executor (gate_demo k) = gate_executor k" "ge_run (gate_demo k) = demo_run_env"
    "ge_laterChain (gate_demo k) = demo_chain" "ge_createNow (gate_demo k) = 1" "ge_createWrite (gate_demo k) = Written" for k
    by (simp_all add: gate_demo_def)
  ultimately have "gate1_execute (gate_demo (Some ''0xkey'')) gate_request 41 (replicate 64 (CHR ''A'')) s = (s', Inl (Exit 0))"
    using am j r(1) assms by (simp add: gate1_execute_def sc_bind_def sc_await_def sc_client_def sc_create_def)
  with r(3) show ?thesis by simp
qed

lemma gate_runs:
  "\<exists>s'. gate1 (gate_demo (Some ''0xkey'')) gate_session = (s', Inl (Exit 0)) \<and> ss_sent s' \<noteq> ss_sent gate_session"
proof -
  obtain s1 where 1: "gate1_preflight (gate_demo (Some ''0xkey'')) gate_session =
      (s1, Inr (''rUser'', gate_wallet, gate_request, 41))"
    using gate_preflight by blast
  obtain s2 where 2: "gate1_pay (gate_demo (Some ''0xkey'')) ''rUser'' gate_wallet gate_request s1 =
      (s2, Inr (replicate 64 (CHR ''A'')))"
    using gate_pay by blast
  have "ss_disk s2 = []"
    using pay_facts(4) [OF 2] preflight_disk [OF 1] by (simp add: gate_session_def)
  then obtain s' where "gate1_execute (gate_demo (Some ''0xkey'')) gate_request 41 (replicate 64 (CHR ''A'')) s2 =
      (s', Inl (Exit 0))" "ss_sent s' \<noteq> ss_sent s2"
    using gate_executes by blast
  with 1 2 pay_facts(3) [OF 2] quietD [OF preflight_quiet 1] show ?thesis
    by (simp add: gate1_def sc_bind_def)
qed

lemma gate1_spends_checked_witness:
  "\<exists>s' req. gate1 (gate_demo (Some ''0xkey'')) gate_session = (s', Inl (Exit 0)) \<and>
    ss_posted s' = fst (submitPayment gate_net gate_parse (payment_input ''rUser'' req) gate_wallet None)"
proof -
  obtain s' where g: "gate1 (gate_demo (Some ''0xkey'')) gate_session = (s', Inl (Exit 0))"
    and "ss_posted s' \<noteq> ss_posted gate_session \<or> ss_sent s' \<noteq> ss_sent gate_session"
    using gate_runs by blast
  from gate1_spends_checked [OF this] g show ?thesis by (auto simp: gate_demo_def gate_session_def)
qed

lemma gate1_checks_exact_witness:
  "\<exists>d. bad_checks (gate1_checks gate_request (buffer_from_hex (MemoData (xrplPayment gate_request))) d ''rOther'') = 1"
  using gate1_checks_exact [OF demo_viem_docs(1,3,4) gate_prepared [unfolded gate_params_def], of "''rOther''"]
  by (auto simp: gate_request_fields)

lemma gate_request_value: "totalCallValue gate_request = 0"
  using prepared_memo(5) [OF demo_viem_docs(1,3,4) gate_prepared] by (simp add: gate_params_def gate1_params_def)

lemma gate1_success_witness:
  "\<exists>s'. gate1 (gate_demo (Some ''0xkey'')) gate_session = (s', Inl (Exit 0)) \<and> ss_sent s' \<noteq> [] \<and>
    (\<forall>am pf bytes v. ExecuteDirectMinting am pf bytes v \<in> set (ss_sent s') \<longrightarrow>
      bytes = userOpData gate_request \<and> v = 0)"
proof -
  obtain s' where g: "gate1 (gate_demo (Some ''0xkey'')) gate_session = (s', Inl (Exit 0))"
    and ne: "ss_sent s' \<noteq> ss_sent gate_session"
    using gate_runs by blast
  have "\<not> ge_dryRun (gate_demo (Some ''0xkey''))" by (simp add: gate_demo_def)
  moreover have "job_load i (ss_disk gate_session) = None" for i
    by (simp add: gate_session_def job_load_def read_json_def)
  ultimately obtain req where "snd (prepare demo_viem demo_chain demo_client gate_params) = Inr req"
    "\<forall>am pf bytes v. ExecuteDirectMinting am pf bytes v \<in> set (ss_sent s') \<longrightarrow>
      bytes = userOpData req \<and> v = totalCallValue req"
    using gate1_success [OF g] by (auto simp: gate_demo_def gate_session_def gate_params_def)
  with g ne show ?thesis
    by (auto simp: gate_prepared gate_request_value gate_session_def)
qed

lemma gate1_pays_without_key_witness:
  "\<exists>s2. gate1 (gate_demo None) gate_session =
      (s2, Inl (Threw (JsError ''DEPLOYER_PRIVATE_KEY not set - copy .env.example to .env''))) \<and>
    ss_posted s2 \<noteq> [] \<and> ss_disk s2 = []"
proof -
  obtain s1 where 1: "gate1_preflight (gate_demo None) gate_session =
      (s1, Inr (''rUser'', gate_wallet, gate_request, 41))"
    using gate_preflight by blast
  obtain s2 where 2: "gate1_pay (gate_demo None) ''rUser'' gate_wallet gate_request s1 =
      (s2, Inr (replicate 64 (CHR ''A'')))"
    using gate_pay by blast
  have "\<not> given (xe_DEPLOYER_PRIVATE_KEY (ge_executor (gate_demo None)))"
    by (simp add: gate_demo_def gate_executor_def)
  from gate1_pays_without_key [OF 1 2 this] submitPayment_posts show ?thesis
    by (auto simp: gate_session_def)
qed

text \<open>Resuming a job that failed.\<close>

definition stuck_job :: job where
  "stuck_job = demo_job\<lparr>j_state := failed, j_attempts := 5, j_lastError := Some ''fetch failed''\<rparr>"

definition resume_session :: session where
  "resume_session = gate_session\<lparr>ss_disk := [(job_file (replicate 64 (CHR ''A'')), JsonFile stuck_job)]\<rparr>"

definition resume_demo :: resume_env where
  "resume_demo = \<lparr>re_arg = Some (replicate 64 (CHR ''A'')), re_executor = gate_executor (Some ''0xkey''),
     re_chain = demo_chain, re_saveNow = 3, re_saveWrite = Written, re_run = demo_run_env,
     re_countBefore = Inr 41, re_countAfter = Inr 42, re_lastCaller = Inr ''0xpa''\<rparr>"

lemma resume_runs:
  "\<exists>s'. resume_job resume_demo resume_session = (s', Inl (Exit 0)) \<and> ss_sent s' \<noteq> []"
proof -
  obtain c am where am: "assetManagerFXRP demo_chain demo_client = (c, Inr am)"
    using demo_manager by blast
  let ?P = "\<lparr>pl_account = ''0xexecutor'', pl_assetManager = am\<rparr>"
  let ?s = "resume_session\<lparr>ss_client := c\<rparr>"
  have rs: "ss_disk resume_session = [(job_file (replicate 64 (CHR ''A'')), JsonFile stuck_job)]"
    "ss_client resume_session = demo_client" "ss_sent resume_session = []"
    by (simp_all add: resume_session_def gate_session_def)
  have ld: "job_load (replicate 64 (CHR ''A'')) (ss_disk resume_session) = Some stuck_job"
    by (simp add: rs job_load_def read_json_def)
  have "\<exists>s1 job. revive resume_demo stuck_job ?s = (s1, Inr job) \<and> j_state job = observed"
    by (simp add: revive_def stuck_job_def sc_save_def job_save_def resume_demo_def reset_job_def Let_def
        split: prod.split)
  then obtain s1 job where job: "revive resume_demo stuck_job ?s = (s1, Inr job)" "j_state job = observed"
    by blast
  have i: "job_identity job = job_identity demo_job" "ss_sent s1 = []"
    using revived [OF job(1)] rs(3) by (simp_all add: stuck_job_def)
  then have v: "js_BigInt (j_totalCallValue job) = Inr 5" by (simp add: job_identity_def)
  obtain s2 j2 hub fee where r: "sc_run ?P demo_run_env job s1 = (s2, Inr j2)" "j_state j2 = executed"
    "job_identity j2 = job_identity job" "ss_sent s2 = ss_sent s1 @ [RequestAttestation hub (Some ''0x5265'') fee,
      ExecuteDirectMinting (pl_assetManager ?P) demo_proof (j_userOpData job) 5]"
    using demo_sc_run [OF v job(2)] by blast
  have "j_personalAccount j2 = ''0xpa''"
    using r(3) i(1) by (simp add: job_identity_def demo_job_def new_job_def demo_create_def)
  then have "resume_result resume_demo 41 j2 s2 = (s2, Inl (Exit 0))"
    using r(2) by (simp add: resume_result_def sc_ends resume_demo_def resume_passed_def)
  moreover have "re_arg resume_demo = Some (replicate 64 (CHR ''A''))" "re_run resume_demo = demo_run_env"
    "re_executor resume_demo = gate_executor (Some ''0xkey'')" "re_chain resume_demo = demo_chain"
    "re_countBefore resume_demo = Inr 41"
    by (simp_all add: resume_demo_def)
  ultimately have "resume_job resume_demo resume_session = (s2, Inl (Exit 0))"
    using ld am rs(2) job(1) r(1)
    by (simp add: resume_job_def sc_bind_def sc_await_def sc_client_def sc_load_def sc_exit_if_def sc_return_def
        gate_normalized gate_clients)
  with r(4) show ?thesis by simp
qed

lemma resume_never_pays_witness:
  "\<exists>s'. resume_job resume_demo resume_session = (s', Inl (Exit 0)) \<and> ss_posted s' = [] \<and> ss_sent s' \<noteq> [] \<and>
    (\<forall>am pf bytes v. ExecuteDirectMinting am pf bytes v \<in> set (ss_sent s') \<longrightarrow> bytes = ''0xab'' \<and> v = 5)"
proof -
  obtain s' where r: "resume_job resume_demo resume_session = (s', Inl (Exit 0))" and ne: "ss_sent s' \<noteq> []"
    using resume_runs by blast
  have e: "ss_posted resume_session = []" "ss_sent resume_session = []"
    by (simp_all add: resume_session_def gate_session_def)
  have ld: "job_load i (ss_disk resume_session) = Some j \<Longrightarrow> j = stuck_job" for i j
    by (auto simp: resume_session_def job_load_def read_json_def split: if_splits)
  have "j_userOpData stuck_job = ''0xab''" "js_BigInt (j_totalCallValue stuck_job) = Inr 5"
    by (simp_all add: stuck_job_def)
  with resume_never_pays [OF r] r ne ld e show ?thesis by (auto; fastforce)
qed

end
