(* ===== verification/Config.thy ===== *)
theory Config
  imports Web Gate Triggers
begin

text \<open>
  The tables of \<open>packages/sdk/src/config.ts\<close>: endpoints, contract addresses, deployed contracts and selectors,
  and their agreement with the constants the other parts use.
\<close>

subsection \<open>The tables\<close>

type_synonym address_book = "(js_str \<times> js_str) list"

record chain_config =
  cc_chainId :: int
  cc_rpcUrl :: js_str
  cc_explorer :: js_str
  cc_faucet :: js_str

definition COSTON2 :: chain_config where
  "COSTON2 = \<lparr>cc_chainId = 114, cc_rpcUrl = ''https://coston2-api.flare.network/ext/C/rpc'',
     cc_explorer = ''https://coston2-explorer.flare.network'', cc_faucet = ''https://faucet.flare.network/coston2''\<rparr>"

record xrpl_config =
  xc_rpcUrl :: js_str
  xc_wsUrl :: js_str
  xc_explorer :: js_str
  xc_faucet :: js_str

definition XRPL_TESTNET :: xrpl_config where
  "XRPL_TESTNET = \<lparr>xc_rpcUrl = ''https://s.altnet.rippletest.net:51234'', xc_wsUrl = ''wss://s.altnet.rippletest.net:51233'',
     xc_explorer = ''https://testnet.xrpl.org'', xc_faucet = ''https://xrpl.org/resources/dev-tools/xrp-faucets''\<rparr>"

definition CONTRACTS :: address_book where
  "CONTRACTS =
    [(''MasterAccountController'', ''0x434936d47503353f06750Db1A444DBDC5F0AD37c''),
     (''AssetManagerFXRP'', ''0xc1Ca88b937d0b528842F95d5731ffB586f4fbDFA''),
     (''FtsoV2'', ''0xC4e9c78EA53db782E28f28Fdf80BaF59336B304d''),
     (''FeeCalculator'', ''0x88A9315f96c9b5518BBeC58dC6a914e13fAb13e2''),
     (''FdcHub'', ''0x48aC463d7975828989331F4De43341627b9c5f1D''),
     (''FdcVerification'', ''0x906507E0B64bcD494Db73bd0459d1C667e14B933''),
     (''FlareSystemsManager'', ''0xA90Db6D10F856799b10ef2A77EBCbF460aC71e52''),
     (''Relay'', ''0xa10B672D1c62e5457b17af63d4302add6A99d7dE''),
     (''VoterRegistry'', ''0x6a0AF07b7972177B176d3D422555cbc98DfDe914'')]"

definition TEE :: address_book where
  "TEE =
    [(''FlareTeeManager'', ''0x1a9C4A0f9D76c0b1D91d22E24E573a9b377618aE''),
     (''ExtensionManagerFacet'', ''0x13ebf34c3Fd436A657cb0f819c59790dF55CE14B''),
     (''InstructionsFacet'', ''0xe0958De99d4C9Fcb960AEd936Ba5964506AA62Ff''),
     (''MachineManagerFacet'', ''0xF40B9a2e70EE96042217F10D94A4B1eDf13096a8''),
     (''VerificationFacet'', ''0x78203332236cF39A0079746385F33060aCC95778''),
     (''WalletManagerFacet'', ''0xcbf21163bC2A47E8a0FF69cC006C94684bC8Dc9b''),
     (''WalletKeyManagerFacet'', ''0x9Aeb4C3959Ba15464241F7b8daf38Ac2Fa1Cca13''),
     (''Fdc2Hub'', ''0x04dd3Ba33aC798d400bEc42A26F82f9812A421dc''),
     (''Fdc2Verification'', ''0xA34Ff9be42b2C7782786270a51d33b1baC0462Cd'')]"

definition FIRST_PUBLIC_EXTENSION_ID :: bigint where
  "FIRST_PUBLIC_EXTENSION_ID = 0x10000"

definition NORMAL_PROXY_URL :: js_str where
  "NORMAL_PROXY_URL = ''https://tee-proxy-coston2-1.flare.rocks''"

definition OPERATOR_XRPL_ADDRESSES :: "js_str list" where
  "OPERATOR_XRPL_ADDRESSES = [''rEyj8nsHLdgt79KJWzXR5BgF7ZbaohbXwq'']"

definition NO_DESTINATION_TAG_REASON :: js_str where
  "NO_DESTINATION_TAG_REASON =
    ''XRPL payments targeting a Flare Smart Account must not carry a destination tag: '' @
    ''a tag forces FAssets minting to credit the tag-holder, allowing an unrelated '' @
    ''party to front-run the user operation.''"

definition DEPLOYED :: address_book where
  "DEPLOYED =
    [(''Counter'', ''0x1612b980Ddb6c13c01039A712634035Cfb2367E8''),
     (''MockFXRP'', ''0xA2c647c06a3014842e22a3f5C6F390A8d74a52ED''),
     (''MockVault'', ''0x64b89db12C2D91410011ce1Fcb626C87620Db444''),
     (''InstructionRegistry'', ''0x06cC2210f97387C0d1e03DD2ef6E80a02a244E10'')]"

definition SELECTORS :: address_book where
  "SELECTORS =
    [(''deposit'', ''0xb6b55f25''),
     (''increment'', ''0xd09de08a'')]"

subsection \<open>What the tables promise\<close>

text \<open>\<open>0x\<close> and \<open>n\<close> bytes in hexadecimal digits.\<close>

definition hex_bytes :: "nat \<Rightarrow> js_str \<Rightarrow> bool" where
  "hex_bytes n s \<longleftrightarrow> hex_string s \<and> length s = 2 + 2 * n"

lemmas config_tables = CONTRACTS_def TEE_def DEPLOYED_def SELECTORS_def

text \<open>Every entry is an address, no two names of a table share one, and no table shares one with another.\<close>

lemma addresses_wf: "list_all (hex_bytes 20 \<circ> snd) (CONTRACTS @ TEE @ DEPLOYED)"
  by code_simp

lemma addresses_distinct: "distinct (map (js_toLowerCase \<circ> snd) (CONTRACTS @ TEE @ DEPLOYED @ [([], FLARE_CONTRACT_REGISTRY)]))"
  by code_simp

lemma names_distinct: "distinct (map fst CONTRACTS)" "distinct (map fst TEE)" "distinct (map fst DEPLOYED)"
  by code_simp+

lemma selectors_wf: "list_all (hex_bytes 4 \<circ> snd) SELECTORS"
  by code_simp

text \<open>The constants of the other parts are entries of the tables.\<close>

lemma config_used:
  "map_of DEPLOYED ''Counter'' = Some DEPLOYED_Counter" "map_of DEPLOYED ''MockFXRP'' = Some DEPLOYED_MockFXRP"
  "map_of DEPLOYED ''MockVault'' = Some DEPLOYED_MockVault" "map_of CONTRACTS ''FtsoV2'' = Some FTSO_V2"
  "cc_rpcUrl COSTON2 = COSTON2_rpcUrl"
  by (simp_all add: DEPLOYED_def CONTRACTS_def COSTON2_def DEPLOYED_Counter_def DEPLOYED_MockFXRP_def
      DEPLOYED_MockVault_def FTSO_V2_def COSTON2_rpcUrl_def)

end
