(* ===== verification/Signing.thy ===== *)
theory Signing
  imports Scripts
begin

text \<open>
  Waiting for a signature on a phone, as \<open>scripts/demo-xaman.ts\<close> and \<open>scripts/recover-mint.ts\<close> do: a
  loop that asks the wallet service for the status of a sign request until it is decided or a
  deadline has passed. The loop has no bound but the clock, so it runs on fuel.
\<close>

subsection \<open>The loops\<close>

text \<open>\<open>Now i\<close> is the clock at the head of round \<open>i\<close>; \<open>decide\<close> is the body after the \<open>await\<close>.\<close>

fun poll_until ::
    "nat \<Rightarrow> (nat \<Rightarrow> int) \<Rightarrow> int \<Rightarrow> (nat \<Rightarrow> js_error + 'b) \<Rightarrow> ('b \<Rightarrow> (script_end + 'a) option) \<Rightarrow> nat \<Rightarrow>
     'a option script" where
  "poll_until 0 Now deadline ask decide i = sc_stop StillRunning"
| "poll_until (Suc n) Now deadline ask decide i =
    (if \<not> Now i < deadline then sc_return None
     else sc_bind (sc_await (ask i)) (\<lambda>st.
       case decide st of
         None \<Rightarrow> poll_until n Now deadline ask decide (Suc i)
       | Some (Inl e) \<Rightarrow> sc_stop e
       | Some (Inr a) \<Rightarrow> sc_return (Some a)))"

definition json_true :: "json option \<Rightarrow> bool" where
  "json_true v \<longleftrightarrow> \<not> json_false v"

text \<open>A field that is text, by the type the source declares for it, and not empty.\<close>

definition text_of :: "json option \<Rightarrow> js_str option" where
  "text_of v = (case v of Some (JStr t) \<Rightarrow> if t = [] then None else Some t | _ \<Rightarrow> None)"

definition signature_decision :: "sign_request_status \<Rightarrow> (script_end + js_str) option" where
  "signature_decision st =
    (if json_true (st_signed st) \<and> text_of (st_txid st) \<noteq> None then Some (Inr (the (text_of (st_txid st))))
     else if json_true (st_resolved st) \<and> \<not> json_true (st_signed st) then Some (Inl (Exit 1))
     else if json_true (st_expired st) then Some (Inl (Exit 1))
     else None)"

definition signin_decision :: "sign_request_status \<Rightarrow> (script_end + js_str) option" where
  "signin_decision st =
    (if json_true (st_signed st) \<and> text_of (st_account st) \<noteq> None then Some (Inr (the (text_of (st_account st))))
     else if json_true (st_resolved st) \<and> \<not> json_true (st_signed st) then Some (Inl (Exit 1))
     else None)"

text \<open>The clock and the answers of one wait.\<close>

record wait_env =
  wt_fuel :: nat
  wt_now :: "nat \<Rightarrow> int"
  wt_start :: int
  wt_net :: "nat \<Rightarrow> xaman_net"

definition sign_uuid :: "sign_request \<Rightarrow> js_str" where
  "sign_uuid r = (case rs_uuid r of Some (JStr u) \<Rightarrow> u | _ \<Rightarrow> ''undefined'')"

text \<open>\<open>sign.next.padEnd(56)\<close> in the box that is printed.\<close>

definition shown_link :: "sign_request \<Rightarrow> js_error + js_str" where
  "shown_link r = (case rs_next r of Some (JStr t) \<Rightarrow> Inr (js_padEnd 56 (CHR '' '') t)
     | _ \<Rightarrow> Inl (JsError ''Cannot read properties of undefined (reading 'padEnd')''))"

definition await_signature :: "json_parser \<Rightarrow> xaman_client \<Rightarrow> wait_env \<Rightarrow> int \<Rightarrow> sign_request \<Rightarrow> js_str script" where
  "await_signature parse x N timeoutMs sign =
    sc_bind (poll_until (wt_fuel N) (wt_now N) (wt_start N + timeoutMs)
      (\<lambda>i. getSignRequest (wt_net N i) parse x (sign_uuid sign)) signature_decision 0) (\<lambda>txid.
    sc_bind (sc_exit_if (txid = None) 1) (\<lambda>_.
    sc_return (the txid)))"

definition await_signin :: "json_parser \<Rightarrow> xaman_client \<Rightarrow> wait_env \<Rightarrow> sign_request \<Rightarrow> js_str script" where
  "await_signin parse x N sign =
    sc_bind (poll_until (wt_fuel N) (wt_now N) (wt_start N + 10 * 60000)
      (\<lambda>i. getSignRequest (wt_net N i) parse x (sign_uuid sign)) signin_decision 0) (\<lambda>account.
    sc_bind (sc_exit_if (account = None) 1) (\<lambda>_.
    sc_return (the account)))"

subsection \<open>What a wait returns\<close>

lemma poll_until_quiet: "quiet (poll_until n Now dl ask decide i)"
  by (induction n arbitrary: i) (auto intro!: quiet_intros split: option.split sum.split)

lemma poll_until_session: "fst (poll_until n Now dl ask decide i s) = s"
  by (induction n arbitrary: i)
    (auto simp: sc_stop_def sc_return_def sc_bind_def sc_await_def split: option.split sum.split prod.split)

text \<open>Round \<open>k\<close> is reached: the rounds before it were in time, answered and undecided.\<close>

definition reaches :: "(nat \<Rightarrow> int) \<Rightarrow> int \<Rightarrow> (nat \<Rightarrow> js_error + 'b) \<Rightarrow> ('b \<Rightarrow> (script_end + 'a) option) \<Rightarrow> nat \<Rightarrow> nat \<Rightarrow> bool" where
  "reaches Now dl ask decide i k \<longleftrightarrow>
    (\<forall>m. i \<le> m \<and> m < k \<longrightarrow> Now m < dl \<and> (\<exists>st. ask m = Inr st \<and> decide st = None))"

lemma reaches_refl: "reaches Now dl ask decide i i"
  by (auto simp: reaches_def)

lemma reaches_step:
  assumes "Now i < dl" and "ask i = Inr st" and "decide st = None" and "i < k"
  shows "reaches Now dl ask decide (Suc i) k \<longleftrightarrow> reaches Now dl ask decide i k"
proof -
  have "i \<le> m \<longleftrightarrow> m = i \<or> Suc i \<le> m" for m by auto
  with assms show ?thesis by (auto simp: reaches_def)
qed

lemma poll_until_answer:
  "snd (poll_until n Now dl ask decide i s) = Inr (Some a) \<longleftrightarrow>
    (\<exists>k. i \<le> k \<and> k < i + n \<and> reaches Now dl ask decide i k \<and> Now k < dl \<and>
      (\<exists>st. ask k = Inr st \<and> decide st = Some (Inr a)))"
proof (induction n arbitrary: i)
  case 0
  then show ?case by (auto simp: sc_stop_def)
next
  case (Suc n)
  have rounds: "(\<exists>k. i \<le> k \<and> k < i + Suc n \<and> reaches Now dl ask decide i k \<and> Q k) \<longleftrightarrow>
      Q i \<or> (\<exists>k. Suc i \<le> k \<and> k < Suc i + n \<and> reaches Now dl ask decide i k \<and> Q k)" for Q
  proof (intro iffI; (elim exE conjE)?)
    fix k assume "i \<le> k" "k < i + Suc n" "reaches Now dl ask decide i k" "Q k"
    then show "Q i \<or> (\<exists>k. Suc i \<le> k \<and> k < Suc i + n \<and> reaches Now dl ask decide i k \<and> Q k)"
      by (cases "k = i") (auto intro!: exI [of _ k])
  next
    assume "Q i \<or> (\<exists>k. Suc i \<le> k \<and> k < Suc i + n \<and> reaches Now dl ask decide i k \<and> Q k)"
    then show "\<exists>k. i \<le> k \<and> k < i + Suc n \<and> reaches Now dl ask decide i k \<and> Q k"
    proof
      assume "Q i"
      then show ?thesis by (intro exI [of _ i]) (simp add: reaches_refl)
    next
      assume "\<exists>k. Suc i \<le> k \<and> k < Suc i + n \<and> reaches Now dl ask decide i k \<and> Q k"
      then obtain k where "Suc i \<le> k" "k < Suc i + n" "reaches Now dl ask decide i k" "Q k" by blast
      then show ?thesis by (intro exI [of _ k]) simp
    qed
  qed
  show ?case
  proof (cases "Now i < dl \<and> (\<exists>st. ask i = Inr st \<and> decide st = None)")
    case True
    then obtain st where st: "Now i < dl" "ask i = Inr st" "decide st = None" by blast
    have "poll_until (Suc n) Now dl ask decide i s = poll_until n Now dl ask decide (Suc i) s"
      using st by (simp add: sc_bind_def sc_await_def)
    with Suc.IH [of "Suc i"] show ?thesis
      unfolding rounds using st reaches_step [of Now i dl ask st decide] by auto
  next
    case False
    then have "\<not> reaches Now dl ask decide i k" if "Suc i \<le> k" for k
      using that unfolding reaches_def by (metis Suc_le_eq order_refl)
    with False show ?thesis
      unfolding rounds by (auto simp: sc_bind_def sc_await_def sc_return_def sc_stop_def split: sum.splits option.splits)
  qed
qed

lemma poll_until_returns:
  assumes "\<not> Now m < dl" and "\<And>st. decide st \<noteq> Some (Inl StillRunning)"
  shows "i \<le> m \<Longrightarrow> m < i + n \<Longrightarrow> snd (poll_until n Now dl ask decide i s) \<noteq> Inl StillRunning"
proof (induction n arbitrary: i)
  case (Suc n)
  show ?case
  proof (cases "Now i < dl \<and> (\<exists>st. ask i = Inr st \<and> decide st = None)")
    case True
    with assms(1) Suc.prems have "Suc i \<le> m" "m < Suc i + n" by (auto simp: Suc_le_eq le_eq_less_or_eq)
    with Suc.IH True show ?thesis by (auto simp: sc_bind_def sc_await_def)
  next
    case False
    with assms(2) show ?thesis
      by (auto simp: sc_bind_def sc_await_def sc_return_def sc_stop_def split: sum.split option.split)
  qed
qed simp

lemma decisions_end:
  "signature_decision st \<noteq> Some (Inl StillRunning)" "signin_decision st \<noteq> Some (Inl StillRunning)"
  by (simp_all add: signature_decision_def signin_decision_def)

lemma signature_decided:
  "signature_decision st = Some (Inr t) \<longleftrightarrow> json_true (st_signed st) \<and> text_of (st_txid st) = Some t"
  by (auto simp: signature_decision_def)

lemma await_signature_value:
  "snd (await_signature parse x N timeoutMs sign s) = (case snd (poll_until (wt_fuel N) (wt_now N)
      (wt_start N + timeoutMs) (\<lambda>i. getSignRequest (wt_net N i) parse x (sign_uuid sign)) signature_decision 0 s) of
     Inl e \<Rightarrow> Inl e | Inr None \<Rightarrow> Inl (Exit 1) | Inr (Some t) \<Rightarrow> Inr t)"
  by (auto simp: await_signature_def sc_bind_def sc_exit_if_def sc_stop_def sc_return_def
      split: sum.split option.split prod.split)

lemma await_signature_quiet: "quiet (await_signature parse x N timeoutMs sign)"
  unfolding await_signature_def by (intro quiet_intros poll_until_quiet)

lemma await_signature_session: "fst (await_signature parse x N timeoutMs sign s) = s"
  by (auto simp: await_signature_def sc_bind_def sc_exit_if_def sc_stop_def sc_return_def case_prod_beta
      poll_until_session split: sum.split option.split)

lemma await_signin_session: "fst (await_signin parse x N sign s) = s"
  by (auto simp: await_signin_def sc_bind_def sc_exit_if_def sc_stop_def sc_return_def case_prod_beta
      poll_until_session split: sum.split option.split)

lemma await_signin_quiet: "quiet (await_signin parse x N sign)"
  unfolding await_signin_def by (intro quiet_intros poll_until_quiet)

text \<open>
  What the wait for a signature returns: a transaction id exactly when, in some round before the
  deadline, the wallet service reported the request signed with that id, and every round before it
  was answered with a status that is neither signed, nor resolved, nor expired.
\<close>

theorem signature_wait_exact:
  "(snd (await_signature parse x N timeoutMs sign s) = Inr t) =
    (\<exists>k < wt_fuel N. reaches (wt_now N) (wt_start N + timeoutMs)
        (\<lambda>i. getSignRequest (wt_net N i) parse x (sign_uuid sign)) signature_decision 0 k \<and>
      wt_now N k < wt_start N + timeoutMs \<and>
      (\<exists>st. getSignRequest (wt_net N k) parse x (sign_uuid sign) = Inr st \<and>
        json_true (st_signed st) \<and> text_of (st_txid st) = Some t))"
proof -
  let ?p = "poll_until (wt_fuel N) (wt_now N) (wt_start N + timeoutMs)
    (\<lambda>i. getSignRequest (wt_net N i) parse x (sign_uuid sign)) signature_decision 0 s"
  have "snd (await_signature parse x N timeoutMs sign s) = Inr t \<longleftrightarrow> snd ?p = Inr (Some t)"
    unfolding await_signature_value by (auto split: sum.split option.split)
  then show ?thesis by (simp only: poll_until_answer signature_decided) auto
qed

text \<open>
  The wait for a signature ends: once the clock has passed the deadline, at the head of round
  \<open>m\<close>, fuel for \<open>m + 1\<close> rounds is enough, whatever the wallet service answers.
\<close>

theorem signature_wait_ends:
  assumes "wt_now N m \<ge> wt_start N + timeoutMs" and "m < wt_fuel N"
  shows "snd (await_signature parse x N timeoutMs sign s) \<noteq> Inl StillRunning"
proof -
  have "snd (poll_until (wt_fuel N) (wt_now N) (wt_start N + timeoutMs)
      (\<lambda>i. getSignRequest (wt_net N i) parse x (sign_uuid sign)) signature_decision 0 s) \<noteq> Inl StillRunning"
    by (rule poll_until_returns [of _ m]) (use assms decisions_end in auto)
  then show ?thesis unfolding await_signature_value by (auto split: sum.split option.split)
qed

text \<open>A wallet service that never decides, and one whose user signs in the second round.\<close>

definition phone_reply :: "bool \<Rightarrow> json" where
  "phone_reply b = JObj
    [(''meta'', JObj [(''resolved'', JBool b), (''signed'', JBool b), (''expired'', JBool False)]),
     (''response'', JObj [(''txid'', JStr (replicate 64 (CHR ''B''))), (''account'', JStr ''rUser'')]),
     (''uuid'', JStr ''u-1''), (''next'', JObj [(''always'', JStr ''https://xumm.app/sign/u-1'')]),
     (''refs'', JObj [(''qr_png'', JStr ''https://xumm.app/u-1.png'')])]"

definition phone_parse :: json_parser where
  "phone_parse t = Inr (phone_reply (t = ''signed''))"

definition phone_net :: "nat \<Rightarrow> nat \<Rightarrow> xaman_net" where
  "phone_net k i q = Inr \<lparr>http_ok = True, http_status = 200, http_text = (if i = k then ''signed'' else ''open'')\<rparr>"

definition phone_client :: xaman_client where
  "phone_client = \<lparr>xm_key = ''key'', xm_secret = ''secret'', xm_base = XAMAN_API\<rparr>"

definition phone_wait :: "nat \<Rightarrow> wait_env" where
  "phone_wait k = \<lparr>wt_fuel = 5, wt_now = (\<lambda>i. int i * 3000), wt_start = 0, wt_net = phone_net k\<rparr>"

definition phone_sign :: sign_request where
  "phone_sign = \<lparr>rs_uuid = Some (JStr ''u-1''), rs_next = Some (JStr ''https://xumm.app/sign/u-1''),
     rs_qrPng = None, rs_pushed = None\<rparr>"

definition phone_session :: session where
  "phone_session = \<lparr>ss_client = demo_client, ss_fdc = demo_fdc, ss_disk = [], ss_posted = [], ss_sent = []\<rparr>"

lemma signature_wait_ends_witness:
  "snd (await_signature phone_parse phone_client (phone_wait 9) 9000 phone_sign phone_session) \<noteq> Inl StillRunning"
  using signature_wait_ends [of "phone_wait 9" 9000 3] by (simp add: phone_wait_def)

text \<open>What the phone of the witnesses answers.\<close>

lemma phone_request: "createSignRequest (phone_net k i') phone_parse x i = Inr
    \<lparr>rs_uuid = Some (JStr ''u-1''), rs_next = Some (JStr ''https://xumm.app/sign/u-1''),
     rs_qrPng = Some (JStr ''https://xumm.app/u-1.png''), rs_pushed = None\<rparr>"
  by (simp add: createSignRequest_def xaman_call_def phone_net_def phone_parse_def phone_reply_def
      sign_request_of_def read_path_def)

lemma phone_status: "\<exists>st. getSignRequest (phone_net k i) phone_parse x u = Inr st \<and>
    signature_decision st = (if i = k then Some (Inr (replicate 64 (CHR ''B''))) else None) \<and>
    text_of (st_txid st) = Some (replicate 64 (CHR ''B''))"
  by (simp add: getSignRequest_def xaman_call_def phone_net_def phone_parse_def phone_reply_def read_path_def
      signature_decision_def json_true_def text_of_def)

lemma phone_signs:
  "snd (await_signature phone_parse x (phone_wait (Suc 0)) 900000 sign s) = Inr (replicate 64 (CHR ''B''))"
proof -
  obtain st0 where st0: "getSignRequest (phone_net 1 0) phone_parse x (sign_uuid sign) = Inr st0"
    "signature_decision st0 = None"
    using phone_status [of 1 0] by auto
  obtain st1 where st1: "getSignRequest (phone_net 1 1) phone_parse x (sign_uuid sign) = Inr st1"
    "signature_decision st1 = Some (Inr (replicate 64 (CHR ''B'')))"
    using phone_status [of 1 1] by auto
  have "\<exists>k. 0 \<le> k \<and> k < 0 + 5 \<and> reaches (\<lambda>i. int i * 3000) (0 + 15 * 60000)
        (\<lambda>i. getSignRequest (phone_net 1 i) phone_parse x (sign_uuid sign)) signature_decision 0 k \<and>
      int k * 3000 < 0 + 15 * 60000 \<and> (\<exists>st. getSignRequest (phone_net 1 k) phone_parse x (sign_uuid sign) = Inr st \<and>
        signature_decision st = Some (Inr (replicate 64 (CHR ''B''))))"
    using st0 st1 by (intro exI [of _ 1]) (simp add: reaches_def)
  then have "snd (poll_until 5 (\<lambda>i. int i * 3000) (0 + 15 * 60000)
      (\<lambda>i. getSignRequest (phone_net 1 i) phone_parse x (sign_uuid sign)) signature_decision 0 s) =
      Inr (Some (replicate 64 (CHR ''B'')))"
    unfolding poll_until_answer .
  then show ?thesis by (simp add: await_signature_value phone_wait_def)
qed

end
