(* ===== verification/Recover.thy ===== *)
theory Recover
  imports Signing Gate
begin

text \<open>
  \<open>scripts/recover-mint.ts\<close>: a payment whose memo cannot be dispatched is released by a second one
  that carries the instruction to skip it. The script has the skip signed on a phone, drives it to
  execution and only then retries the stuck payment.
\<close>

subsection \<open>The script\<close>

record recover_env =
  rv_arg :: "js_str option"
  rv_account :: "js_str option"
  rv_viem :: viem
  rv_xaman :: xaman_env
  rv_xamanNet :: xaman_net
  rv_parse :: json_parser
  rv_executor :: executor_env
  rv_chain :: flare_chain
  rv_wait :: wait_env
  rv_createNow :: int
  rv_createWrite :: write_outcome
  rv_flagRun :: run_env
  rv_saveNow :: int
  rv_saveWrite :: write_outcome
  rv_stuckRun :: run_env

definition RECOVERY_NET_UBA :: bigint where
  "RECOVERY_NET_UBA = 100000"

definition recovery_header :: memo_header where
  "recovery_header = \<lparr>walletId = None, executorFeeUBA = 0\<rparr>"

definition recovery_sign :: "js_str \<Rightarrow> js_str \<Rightarrow> js_str \<Rightarrow> payment_breakdown \<Rightarrow> bytes \<Rightarrow> sign_request_input" where
  "recovery_sign account coreVault stuckTxId pay memo =
    \<lparr>si_account = Some account, si_destination = coreVault, si_amount = bigint_toString (totalUBA pay),
     si_memoData = toXrplMemoHex memo,
     si_instruction = ''Recover a stuck payment ('' @ js_slice 2 10 stuckTxId @ ''...)'',
     si_identifier = None, si_signers = Some [account], si_expireMinutes = Some 15\<rparr>"

text \<open>The first part: what is signed, and the transaction the user signed it with.\<close>

definition recover_flag :: "recover_env \<Rightarrow> js_str \<Rightarrow> js_str \<Rightarrow> xaman_client \<Rightarrow> js_str \<Rightarrow> js_str \<Rightarrow> js_str script" where
  "recover_flag R stuckTxId account x am coreVault =
    sc_bind (sc_await (readDirectMintingFees (rv_chain R) am)) (\<lambda>fees.
    let pay = computePaymentAmount RECOVERY_NET_UBA fees in
    sc_bind (sc_memo (encodeIgnoreMemo (rv_viem R) recovery_header stuckTxId)) (\<lambda>memo.
    sc_bind (sc_await (createSignRequest (rv_xamanNet R) (rv_parse R) x
      (recovery_sign account coreVault stuckTxId pay memo))) (\<lambda>sign.
    sc_bind (sc_await (shown_link sign)) (\<lambda>_.
    await_signature (rv_parse R) x (rv_wait R) (15 * 60000) sign))))"

text \<open>The third part: the stuck job is reset, whatever its state was, and driven again.\<close>

definition recover_retry :: "recover_env \<Rightarrow> pipeline_options \<Rightarrow> js_str \<Rightarrow> unit script" where
  "recover_retry R P stuckTxId =
    sc_bind (sc_load (js_slice_from 2 stuckTxId)) (\<lambda>loaded.
    sc_bind (sc_exit_if (loaded = None) 1) (\<lambda>_.
    sc_bind (sc_save (rv_saveNow R) (rv_saveWrite R) (reset_job (the loaded))) (\<lambda>stuckJob.
    sc_bind (sc_run P (rv_stuckRun R) stuckJob) (\<lambda>recovered.
    sc_stop (Exit (if j_state recovered = executed then 0 else 1))))))"

text \<open>The second part: the payment with the skip memo is executed; it carries no operation.\<close>

definition recover_execute :: "recover_env \<Rightarrow> pipeline_options \<Rightarrow> js_str \<Rightarrow> js_str \<Rightarrow> unit script" where
  "recover_execute R P pa recoveryTxId =
    sc_bind (sc_create (rv_createNow R) (rv_createWrite R)
      \<lparr>cp_xrplTxId = recoveryTxId, cp_userOpData = ''0x'', cp_totalCallValue = 0,
       cp_personalAccount = pa, cp_nonce = 0\<rparr>) (\<lambda>flagJob.
    sc_bind (sc_run P (rv_flagRun R) flagJob) (\<lambda>flagDone.
    sc_exit_if (j_state flagDone \<noteq> executed) 1))"

text \<open>Everything before: the arguments, the clients and the reads of the chain.\<close>

definition recover_setup ::
    "recover_env \<Rightarrow> (js_str \<times> js_str \<times> xaman_client \<times> pipeline_options \<times> js_str \<times> js_str) script" where
  "recover_setup R =
    sc_bind (sc_exit_if (\<not> given (rv_arg R)) 1) (\<lambda>_.
    sc_bind (sc_await (normalizeXrplTxId (the (rv_arg R)))) (\<lambda>stuckTxId.
    sc_bind (sc_await (if given (rv_account R) then Inr (the (rv_account R))
      else Inl (JsError ''set ONESIG_ACCOUNT to the XRPL account that made the stuck payment''))) (\<lambda>account.
    sc_bind (sc_await (new_XamanClient (rv_xaman R) None None None)) (\<lambda>x.
    sc_bind (sc_await (makeClients (rv_executor R) None None)) (\<lambda>ec.
    sc_bind (sc_client (assetManagerFXRP (rv_chain R))) (\<lambda>am.
    sc_bind (sc_client (\<lambda>c. directMintingPaymentAddress (rv_chain R) c (Some am))) (\<lambda>coreVault.
    sc_bind (sc_client (\<lambda>c. getPersonalAccount (rv_chain R) c account)) (\<lambda>pa.
    sc_return (stuckTxId, account, x, \<lparr>pl_account = ec_address ec, pl_assetManager = am\<rparr>, coreVault, pa)))))))))"

definition recover_mint :: "recover_env \<Rightarrow> unit script" where
  "recover_mint R =
    sc_bind (recover_setup R) (\<lambda>(stuckTxId, account, x, P, coreVault, pa).
    sc_bind (recover_flag R stuckTxId account x (pl_assetManager P) coreVault) (\<lambda>recoveryTxId.
    sc_bind (recover_execute R P pa recoveryTxId) (\<lambda>_.
    recover_retry R P stuckTxId)))"

subsection \<open>The payment that is signed\<close>

lemma recovery_header_ok: "header_ok recovery_header" "header_wallet recovery_header = 0"
  by (simp_all add: recovery_header_def header_ok_def header_number_def header_wallet_def)

lemma normalized_shape:
  assumes "normalizeXrplTxId h = Inr t"
  shows "hex_string t" and "length t = 66"
proof -
  have u: "hex_body (js_toUpperCase (strip_0x h))" "length (strip_0x h) = 64"
    "t = ''0x'' @ js_toUpperCase (strip_0x h)"
    using assms by (auto simp: normalizeXrplTxId_def Let_def split: if_splits)
  show "hex_string t" unfolding u(3) hex_string_def using u(1) by (simp add: js_startsWith_def)
  show "length t = 66" unfolding u(3) using u(2) by simp
qed

text \<open>
  The payment the user is asked to sign releases exactly the stuck transaction: for every hash the
  script accepts the memo can be built, it decodes to the instruction to skip that transaction and
  nothing else, only the named account can sign it, and it pays the text of the net amount plus
  both fees to the vault.
\<close>

theorem recovery_names_stuck:
  assumes "isHex_doc V" and "normalizeXrplTxId h = Inr t"
  shows "\<exists>memo. encodeIgnoreMemo V recovery_header t = Inr memo \<and> length memo = 42 \<and>
    (let i = recovery_sign account vault t (computePaymentAmount RECOVERY_NET_UBA fees) memo; p = sign_payload i in
     decodeMemo (buffer_from_hex (si_memoData i)) = Inr (DecIgnoreMemo 0 0 (js_toLowerCase t)) \<and>
     payload_field p ''txjson'' ''Destination'' = Some (JStr vault) \<and>
     payload_field p ''txjson'' ''DestinationTag'' = None \<and>
     payload_field p ''options'' ''signers'' = Some (JArr [JStr account]) \<and>
     js_BigInt (si_amount i) = Inr (RECOVERY_NET_UBA + mintingFeeUBA (computePaymentAmount RECOVERY_NET_UBA fees) +
       fee_executorFeeUBA fees))"
proof -
  note sh = normalized_shape [OF assms(2)]
  let ?m = "header_bytes IGNORE_MEMO 0 0 @ body_bytes (drop 2 t)"
  have m: "encodeIgnoreMemo V recovery_header t = Inr ?m"
    using sh by (simp add: encodeIgnoreMemo_Inr [OF assms(1)] recovery_header_ok) (simp add: recovery_header_def)
  have "decodeMemo ?m = Inr (DecIgnoreMemo 0 0 (js_toLowerCase t))"
    using sh by (simp add: decode_header toHex_body_bytes)
  with m sh show ?thesis
    by (intro exI [of _ ?m])
      (simp add: recovery_sign_def sign_payload_def payload_field_def computePaymentAmount_def Let_def)
qed

lemma recovery_names_stuck_witness:
  "\<exists>memo. encodeIgnoreMemo demo_viem recovery_header demo_txid = Inr memo \<and>
    decodeMemo (buffer_from_hex (toXrplMemoHex memo)) = Inr (DecIgnoreMemo 0 0 (js_toLowerCase demo_txid))"
  using recovery_names_stuck [OF demo_viem_docs(1) demo_normalized, of "''rUser''" "''rVault''" demo_fees]
  by (auto simp: Let_def recovery_sign_def)

subsection \<open>The order of the retry\<close>

lemma setup_quiet: "quiet (recover_setup R)"
  by (auto simp: recover_setup_def Let_def intro!: quiet_intros)

lemma setup_facts:
  assumes "recover_setup R s = (s1, Inr (stuckTxId, account, x, P, coreVault, pa))"
  shows "normalizeXrplTxId (the (rv_arg R)) = Inr stuckTxId" and "ss_disk s1 = ss_disk s"
  using assms by (auto simp: recover_setup_def sc_ends split: if_splits)

lemma flag_quiet: "quiet (recover_flag R t account x am coreVault)"
  by (auto simp: recover_flag_def Let_def intro!: quiet_intros await_signature_quiet)

lemma flag_disk: "ss_disk (fst (recover_flag R t account x am coreVault s)) = ss_disk s"
  by (simp add: recover_flag_def Let_def sc_bind_def sc_await_def sc_memo_def await_signature_session
      split: sum.split prod.split)

text \<open>
  The job of the flag: no operation and no value, unless a job of that transaction was saved before;
  \<open>create\<close> then returns the saved one.
\<close>

definition flag_job :: "job option \<Rightarrow> js_str \<Rightarrow> job \<Rightarrow> bool" where
  "flag_job known t j \<longleftrightarrow> (case known of
     Some k \<Rightarrow> j = k
   | None \<Rightarrow> j_xrplTxId j = t \<and> j_userOpData j = ''0x'' \<and> js_BigInt (j_totalCallValue j) = Inr 0)"

lemma flag_created:
  assumes "sc_create now w \<lparr>cp_xrplTxId = rid, cp_userOpData = ''0x'', cp_totalCallValue = 0,
      cp_personalAccount = pa, cp_nonce = 0\<rparr> s = (s1, Inr job)"
  obtains t where "normalizeXrplTxId rid = Inr t" "flag_job (job_load (js_slice_from 2 t) (ss_disk s)) t job"
    "ss_sent s1 = ss_sent s"
proof -
  let ?p = "\<lparr>cp_xrplTxId = rid, cp_userOpData = ''0x'', cp_totalCallValue = 0, cp_personalAccount = pa, cp_nonce = 0\<rparr>"
  have "job_create now w ?p (ss_disk s) = (fst (job_create now w ?p (ss_disk s)), Inr job)"
    using assms by (auto simp: sc_ends intro: prod_eqI)
  then obtain t where t: "normalizeXrplTxId (cp_xrplTxId ?p) = Inr t"
    and j: "job_load (js_slice_from 2 t) (ss_disk s) = Some job \<or>
      job_load (js_slice_from 2 t) (ss_disk s) = None \<and> job = new_job now t ?p"
    by (rule job_create_Inr) blast
  from j have "flag_job (job_load (js_slice_from 2 t) (ss_disk s)) t job"
    by (auto simp: flag_job_def new_job_def)
  with that t show thesis using assms by (simp add: sc_ends)
qed

lemma execute_facts:
  assumes "recover_execute R P pa rid s = (s', r)"
  obtains e where "ss_sent s' = ss_sent s" "r = Inl e"
  | t flagJob s1 q es where "normalizeXrplTxId rid = Inr t" "flag_job (job_load (js_slice_from 2 t) (ss_disk s)) t flagJob"
    "sc_run P (rv_flagRun R) flagJob s1 = (s', q)" "ss_sent s1 = ss_sent s" "ss_sent s' = ss_sent s @ es"
    "list_all (pays_for P (job_identity flagJob)) es"
    "\<And>u. r = Inr u \<Longrightarrow> \<exists>flagDone. q = Inr flagDone \<and> j_state flagDone = executed"
  using assms unfolding recover_execute_def
proof (elim sc_bind_cases)
  fix s1 job s2 flagDone
  assume c: "sc_create (rv_createNow R) (rv_createWrite R) \<lparr>cp_xrplTxId = rid, cp_userOpData = ''0x'',
      cp_totalCallValue = 0, cp_personalAccount = pa, cp_nonce = 0\<rparr> s = (s1, Inr job)"
    and run: "sc_run P (rv_flagRun R) job s1 = (s2, Inr flagDone)"
    and e: "sc_exit_if (j_state flagDone \<noteq> executed) 1 s2 = (s', r)"
  have s': "s' = s2" using e by (cases r) (simp_all add: sc_ends)
  have x: "j_state flagDone = executed" if "r = Inr u" for u
    using e that by (simp add: sc_ends)
  obtain t where t: "normalizeXrplTxId rid = Inr t" "flag_job (job_load (js_slice_from 2 t) (ss_disk s)) t job"
    "ss_sent s1 = ss_sent s" by (rule flag_created [OF c])
  obtain es where es: "ss_sent s2 = ss_sent s1 @ es" "list_all (pays_for P (job_identity job)) es"
    using run by (rule sc_run_pays) blast
  show thesis by (rule that(2) [OF t(1,2) run [folded s'] t(3) _ es(2)]) (simp_all add: s' es(1) t(3) x)
next
  fix s1 job e
  assume c: "sc_create (rv_createNow R) (rv_createWrite R) \<lparr>cp_xrplTxId = rid, cp_userOpData = ''0x'',
      cp_totalCallValue = 0, cp_personalAccount = pa, cp_nonce = 0\<rparr> s = (s1, Inr job)"
    and run: "sc_run P (rv_flagRun R) job s1 = (s', Inl e)" and r: "r = Inl e"
  obtain t where t: "normalizeXrplTxId rid = Inr t" "flag_job (job_load (js_slice_from 2 t) (ss_disk s)) t job"
    "ss_sent s1 = ss_sent s" by (rule flag_created [OF c])
  obtain es where es: "ss_sent s' = ss_sent s1 @ es" "list_all (pays_for P (job_identity job)) es"
    using run by (rule sc_run_pays) blast
  show thesis by (rule that(2) [OF t(1,2) run t(3) _ es(2)]) (simp_all add: es(1) t(3) r)
next
  fix e
  assume "sc_create (rv_createNow R) (rv_createWrite R) \<lparr>cp_xrplTxId = rid, cp_userOpData = ''0x'',
      cp_totalCallValue = 0, cp_personalAccount = pa, cp_nonce = 0\<rparr> s = (s', Inl e)" and r: "r = Inl e"
  then have "ss_sent s' = ss_sent s" by (auto simp: sc_ends)
  then show thesis using r by (rule that(1))
qed

text \<open>The retry: its transactions carry what the saved job carries.\<close>

lemma retry_facts:
  assumes "recover_retry R P t s = (s', r)"
  shows "\<exists>es. ss_sent s' = ss_sent s @ es \<and> (es \<noteq> [] \<longrightarrow> (\<exists>j. job_load (js_slice_from 2 t) (ss_disk s) = Some j \<and>
    (\<forall>am pf bytes v. ExecuteDirectMinting am pf bytes v \<in> set es \<longrightarrow>
      bytes = j_userOpData j \<and> js_BigInt (j_totalCallValue j) = Inr v)))"
proof (cases "\<exists>j s1 j1. job_load (js_slice_from 2 t) (ss_disk s) = Some j \<and>
    sc_save (rv_saveNow R) (rv_saveWrite R) (reset_job j) s = (s1, Inr j1)")
  case True
  then obtain j s1 j1 where j: "job_load (js_slice_from 2 t) (ss_disk s) = Some j"
    and sv: "sc_save (rv_saveNow R) (rv_saveWrite R) (reset_job j) s = (s1, Inr j1)" by blast
  obtain s2 q where run: "sc_run P (rv_stuckRun R) j1 s1 = (s2, q)" by (rule prod.exhaust)
  have "s' = s2" using assms j sv run
    by (cases q) (auto simp: recover_retry_def sc_bind_def sc_load_def sc_exit_if_def sc_return_def sc_stop_def)
  moreover have "job_identity j1 = job_identity j" "ss_sent s1 = ss_sent s"
    using sc_save_Inr [OF sv] by (simp_all add: reset_job_def job_identity_def)
  moreover obtain es where "ss_sent s2 = ss_sent s1 @ es" "list_all (pays_for P (job_identity j1)) es"
    using run by (rule sc_run_pays) blast
  moreover have "bytes = j_userOpData j \<and> js_BigInt (j_totalCallValue j) = Inr v"
    if "ExecuteDirectMinting am pf bytes v \<in> set es" for am pf bytes v
    using calculation that pays_for_identity by (metis list_all_iff)
  ultimately show ?thesis using j by auto
next
  case False
  have "ss_sent s' = ss_sent s"
  proof (cases "job_load (js_slice_from 2 t) (ss_disk s)")
    case None
    with assms show ?thesis
      by (auto simp: recover_retry_def sc_bind_def sc_load_def sc_exit_if_def sc_stop_def)
  next
    case (Some j)
    obtain s1 q where sv: "sc_save (rv_saveNow R) (rv_saveWrite R) (reset_job j) s = (s1, q)" by (rule prod.exhaust)
    with False Some obtain e where "q = Inl e" by (cases q) auto
    with assms Some sv have "s' = s1"
      by (auto simp: recover_retry_def sc_bind_def sc_load_def sc_exit_if_def sc_return_def)
    with quietD [OF quiet_basic(10) sv] show ?thesis by simp
  qed
  then show ?thesis by (intro exI [of _ "[]"]) simp
qed

lemma executed_then_retried:
  assumes "sc_bind (recover_execute R P pa rid) (\<lambda>_. recover_retry R P t) s = (s', r)"
  shows "\<exists>s2 q2 es2. recover_execute R P pa rid s = (s2, q2) \<and> ss_sent s' = ss_sent s2 @ es2 \<and>
    (es2 \<noteq> [] \<longrightarrow> (\<exists>u. q2 = Inr u) \<and> (\<exists>j. job_load (js_slice_from 2 t) (ss_disk s2) = Some j \<and>
      (\<forall>am pf bytes v. ExecuteDirectMinting am pf bytes v \<in> set es2 \<longrightarrow>
        bytes = j_userOpData j \<and> js_BigInt (j_totalCallValue j) = Inr v)))"
  using assms
proof (rule sc_bind_cases)
  fix e assume "recover_execute R P pa rid s = (s', Inl e)"
  then show ?thesis by (intro exI [of _ s'] exI [of _ "Inl e"] exI [of _ "[]"]) simp
next
  fix s2 u assume ex: "recover_execute R P pa rid s = (s2, Inr u)" and re: "recover_retry R P t s2 = (s', r)"
  from retry_facts [OF re] ex show ?thesis by blast
qed

text \<open>
  The transaction of the flag: the one the wallet service reported, as signed, for the sign request the
  script made, whose memo says to skip the stuck transaction.
\<close>

definition signed_skip :: "recover_env \<Rightarrow> js_str \<Rightarrow> js_str \<Rightarrow> bool" where
  "signed_skip R stuckTxId rid \<longleftrightarrow> (\<exists>account x vault pay memo sign i st.
     encodeIgnoreMemo (rv_viem R) recovery_header stuckTxId = Inr memo \<and>
     createSignRequest (rv_xamanNet R) (rv_parse R) x (recovery_sign account vault stuckTxId pay memo) = Inr sign \<and>
     getSignRequest (wt_net (rv_wait R) i) (rv_parse R) x (sign_uuid sign) = Inr st \<and>
     json_true (st_signed st) \<and> text_of (st_txid st) = Some rid)"

lemma flag_reported:
  assumes "snd (recover_flag R t account x am coreVault s) = Inr rid"
  shows "signed_skip R t rid"
proof -
  obtain pay memo sign where m: "encodeIgnoreMemo (rv_viem R) recovery_header t = Inr memo"
    "createSignRequest (rv_xamanNet R) (rv_parse R) x (recovery_sign account coreVault t pay memo) = Inr sign"
    "snd (await_signature (rv_parse R) x (rv_wait R) (15 * 60000) sign s) = Inr rid"
    using assms
    by (auto simp: recover_flag_def Let_def sc_bind_def sc_await_def sc_memo_def split: sum.splits prod.splits)
  from m(3) have "snd (poll_until (wt_fuel (rv_wait R)) (wt_now (rv_wait R)) (wt_start (rv_wait R) + 15 * 60000)
      (\<lambda>i. getSignRequest (wt_net (rv_wait R) i) (rv_parse R) x (sign_uuid sign)) signature_decision 0 s) = Inr (Some rid)"
    unfolding await_signature_value by (auto split: sum.splits option.splits)
  then show ?thesis using m(1,2) unfolding signed_skip_def by (auto simp: poll_until_answer signature_decided) blast
qed

text \<open>
  (C20) What the recovery sends: nothing is posted to the ledger, the user signs on the phone. The first
  transactions are those of one run of the job of the transaction the user signed the skip with; they carry
  no operation and no value, or, when a job of that very transaction was saved before, what that job
  holds. The stuck payment is touched only after this run ended executed, and then only for a job found on
  disk under the id that was given, with that job's operation and value.
\<close>

theorem recover_order:
  assumes "recover_mint R s = (s', r)"
  shows "ss_posted s' = ss_posted s \<and> (ss_sent s' = ss_sent s \<or> (\<exists>stuckTxId rid t P flagJob s1 s2 q es1 es2.
    normalizeXrplTxId (the (rv_arg R)) = Inr stuckTxId \<and> signed_skip R stuckTxId rid \<and>
    normalizeXrplTxId rid = Inr t \<and> flag_job (job_load (js_slice_from 2 t) (ss_disk s)) t flagJob \<and>
    sc_run P (rv_flagRun R) flagJob s1 = (s2, q) \<and> ss_sent s1 = ss_sent s \<and> ss_sent s2 = ss_sent s @ es1 \<and>
    ss_sent s' = ss_sent s @ es1 @ es2 \<and>
    (\<forall>am pf bytes v. ExecuteDirectMinting am pf bytes v \<in> set es1 \<longrightarrow>
      bytes = j_userOpData flagJob \<and> js_BigInt (j_totalCallValue flagJob) = Inr v) \<and>
    (es2 \<noteq> [] \<longrightarrow> (\<exists>flagDone j. q = Inr flagDone \<and> j_state flagDone = executed \<and>
      job_load (js_slice_from 2 stuckTxId) (ss_disk s2) = Some j \<and>
      (\<forall>am pf bytes v. ExecuteDirectMinting am pf bytes v \<in> set es2 \<longrightarrow>
        bytes = j_userOpData j \<and> js_BigInt (j_totalCallValue j) = Inr v)))))"
  (is "_ \<and> (_ \<or> ?sends)")
proof -
  have "unpaid (recover_mint R)"
    unfolding recover_mint_def recover_execute_def recover_retry_def
    by (auto intro!: unpaid_intros setup_quiet [THEN quiet_unpaid] flag_quiet [THEN quiet_unpaid])
  note posted = unpaidD [OF this assms]
  have "ss_sent s' = ss_sent s \<or> ?sends"
    using assms unfolding recover_mint_def
  proof (elim sc_bind_cases)
    fix e assume "recover_setup R s = (s', Inl e)"
    from quietD [OF setup_quiet this] show ?thesis by simp
  next
    fix s0 b
    assume set: "recover_setup R s = (s0, Inr b)" and rest: "(case b of (stuckTxId, account, x, P, coreVault, pa) \<Rightarrow>
        sc_bind (recover_flag R stuckTxId account x (pl_assetManager P) coreVault) (\<lambda>recoveryTxId.
        sc_bind (recover_execute R P pa recoveryTxId) (\<lambda>_. recover_retry R P stuckTxId))) s0 = (s', r)"
    obtain t account x P vault pa where b: "b = (t, account, x, P, vault, pa)" by (cases b) auto
    note f = setup_facts [OF set [unfolded b]] quietD [OF setup_quiet set]
    let ?flag = "recover_flag R t account x (pl_assetManager P) vault"
    from rest have "sc_bind ?flag (\<lambda>rid. sc_bind (recover_execute R P pa rid) (\<lambda>_. recover_retry R P t)) s0 = (s', r)"
      by (simp add: b)
    then show ?thesis
    proof (rule sc_bind_cases)
      fix e assume "?flag s0 = (s', Inl e)"
      from quietD [OF flag_quiet this] f show ?thesis by simp
    next
      fix s1 rid assume fl: "?flag s0 = (s1, Inr rid)"
        and rest: "sc_bind (recover_execute R P pa rid) (\<lambda>_. recover_retry R P t) s1 = (s', r)"
      have g: "ss_sent s1 = ss_sent s" "ss_disk s1 = ss_disk s" "signed_skip R t rid"
        using quietD [OF flag_quiet fl] flag_disk [of R t account x "pl_assetManager P" vault s0] fl f
          flag_reported [of R t account x "pl_assetManager P" vault s0 rid] by simp_all
      obtain s2 q2 es2 where ex: "recover_execute R P pa rid s1 = (s2, q2)" and e2: "ss_sent s' = ss_sent s2 @ es2"
        "es2 \<noteq> [] \<longrightarrow> (\<exists>u. q2 = Inr u) \<and> (\<exists>j. job_load (js_slice_from 2 t) (ss_disk s2) = Some j \<and>
          (\<forall>am pf bytes v. ExecuteDirectMinting am pf bytes v \<in> set es2 \<longrightarrow>
            bytes = j_userOpData j \<and> js_BigInt (j_totalCallValue j) = Inr v))"
        using executed_then_retried [OF rest] by blast
      show ?thesis
      proof (rule execute_facts [OF ex])
        fix e assume "ss_sent s2 = ss_sent s1" "q2 = Inl e"
        with e2 g(1) show ?thesis by auto
      next
        fix t' flagJob sa q es
        assume j: "normalizeXrplTxId rid = Inr t'" "flag_job (job_load (js_slice_from 2 t') (ss_disk s1)) t' flagJob"
          and run: "sc_run P (rv_flagRun R) flagJob sa = (s2, q)" "ss_sent sa = ss_sent s1" "ss_sent s2 = ss_sent s1 @ es"
          and pays: "list_all (pays_for P (job_identity flagJob)) es"
          and fin: "\<And>u. q2 = Inr u \<Longrightarrow> \<exists>flagDone. q = Inr flagDone \<and> j_state flagDone = executed"
        from pays have "\<forall>am pf bytes v. ExecuteDirectMinting am pf bytes v \<in> set es \<longrightarrow>
            bytes = j_userOpData flagJob \<and> js_BigInt (j_totalCallValue flagJob) = Inr v"
          unfolding list_all_iff using pays_for_identity by blast
        moreover have "es2 \<noteq> [] \<longrightarrow> (\<exists>flagDone j. q = Inr flagDone \<and> j_state flagDone = executed \<and>
            job_load (js_slice_from 2 t) (ss_disk s2) = Some j \<and>
            (\<forall>am pf bytes v. ExecuteDirectMinting am pf bytes v \<in> set es2 \<longrightarrow>
              bytes = j_userOpData j \<and> js_BigInt (j_totalCallValue j) = Inr v))"
          using e2(2) fin by blast
        ultimately have ?sends
          using f(1) g(3) j [unfolded g(2)] run [unfolded g(1)] e2(1)
          by - (rule exI [of _ t], rule exI [of _ rid], rule exI [of _ t'], rule exI [of _ P], rule exI [of _ flagJob],
            rule exI [of _ sa], rule exI [of _ s2], rule exI [of _ q], rule exI [of _ es], rule exI [of _ es2], simp)
        then show ?thesis ..
      qed
    qed
  qed
  with posted show ?thesis by blast
qed

text \<open>
  Whether there is a job to retry is only looked up at the end: without one the run ends with 1 after
  the user has paid for the flag and the flag was executed.
\<close>

lemma recover_unsaved:
  assumes "recover_setup R s = (s0, Inr (t, account, x, P, vault, pa))"
    and "recover_flag R t account x (pl_assetManager P) vault s0 = (s1, Inr rid)"
    and "recover_execute R P pa rid s1 = (s2, Inr u)" and "job_load (js_slice_from 2 t) (ss_disk s2) = None"
  shows "recover_mint R s = (s2, Inl (Exit 1))"
  using assms
  by (simp add: recover_mint_def recover_retry_def sc_bind_def sc_load_def sc_exit_if_def sc_stop_def)

subsection \<open>A recovery that runs\<close>

definition recover_demo :: recover_env where
  "recover_demo = \<lparr>rv_arg = Some (replicate 64 (CHR ''A'')), rv_account = Some ''rUser'', rv_viem = demo_viem,
     rv_xaman = \<lparr>env_XAMAN_API_KEY = Some ''key'', env_XAMAN_API_SECRET = Some ''secret''\<rparr>,
     rv_xamanNet = phone_net 1 1, rv_parse = phone_parse, rv_executor = gate_executor (Some ''0xkey''),
     rv_chain = demo_chain, rv_wait = phone_wait 1, rv_createNow = 1, rv_createWrite = Written,
     rv_flagRun = demo_run_env, rv_saveNow = 2, rv_saveWrite = Written, rv_stuckRun = demo_run_env\<rparr>"

lemma recover_demo_fields [simp]:
  "rv_arg recover_demo = Some (replicate 64 (CHR ''A''))" "rv_account recover_demo = Some ''rUser''"
  "rv_viem recover_demo = demo_viem" "rv_xamanNet recover_demo = phone_net 1 1" "rv_parse recover_demo = phone_parse"
  "rv_executor recover_demo = gate_executor (Some ''0xkey'')" "rv_chain recover_demo = demo_chain"
  "rv_wait recover_demo = phone_wait 1" "rv_createNow recover_demo = 1" "rv_createWrite recover_demo = Written"
  "rv_flagRun recover_demo = demo_run_env"
  by (simp_all add: recover_demo_def)

lemma demo_account: "\<exists>c'. getPersonalAccount demo_chain c ''rUser'' = (c', Inr ''0xparUser'')"
  by (simp add: getPersonalAccount_def masterAccountController_def demo_chain_def)

lemma recover_set_up: "\<exists>s0 x P. recover_setup recover_demo resume_session =
    (s0, Inr (''0x'' @ replicate 64 (CHR ''A''), ''rUser'', x, P, ''rCoreVault'', ''0xparUser''))"
proof -
  obtain c1 am where c1: "assetManagerFXRP demo_chain (ss_client resume_session) = (c1, Inr am)"
    using demo_manager by blast
  obtain c2 where c2: "getPersonalAccount demo_chain c1 ''rUser'' = (c2, Inr ''0xparUser'')"
    using demo_account by blast
  have vault: "directMintingPaymentAddress demo_chain c1 (Some am) = (c1, Inr ''rCoreVault'')"
    by (simp add: directMintingPaymentAddress_def demo_reads)
  have "\<exists>x. new_XamanClient (rv_xaman recover_demo) None None None = Inr x"
    by (simp add: recover_demo_def new_XamanClient_def)
  then show ?thesis
    using c1 c2 vault
    by (auto simp: recover_setup_def sc_bind_def sc_await_def sc_client_def sc_exit_if_def sc_return_def
        gate_normalized gate_clients)
qed

lemma recover_flagged:
  "snd (recover_flag recover_demo (''0x'' @ replicate 64 (CHR ''A'')) ''rUser'' x am vault s) =
    Inr (replicate 64 (CHR ''B''))"
proof -
  obtain memo where "encodeIgnoreMemo demo_viem recovery_header (''0x'' @ replicate 64 (CHR ''A'')) = Inr memo"
    using normalized_shape [OF gate_normalized]
    by (simp add: encodeIgnoreMemo_Inr [OF demo_viem_docs(1)] recovery_header_ok)
  then show ?thesis
    by (simp add: recover_flag_def Let_def sc_bind_def sc_await_def sc_memo_def demo_reads phone_request
        shown_link_def phone_signs)
qed

lemma recover_executed:
  assumes "ss_disk s = ss_disk resume_session"
  shows "\<exists>s' hub fee. recover_execute recover_demo P pa (replicate 64 (CHR ''B'')) s = (s', Inr ()) \<and>
    ss_sent s' = ss_sent s @ [RequestAttestation hub (Some ''0x5265'') fee,
      ExecuteDirectMinting (pl_assetManager P) demo_proof ''0x'' 0]"
proof -
  let ?p = "\<lparr>cp_xrplTxId = replicate 64 (CHR ''B''), cp_userOpData = ''0x'', cp_totalCallValue = 0,
    cp_personalAccount = pa, cp_nonce = 0\<rparr>"
  have n: "normalizeXrplTxId (replicate 64 (CHR ''B'')) = Inr (''0x'' @ replicate 64 (CHR ''B''))" by code_simp
  have ld: "job_load (replicate 64 (CHR ''B'')) (ss_disk s) = None"
    by (simp add: assms resume_session_def job_load_def read_json_def job_file_def)
  obtain d j where j: "job_create 1 Written ?p (ss_disk s) = (d, Inr j)"
    using ld by (simp add: job_create_def job_save_def n Let_def)
  obtain t where t: "job_identity j = (js_slice_from 2 t, t, cp_userOpData ?p,
      bigint_toString (cp_totalCallValue ?p), cp_personalAccount ?p, bigint_toString (cp_nonce ?p))" "j_state j = observed"
    using j by (rule job_created_identity) (auto simp: n ld)
  have v: "js_BigInt (j_totalCallValue j) = Inr 0" and o: "j_userOpData j = ''0x''"
    using t(1) by (simp_all add: job_identity_def)
  obtain s' j' hub fee where "sc_run P demo_run_env j (s\<lparr>ss_disk := d\<rparr>) = (s', Inr j')" "j_state j' = executed"
    "ss_sent s' = ss_sent (s\<lparr>ss_disk := d\<rparr>) @ [RequestAttestation hub (Some ''0x5265'') fee,
      ExecuteDirectMinting (pl_assetManager P) demo_proof (j_userOpData j) 0]"
    using demo_sc_run [OF v t(2)] by blast
  with j o show ?thesis
    by (simp add: recover_execute_def sc_bind_def sc_create_def sc_exit_if_def sc_return_def)
qed

lemma recover_runs:
  assumes "recover_mint recover_demo resume_session = (s', r)"
  shows "\<exists>hub fee am es. ss_sent s' = [RequestAttestation hub (Some ''0x5265'') fee,
    ExecuteDirectMinting am demo_proof ''0x'' 0] @ es"
proof -
  obtain s0 x P where st: "recover_setup recover_demo resume_session =
      (s0, Inr (''0x'' @ replicate 64 (CHR ''A''), ''rUser'', x, P, ''rCoreVault'', ''0xparUser''))"
    using recover_set_up by blast
  let ?f = "recover_flag recover_demo (''0x'' @ replicate 64 (CHR ''A'')) ''rUser'' x (pl_assetManager P) ''rCoreVault''"
  obtain s1 where fl: "?f s0 = (s1, Inr (replicate 64 (CHR ''B'')))"
    using recover_flagged by (metis prod.collapse)
  have d: "ss_disk s1 = ss_disk resume_session" "ss_sent s1 = ss_sent resume_session"
    using setup_facts(2) [OF st] flag_disk [of recover_demo "''0x'' @ replicate 64 (CHR ''A'')" "''rUser''" x
        "pl_assetManager P" "''rCoreVault''" s0] fl quietD [OF setup_quiet st] quietD [OF flag_quiet fl] by simp_all
  obtain s2 hub fee where ex: "recover_execute recover_demo P ''0xparUser'' (replicate 64 (CHR ''B'')) s1 = (s2, Inr ())"
    "ss_sent s2 = ss_sent s1 @ [RequestAttestation hub (Some ''0x5265'') fee,
      ExecuteDirectMinting (pl_assetManager P) demo_proof ''0x'' 0]"
    using recover_executed [OF d(1), of P "''0xparUser''"] by blast
  have "recover_retry recover_demo P (''0x'' @ replicate 64 (CHR ''A'')) s2 = (s', r)"
    using assms st fl ex(1) by (simp add: recover_mint_def sc_bind_def)
  then obtain es where "ss_sent s' = ss_sent s2 @ es" using retry_facts by blast
  with ex(2) d(2) show ?thesis by (auto simp: resume_session_def gate_session_def)
qed

lemma recover_order_witness:
  "\<exists>s' r stuckTxId rid am. recover_mint recover_demo resume_session = (s', r) \<and> ss_posted s' = [] \<and>
    ExecuteDirectMinting am demo_proof ''0x'' 0 \<in> set (ss_sent s') \<and>
    normalizeXrplTxId (replicate 64 (CHR ''A'')) = Inr stuckTxId \<and> signed_skip recover_demo stuckTxId rid"
proof -
  obtain s' r where run: "recover_mint recover_demo resume_session = (s', r)" by (rule prod.exhaust)
  have e: "ss_posted resume_session = []" "ss_sent resume_session = []"
    by (simp_all add: resume_session_def gate_session_def)
  obtain hub fee am es where "ss_sent s' = [RequestAttestation hub (Some ''0x5265'') fee,
      ExecuteDirectMinting am demo_proof ''0x'' 0] @ es"
    using recover_runs [OF run] by blast
  then have m: "ExecuteDirectMinting am demo_proof ''0x'' 0 \<in> set (ss_sent s')" and "ss_sent s' \<noteq> []" by simp_all
  with recover_order [OF run] run e show ?thesis by simp blast
qed

end
