(* ===== verification/Demo.thy ===== *)
theory Demo
  imports Web Gate Signing Platform
begin

text \<open>
  \<open>scripts/demo-deposit.ts\<close> and \<open>scripts/demo-xaman.ts\<close>: the programs that play the part of an app. Both
  prepare a deposit, register it with a running executor over HTTP, have the payment made, and then
  only watch. The executor is an argument that answers the text of a body; the last part puts the
  service of \<open>Service\<close> there.
\<close>

subsection \<open>Talking to the executor\<close>

definition registration_body :: "prepared_request \<Rightarrow> json" where
  "registration_body req = JObj
    [(''userOpData'', JStr (userOpData req)), (''commitment'', JStr (userOpHash req)),
     (''personalAccount'', JStr (personalAccount req)), (''nonce'', JStr (bigint_toString (pr_nonce req))),
     (''totalCallValue'', JStr (bigint_toString (totalCallValue req))), (''label'', JStr (pr_label req))]"

text \<open>\<open>Now i\<close> is the clock at the head of round \<open>i\<close>, \<open>status i\<close> the answer to its \<open>GET /status\<close>.\<close>

record executor_api =
  ea_register :: "js_str \<Rightarrow> js_error + http_response"
  ea_status :: "nat \<Rightarrow> js_str \<Rightarrow> js_error + http_response"
  ea_fuel :: nat
  ea_now :: "nat \<Rightarrow> int"
  ea_start :: int

definition register_with :: "platform \<Rightarrow> executor_api \<Rightarrow> prepared_request \<Rightarrow> js_error + http_response" where
  "register_with T X req = ea_register X (json_stringify T (registration_body req))"

text \<open>One round of the wait: whatever throws in it is swallowed.\<close>

definition status_decision ::
    "json_parser \<Rightarrow> js_error + http_response \<Rightarrow> (script_end + js_str) option" where
  "status_decision parse answer = (case answer of
     Inl _ \<Rightarrow> None
   | Inr res \<Rightarrow>
      if \<not> http_ok res then None
      else (case parse (http_text res) of
          Inl _ \<Rightarrow> None
        | Inr v \<Rightarrow>
           if json_get v ''state'' = Some (JStr ''executed'') then Some (Inr ''executed'')
           else if json_get v ''state'' = Some (JStr ''failed'') then Some (Inr ''failed'')
           else None))"

definition await_job :: "json_parser \<Rightarrow> executor_api \<Rightarrow> js_str \<Rightarrow> js_str option script" where
  "await_job parse X txid =
    poll_until (ea_fuel X) (ea_now X) (ea_start X + 20 * 60000) (\<lambda>i. Inr (ea_status X i txid))
      (status_decision parse) 0"

subsection \<open>\<open>demo-deposit.ts\<close>\<close>

definition DEMO_DEPOSIT :: bigint where
  "DEMO_DEPOSIT = 25000000"

definition DEMO_LABEL :: js_str where
  "DEMO_LABEL = ''Deposit 25 mFXRP into MockVault''"

record deposit_env =
  dd_dryRun :: bool
  dd_seed :: "js_str option"
  dd_fromSeed :: "js_str \<Rightarrow> js_error + js_str \<times> wallet"
  dd_viem :: viem
  dd_chain :: flare_chain
  dd_encode :: abi_encoder
  dd_platform :: platform
  dd_parse :: json_parser
  dd_vaultBefore :: "js_str \<Rightarrow> js_error + bigint"
  dd_balance :: "js_str \<Rightarrow> js_error + bigint"
  dd_vaultAfter :: "js_str \<Rightarrow> js_error + bigint"
  dd_executor :: executor_api
  dd_payNet :: xrpl_net

text \<open>Everything up to the registration, which ends the run unless there is something to deposit.\<close>

definition deposit_prepare :: "deposit_env \<Rightarrow> (js_str \<times> wallet \<times> prepared_request \<times> bigint) script" where
  "deposit_prepare D =
    sc_bind (sc_await (if given (dd_seed D) then Inr (the (dd_seed D))
      else Inl (JsError ''XRPL_SEED not set - source scripts/env.sh''))) (\<lambda>seed.
    sc_bind (sc_await (dd_fromSeed D seed)) (\<lambda>(address, w).
    sc_bind (sc_await (deposit_calls (dd_encode D) DEMO_DEPOSIT)) (\<lambda>calls.
    sc_bind (sc_prepare (dd_viem D) (dd_chain D) (deposit_params address calls DEMO_LABEL)) (\<lambda>req.
    sc_bind (sc_await (dd_vaultBefore D (personalAccount req))) (\<lambda>vaultBefore.
    sc_bind (sc_exit_if (dd_dryRun D) 0) (\<lambda>_.
    sc_bind (sc_await (dd_balance D (personalAccount req))) (\<lambda>balance.
    sc_bind (sc_exit_if (balance < DEMO_DEPOSIT) 1) (\<lambda>_.
    sc_return (address, w, req, vaultBefore)))))))))"

definition deposit_register :: "deposit_env \<Rightarrow> prepared_request \<Rightarrow> unit script" where
  "deposit_register D req =
    sc_bind (sc_await (register_with (dd_platform D) (dd_executor D) req)) (\<lambda>res.
    sc_await (if http_ok res then Inr ()
      else Inl (JsError (''executor rejected registration: '' @ http_text res))))"

definition deposit_result :: "deposit_env \<Rightarrow> prepared_request \<Rightarrow> bigint \<Rightarrow> unit script" where
  "deposit_result D req vaultBefore =
    sc_bind (sc_await (dd_vaultAfter D (personalAccount req))) (\<lambda>vaultAfter.
    sc_stop (Exit (if vaultAfter > vaultBefore then 0 else 1)))"

definition demo_deposit :: "deposit_env \<Rightarrow> unit script" where
  "demo_deposit D =
    sc_bind (deposit_prepare D) (\<lambda>(address, w, req, vaultBefore).
    sc_bind (deposit_register D req) (\<lambda>_.
    sc_bind (sc_submit (dd_payNet D) (dd_parse D) (payment_input address req) w) (\<lambda>submitted.
    sc_bind (sc_exit_if (\<not> succeeded submitted) 1) (\<lambda>_.
    sc_bind (await_job (dd_parse D) (dd_executor D) (sp_hash submitted)) (\<lambda>_.
    deposit_result D req vaultBefore)))))"

subsection \<open>\<open>demo-xaman.ts\<close>\<close>

record phone_env =
  de_account :: "js_str option"
  de_xaman :: xaman_env
  de_parse :: json_parser
  de_signInNet :: xaman_net
  de_signInWait :: wait_env
  de_viem :: viem
  de_chain :: flare_chain
  de_encode :: abi_encoder
  de_platform :: platform
  de_before :: "js_str \<Rightarrow> js_error + bigint"
  de_executor :: executor_api
  de_signNet :: xaman_net
  de_signWait :: wait_env
  de_after :: "js_str \<Rightarrow> js_error + bigint"

definition phone_identify :: "phone_env \<Rightarrow> xaman_client \<Rightarrow> js_str script" where
  "phone_identify D x = (if given (de_account D) then sc_return (the (de_account D))
    else
      sc_bind (sc_await (createSignInRequest (de_signInNet D) (de_parse D) x ''Sign in to ONESIG'')) (\<lambda>signIn.
      sc_bind (sc_await (shown_link signIn)) (\<lambda>_.
      await_signin (de_parse D) x (de_signInWait D) signIn)))"

definition phone_prepare :: "phone_env \<Rightarrow> js_str \<Rightarrow> (prepared_request \<times> bigint) script" where
  "phone_prepare D address =
    sc_bind (sc_await (deposit_calls (de_encode D) WEB_DEPOSIT)) (\<lambda>calls.
    sc_bind (sc_prepare (de_viem D) (de_chain D) (deposit_params address calls WEB_LABEL)) (\<lambda>req.
    sc_bind (sc_await (de_before D (personalAccount req))) (\<lambda>before.
    sc_bind (sc_await (register_with (de_platform D) (de_executor D) req)) (\<lambda>registration.
    sc_bind (sc_exit_if (\<not> http_ok registration) 1) (\<lambda>_.
    sc_return (req, before))))))"

definition phone_payment :: "js_str \<Rightarrow> prepared_request \<Rightarrow> sign_request_input" where
  "phone_payment address req =
    \<lparr>si_account = Some address, si_destination = Destination (xrplPayment req),
     si_amount = Amount (xrplPayment req), si_memoData = MemoData (xrplPayment req),
     si_instruction = pr_label req, si_identifier = Some (userOpHash req),
     si_signers = Some [address], si_expireMinutes = Some 15\<rparr>"

definition phone_pay :: "phone_env \<Rightarrow> xaman_client \<Rightarrow> js_str \<Rightarrow> prepared_request \<Rightarrow> js_str script" where
  "phone_pay D x address req =
    sc_bind (sc_await (createSignRequest (de_signNet D) (de_parse D) x (phone_payment address req))) (\<lambda>sign.
    sc_bind (sc_await (shown_link sign)) (\<lambda>_.
    await_signature (de_parse D) x (de_signWait D) (15 * 60000) sign))"

definition phone_result :: "phone_env \<Rightarrow> prepared_request \<Rightarrow> bigint \<Rightarrow> unit script" where
  "phone_result D req before =
    sc_bind (sc_await (de_after D (personalAccount req))) (\<lambda>after.
    sc_stop (Exit (if after > before then 0 else 1)))"

definition demo_xaman :: "phone_env \<Rightarrow> unit script" where
  "demo_xaman D =
    sc_bind (sc_await (new_XamanClient (de_xaman D) None None None)) (\<lambda>x.
    sc_bind (phone_identify D x) (\<lambda>address.
    sc_bind (phone_prepare D address) (\<lambda>(req, before).
    sc_bind (phone_pay D x address req) (\<lambda>txid.
    sc_bind (await_job (de_parse D) (de_executor D) txid) (\<lambda>_.
    phone_result D req before)))))"

subsection \<open>What the executor holds\<close>

text \<open>The response of the service as \<open>fetch\<close> gives it, and the request of a registration.\<close>

fun reply_of :: "platform \<Rightarrow> response \<Rightarrow> http_response" where
  "reply_of T (RJson code v) =
    \<lparr>http_ok = (200 \<le> code \<and> code \<le> 299), http_status = code, http_text = json_stringify T v\<rparr>"
| "reply_of T RNoContent = \<lparr>http_ok = True, http_status = 204, http_text = []\<rparr>"
| "reply_of T (RHtml h) = \<lparr>http_ok = True, http_status = 200, http_text = h\<rparr>"

definition register_post :: "js_str \<Rightarrow> request" where
  "register_post t = \<lparr>hr_method = ''POST'', hr_path = ''/register'', hr_query = [], hr_body = t\<rparr>"

definition served_by :: "platform \<Rightarrow> service_options \<Rightarrow> handler_env \<Rightarrow> service \<Rightarrow> executor_api \<Rightarrow> bool" where
  "served_by T Opt E sv X \<longleftrightarrow> (\<forall>t. ea_register X t = Inr (reply_of T (snd (handle Opt E (register_post t) sv))))"

text \<open>The service parses what the platform printed.\<close>

definition parses_back :: "platform \<Rightarrow> json_parser \<Rightarrow> bool" where
  "parses_back T parse \<longleftrightarrow> (\<forall>v. json_plain v \<longrightarrow>
    json_stringify T v \<noteq> [] \<and> parse (json_stringify T v) = Inr v)"

lemma registration_body_fields:
  "text_field (registration_body req) ''userOpData'' = Some (userOpData req)"
  "text_field (registration_body req) ''personalAccount'' = Some (personalAccount req)"
  "text_field (registration_body req) ''commitment'' = Some (userOpHash req)"
  "text_field (registration_body req) ''nonce'' = Some (bigint_toString (pr_nonce req))"
  "text_field (registration_body req) ''totalCallValue'' = Some (bigint_toString (totalCallValue req))"
  "text_field (registration_body req) ''label'' = Some (pr_label req)"
  by (simp_all add: registration_body_def text_field_def)

text \<open>A registration that was answered with success is in the store, with the values of the request.\<close>

lemma acknowledged_is_held:
  assumes "parses_back T (he_parse E)" and "served_by T Opt E sv X"
    and "register_with T X req = Inr res" and "http_ok res" and "userOpHash req \<noteq> []"
  shows "\<exists>h. snd (ps_get h (sv_store (fst (handle Opt E (register_post (json_stringify T (registration_body req))) sv)))) =
      Some (pending_record (he_now E) h (registration_of req)) \<and> keccak256 (so_viem Opt) (userOpData req) = Inr h"
proof -
  let ?t = "json_stringify T (registration_body req)"
  let ?q = "register_post ?t"
  have plain: "json_plain (registration_body req)" by (simp add: registration_body_def)
  then have b: "body_object (he_parse E) (hr_body ?q) ''userOpData'' = Inr (registration_body req)"
    using assms(1) by (auto simp: parses_back_def body_object_def readBody_def register_post_def registration_body_def)
  obtain s' r where rt: "route_register Opt E ?q sv = (s', r)" by (rule prod.exhaust)
  have h: "handle Opt E ?q sv = (s', case r of Inr resp \<Rightarrow> resp | Inl e \<Rightarrow> json_error 500 (err_message e))"
    by (simp add: handle_def handle_routes_def register_post_def rt [unfolded register_post_def])
  have ok: "http_ok (reply_of T (snd (handle Opt E ?q sv)))"
    using assms(2-4) unfolding served_by_def register_with_def by simp
  have ne: "userOpData req \<noteq> [] \<and> personalAccount req \<noteq> []"
  proof (rule ccontr)
    assume "\<not> ?thesis"
    then have "r = Inr (json_error 400 ''userOpData and personalAccount are required'')"
      using rt b by (auto simp: route_register_def registration_body_fields)
    with ok h show False by (simp add: json_error_def)
  qed
  have "(s', r) = (let (s1, r1) = store_register Opt E (registration_of req) sv in
      (s1, bind_err r1 (\<lambda>c. Inr (RJson 200 (JObj [(''commitment'', JStr c)])))))"
    using rt b ne assms(5)
    by (simp add: route_register_def registration_body_fields registration_of_def)
  then have s': "s' = fst (store_register Opt E (registration_of req) sv)"
    and r: "r = bind_err (snd (store_register Opt E (registration_of req) sv))
      (\<lambda>c. Inr (RJson 200 (JObj [(''commitment'', JStr c)])))"
    by (simp_all add: case_prod_beta)
  have "\<exists>c. snd (store_register Opt E (registration_of req) sv) = Inr c"
  proof (cases "snd (store_register Opt E (registration_of req) sv)")
    case (Inl e)
    with ok h r show ?thesis by (simp add: json_error_def)
  qed simp
  then obtain c where "snd (store_register Opt E (registration_of req) sv) = Inr c" by blast
  then have reg: "ps_register (so_viem Opt) (he_now E) (he_write E) (registration_of req) (sv_store sv) = (sv_store s', Inr c)"
    unfolding s' by (auto simp: store_register_def case_prod_beta Let_def intro!: prod_eqI)
  from ps_get_registered(1) [OF reg, of c] ps_register_Inr(1) [OF reg] h show ?thesis
    by (auto simp: registration_of_def)
qed

subsection \<open>The runs\<close>

lemma await_job_quiet: "quiet (await_job parse X t)"
  unfolding await_job_def by (rule poll_until_quiet)

lemma deposit_prepare_quiet: "quiet (deposit_prepare D)"
  by (auto simp: deposit_prepare_def intro!: quiet_intros)

lemma deposit_register_quiet: "quiet (deposit_register D req)"
  by (auto simp: deposit_register_def intro!: quiet_intros)

lemma deposit_prepare_facts:
  assumes "deposit_prepare D s = (s1, Inr (address, w, req, n))"
  obtains calls bal where "dd_fromSeed D (the (dd_seed D)) = Inr (address, w)"
    "deposit_calls (dd_encode D) DEMO_DEPOSIT = Inr calls"
    "snd (prepare (dd_viem D) (dd_chain D) (ss_client s) (deposit_params address calls DEMO_LABEL)) = Inr req"
    "\<not> dd_dryRun D" "dd_balance D (personalAccount req) = Inr bal" "DEMO_DEPOSIT \<le> bal"
  using assms by (auto simp: deposit_prepare_def sc_ends split: if_splits)

lemma deposit_register_facts:
  assumes "deposit_register D req s = (s1, Inr u)"
  obtains res where "register_with (dd_platform D) (dd_executor D) req = Inr res" "http_ok res"
  using assms by (auto simp: deposit_register_def sc_ends split: if_splits)

text \<open>The parts after the registration: one submission, and then nothing but reading.\<close>

lemma deposit_pay_posts:
  assumes "sc_bind (sc_submit net parse i w) (\<lambda>submitted. sc_bind (sc_exit_if (b submitted) 1) (\<lambda>_.
    sc_bind (await_job parse X (sp_hash submitted)) (\<lambda>_. deposit_result D req n))) s = (s', r)"
  shows "ss_posted s' = ss_posted s @ fst (submitPayment net parse i w None) \<and> ss_sent s' = ss_sent s"
  using assms
proof (rule sc_bind_cases)
  fix s1 a
  assume "sc_submit net parse i w s = (s1, Inr a)"
    and rest: "sc_bind (sc_exit_if (b a) 1) (\<lambda>_. sc_bind (await_job parse X (sp_hash a)) (\<lambda>_. deposit_result D req n)) s1 = (s', r)"
  moreover have "quiet (sc_bind (sc_exit_if (b a) 1) (\<lambda>_. sc_bind (await_job parse X (sp_hash a)) (\<lambda>_. deposit_result D req n)))"
    by (auto simp: deposit_result_def intro!: quiet_intros await_job_quiet)
  from quietD [OF this rest] calculation show ?thesis by (simp add: sc_ends)
qed (auto simp: sc_ends)

lemma deposit_pays_prepared:
  assumes "demo_deposit D s = (s', r)"
  shows "ss_sent s' = ss_sent s \<and> (ss_posted s' = ss_posted s \<or> (\<exists>address w calls req bal res.
    dd_fromSeed D (the (dd_seed D)) = Inr (address, w) \<and> \<not> dd_dryRun D \<and>
    snd (prepare (dd_viem D) (dd_chain D) (ss_client s) (deposit_params address calls DEMO_LABEL)) = Inr req \<and>
    dd_balance D (personalAccount req) = Inr bal \<and> DEMO_DEPOSIT \<le> bal \<and>
    register_with (dd_platform D) (dd_executor D) req = Inr res \<and> http_ok res \<and>
    ss_posted s' = ss_posted s @ fst (submitPayment (dd_payNet D) (dd_parse D) (payment_input address req) w None)))"
  using assms unfolding demo_deposit_def
proof (rule sc_bind_cases)
  fix e assume "deposit_prepare D s = (s', Inl e)"
  from quietD [OF deposit_prepare_quiet this] show ?thesis by simp
next
  fix s1 p
  assume pre: "deposit_prepare D s = (s1, Inr p)"
    and rest: "(case p of (address, w, req, n) \<Rightarrow> sc_bind (deposit_register D req) (\<lambda>_.
      sc_bind (sc_submit (dd_payNet D) (dd_parse D) (payment_input address req) w) (\<lambda>submitted.
      sc_bind (sc_exit_if (\<not> succeeded submitted) 1) (\<lambda>_.
      sc_bind (await_job (dd_parse D) (dd_executor D) (sp_hash submitted)) (\<lambda>_.
      deposit_result D req n))))) s1 = (s', r)"
  obtain address w req n where p: "p = (address, w, req, n)" by (cases p) auto
  note q = quietD [OF deposit_prepare_quiet pre]
  from rest have "sc_bind (deposit_register D req) (\<lambda>_.
      sc_bind (sc_submit (dd_payNet D) (dd_parse D) (payment_input address req) w) (\<lambda>submitted.
      sc_bind (sc_exit_if (\<not> succeeded submitted) 1) (\<lambda>_.
      sc_bind (await_job (dd_parse D) (dd_executor D) (sp_hash submitted)) (\<lambda>_.
      deposit_result D req n)))) s1 = (s', r)" by (simp add: p)
  then show ?thesis
  proof (rule sc_bind_cases)
    fix e assume "deposit_register D req s1 = (s', Inl e)"
    from quietD [OF deposit_register_quiet this] q show ?thesis by simp
  next
    fix s2 u
    assume reg: "deposit_register D req s1 = (s2, Inr u)"
      and "sc_bind (sc_submit (dd_payNet D) (dd_parse D) (payment_input address req) w) (\<lambda>submitted.
        sc_bind (sc_exit_if (\<not> succeeded submitted) 1) (\<lambda>_.
        sc_bind (await_job (dd_parse D) (dd_executor D) (sp_hash submitted)) (\<lambda>_.
        deposit_result D req n))) s2 = (s', r)"
    from deposit_pay_posts [OF this(2)] quietD [OF deposit_register_quiet reg] q
    have "ss_posted s' = ss_posted s @ fst (submitPayment (dd_payNet D) (dd_parse D) (payment_input address req) w None)"
      "ss_sent s' = ss_sent s" by simp_all
    moreover obtain res where "register_with (dd_platform D) (dd_executor D) req = Inr res" "http_ok res"
      using reg by (rule deposit_register_facts)
    moreover obtain calls bal where "dd_fromSeed D (the (dd_seed D)) = Inr (address, w)"
      "snd (prepare (dd_viem D) (dd_chain D) (ss_client s) (deposit_params address calls DEMO_LABEL)) = Inr req"
      "\<not> dd_dryRun D" "dd_balance D (personalAccount req) = Inr bal" "DEMO_DEPOSIT \<le> bal"
      using pre [unfolded p] by (rule deposit_prepare_facts)
    ultimately show ?thesis by blast
  qed
qed

text \<open>
  (C18) The app pays only for what the executor holds: run against the service, \<open>demo-deposit\<close> posts
  nothing, or exactly the payment of the request it prepared, after the service stored that request's
  registration under the commitment the payment carries, and only when the account has the tokens to
  deposit. It sends nothing to the chain itself.
\<close>

theorem deposit_pays_for_held:
  assumes "isHex_doc (dd_viem D)" and "keccak256_doc (dd_viem D)" and "encodeAbiParameters_doc (dd_viem D)"
    and "so_viem Opt = dd_viem D" and "parses_back (dd_platform D) (he_parse E)"
    and "served_by (dd_platform D) Opt E sv (dd_executor D)" and "demo_deposit D s = (s', r)"
  shows "ss_sent s' = ss_sent s \<and> (ss_posted s' = ss_posted s \<or> (\<exists>address w req bal.
    dd_fromSeed D (the (dd_seed D)) = Inr (address, w) \<and> \<not> dd_dryRun D \<and>
    dd_balance D (personalAccount req) = Inr bal \<and> DEMO_DEPOSIT \<le> bal \<and>
    ss_posted s' = ss_posted s @ fst (submitPayment (dd_payNet D) (dd_parse D) (payment_input address req) w None) \<and>
    committed_hash (pi_memoData (payment_input address req)) = Some (userOpHash req) \<and>
    snd (ps_get (userOpHash req) (sv_store (fst (handle Opt E
      (register_post (json_stringify (dd_platform D) (registration_body req))) sv)))) =
      Some (pending_record (he_now E) (userOpHash req) (registration_of req))))"
proof (cases "ss_posted s' = ss_posted s")
  case True
  with deposit_pays_prepared [OF assms(7)] show ?thesis by simp
next
  case False
  then obtain address w calls req bal res where
    f: "dd_fromSeed D (the (dd_seed D)) = Inr (address, w)" "\<not> dd_dryRun D"
      "snd (prepare (dd_viem D) (dd_chain D) (ss_client s) (deposit_params address calls DEMO_LABEL)) = Inr req"
      "dd_balance D (personalAccount req) = Inr bal" "DEMO_DEPOSIT \<le> bal"
      "register_with (dd_platform D) (dd_executor D) req = Inr res" "http_ok res"
      "ss_posted s' = ss_posted s @ fst (submitPayment (dd_payNet D) (dd_parse D) (payment_input address req) w None)"
    and sent: "ss_sent s' = ss_sent s"
    using deposit_pays_prepared [OF assms(7)] by blast
  note k = prepared_commitment [OF assms(1-3) f(3)]
  have "userOpHash req \<noteq> []"
    using keccak256_docD(1) [OF assms(2) k(1)] by (auto simp: hex_string_def js_startsWith_def)
  from acknowledged_is_held [OF assms(5,6) f(6,7) this] obtain h where
    "snd (ps_get h (sv_store (fst (handle Opt E
      (register_post (json_stringify (dd_platform D) (registration_body req))) sv)))) =
      Some (pending_record (he_now E) h (registration_of req))" "h = userOpHash req"
    using k(1) unfolding assms(4) by auto
  moreover have "committed_hash (pi_memoData (payment_input address req)) = Some (userOpHash req)"
    using k(3) by (simp add: payment_input_def)
  ultimately show ?thesis using f sent by blast
qed

lemma phone_identify_quiet: "quiet (phone_identify D x)"
  by (auto simp: phone_identify_def intro!: quiet_intros await_signin_quiet)

lemma phone_prepare_quiet: "quiet (phone_prepare D address)"
  by (auto simp: phone_prepare_def intro!: quiet_intros)

lemma phone_pay_quiet: "quiet (phone_pay D x address req)"
  by (auto simp: phone_pay_def intro!: quiet_intros await_signature_quiet)

lemma demo_xaman_quiet: "quiet (demo_xaman D)"
  by (auto simp: demo_xaman_def phone_result_def split: prod.split
      intro!: quiet_intros phone_identify_quiet phone_prepare_quiet phone_pay_quiet await_job_quiet)

text \<open>Identifying the user leaves the caches of the client alone.\<close>

lemma phone_identify_session: "fst (phone_identify D x s) = s"
  by (auto simp: phone_identify_def sc_return_def sc_bind_def sc_await_def await_signin_session
      split: sum.split prod.split)

lemma phone_prepare_facts:
  assumes "phone_prepare D address s = (s1, Inr (req, n))"
  obtains calls res where "deposit_calls (de_encode D) WEB_DEPOSIT = Inr calls"
    "snd (prepare (de_viem D) (de_chain D) (ss_client s) (deposit_params address calls WEB_LABEL)) = Inr req"
    "de_before D (personalAccount req) = Inr n"
    "register_with (de_platform D) (de_executor D) req = Inr res" "http_ok res"
  using assms by (auto simp: phone_prepare_def sc_ends)

lemma await_signature_reported:
  assumes "snd (await_signature parse x N t sign s) = Inr txid"
  shows "\<exists>i st. getSignRequest (wt_net N i) parse x (sign_uuid sign) = Inr st \<and>
    json_true (st_signed st) \<and> text_of (st_txid st) = Some txid"
proof -
  have "snd (poll_until (wt_fuel N) (wt_now N) (wt_start N + t)
      (\<lambda>i. getSignRequest (wt_net N i) parse x (sign_uuid sign)) signature_decision 0 s) = Inr (Some txid)"
    using assms unfolding await_signature_value by (auto split: sum.splits option.splits)
  then show ?thesis by (auto simp: poll_until_answer signature_decided)
qed

lemma phone_pay_facts:
  assumes "phone_pay D x address req s = (s1, Inr txid)"
  obtains sign i st where "createSignRequest (de_signNet D) (de_parse D) x (phone_payment address req) = Inr sign"
    "getSignRequest (wt_net (de_signWait D) i) (de_parse D) x (sign_uuid sign) = Inr st"
    "json_true (st_signed st)" "text_of (st_txid st) = Some txid"
proof -
  obtain sign where "createSignRequest (de_signNet D) (de_parse D) x (phone_payment address req) = Inr sign"
    and "await_signature (de_parse D) x (de_signWait D) (15 * 60000) sign s = (s1, Inr txid)"
    using assms by (auto simp: phone_pay_def sc_ends)
  with await_signature_reported that show thesis by (metis snd_conv)
qed

lemma status_decision_go: "status_decision parse a \<noteq> Some (Inl e)"
  by (auto simp: status_decision_def split: sum.split)

lemma decision_exits_1:
  "signature_decision st \<noteq> Some (Inl (Exit 0))" "signin_decision st \<noteq> Some (Inl (Exit 0))"
  by (simp_all add: signature_decision_def signin_decision_def)

lemma poll_until_no_exit:
  assumes "\<And>st. decide st \<noteq> Some (Inl (Exit n))"
  shows "snd (poll_until k Now dl ask decide i s) \<noteq> Inl (Exit n)"
  using assms
  by (induction k arbitrary: i)
    (auto simp: sc_stop_def sc_return_def sc_bind_def sc_await_def split: option.split sum.split)

lemma waits_no_exit:
  "snd (await_signature parse x N t sign s) \<noteq> Inl (Exit 0)" "snd (await_signin parse x N sign s) \<noteq> Inl (Exit 0)"
proof -
  note p = poll_until_no_exit [of signature_decision 0, OF decision_exits_1(1)]
    poll_until_no_exit [of signin_decision 0, OF decision_exits_1(2)]
  show "snd (await_signature parse x N t sign s) \<noteq> Inl (Exit 0)"
    unfolding await_signature_value using p(1) by (auto split: sum.split option.split)
  show "snd (await_signin parse x N sign s) \<noteq> Inl (Exit 0)"
    unfolding await_signin_def sc_bind_def sc_exit_if_def sc_stop_def sc_return_def using p(2)
    by (auto split: sum.split option.split prod.split) (metis snd_conv)+
qed

lemma await_job_no_exit: "await_job parse X t s \<noteq> (s', Inl (Exit n))"
  using poll_until_no_exit [of "status_decision parse" n] unfolding await_job_def
  by (metis status_decision_go snd_conv)

text \<open>What a run that ends with 0 went through.\<close>

lemma demo_xaman_stages:
  assumes "demo_xaman D s = (s', Inl (Exit 0))"
  obtains x address req n txid s1 s2 s3 where "new_XamanClient (de_xaman D) None None None = Inr x"
    "phone_identify D x s = (s, Inr address)" "phone_prepare D address s = (s1, Inr (req, n))"
    "phone_pay D x address req s1 = (s2, Inr txid)" "phone_result D req n s3 = (s', Inl (Exit 0))"
proof -
  have pay: "phone_pay D x address req s1 \<noteq> (s2, Inl (Exit 0))" for x address req s1 s2
    using waits_no_exit(1) by (auto simp: phone_pay_def sc_ends) (metis snd_conv)
  have idf: "phone_identify D x s1 \<noteq> (s2, Inl (Exit 0))" for x s1 s2
    using waits_no_exit(2) by (auto simp: phone_identify_def sc_ends) (metis snd_conv)
  have prep: "phone_prepare D address s1 \<noteq> (s2, Inl (Exit 0))" for address s1 s2
    by (auto simp: phone_prepare_def sc_ends)
  obtain x address req n txid s0 s1 s2 s3 where "new_XamanClient (de_xaman D) None None None = Inr x"
    "phone_identify D x s = (s0, Inr address)" "phone_prepare D address s0 = (s1, Inr (req, n))"
    "phone_pay D x address req s1 = (s2, Inr txid)" "phone_result D req n s3 = (s', Inl (Exit 0))"
    using assms unfolding demo_xaman_def
    by (auto simp: sc_bind_Inl [of _ _ _ s' "Exit 0"] sc_await_ends pay idf prep await_job_no_exit)
  moreover from this have "s0 = s" using phone_identify_session [of D x s] by simp
  ultimately show thesis by (blast intro: that)
qed

text \<open>
  What the exit code 0 of the phone demo means: the request was prepared for the account that
  signs and its registration is in the store of the service, under the commitment its payment
  carries; the wallet service reported the sign request for that payment, bound to that account, as
  signed; and the balance in the vault grew. The program itself never pays and never sends.
\<close>

theorem phone_demo_success:
  assumes "isHex_doc (de_viem D)" and "keccak256_doc (de_viem D)" and "encodeAbiParameters_doc (de_viem D)"
    and "so_viem Opt = de_viem D" and "parses_back (de_platform D) (he_parse E)"
    and "served_by (de_platform D) Opt E sv (de_executor D)" and "demo_xaman D s = (s', r)"
  shows "ss_posted s' = ss_posted s \<and> ss_sent s' = ss_sent s \<and> (r = Inl (Exit 0) \<longrightarrow>
    (\<exists>x address calls req n m sign i st.
      snd (phone_identify D x s) = Inr address \<and>
      snd (prepare (de_viem D) (de_chain D) (ss_client s) (deposit_params address calls WEB_LABEL)) = Inr req \<and>
      committed_hash (si_memoData (phone_payment address req)) = Some (userOpHash req) \<and>
      snd (ps_get (userOpHash req) (sv_store (fst (handle Opt E
        (register_post (json_stringify (de_platform D) (registration_body req))) sv)))) =
        Some (pending_record (he_now E) (userOpHash req) (registration_of req)) \<and>
      createSignRequest (de_signNet D) (de_parse D) x (phone_payment address req) = Inr sign \<and>
      getSignRequest (wt_net (de_signWait D) i) (de_parse D) x (sign_uuid sign) = Inr st \<and>
      json_true (st_signed st) \<and>
      de_before D (personalAccount req) = Inr n \<and> de_after D (personalAccount req) = Inr m \<and> n < m))"
proof (cases "r = Inl (Exit 0)")
  case False
  with quietD [OF demo_xaman_quiet assms(7)] show ?thesis by simp
next
  case True
  with assms(7) obtain x address req n txid s1 s2 s3 where
    st: "phone_identify D x s = (s, Inr address)" "phone_prepare D address s = (s1, Inr (req, n))"
      "phone_pay D x address req s1 = (s2, Inr txid)" "phone_result D req n s3 = (s', Inl (Exit 0))"
    by (auto elim: demo_xaman_stages)
  obtain calls res where
    f: "snd (prepare (de_viem D) (de_chain D) (ss_client s) (deposit_params address calls WEB_LABEL)) = Inr req"
      "de_before D (personalAccount req) = Inr n"
      "register_with (de_platform D) (de_executor D) req = Inr res" "http_ok res"
    using st(2) by (rule phone_prepare_facts)
  obtain sign i stat where
    g: "createSignRequest (de_signNet D) (de_parse D) x (phone_payment address req) = Inr sign"
      "getSignRequest (wt_net (de_signWait D) i) (de_parse D) x (sign_uuid sign) = Inr stat" "json_true (st_signed stat)"
    using st(3) by (rule phone_pay_facts)
  obtain m where m: "de_after D (personalAccount req) = Inr m" "n < m"
    using st(4) by (auto simp: phone_result_def sc_ends split: if_splits)
  note k = prepared_commitment [OF assms(1-3) f(1)]
  have "userOpHash req \<noteq> []"
    using keccak256_docD(1) [OF assms(2) k(1)] by (auto simp: hex_string_def js_startsWith_def)
  from acknowledged_is_held [OF assms(5,6) f(3,4) this] have
    "snd (ps_get (userOpHash req) (sv_store (fst (handle Opt E
      (register_post (json_stringify (de_platform D) (registration_body req))) sv)))) =
      Some (pending_record (he_now E) (userOpHash req) (registration_of req))"
    using k(1) unfolding assms(4) by auto
  moreover have "committed_hash (si_memoData (phone_payment address req)) = Some (userOpHash req)"
    using k(3) by (simp add: phone_payment_def)
  moreover have "snd (phone_identify D x s) = Inr address" using st(1) by simp
  ultimately show ?thesis using quietD [OF demo_xaman_quiet assms(7)] f(1,2) g m by blast
qed

text \<open>A script that does not run on for ever.\<close>

definition halts :: "'a script \<Rightarrow> bool" where
  "halts m \<longleftrightarrow> (\<forall>s. snd (m s) \<noteq> Inl StillRunning)"

named_theorems halts_intros \<open>scripts that end\<close>

lemma halts_bind [halts_intros]: "halts m \<Longrightarrow> (\<And>a. halts (f a)) \<Longrightarrow> halts (sc_bind m f)"
  by (auto simp: halts_def sc_bind_def split: prod.split sum.split) (metis snd_conv)

lemma halts_basic [halts_intros]:
  "halts (sc_return a)" "halts (sc_await r)" "halts (sc_exit_if b n)" "halts (sc_prepare V R p)" "halts (sc_stop (Exit n))"
  by (auto simp: halts_def sc_return_def sc_stop_def sc_await_def sc_exit_if_def sc_prepare_def split: prod.split)

text \<open>The clock of a wait passes its deadline while there is fuel.\<close>

definition clock_passes :: "(nat \<Rightarrow> int) \<Rightarrow> int \<Rightarrow> nat \<Rightarrow> bool" where
  "clock_passes Now dl n \<longleftrightarrow> (\<exists>m < n. dl \<le> Now m)"

lemma halts_poll:
  assumes "clock_passes Now dl n" and "\<And>st. decide st \<noteq> Some (Inl StillRunning)"
  shows "halts (poll_until n Now dl ask decide 0)"
proof -
  obtain m where "m < n" "\<not> Now m < dl" using assms(1) by (auto simp: clock_passes_def)
  with poll_until_returns [of Now m dl decide 0 n] assms(2) show ?thesis by (simp add: halts_def)
qed

text \<open>
  The phone demo ends: when each of its three waits, the ten minutes for the sign-in, the fifteen
  for the signature and the twenty for the executor, has fuel until its clock passes the deadline,
  the run comes to an exit code or an exception, whatever the services answer.
\<close>

theorem phone_demo_ends:
  assumes "clock_passes (wt_now (de_signInWait D)) (wt_start (de_signInWait D) + 600000) (wt_fuel (de_signInWait D))"
    and "clock_passes (wt_now (de_signWait D)) (wt_start (de_signWait D) + 900000) (wt_fuel (de_signWait D))"
    and "clock_passes (ea_now (de_executor D)) (ea_start (de_executor D) + 1200000) (ea_fuel (de_executor D))"
  shows "\<exists>e. snd (demo_xaman D s) = Inl e \<and> e \<noteq> StillRunning"
proof -
  have "halts (phone_identify D x)" for x
    using assms(1) decisions_end
    by (auto simp: phone_identify_def await_signin_def intro!: halts_intros halts_poll)
  moreover have "halts (phone_pay D x address req)" for x address req
    using assms(2) decisions_end
    by (auto simp: phone_pay_def await_signature_def intro!: halts_intros halts_poll)
  moreover have "halts (await_job (de_parse D) (de_executor D) t)" for t
    using assms(3) status_decision_go by (auto simp: await_job_def intro!: halts_poll)
  ultimately have "halts (demo_xaman D)"
    by (auto simp: demo_xaman_def phone_prepare_def phone_result_def split: prod.split intro!: halts_intros)
  moreover have "snd (phone_result D req n s1) \<noteq> Inr u" for req n s1 u
    by (auto simp: phone_result_def sc_bind_def sc_stop_def split: sum.split prod.split)
  then have "snd (demo_xaman D s) \<noteq> Inr u" for u
    by (auto simp: demo_xaman_def sc_bind_def split: sum.split prod.split)
  ultimately show ?thesis unfolding halts_def by (metis sum.exhaust)
qed

subsection \<open>Runs for the witnesses\<close>

definition demo_parser :: json_parser where
  "demo_parser t = (case json_parse demo_platform t of Inr v \<Rightarrow> Inr v | Inl _ \<Rightarrow> Inl (JsError ''Unexpected token''))"

lemma demo_parses_back: "parses_back demo_platform demo_parser"
  using json_docD [OF demo_platform_docs(2)] by (auto simp: parses_back_def demo_parser_def)

text \<open>The service of the earlier witnesses, behind HTTP, with a clock that moves by a minute a round.\<close>

definition api_handler_env :: handler_env where
  "api_handler_env = demo_handler_env\<lparr>he_parse := demo_parser\<rparr>"

definition demo_api :: executor_api where
  "demo_api = \<lparr>ea_register = (\<lambda>t. Inr (reply_of demo_platform
       (snd (handle demo_service_options api_handler_env (register_post t) demo_service)))),
     ea_status = (\<lambda>i t. Inl (JsError ''fetch failed'')), ea_fuel = 25, ea_now = (\<lambda>i. int i * 60000), ea_start = 0\<rparr>"

lemma demo_served: "served_by demo_platform demo_service_options api_handler_env demo_service demo_api"
  by (simp add: served_by_def demo_api_def)

text \<open>The service accepts the registration of every request that was prepared.\<close>

lemma demo_api_accepts:
  assumes "snd (prepare demo_viem R c params) = Inr req" and "personalAccount req \<noteq> []"
  shows "\<exists>res. register_with demo_platform demo_api req = Inr res \<and> http_ok res"
proof -
  note k = prepared_commitment(1,2) [OF demo_viem_docs(1,3,4) assms(1)]
  have "userOpData req \<noteq> []" "userOpHash req \<noteq> []"
    using k(1) keccak256_docD(1) [OF demo_viem_docs(3) k(1)]
    by (auto simp: demo_viem_def demo_keccak_def hex_string_def js_startsWith_def)
  moreover have e: "he_parse api_handler_env = demo_parser" "he_write api_handler_env = Written"
    "so_viem demo_service_options = demo_viem"
    by (simp_all add: api_handler_env_def demo_handler_env_def demo_service_options_def)
  moreover have "body_object demo_parser (json_stringify demo_platform (registration_body req)) ''userOpData'' =
      Inr (registration_body req)"
    using demo_parses_back by (auto simp: parses_back_def body_object_def readBody_def registration_body_def)
  ultimately show ?thesis
    using k assms(2)
    by (simp add: register_with_def demo_api_def handle_def handle_routes_def register_post_def route_register_def
        registration_body_fields store_register_def ps_register_def claims_other_def Let_def case_prod_beta)
qed

subsubsection \<open>\<open>demo-deposit\<close>\<close>

definition deposit_demo :: deposit_env where
  "deposit_demo = \<lparr>dd_dryRun = False, dd_seed = Some ''sEd'', dd_fromSeed = (\<lambda>seed. Inr (''rUser'', gate_wallet)),
     dd_viem = demo_viem, dd_chain = demo_chain, dd_encode = (\<lambda>f args. Inr ''0xdd''),
     dd_platform = demo_platform, dd_parse = gate_parse, dd_vaultBefore = (\<lambda>pa. Inr 0),
     dd_balance = (\<lambda>pa. Inr 30000000), dd_vaultAfter = (\<lambda>pa. Inr 25000000),
     dd_executor = demo_api, dd_payNet = gate_net\<rparr>"

lemma deposit_demo_fields [simp]:
  "dd_dryRun deposit_demo = False" "dd_seed deposit_demo = Some ''sEd''"
  "dd_fromSeed deposit_demo seed = Inr (''rUser'', gate_wallet)" "dd_viem deposit_demo = demo_viem"
  "dd_chain deposit_demo = demo_chain" "dd_encode deposit_demo f args = Inr ''0xdd''"
  "dd_platform deposit_demo = demo_platform" "dd_vaultBefore deposit_demo pa = Inr 0"
  "dd_balance deposit_demo pa = Inr 30000000" "dd_executor deposit_demo = demo_api"
  by (simp_all add: deposit_demo_def)

text \<open>The account of a request prepared on the demo chain.\<close>

lemma demo_prepared_account:
  assumes "snd (prepare demo_viem demo_chain c params) = Inr req"
  shows "personalAccount req = ''0xpa'' @ p_xrplAddress params"
  using assms by (rule prepare_InrE) (simp add: demo_reads)

lemma deposit_demo_posts: "ss_posted (fst (demo_deposit deposit_demo gate_session)) \<noteq> []"
proof -
  let ?calls = "[\<lparr>target = DEPLOYED_MockFXRP, val = 0, data = ''0xdd''\<rparr>,
    \<lparr>target = DEPLOYED_MockVault, val = 0, data = ''0xdd''\<rparr>]"
  obtain req where r: "snd (prepare demo_viem demo_chain demo_client (deposit_params ''rUser'' ?calls DEMO_LABEL)) = Inr req"
    using demo_deposit_prepared by blast
  have c: "deposit_calls (dd_encode deposit_demo) DEMO_DEPOSIT = Inr ?calls"
    by (simp add: deposit_calls_def deposit_demo_def)
  have "ss_client gate_session = demo_client" by (simp add: gate_session_def)
  with r c have pre: "\<exists>s1. deposit_prepare deposit_demo gate_session = (s1, Inr (''rUser'', gate_wallet, req, 0))"
    by (simp add: deposit_prepare_def sc_ends DEMO_DEPOSIT_def)
  then obtain s1 where s1: "deposit_prepare deposit_demo gate_session = (s1, Inr (''rUser'', gate_wallet, req, 0))" by blast
  obtain res where "register_with demo_platform demo_api req = Inr res" "http_ok res"
    using demo_api_accepts [OF r] demo_prepared_account [OF r] by auto
  then have s2: "deposit_register deposit_demo req s1 = (s1, Inr ())"
    by (simp add: deposit_register_def sc_bind_def sc_await_def)
  obtain s' q where run: "demo_deposit deposit_demo gate_session = (s', q)" by (rule prod.exhaust)
  have "sc_bind (sc_submit (dd_payNet deposit_demo) (dd_parse deposit_demo) (payment_input ''rUser'' req) gate_wallet)
      (\<lambda>submitted. sc_bind (sc_exit_if (\<not> succeeded submitted) 1) (\<lambda>_.
        sc_bind (await_job (dd_parse deposit_demo) (dd_executor deposit_demo) (sp_hash submitted)) (\<lambda>_.
        deposit_result deposit_demo req 0))) s1 = (s', q)"
    using run s1 s2 by (simp add: demo_deposit_def sc_bind_def [of "deposit_prepare deposit_demo"]
      sc_bind_def [of "deposit_register deposit_demo req"])
  from deposit_pay_posts [OF this] run submitPayment_posts show ?thesis by simp
qed

lemma deposit_pays_for_held_witness:
  "\<exists>s' r req w. demo_deposit deposit_demo gate_session = (s', r) \<and>
    ss_posted s' = fst (submitPayment gate_net gate_parse (payment_input ''rUser'' req) w None) \<and>
    snd (ps_get (userOpHash req) (sv_store (fst (handle demo_service_options api_handler_env
      (register_post (json_stringify demo_platform (registration_body req))) demo_service)))) =
      Some (pending_record 7 (userOpHash req) (registration_of req))"
proof -
  obtain s' r where run: "demo_deposit deposit_demo gate_session = (s', r)" by (rule prod.exhaust)
  have n: "he_now api_handler_env = 7" "he_parse api_handler_env = demo_parser" "so_viem demo_service_options = demo_viem"
    "dd_payNet deposit_demo = gate_net" "dd_parse deposit_demo = gate_parse" "ss_posted gate_session = []"
    by (simp_all add: api_handler_env_def demo_handler_env_def demo_service_options_def deposit_demo_def gate_session_def)
  have "ss_posted s' \<noteq> ss_posted gate_session" using deposit_demo_posts run n by simp
  moreover note deposit_pays_for_held [of deposit_demo demo_service_options api_handler_env demo_service gate_session s' r]
  ultimately show ?thesis
    using run demo_viem_docs(1,3,4) demo_parses_back demo_served by (auto simp: n)
qed

subsubsection \<open>\<open>demo-xaman\<close>\<close>

text \<open>The account is given, the user signs in the second round, and the executor never answers again.\<close>

definition phone_demo :: phone_env where
  "phone_demo = \<lparr>de_account = Some ''rUser'',
     de_xaman = \<lparr>env_XAMAN_API_KEY = Some ''key'', env_XAMAN_API_SECRET = Some ''secret''\<rparr>,
     de_parse = phone_parse, de_signInNet = phone_net 0 0, de_signInWait = (phone_wait 0)\<lparr>wt_fuel := 201\<rparr>,
     de_viem = demo_viem, de_chain = demo_chain, de_encode = (\<lambda>f args. Inr ''0xdd''),
     de_platform = demo_platform, de_before = (\<lambda>pa. Inr 0), de_executor = demo_api,
     de_signNet = phone_net 0 0, de_signWait = (phone_wait (Suc 0))\<lparr>wt_fuel := 301\<rparr>, de_after = (\<lambda>pa. Inr 10000000)\<rparr>"

lemma phone_demo_fields [simp]:
  "de_account phone_demo = Some ''rUser''" "de_parse phone_demo = phone_parse" "de_viem phone_demo = demo_viem"
  "de_chain phone_demo = demo_chain" "de_encode phone_demo f args = Inr ''0xdd''"
  "de_platform phone_demo = demo_platform" "de_before phone_demo pa = Inr 0" "de_executor phone_demo = demo_api"
  "de_signNet phone_demo = phone_net 0 0" "de_after phone_demo pa = Inr 10000000"
  by (simp_all add: phone_demo_def)

lemma phone_demo_ends_witness:
  "\<exists>e. snd (demo_xaman phone_demo phone_session) = Inl e \<and> e \<noteq> StillRunning"
proof (rule phone_demo_ends)
  have "clock_passes (\<lambda>i. int i * 3000) 600000 201" unfolding clock_passes_def by (intro exI [of _ 200]) simp
  then show "clock_passes (wt_now (de_signInWait phone_demo)) (wt_start (de_signInWait phone_demo) + 600000)
      (wt_fuel (de_signInWait phone_demo))"
    by (simp add: phone_demo_def phone_wait_def)
  have "clock_passes (\<lambda>i. int i * 3000) 900000 301" unfolding clock_passes_def by (intro exI [of _ 300]) simp
  then show "clock_passes (wt_now (de_signWait phone_demo)) (wt_start (de_signWait phone_demo) + 900000)
      (wt_fuel (de_signWait phone_demo))"
    by (simp add: phone_demo_def phone_wait_def)
  have "clock_passes (\<lambda>i. int i * 60000) 1200000 25" unfolding clock_passes_def by (intro exI [of _ 20]) simp
  then show "clock_passes (ea_now (de_executor phone_demo)) (ea_start (de_executor phone_demo) + 1200000)
      (ea_fuel (de_executor phone_demo))"
    by (simp add: demo_api_def)
qed

lemma poll_until_idle:
  assumes "\<And>k. \<exists>st. ask k = Inr st \<and> decide st = None" and "\<not> Now m < dl"
  shows "i \<le> m \<Longrightarrow> m < i + n \<Longrightarrow> poll_until n Now dl ask decide i s = (s, Inr None)"
proof (induction n arbitrary: i)
  case (Suc n)
  obtain st where st: "ask i = Inr st" "decide st = None" using assms(1) by blast
  show ?case
  proof (cases "Now i < dl")
    case True
    with assms(2) Suc.prems have "Suc i \<le> m" "m < Suc i + n" by (auto simp: Suc_le_eq le_eq_less_or_eq)
    with Suc.IH True st show ?thesis by (simp add: sc_bind_def sc_await_def)
  qed (simp add: sc_return_def)
qed simp

lemma demo_api_silent: "await_job phone_parse demo_api t s = (s, Inr None)"
  unfolding await_job_def
  by (rule poll_until_idle [of _ _ _ 20]) (simp_all add: demo_api_def status_decision_def)

lemma phone_demo_runs: "\<exists>s'. demo_xaman phone_demo phone_session = (s', Inl (Exit 0))"
proof -
  let ?calls = "[\<lparr>target = DEPLOYED_MockFXRP, val = 0, data = ''0xdd''\<rparr>,
    \<lparr>target = DEPLOYED_MockVault, val = 0, data = ''0xdd''\<rparr>]"
  obtain req where r: "snd (prepare demo_viem demo_chain demo_client (deposit_params ''rUser'' ?calls WEB_LABEL)) = Inr req"
    using demo_deposit_prepared by blast
  have c: "deposit_calls (de_encode phone_demo) WEB_DEPOSIT = Inr ?calls"
    by (simp add: deposit_calls_def phone_demo_def)
  obtain res where "register_with demo_platform demo_api req = Inr res" "http_ok res"
    using demo_api_accepts [OF r] demo_prepared_account [OF r] by auto
  with r c have "\<exists>s1. phone_prepare phone_demo ''rUser'' phone_session = (s1, Inr (req, 0))"
    by (simp add: phone_prepare_def sc_ends phone_session_def)
  then obtain s1 where s1: "phone_prepare phone_demo ''rUser'' phone_session = (s1, Inr (req, 0))" by blast
  obtain x where x: "new_XamanClient (de_xaman phone_demo) None None None = Inr x"
    by (simp add: phone_demo_def new_XamanClient_def)
  have w: "snd (await_signature phone_parse x (de_signWait phone_demo) 900000 sign s1) = Inr (replicate 64 (CHR ''B''))" for sign
  proof -
    let ?N = "de_signWait phone_demo"
    have N: "wt_fuel ?N = 301" "wt_now ?N = (\<lambda>i. int i * 3000)" "wt_start ?N = 0" "wt_net ?N = phone_net (Suc 0)"
      by (simp_all add: phone_demo_def phone_wait_def)
    obtain st0 where st0: "getSignRequest (phone_net (Suc 0) 0) phone_parse x (sign_uuid sign) = Inr st0"
      "signature_decision st0 = None" using phone_status [of "Suc 0" 0] by auto
    obtain st1 where st1: "getSignRequest (phone_net (Suc 0) (Suc 0)) phone_parse x (sign_uuid sign) = Inr st1"
      "signature_decision st1 = Some (Inr (replicate 64 (CHR ''B'')))" using phone_status [of "Suc 0" "Suc 0"] by auto
    have "\<exists>k. 0 \<le> k \<and> k < 0 + 301 \<and> reaches (\<lambda>i. int i * 3000) (0 + 900000)
          (\<lambda>i. getSignRequest (phone_net (Suc 0) i) phone_parse x (sign_uuid sign)) signature_decision 0 k \<and>
        int k * 3000 < 0 + 900000 \<and>
        (\<exists>st. getSignRequest (phone_net (Suc 0) k) phone_parse x (sign_uuid sign) = Inr st \<and>
          signature_decision st = Some (Inr (replicate 64 (CHR ''B''))))"
      using st0 st1 by (intro exI [of _ "Suc 0"]) (simp add: reaches_def)
    then have "snd (poll_until 301 (\<lambda>i. int i * 3000) (0 + 900000)
        (\<lambda>i. getSignRequest (phone_net (Suc 0) i) phone_parse x (sign_uuid sign)) signature_decision 0 s1) =
        Inr (Some (replicate 64 (CHR ''B'')))" unfolding poll_until_answer .
    then show ?thesis unfolding await_signature_value N by simp
  qed
  have "phone_pay phone_demo x ''rUser'' req s1 =
      (fst (phone_pay phone_demo x ''rUser'' req s1), Inr (replicate 64 (CHR ''B'')))"
    by (intro prod_eqI)
      (simp_all add: phone_pay_def sc_bind_def sc_await_def phone_request shown_link_def w)
  then obtain s2 where s2: "phone_pay phone_demo x ''rUser'' req s1 = (s2, Inr (replicate 64 (CHR ''B'')))" by blast
  have "demo_xaman phone_demo phone_session = phone_result phone_demo req 0 s2"
    using x s1 s2
    by (simp add: demo_xaman_def phone_identify_def sc_return_def sc_bind_def sc_await_def demo_api_silent)
  then show ?thesis by (simp add: phone_result_def sc_bind_def sc_await_def sc_stop_def)
qed

lemma phone_demo_success_witness:
  "\<exists>s' req. demo_xaman phone_demo phone_session = (s', Inl (Exit 0)) \<and> ss_posted s' = [] \<and>
    snd (ps_get (userOpHash req) (sv_store (fst (handle demo_service_options api_handler_env
      (register_post (json_stringify demo_platform (registration_body req))) demo_service)))) =
      Some (pending_record 7 (userOpHash req) (registration_of req))"
proof -
  obtain s' where run: "demo_xaman phone_demo phone_session = (s', Inl (Exit 0))"
    using phone_demo_runs by blast
  have n: "he_now api_handler_env = 7" "he_parse api_handler_env = demo_parser" "so_viem demo_service_options = demo_viem"
    "ss_posted phone_session = []"
    by (simp_all add: api_handler_env_def demo_handler_env_def demo_service_options_def phone_session_def)
  show ?thesis
    using phone_demo_success [of phone_demo demo_service_options api_handler_env demo_service phone_session s' "Inl (Exit 0)"]
      run demo_viem_docs(1,3,4) demo_parses_back demo_served by (auto simp: n)
qed

end
