(* ===== verification/Relay.thy ===== *)
theory Relay
  imports Service Scripts
begin

text \<open>
  The service over time: ticks one after the other, each with an environment of its own. A job that is
  live advances by one step in every tick, whatever the poll and the other jobs of the tick do; so a
  payment that was found is delivered once its own servers answer.
\<close>

subsection \<open>Ticks in a row\<close>

text \<open>What the timer of \<open>start\<close> calls, when each tick ends before the next begins: the transactions of each.\<close>

fun ticks :: "service_options \<Rightarrow> tick_env list \<Rightarrow> service \<Rightarrow> service \<times> tx_request list list" where
  "ticks Opt [] s = (s, [])"
| "ticks Opt (E # Es) s = (let (s1, es) = tick Opt E s; (s2, ess) = ticks Opt Es s1 in (s2, es # ess))"

lemma intake_keeps_live: "map_of (sv_live s) i = Some j \<Longrightarrow> map_of (sv_live (fst (intake E ps s))) i = Some j"
proof (induction ps arbitrary: s)
  case (Cons p ps)
  have "map_of (sv_live (fst (intake E [p] s))) i = Some j"
  proof (rule intake_one_cases [of E p s])
    fix r j'
    assume "xrplTxId p \<notin> fst ` set (sv_live s)"
      and "sv_live (fst (intake E [p] s)) = AList.update (xrplTxId p) j' (sv_live s)"
    moreover from this(1) have "i \<noteq> xrplTxId p" using map_of_SomeD [OF Cons.prems] by force
    ultimately show ?thesis using Cons.prems by (simp add: update_conv')
  qed (simp add: Cons.prems)
  with Cons.IH show ?case by (subst intake_Cons) (auto split: prod.split sum.split)
qed simp

lemma watch_keeps_live: "map_of (sv_live s) i = Some j \<Longrightarrow> map_of (sv_live (fst (watch Opt E s))) i = Some j"
  by (auto simp: watch_def Let_def case_prod_beta split: sum.split intro!: intake_keeps_live)

text \<open>The part of one job in the second loop.\<close>

lemma drive_part:
  assumes "distinct (map fst js)" and "(i, j) \<in> set js"
  shows "\<exists>c d x es r pre post. step (so_pipeline Opt) (te_step E i) \<lparr>ex_fdc = c, ex_disk = d, ex_job = j\<rparr> = (x, es, r) \<and>
    snd (drive Opt E js s) = pre @ es @ post \<and>
    map_of (sv_live (fst (drive Opt E js s))) i =
      (if is_ok r \<and> terminal (j_state (ex_job x)) then None else Some (ex_job x))"
  using assms
proof (induction js arbitrary: s)
  case (Cons p js)
  obtain i' j' where p: "p = (i', j')" by force
  let ?s1 = "fst (drive_one Opt E i' j' s)"
  have d: "drive Opt E (p # js) s = (fst (drive Opt E js ?s1), snd (drive_one Opt E i' j' s) @ snd (drive Opt E js ?s1))"
    by (simp add: p case_prod_beta Let_def)
  show ?case
  proof (cases "i' = i")
    case True
    with Cons.prems p have j: "j' = j" and i: "i \<notin> fst ` set js" and dist: "distinct (map fst js)"
      by (auto simp: image_iff)
    obtain x es r where st: "step (so_pipeline Opt) (te_step E i)
        \<lparr>ex_fdc = sv_fdc s, ex_disk = sv_jobs s, ex_job = j\<rparr> = (x, es, r)"
      and e: "snd (drive_one Opt E i j s) = es"
      and l: "sv_live (fst (drive_one Opt E i j s)) = (if is_ok r \<and> terminal (j_state (ex_job x))
          then AList.delete i (AList.update i (ex_job x) (sv_live s)) else AList.update i (ex_job x) (sv_live s))"
      using drive_one_live [OF refl, where Opt = Opt and E = E and i = i and j = j and s = s] by blast
    have "map_of (sv_live (fst (drive Opt E js ?s1))) i = map_of (sv_live ?s1) i"
      using drive_stepped [OF dist] i by blast
    with st e l show ?thesis
      unfolding d True j by (intro exI conjI) (assumption, auto simp: update_conv' delete_conv')
  next
    case False
    with Cons.prems p have "(i, j) \<in> set js" "distinct (map fst js)" by auto
    from Cons.IH [OF this(2,1), of ?s1] obtain c dd x es r pre post where
      "step (so_pipeline Opt) (te_step E i) \<lparr>ex_fdc = c, ex_disk = dd, ex_job = j\<rparr> = (x, es, r)"
      "snd (drive Opt E js ?s1) = pre @ es @ post"
      "map_of (sv_live (fst (drive Opt E js ?s1))) i =
        (if is_ok r \<and> terminal (j_state (ex_job x)) then None else Some (ex_job x))" by blast
    then show ?thesis
      unfolding d by (intro exI [of _ c] exI [of _ dd] exI [of _ x] exI [of _ es] exI [of _ r]
          exI [of _ "snd (drive_one Opt E i' j' s) @ pre"] exI [of _ post]) simp
  qed
qed simp

text \<open>A live job advances in a tick as in one step of its own.\<close>

lemma tick_part:
  assumes "distinct (map fst (sv_live s))" and "map_of (sv_live (fst (watch Opt E s))) i = Some j"
  obtains c d x es r where
    "step (so_pipeline Opt) (te_step E i) \<lparr>ex_fdc = c, ex_disk = d, ex_job = j\<rparr> = (x, es, r)"
    "set es \<subseteq> set (snd (tick Opt E s))"
    "map_of (sv_live (fst (tick Opt E s))) i = (if is_ok r \<and> terminal (j_state (ex_job x)) then None else Some (ex_job x))"
proof -
  let ?s1 = "fst (watch Opt E s)"
  have "distinct (map fst (sv_live ?s1))" using assms(1) by (rule watch_live_keys)
  from drive_part [OF this map_of_SomeD [OF assms(2)], of Opt E ?s1] show thesis
    by (auto simp: tick_def Let_def intro: that)
qed

text \<open>Where the job \<open>j\<close> is after \<open>n\<close> steps that went well, and what the step from there sends.\<close>

definition along :: "job \<Rightarrow> js_str \<Rightarrow> int \<Rightarrow> nat \<Rightarrow> job \<Rightarrow> bool" where
  "along j req rd n k \<longleftrightarrow> job_identity k = job_identity j \<and> (n = 0 \<longrightarrow> k = j) \<and>
    j_state k = [observed, request_prepared, request_submitted, round_finalized, proof_fetched, executed] ! n \<and>
    (0 < n \<longrightarrow> j_abiEncodedRequest k = Some req) \<and> (1 < n \<longrightarrow> j_roundId k = Some rd)"

definition emits :: "pipeline_options \<Rightarrow> job \<Rightarrow> js_str \<Rightarrow> xrp_payment_proof \<Rightarrow> bigint \<Rightarrow> nat \<Rightarrow> tx_request list \<Rightarrow> bool" where
  "emits P j req pf v n es \<longleftrightarrow>
    (n = 1 \<longrightarrow> (\<exists>hub fee. RequestAttestation hub (Some req) fee \<in> set es)) \<and>
    (n = 4 \<longrightarrow> ExecuteDirectMinting (pl_assetManager P) pf (j_userOpData j) v \<in> set es)"

lemma emits_mono: "emits P j req pf v n es \<Longrightarrow> set es \<subseteq> set es' \<Longrightarrow> emits P j req pf v n es'"
  by (auto simp: emits_def)

lemma smooth_advance:
  fixes x :: executor
  assumes "smooth P E j req rd pf v hash rc" and "along j req rd n (ex_job x)" and "n < 5"
  shows "\<exists>x' es. step P E x = (x', es, Inr ()) \<and> emits P j req pf v n es \<and> along j req rd (Suc n) (ex_job x')"
proof -
  note st = smooth_steps [OF assms(1)]
  have k: "job_identity (ex_job x) = job_identity j" using assms(2) by (simp add: along_def)
  have same: "job_identity (j'\<lparr>j_abiEncodedRequest := a, j_state := q\<rparr>) = job_identity j'"
    "job_identity (j'\<lparr>j_roundId := b, j_state := q\<rparr>) = job_identity j'" "job_identity (j'\<lparr>j_state := q\<rparr>) = job_identity j'"
    "job_identity (j'\<lparr>j_flareTxHash := c, j_state := q\<rparr>) = job_identity j'" for j' :: job and a b c q
    by (simp_all add: job_identity_def)
  from assms(3) consider "n = 0" | "n = 1" | "n = 2" | "n = 3" | "n = 4" by linarith
  then show ?thesis
  proof cases
    case 1
    with st(1) [of x] assms(2) k show ?thesis by (auto simp: along_def emits_def same)
  next
    case 2
    with st(2) [OF refl, of x] assms(2) k show ?thesis by (fastforce simp: along_def emits_def same)
  next
    case 3
    with st(3) [OF refl, of x] assms(2) k show ?thesis by (auto simp: along_def emits_def same)
  next
    case 4
    with st(4) [OF refl, of x] assms(2) k show ?thesis by (auto simp: along_def emits_def same)
  next
    case 5
    with st(5) [OF refl, of x] assms(2) k show ?thesis by (auto simp: along_def emits_def same)
  qed
qed

lemma ticks_advance:
  assumes "distinct (map fst (sv_live s))" and "map_of (sv_live (fst (watch Opt E s))) i = Some k"
    and "along j req rd n k" and "n + length (E # Es) = 5"
    and "\<And>F. F \<in> set (E # Es) \<Longrightarrow> smooth (so_pipeline Opt) (te_step F i) j req rd pf v hash rc"
  shows "\<exists>s' ess. ticks Opt (E # Es) s = (s', ess) \<and> length ess = length (E # Es) \<and>
    (\<forall>m < length ess. emits (so_pipeline Opt) j req pf v (n + m) (ess ! m)) \<and> map_of (sv_live s') i = None"
  using assms
proof (induction Es arbitrary: E s n k)
  case Nil
  have n: "n = 4" using Nil.prems(4) by simp
  obtain c d x es r where
    st: "step (so_pipeline Opt) (te_step E i) \<lparr>ex_fdc = c, ex_disk = d, ex_job = k\<rparr> = (x, es, r)"
    and t: "set es \<subseteq> set (snd (tick Opt E s))"
    "map_of (sv_live (fst (tick Opt E s))) i = (if is_ok r \<and> terminal (j_state (ex_job x)) then None else Some (ex_job x))"
    using Nil.prems(1,2) by (rule tick_part)
  have "r = Inr () \<and> emits (so_pipeline Opt) j req pf v n es \<and> along j req rd (Suc n) (ex_job x)"
    using smooth_advance [of "so_pipeline Opt" "te_step E i" j req rd pf v hash rc n "\<lparr>ex_fdc = c, ex_disk = d, ex_job = k\<rparr>"]
      Nil.prems(3,5) n st by simp
  with t emits_mono n show ?case
    by (auto simp: case_prod_beta along_def terminal_def)
next
  case (Cons E' Es)
  obtain c d x es r where
    st: "step (so_pipeline Opt) (te_step E i) \<lparr>ex_fdc = c, ex_disk = d, ex_job = k\<rparr> = (x, es, r)"
    and t: "set es \<subseteq> set (snd (tick Opt E s))"
    "map_of (sv_live (fst (tick Opt E s))) i = (if is_ok r \<and> terminal (j_state (ex_job x)) then None else Some (ex_job x))"
    using Cons.prems(1,2) by (rule tick_part)
  have n: "n < 4" using Cons.prems(4) by simp
  have a: "r = Inr ()" "emits (so_pipeline Opt) j req pf v n es" "along j req rd (Suc n) (ex_job x)"
    using smooth_advance [of "so_pipeline Opt" "te_step E i" j req rd pf v hash rc n "\<lparr>ex_fdc = c, ex_disk = d, ex_job = k\<rparr>"]
      Cons.prems(3,5) n st by simp_all
  from n consider "n = 0" | "n = 1" | "n = 2" | "n = 3" by linarith
  then have "\<not> terminal (j_state (ex_job x))"
    using a(3) by cases (auto simp: along_def terminal_def)
  with t(2) have l: "map_of (sv_live (fst (watch Opt E' (fst (tick Opt E s))))) i = Some (ex_job x)"
    by (intro watch_keeps_live) simp
  obtain s' ess where "ticks Opt (E' # Es) (fst (tick Opt E s)) = (s', ess)" "length ess = length (E' # Es)"
    "\<forall>m < length ess. emits (so_pipeline Opt) j req pf v (Suc n + m) (ess ! m)" "map_of (sv_live s') i = None"
    using Cons.IH [OF tick_live_keys [OF Cons.prems(1)] l a(3)] Cons.prems(4,5) by auto
  moreover have "emits (so_pipeline Opt) j req pf v n (snd (tick Opt E s))" using a(2) t(1) by (rule emits_mono)
  ultimately show ?case
    by (intro exI [of _ s'] exI [of _ "snd (tick Opt E s) # ess"])
      (auto simp: case_prod_beta nth_Cons split: nat.split)
qed

text \<open>What the other payments of a poll leave alone: the file of a job, the answers of the store, and its place in the map.\<close>

lemma normalized_form: "normalizeXrplTxId h = Inr t \<Longrightarrow> \<exists>u. t = ''0x'' @ u"
  by (auto simp: normalizeXrplTxId_def Let_def split: if_splits)

lemma create_from_other:
  assumes "normalizeXrplTxId i = Inr t" and "normalizeXrplTxId (xrplTxId p) \<noteq> Inr t"
  shows "job_load (js_slice_from 2 t) (fst (create_from E p r d)) = job_load (js_slice_from 2 t) d"
proof (cases "normalizeXrplTxId (xrplTxId p)")
  case (Inr t')
  then have "job_file (js_slice_from 2 t) \<noteq> job_file (js_slice_from 2 t')"
    using assms normalized_form [OF assms(1)] normalized_form [OF Inr] by (auto simp: job_file_def js_slice_from_def)
  moreover have "j_id (new_job now t' c) = js_slice_from 2 t'" for now c by (simp add: new_job_def)
  ultimately show ?thesis
    using Inr by (auto simp: create_from_def job_create_def job_save_def job_load_def Let_def case_prod_beta read_json_write
        split: sum.split option.split)
qed (auto simp: create_from_def job_create_def split: sum.split)

definition another :: "js_str \<Rightarrow> js_str \<Rightarrow> observed_payment \<Rightarrow> bool" where
  "another i t q \<longleftrightarrow> xrplTxId q \<noteq> i \<and> normalizeXrplTxId (xrplTxId q) \<noteq> Inr t \<and> canonical_commitment (ob_commitment q)"

lemma intake_others:
  assumes "normalizeXrplTxId i = Inr t" and "list_all (another i t) ps"
  shows "job_load (js_slice_from 2 t) (sv_jobs (fst (intake E ps s))) = job_load (js_slice_from 2 t) (sv_jobs s) \<and>
    ps.same_answers (sv_store s) (sv_store (fst (intake E ps s))) \<and>
    map_of (sv_live (fst (intake E ps s))) i = map_of (sv_live s) i"
  using assms(2)
proof (induction ps arbitrary: s)
  case (Cons p ps)
  then have a: "xrplTxId p \<noteq> i" "normalizeXrplTxId (xrplTxId p) \<noteq> Inr t" "canonical_commitment (ob_commitment p)"
    by (simp_all add: another_def)
  from Cons.prems have ps: "list_all (another i t) ps" by simp
  have one: "job_load (js_slice_from 2 t) (sv_jobs (fst (intake E [p] s))) = job_load (js_slice_from 2 t) (sv_jobs s) \<and>
    ps.same_answers (sv_store s) (sv_store (fst (intake E [p] s))) \<and>
    map_of (sv_live (fst (intake E [p] s))) i = map_of (sv_live s) i"
    using a(1) create_from_other [OF assms(1) a(2)] ps.same_answers_lookup [OF a(3) ps.same_answers_refl] ps.same_answers_refl
    by (simp add: intake.simps(2) case_prod_beta Let_def update_conv' split: option.split sum.split)
  show ?case
  proof (cases "snd (intake E [p] s)")
    case (Inl e)
    with one show ?thesis by (subst (1 2 3) intake_Cons) (simp add: case_prod_beta)
  next
    case (Inr u)
    have "fst (intake E (p # ps) s) = fst (intake E ps (fst (intake E [p] s)))"
      using Inr by (subst intake_Cons) (simp add: case_prod_beta)
    with one Cons.IH [OF ps, of "fst (intake E [p] s)"] show ?thesis by (simp add: ps.same_answers_def)
  qed
qed (simp add: ps.same_answers_refl)

text \<open>A tick whose first loop ends without an error creates the job of every payment of its poll.\<close>

lemma watch_creates:
  assumes "poll (te_rpc E) (so_coreVaultAddress Opt) POLL_LIMIT (sv_watcher s) (sv_store s) = (w, st, Inr found)"
    and "p \<in> set found" and "snd (watch Opt E s) = Inr ()"
    and "\<forall>q \<in> set found. q \<noteq> p \<longrightarrow> normalizeXrplTxId (xrplTxId q) \<noteq> Inr txId"
    and "snd (ps_get (ob_commitment p) (sv_store s)) = Some r" and "xrplTxId p \<notin> fst ` set (sv_live s)"
    and "normalizeXrplTxId (xrplTxId p) = Inr txId" and "job_load (js_slice_from 2 txId) (sv_jobs s) = None"
    and "js_BigInt (po_totalCallValue r) = Inr v" and "js_BigInt (po_nonce r) = Inr n"
  shows "map_of (sv_live (fst (watch Opt E s))) (xrplTxId p) = Some (new_job (te_createNow E) txId
    \<lparr>cp_xrplTxId = xrplTxId p, cp_userOpData = po_userOpData r, cp_totalCallValue = v,
     cp_personalAccount = po_personalAccount r, cp_nonce = n\<rparr>)"
proof -
  note f = poll_found_Inr [OF assms(1)]
  obtain ps qs where split: "found = ps @ p # qs" using split_list [OF assms(2)] by blast
  have dist: "distinct (map xrplTxId found)" unfolding f(3) using poll_loop_fresh by blast
  have canon: "canonical_commitment (ob_commitment q)" if "q \<in> set found" for q
    using that poll_loop_sound commitmentFromMemos_canonical unfolding f(3)
    by (fastforce simp: reportable_def observe_def)
  let ?s0 = "s\<lparr>sv_watcher := w, sv_store := st\<rparr>"
  let ?s1 = "fst (intake E ps ?s0)"
  have "watch Opt E s = intake E (ps @ p # qs) ?s0" by (simp add: watch_def assms(1) split)
  then have w: "watch Opt E s = intake E (p # qs) ?s1" and ok: "snd (intake E (p # qs) ?s1) = Inr ()"
    using assms(3) unfolding intake_append by (auto simp: case_prod_beta split: sum.splits)
  have "another (xrplTxId p) txId q" if "q \<in> set ps" for q
  proof -
    have "xrplTxId q \<noteq> xrplTxId p" using dist that by (simp add: split) (metis imageI)
    moreover from this have "q \<noteq> p" by auto
    ultimately show ?thesis using that assms(4) canon [of q] by (simp add: another_def split)
  qed
  then have "list_all (another (xrplTxId p) txId) ps" by (simp add: list_all_iff)
  from intake_others [OF assms(7) this, of E ?s0]
  have s1: "job_load (js_slice_from 2 txId) (sv_jobs ?s1) = None" "ps.same_answers st (sv_store ?s1)"
    "map_of (sv_live ?s1) (xrplTxId p) = None"
    using assms(6,8) by (simp_all add: map_of_eq_None_iff)
  have "ps.same_answers (sv_store s) st" unfolding f(2) by (rule poll_loop_store(1))
  with s1(2) have "snd (ps_get (ob_commitment p) (sv_store ?s1)) = Some r"
    using ps.same_answersD canon [OF assms(2)] assms(5) by metis
  moreover have "xrplTxId p \<notin> fst ` set (sv_live ?s1)" using s1(3) by (simp add: map_of_eq_None_iff)
  moreover obtain d c where c: "create_from E p r (sv_jobs ?s1) = (d, c)" by force
  ultimately have i: "intake E (p # qs) ?s1 = (case c of
      Inl e \<Rightarrow> (?s1\<lparr>sv_store := fst (ps_get (ob_commitment p) (sv_store ?s1)), sv_jobs := d\<rparr>, Inl e)
    | Inr j \<Rightarrow> intake E qs (?s1\<lparr>sv_store := fst (ps_get (ob_commitment p) (sv_store ?s1)), sv_jobs := d,
        sv_live := AList.update (xrplTxId p) j (sv_live ?s1)\<rparr>))"
    by (simp add: intake.simps(2) case_prod_beta Let_def split: sum.split)
  with ok obtain j where j: "c = Inr j" by (cases c) auto
  have "job_create (te_createNow E) (te_createWrite E (xrplTxId p)) \<lparr>cp_xrplTxId = xrplTxId p,
      cp_userOpData = po_userOpData r, cp_totalCallValue = v, cp_personalAccount = po_personalAccount r, cp_nonce = n\<rparr>
      (sv_jobs ?s1) = (d, Inr j)"
    using c j assms(9,10) by (simp add: create_from_def)
  then have "j = new_job (te_createNow E) txId \<lparr>cp_xrplTxId = xrplTxId p, cp_userOpData = po_userOpData r,
      cp_totalCallValue = v, cp_personalAccount = po_personalAccount r, cp_nonce = n\<rparr>"
    by (rule job_create_Inr) (use assms(7) s1(1) in simp)
  then show ?thesis
    unfolding w i j by (simp add: intake_keeps_live update_conv')
qed

text \<open>
  The service delivers: when a poll finds a payment whose registration it holds, the payments of that poll
  are taken in without an error, and in five ticks the servers answer for that payment's job, the
  attestation of the payment is requested in the second tick and the minting sent in the fifth, with the
  registered operation and value, and the job is no longer live. Nothing is asked of the other jobs, of
  the other payments but that their ids are others, of the later polls and of the disk between the steps.
\<close>

theorem service_delivers:
  assumes "distinct (map fst (sv_live s))"
    and "poll (te_rpc E1) (so_coreVaultAddress Opt) POLL_LIMIT (sv_watcher s) (sv_store s) = (w, st, Inr found)"
    and "p \<in> set found" and "snd (watch Opt E1 s) = Inr ()"
    and "\<forall>q \<in> set found. q \<noteq> p \<longrightarrow> normalizeXrplTxId (xrplTxId q) \<noteq> Inr txId"
    and "snd (ps_get (ob_commitment p) (sv_store s)) = Some r" and "xrplTxId p \<notin> fst ` set (sv_live s)"
    and "normalizeXrplTxId (xrplTxId p) = Inr txId" and "job_load (js_slice_from 2 txId) (sv_jobs s) = None"
    and "js_BigInt (po_totalCallValue r) = Inr v" and "js_BigInt (po_nonce r) = Inr n"
    and "j = new_job (te_createNow E1) txId \<lparr>cp_xrplTxId = xrplTxId p, cp_userOpData = po_userOpData r,
      cp_totalCallValue = v, cp_personalAccount = po_personalAccount r, cp_nonce = n\<rparr>"
    and "list_all (\<lambda>E. smooth (so_pipeline Opt) (te_step E (xrplTxId p)) j req rd pf v hash rc) [E1, E2, E3, E4, E5]"
  shows "\<exists>s' es1 es2 es3 es4 es5 hub fee. ticks Opt [E1, E2, E3, E4, E5] s = (s', [es1, es2, es3, es4, es5]) \<and>
    RequestAttestation hub (Some req) fee \<in> set es2 \<and>
    ExecuteDirectMinting (pl_assetManager (so_pipeline Opt)) pf (po_userOpData r) v \<in> set es5 \<and>
    xrplTxId p \<notin> fst ` set (sv_live s')"
proof -
  let ?i = "xrplTxId p" and ?P = "so_pipeline Opt"
  have live: "map_of (sv_live (fst (watch Opt E1 s))) ?i = Some j"
    unfolding assms(12) by (rule watch_creates) (rule assms(2-11))+
  have j: "along j req rd 0 j" "j_userOpData j = po_userOpData r" by (simp_all add: assms(12) new_job_def along_def)
  have "smooth ?P (te_step F ?i) j req rd pf v hash rc" if "F \<in> set [E1, E2, E3, E4, E5]" for F
    using assms(13) that by (auto simp: list_all_iff)
  from ticks_advance [OF assms(1) live j(1), of "[E2, E3, E4, E5]", OF _ this] obtain s' ess where
    t: "ticks Opt [E1, E2, E3, E4, E5] s = (s', ess)" "length ess = 5" "map_of (sv_live s') ?i = None"
    and e: "\<And>m. m < 5 \<Longrightarrow> emits ?P j req pf v m (ess ! m)"
    by (auto simp del: ticks.simps)
  obtain es1 es2 es3 es4 es5 where ess: "ess = [es1, es2, es3, es4, es5]"
    using t(2) by (auto simp: length_Suc_conv eval_nat_numeral)
  have "emits ?P j req pf v 1 es2" "emits ?P j req pf v 4 es5" using e [of 1] e [of 4] by (simp_all add: ess)
  then show ?thesis
    using t(1,3) j(2) by (auto simp: ess emits_def map_of_eq_None_iff simp del: ticks.simps)
qed

text \<open>The payment of the watcher's witnesses, with a hash of full length.\<close>

definition relay_entry :: account_tx_entry where
  "relay_entry = demo_entry_tx\<lparr>e_hash := Some (replicate 64 (CHR ''A''))\<rparr>"

definition relay_env :: tick_env where
  "relay_env = demo_tick_env\<lparr>te_rpc := (\<lambda>q. Inr (Some [relay_entry]))\<rparr>"

lemma relay_reportable: "reportable demo_store relay_entry (replicate 64 (CHR ''A'')) demo_commitment"
proof -
  have same: "entry_tx relay_entry = entry_tx demo_entry_tx" by (simp add: relay_entry_def entry_tx_def)
  from demo_commitment_from_memos demo_store_get show ?thesis
    by (simp add: reportable_def considered_def is_payment_def same)
      (simp add: relay_entry_def demo_entry_tx_def entry_tx_def nullish_def entry_hash_def)
qed

lemma watch_one_ok:
  assumes "poll (te_rpc E) (so_coreVaultAddress Opt) POLL_LIMIT (sv_watcher s) (sv_store s) = (w, st, Inr [p])"
    and "snd (ps_get (ob_commitment p) st) = Some r" and "snd (create_from E p r (sv_jobs s)) = Inr j"
  shows "snd (watch Opt E s) = Inr ()"
  using assms by (simp add: watch_def intake.simps(2) case_prod_beta Let_def)

lemma service_delivers_witness:
  "\<exists>s' es1 es2 es3 es4 es5. ticks demo_service_options [relay_env, relay_env, relay_env, relay_env, relay_env] demo_service =
      (s', [es1, es2, es3, es4, es5]) \<and>
    ExecuteDirectMinting ''0xmanager'' demo_proof ''0xab'' 0 \<in> set es5"
proof -
  let ?h = "replicate 64 (CHR ''A'')"
  let ?p = "observe ?h demo_commitment relay_entry (the (entry_tx relay_entry))"
  let ?r = "pending_record 7 demo_commitment demo_entry"
  have sv: "sv_store demo_service = demo_store" "sv_watcher demo_service = new_Watcher" "sv_live demo_service = []"
    "sv_jobs demo_service = []" by (simp_all add: demo_service_def new_ExecutorService_def)
  have "snd (snd (poll_entry relay_entry new_Watcher demo_store)) = Some ?p"
    unfolding poll_entry_found using relay_reportable by (auto simp: new_Watcher_def)
  then obtain w st where p: "poll (te_rpc relay_env) (so_coreVaultAddress demo_service_options) POLL_LIMIT
      (sv_watcher demo_service) (sv_store demo_service) = (w, st, Inr [?p])"
    by (simp add: poll_def relay_env_def sv case_prod_beta Let_def)
  have "ps.same_answers demo_store st"
    using poll_found_Inr(2) [OF p] poll_loop_store(1) by (simp add: sv)
  then have g: "snd (ps_get (ob_commitment ?p) st) = Some ?r" "snd (ps_get (ob_commitment ?p) demo_store) = Some ?r"
    using ps.same_answersD [OF _ demo_commitment_canonical] demo_store_get by (simp_all add: observe_def)
  have i: "xrplTxId ?p = ?h" by (simp add: observe_def)
  have e: "te_step relay_env j = demo_env" "te_createWrite relay_env j = Written" for j
    by (simp_all add: relay_env_def demo_tick_env_def demo_env_def)
  let ?j = "new_job (te_createNow relay_env) (''0x'' @ ?h) \<lparr>cp_xrplTxId = xrplTxId ?p, cp_userOpData = po_userOpData ?r,
    cp_totalCallValue = 0, cp_personalAccount = po_personalAccount ?r, cp_nonce = 4\<rparr>"
  have "js_BigInt (j_totalCallValue ?j) = Inr 0" by (simp add: new_job_def)
  then have sm: "list_all (\<lambda>E. smooth (so_pipeline demo_service_options) (te_step E (xrplTxId ?p)) ?j ''0x5265'' 10
      demo_proof 0 ''0xhash'' demo_receipt) [relay_env, relay_env, relay_env, relay_env, relay_env]"
    by (simp add: e demo_smooth_any)
  have r: "js_BigInt (po_totalCallValue ?r) = Inr 0" "js_BigInt (po_nonce ?r) = Inr 4" "po_userOpData ?r = ''0xab''"
    by (simp_all add: pending_record_def demo_entry_def demo_BigInt)
  have P: "pl_assetManager (so_pipeline demo_service_options) = ''0xmanager''" by (simp add: demo_service_options_def)
  have n: "normalizeXrplTxId (xrplTxId ?p) = Inr (''0x'' @ ?h)" unfolding i by (rule demo_normalize_bare)
  have "snd (create_from relay_env ?p ?r (sv_jobs demo_service)) = Inr ?j"
    unfolding create_from_def r sum.case
    using n by (simp add: job_create_def job_save_def e sv job_load_def read_json_def new_job_def Let_def)
  with p g(1) have ok: "snd (watch demo_service_options relay_env demo_service) = Inr ()" by (rule watch_one_ok)
  show ?thesis
    using service_delivers [OF _ p _ ok _ _ _ n _ r(1,2) refl sm] g(2)
    by (auto simp: sv r P job_load_def read_json_def demo_entry_def simp del: ticks.simps)
qed

subsection \<open>What a failed minting leaves behind\<close>

text \<open>
  (C37) \<open>GET /status\<close> hands out the text of the last error as it is: when the wallet refuses a minting
  transaction, whatever the message says is in the answer, and viem's message lists the arguments of the
  call, of which the user operation is one.
\<close>

theorem status_quotes_errors:
  assumes "j_state j = proof_fetched" and "se_write (te_step E i) = Written"
    and "act_value (fetchProof (se_world (te_step E i)) (j_abiEncodedRequest j) (j_roundId j)) (sv_fdc s) = Inr pf"
    and "js_BigInt (j_totalCallValue j) = Inr v"
    and "w_writeContract (se_world (te_step E i))
      (ExecuteDirectMinting (pl_assetManager (so_pipeline Opt)) pf (j_userOpData j) v) = Inl (JsError m)"
    and "\<not> isAlreadyConfirmed (JsError m)"
    and "hr_method q = ''GET''" and "hr_path q = ''/status''"
    and "map_of (hr_query q) ''tx'' = Some k" and "k \<noteq> []" and "js_toUpperCase (strip_0x k) = j_id j"
  shows "\<exists>body. snd (handle Opt H q (fst (drive_one Opt E i j s))) = RJson 200 body \<and>
    json_get body ''lastError'' = Some (JStr m)"
proof -
  let ?x = "\<lparr>ex_fdc = sv_fdc s, ex_disk = sv_jobs s, ex_job = j\<rparr>"
  obtain x es r where st: "step (so_pipeline Opt) (te_step E i) ?x = (x, es, r)" by (rule prod_cases3)
  have "act_value (try_step (so_pipeline Opt) (te_step E i) proof_fetched) ?x = Inl (JsError m)"
    "ex_job (fst (try_step (so_pipeline Opt) (te_step E i) proof_fetched ?x)) = j"
    using assms(3-5) by (simp_all add: execute_minting_def act_simps)
  then have j: "ex_job x = stamp (te_step E i) (catch_step (se_world (te_step E i)) (JsError m) j)"
    using step_error [of "so_pipeline Opt" "te_step E i" ?x] assms(1) st by (simp del: try_step.simps)
  then have "j_lastError (ex_job x) = Some m" "j_attempts (ex_job x) = Suc (j_attempts j)"
    using assms(6) by (simp_all add: catch_step_def Let_def)
  moreover have "j_id (ex_job x) = j_id j"
    using job_step_identity [OF step_refines [OF st]] by (simp add: job_identity_def)
  moreover from this have "job_load (j_id j) (ex_disk x) = Some (ex_job x)"
    using step_saves [OF st] assms(2) calculation by (auto simp: job_load_def read_json_write)
  moreover have "sv_jobs (fst (drive_one Opt E i j s)) = ex_disk x"
    using st by (simp add: drive_one_def Let_def split: sum.split)
  ultimately show ?thesis
    using assms(7-11) by (simp add: handle_def handle_routes_def route_status_def status_json_def opt_field_def split: option.split)
qed

text \<open>A wallet that refuses with the arguments of the call, and a job on the point of being minted.\<close>

definition refusing_env :: tick_env where
  "refusing_env = demo_tick_env\<lparr>te_step := (\<lambda>i. demo_env\<lparr>se_world := demo_world
     \<lparr>w_writeContract := (\<lambda>t. Inl (JsError ''args: 0xab''))\<rparr>\<rparr>)\<rparr>"

definition status_request :: request where
  "status_request = \<lparr>hr_method = ''GET'', hr_path = ''/status'', hr_query = [(''tx'', replicate 64 (CHR ''A''))], hr_body = []\<rparr>"

lemma status_quotes_errors_witness:
  "\<exists>body. snd (handle demo_service_options demo_handler_env status_request
      (fst (drive_one demo_service_options refusing_env ''x'' (ex_job ready_executor) demo_service))) = RJson 200 body \<and>
    json_get body ''lastError'' = Some (JStr ''args: 0xab'') \<and> j_userOpData (ex_job ready_executor) = ''0xab''"
proof -
  let ?j = "ex_job ready_executor"
  have j: "j_state ?j = proof_fetched" "js_BigInt (j_totalCallValue ?j) = Inr 5" "j_userOpData ?j = ''0xab''"
    "j_id ?j = replicate 64 (CHR ''A'')" "j_abiEncodedRequest ?j = Some ''0x5265''" "j_roundId ?j = Some 10"
    by (simp_all add: ready_executor_def) (simp add: demo_job_def new_job_def demo_txid_def)
  have e: "\<not> isAlreadyConfirmed (JsError ''args: 0xab'')" by code_simp
  have k: "js_toUpperCase (strip_0x (replicate 64 (CHR ''A''))) = replicate 64 (CHR ''A'')" by code_simp
  have p: "act_value (fetchProof (se_world (te_step refusing_env ''x'')) (j_abiEncodedRequest ?j) (j_roundId ?j)) (sv_fdc demo_service) = Inr demo_proof"
    unfolding j by (simp add: refusing_env_def fetchProof_value demo_proof_def classify_da_layer_def demo_response_def read_text_def not_text_def demo_world_def demo_service_def)
  show ?thesis
    using status_quotes_errors [OF j(1) _ p j(2), where m = "''args: 0xab''" and q = status_request and H = demo_handler_env
        and Opt = demo_service_options and k = "replicate 64 (CHR ''A'')"] e k j(3,4)
    by (simp add: refusing_env_def status_request_def)
qed

end
