(* ===== verification/Checks.thy ===== *)
theory Checks
  imports Web Gate Signing
begin

text \<open>
  The probes of \<open>scripts/\<close>: \<open>verify-prepare.ts\<close>, \<open>verify-fdc.ts\<close> and \<open>verify-xaman.ts\<close>, which spend
  nothing, and \<open>seed-mock-fxrp.ts\<close>, which mints test tokens. What is printed is not modelled; what a
  probe concludes is its exit code, and the theorems say what can be concluded from it.
\<close>

subsection \<open>\<open>verify-prepare.ts\<close>\<close>

definition PROBE_ACCOUNT :: js_str where
  "PROBE_ACCOUNT = ''rHfJXzJFt1d1r9VAQdVokWZYtm5hq7P56o''"

text \<open>\<open>vp_chain n\<close> is the chain as the \<open>n\<close>-th call of the client finds it.\<close>

record prepare_probe =
  vp_arg :: "js_str option"
  vp_viem :: viem
  vp_incrementData :: "js_error + js_str"
  vp_chain :: "nat \<Rightarrow> flare_chain"

definition probe_params :: "js_str \<Rightarrow> js_str \<Rightarrow> prepare_params" where
  "probe_params address increment =
    \<lparr>p_xrplAddress = address,
     p_calls = [\<lparr>target = ''0x0000000000000000000000000000000000000001'', val = 0, data = increment\<rparr>],
     p_label = ''Increment the Gate 1 counter'', p_netMintUBA = 10000000, p_feeUBA = None,
     p_walletId = None\<rparr>"

fun decoded_fee :: "decoded_memo \<Rightarrow> bigint" where
  "decoded_fee (DecExecuteInline _ f _) = f"
| "decoded_fee (DecExecuteCommitted _ f _) = f"
| "decoded_fee (DecIgnoreMemo _ f _) = f"
| "decoded_fee (DecSetNonce _ f _) = f"
| "decoded_fee (DecReplacementFee _ f _ _) = f"
| "decoded_fee (DecSetExecutor _ f _) = f"
| "decoded_fee (DecRemoveExecutor _ f) = f"

text \<open>The first 38 digits of the bytes, looked for in the memo. An index past the end is \<open>undefined\<close>.\<close>

definition shows_calldata :: "prepared_request \<Rightarrow> bool" where
  "shows_calldata req = js_includes (js_toLowerCase (js_slice 2 40 (userOpData req)))
     (js_toLowerCase (MemoData (xrplPayment req)))"

definition first_operator :: "js_str list \<Rightarrow> js_str option" where
  "first_operator ops = (case ops of [] \<Rightarrow> None | a # _ \<Rightarrow> Some a)"

definition probe_checks ::
    "prepared_request \<Rightarrow> bytes \<Rightarrow> decoded_memo \<Rightarrow> js_str \<Rightarrow> js_str list \<Rightarrow> bigint \<Rightarrow> bool list" where
  "probe_checks req memo decoded coreVault operators amount =
    [json_get (payment_object (xrplPayment req)) ''DestinationTag'' = None,
     length memo = 42,
     decoded_opcode decoded = EXECUTE_COMMITTED,
     commits_to decoded (userOpHash req),
     decoded_fee decoded = 0,
     Destination (xrplPayment req) = coreVault,
     Some (Destination (xrplPayment req)) \<noteq> first_operator operators,
     amount = netMintUBA (payment req) + mintingFeeUBA (payment req) + pay_executorFeeUBA (payment req),
     \<not> shows_calldata req,
     sender (userOp req) = personalAccount req,
     nonce (userOp req) = pr_nonce req]"

definition verify_prepare :: "prepare_probe \<Rightarrow> unit script" where
  "verify_prepare E =
    (let address = or_else (vp_arg E) PROBE_ACCOUNT in
    sc_bind (sc_client (masterAccountController (vp_chain E 0))) (\<lambda>mac.
    sc_bind (sc_await (vp_incrementData E)) (\<lambda>increment.
    sc_bind (sc_prepare (vp_viem E) (vp_chain E 1) (probe_params address increment)) (\<lambda>req.
    sc_bind (sc_memo (fromXrplMemoHex (vp_viem E) (MemoData (xrplPayment req)))) (\<lambda>memo.
    sc_bind (sc_memo (decodeMemo memo)) (\<lambda>decoded.
    sc_bind (sc_client (\<lambda>c. directMintingPaymentAddress (vp_chain E 2) c None)) (\<lambda>coreVault.
    sc_bind (sc_client (getOperatorXrplAddresses (vp_chain E 3))) (\<lambda>operators.
    sc_bind (sc_await (js_BigInt (Amount (xrplPayment req)))) (\<lambda>amount.
    sc_stop (Exit (if bad_checks (probe_checks req memo decoded coreVault operators amount) = 0
      then 0 else 1)))))))))))"

lemma verify_prepare_quiet: "quiet (verify_prepare E)"
  by (auto simp: verify_prepare_def Let_def intro!: quiet_intros)

text \<open>The checks of a request the library prepared: only two of them depend on anything.\<close>

lemma probe_passes:
  assumes "isHex_doc V" and "keccak256_doc V" and "encodeAbiParameters_doc V"
    and "snd (prepare V R c (probe_params address increment)) = Inr req"
  shows "\<exists>memo d amount. fromXrplMemoHex V (MemoData (xrplPayment req)) = Inr memo \<and>
    decodeMemo memo = Inr d \<and> js_BigInt (Amount (xrplPayment req)) = Inr amount \<and>
    (bad_checks (probe_checks req memo d (Destination (xrplPayment req)) ops amount) = 0 \<longleftrightarrow>
      first_operator ops \<noteq> Some (Destination (xrplPayment req)) \<and> \<not> shows_calldata req)"
proof -
  let ?q = "probe_params address increment"
  note m = prepared_memo [OF assms]
  obtain w where d: "decodeMemo (buffer_from_hex (MemoData (xrplPayment req))) =
      Inr (DecExecuteCommitted w (executorFeeUBA (params_header ?q)) (userOpHash req))"
    using m(1) by blast
  obtain dest fees executor u memo where
    req: "req = prepared_of V ?q (personalAccount req) dest fees (pr_nonce req) executor u memo"
    using assms(4) by (rule prepare_InrE)
  have a: "js_BigInt (Amount (xrplPayment req)) = Inr (netMintUBA (payment req)
      + mintingFeeUBA (payment req) + pay_executorFeeUBA (payment req))"
    by (subst (1 2 3 4) req) (simp add: computePaymentAmount_total)
  have f: "executorFeeUBA (params_header ?q) = 0" by (simp add: params_header_def probe_params_def)
  have "bad_checks (probe_checks req (buffer_from_hex (MemoData (xrplPayment req))) (DecExecuteCommitted w 0 (userOpHash req))
      (Destination (xrplPayment req)) ops (netMintUBA (payment req) + mintingFeeUBA (payment req)
        + pay_executorFeeUBA (payment req))) = 0 \<longleftrightarrow>
      first_operator ops \<noteq> Some (Destination (xrplPayment req)) \<and> \<not> shows_calldata req"
    using m(2-4) by (auto simp: bad_checks_def probe_checks_def commits_to_def payment_object_def)
  from m(6) d [unfolded f] a this show ?thesis
    by - ((rule exI)+, (rule conjI, assumption)+, assumption)
qed

text \<open>
  What the probe of \<open>prepare\<close> tests: run against one state of the chain it posts and sends
  nothing, and of its eleven checks nine hold for every request the library prepares; it ends with
  code 0 exactly when the Core Vault is not the first operator wallet of the proof flow and the first
  38 digits of the user operation do not occur in the memo.
\<close>

theorem verify_prepare_exact:
  assumes "isHex_doc (vp_viem E)" and "keccak256_doc (vp_viem E)" and "encodeAbiParameters_doc (vp_viem E)"
    and "vp_chain E = (\<lambda>n. R)" and "vp_incrementData E = Inr increment"
    and "resolved_mac R (ss_client s) = Inr mac" and "rpc_getXrplProviderWallets R mac = Inr ops"
    and "snd (prepare (vp_viem E) R (ss_client s) (probe_params (or_else (vp_arg E) PROBE_ACCOUNT) increment)) = Inr req"
  shows "\<exists>s'. verify_prepare E s = (s', Inl (Exit (if first_operator ops \<noteq> Some (Destination (xrplPayment req)) \<and>
      \<not> shows_calldata req then 0 else 1))) \<and>
    ss_posted s' = ss_posted s \<and> ss_sent s' = ss_sent s"
proof -
  let ?V = "vp_viem E" and ?q = "probe_params (or_else (vp_arg E) PROBE_ACCOUNT) increment"
  let ?c1 = "fst (masterAccountController R (ss_client s))"
  let ?c2 = "fst (prepare ?V R ?c1 ?q)"
  let ?c3 = "fst (directMintingPaymentAddress R ?c2 None)"
  have r1: "resolved_mac R ?c1 = Inr mac" "resolved_am R ?c1 = resolved_am R (ss_client s)"
    using assms(6) by (simp_all add: masterAccountController_facts)
  have p: "snd (prepare ?V R ?c1 ?q) = Inr req"
    using assms(8) by (simp only: prepare_eq r1 assms(6))
  obtain memo d amount where m: "fromXrplMemoHex ?V (MemoData (xrplPayment req)) = Inr memo" "decodeMemo memo = Inr d"
    "js_BigInt (Amount (xrplPayment req)) = Inr amount"
    "bad_checks (probe_checks req memo d (Destination (xrplPayment req)) ops amount) = 0 \<longleftrightarrow>
      first_operator ops \<noteq> Some (Destination (xrplPayment req)) \<and> \<not> shows_calldata req"
    using probe_passes [OF assms(1-3) p, of ops] by (elim exE conjE)
  obtain am where am: "resolved_am R (ss_client s) = Inr am"
    "rpc_directMintingPaymentAddress R am = Inr (Destination (xrplPayment req))"
  proof (rule prepare_InrE [OF p])
    fix mac am dest fees executor u memo
    assume "resolved_am R ?c1 = Inr am" and "rpc_directMintingPaymentAddress R am = Inr dest"
      and req: "req = prepared_of ?V ?q (personalAccount req) dest fees (pr_nonce req) executor u memo"
    moreover have "Destination (xrplPayment req) = dest" by (subst req) simp
    ultimately show thesis using that r1(2) by simp
  qed
  have c2: "resolved_mac R ?c2 = Inr mac" "resolved_am R ?c2 = Inr am"
    using r1 am(1) by (simp_all add: prepare_state)
  have v: "snd (directMintingPaymentAddress R ?c2 None) = Inr (Destination (xrplPayment req))"
    and c3: "resolved_mac R ?c3 = Inr mac"
    using c2 am(2) by (simp_all add: directMintingPaymentAddress_def case_prod_beta assetManagerFXRP_facts)
  have o: "snd (getOperatorXrplAddresses R ?c3) = Inr ops"
    using c3 assms(7) by (simp add: getOperatorXrplAddresses_def case_prod_beta masterAccountController_facts)
  obtain s' r where run: "verify_prepare E s = (s', r)" by (rule prod.exhaust)
  have "r = Inl (Exit (if bad_checks (probe_checks req memo d (Destination (xrplPayment req)) ops amount) = 0 then 0 else 1))"
    using run assms(5,6) p m(1-3) v o
    by (simp add: verify_prepare_def Let_def assms(4) sc_bind_def sc_client_def sc_await_def sc_memo_def sc_prepare_def
        sc_stop_def case_prod_beta masterAccountController_facts)
  with run m(4) quietD [OF verify_prepare_quiet run] show ?thesis by simp
qed

text \<open>A package whose operations start as the ABI makes them, with a hash in which no zeros stand.\<close>

definition probe_viem :: viem where
  "probe_viem = demo_viem\<lparr>
     keccak256 := (\<lambda>s. if hex_string s then Inr (''0x'' @ replicate 64 (CHR ''a'')) else Inl (JsError ''invalid hex'')),
     encodeAbiParameters := (\<lambda>u. Inr (''0x'' @ replicate 62 (CHR ''0'') @ ''20''))\<rparr>"

lemma probe_viem_docs: "isHex_doc probe_viem" "keccak256_doc probe_viem" "encodeAbiParameters_doc probe_viem"
proof -
  show "isHex_doc probe_viem" by (simp add: isHex_doc_def probe_viem_def demo_viem_def)
  have "hex_string (''0x'' @ replicate 64 (CHR ''a''))"
    "js_toLowerCase (''0x'' @ replicate 64 (CHR ''a'')) = ''0x'' @ replicate 64 (CHR ''a'')" by code_simp+
  then show "keccak256_doc probe_viem" by (simp add: keccak256_doc_def probe_viem_def)
  have "hex_string (''0x'' @ replicate 62 (CHR ''0'') @ ''20'')" by code_simp
  then show "encodeAbiParameters_doc probe_viem" by (simp add: encodeAbiParameters_doc_def probe_viem_def)
qed

definition probe_demo :: prepare_probe where
  "probe_demo = \<lparr>vp_arg = None, vp_viem = probe_viem, vp_incrementData = Inr ''0xd09de08a'', vp_chain = (\<lambda>n. demo_chain)\<rparr>"

lemma probe_prepared:
  "\<exists>req. snd (prepare probe_viem demo_chain demo_client (probe_params address ''0xd09de08a'')) = Inr req \<and>
    Destination (xrplPayment req) = ''rCoreVault'' \<and> \<not> shows_calldata req"
proof -
  let ?q = "probe_params address ''0xd09de08a''"
  have e: "is_ok (encodeFunctionData probe_viem cs)" "is_ok (encodeAbiParameters probe_viem u)" for cs u
    by (simp_all add: probe_viem_def demo_viem_def)
  have h: "p_calls ?q \<noteq> []" "header_ok (params_header ?q)" "params_header ?q = \<lparr>walletId = Some (Finite 0), executorFeeUBA = 0\<rparr>"
    by (simp_all add: probe_params_def header_ok_def header_number_def params_header_def)
  have "is_ok (snd (prepare probe_viem demo_chain demo_client ?q))"
    using h(1,2) prepare_accepts_aux [OF probe_viem_docs demo_resolved demo_reads e] by simp
  then obtain req where r: "snd (prepare probe_viem demo_chain demo_client ?q) = Inr req" by (auto simp: is_ok_iff)
  obtain mac am dest fees executor u memo where
    d: "rpc_directMintingPaymentAddress demo_chain am = Inr dest"
    and u: "prepareUserOp probe_viem (personalAccount req) (pr_nonce req) (p_calls ?q) = Inr u"
    and m: "encodeExecuteCommittedMemo probe_viem (params_header ?q) (pu_userOpHash u) = Inr memo"
    and req: "req = prepared_of probe_viem ?q (personalAccount req) dest fees (pr_nonce req) executor u memo"
    using r by (rule prepare_InrE)
  have f: "Destination (xrplPayment req) = dest" "MemoData (xrplPayment req) = toXrplMemoHex memo"
    "userOpData req = pu_userOpData u"
    by (subst req, simp)+
  have u': "pu_userOpData u = ''0x'' @ replicate 62 (CHR ''0'') @ ''20''" "pu_userOpHash u = ''0x'' @ replicate 64 (CHR ''a'')"
    using u by (auto simp: prepareUserOp_Inr probe_viem_def split: if_splits)
  have "rel_sum (\<lambda>_ _. True) (=) (encodeExecuteCommittedMemo probe_viem \<lparr>walletId = Some (Finite 0), executorFeeUBA = 0\<rparr>
      (''0x'' @ replicate 64 (CHR ''a''))) (Inr ([254, 0, 0, 0, 0, 0, 0, 0, 0, 0] @ replicate 32 170))"
    by code_simp
  with m have memo: "memo = [254, 0, 0, 0, 0, 0, 0, 0, 0, 0] @ replicate 32 170" by (simp add: h u')
  have "\<not> js_includes (js_toLowerCase (js_slice 2 40 (''0x'' @ replicate 62 (CHR ''0'') @ ''20'')))
      (js_toLowerCase (toXrplMemoHex ([254, 0, 0, 0, 0, 0, 0, 0, 0, 0] @ replicate 32 170)))"
    by code_simp
  with r d f u' memo show ?thesis by (auto simp: shows_calldata_def demo_reads)
qed

lemma verify_prepare_exact_witness:
  "\<exists>s'. verify_prepare probe_demo gate_session = (s', Inl (Exit 0)) \<and> ss_sent s' = ss_sent gate_session"
proof -
  obtain req where r: "snd (prepare probe_viem demo_chain demo_client (probe_params PROBE_ACCOUNT ''0xd09de08a'')) = Inr req"
    "Destination (xrplPayment req) = ''rCoreVault''" "\<not> shows_calldata req"
    using probe_prepared by blast
  have s: "vp_viem probe_demo = probe_viem" "vp_chain probe_demo = (\<lambda>n. demo_chain)"
    "vp_incrementData probe_demo = Inr ''0xd09de08a''" "vp_arg probe_demo = None" "ss_client gate_session = demo_client"
    "rpc_getXrplProviderWallets demo_chain mac = Inr [''rOperator'']" for mac
    by (simp_all add: probe_demo_def gate_session_def demo_chain_def)
  show ?thesis
    using verify_prepare_exact [of probe_demo demo_chain "''0xd09de08a''" gate_session _ "[''rOperator'']" req,
        unfolded s or_else.simps, OF probe_viem_docs refl refl demo_resolved(1) refl r(1)] r(2,3)
    by (auto simp: first_operator_def)
qed

text \<open>
  The digits the probe looks for are the same for all operations: the ABI puts the offset 32 before a
  tuple with members of variable length, so the first 62 digits are zeros, and the check says nothing
  about the calls.
\<close>

definition abi_tuple_doc :: "viem \<Rightarrow> bool" where
  "abi_tuple_doc V \<longleftrightarrow> (\<forall>u d. encodeAbiParameters V u = Inr d \<longrightarrow>
    js_startsWith (''0x'' @ replicate 62 (CHR ''0'') @ ''20'') d)"

lemma probe_looks_for_zeros:
  assumes "abi_tuple_doc V" and "snd (prepare V R c params) = Inr req"
  shows "shows_calldata req \<longleftrightarrow>
    js_includes (replicate 38 (CHR ''0'')) (js_toLowerCase (MemoData (xrplPayment req)))"
proof -
  obtain dest fees executor u memo where
    u: "prepareUserOp V (personalAccount req) (pr_nonce req) (p_calls params) = Inr u"
    and req: "req = prepared_of V params (personalAccount req) dest fees (pr_nonce req) executor u memo"
    using assms(2) by (rule prepare_InrE)
  have d: "userOpData req = pu_userOpData u" by (subst req, simp)
  have "js_startsWith (''0x'' @ replicate 62 (CHR ''0'') @ ''20'') (pu_userOpData u)"
    using u assms(1) unfolding prepareUserOp_Inr abi_tuple_doc_def by blast
  then have "take 66 (pu_userOpData u) = ''0x'' @ replicate 62 (CHR ''0'') @ ''20''" by (simp add: js_startsWith_def)
  then have "take 38 (drop 2 (take 66 (pu_userOpData u))) = replicate 38 (CHR ''0'')" by simp
  then have "take 38 (drop 2 (pu_userOpData u)) = replicate 38 (CHR ''0'')" by (simp add: drop_take)
  then show ?thesis by (simp add: shows_calldata_def js_slice_def d)
qed

subsection \<open>\<open>verify-fdc.ts\<close>\<close>

definition fdc_probe_request :: "js_str \<Rightarrow> js_str \<Rightarrow> js_str \<Rightarrow> http_request" where
  "fdc_probe_request attestationType sourceId txId =
    \<lparr>rq_url = VERIFIER_BASE_TESTNET @ ''/verifier/xrp/'' @ ATTESTATION_TYPE_XRP_PAYMENT @ ''/prepareRequest'',
     rq_apiKey = Some VERIFIER_API_KEY_PLACEHOLDER,
     rq_body = JObj [(''attestationType'', JStr attestationType), (''sourceId'', JStr sourceId),
       (''requestBody'', JObj [(''transactionId'', JStr txId), (''proofOwner'', JStr ZERO_ADDRESS)])]\<rparr>"

text \<open>An encoded request that is absent or not text reads as the empty text, which is too short as well.\<close>

definition fdc_probe_ok :: "http_response \<Rightarrow> js_str \<Rightarrow> bool" where
  "fdc_probe_ok res encoded \<longleftrightarrow> http_status res = 200 \<and> length encoded > 2"

definition verify_fdc :: "world \<Rightarrow> js_str option \<Rightarrow> unit script" where
  "verify_fdc W hash =
    sc_bind (sc_exit_if (\<not> given hash) 1) (\<lambda>_.
    sc_bind (sc_await (normalizeXrplTxId (the hash))) (\<lambda>txId.
    sc_bind (sc_await (w_toHex32 W ATTESTATION_TYPE_XRP_PAYMENT)) (\<lambda>attestationType.
    sc_bind (sc_await (w_toHex32 W XRP_SOURCE_ID_TESTNET)) (\<lambda>sourceId.
    sc_bind (sc_await (w_fetch W (fdc_probe_request attestationType sourceId txId))) (\<lambda>res.
    sc_bind (sc_await (w_jsonParse W (http_text res))) (\<lambda>parsed.
    sc_bind (sc_await (read_text parsed ''status'')) (\<lambda>status.
    sc_bind (sc_await (read_text parsed ''abiEncodedRequest'')) (\<lambda>encoded.
    sc_stop (Exit (if fdc_probe_ok res encoded then 0 else 1))))))))))"

lemma verify_fdc_quiet: "quiet (verify_fdc W hash)"
  by (auto simp: verify_fdc_def intro!: quiet_intros)

text \<open>It is the request of a client of the executor with its defaults, for a proof that anyone may use.\<close>

lemma fdc_probe_same:
  "fdc_probe_request aty src tx = verifier_request (new_FdcClient account None None None None) tx (Some ZERO_ADDRESS) aty src"
  by (simp add: fdc_probe_request_def verifier_request_def new_FdcClient_def strip_slash_def VERIFIER_BASE_TESTNET_def)

text \<open>\<open>fetch\<close>: \<open>ok\<close> is the range 200 to 299 of the status.\<close>

definition fetch_doc :: "world \<Rightarrow> bool" where
  "fetch_doc W \<longleftrightarrow> (\<forall>q res. w_fetch W q = Inr res \<longrightarrow> http_ok res = (200 \<le> http_status res \<and> http_status res < 300))"

text \<open>A status of the verifier is text, when there is one.\<close>

definition status_doc :: "world \<Rightarrow> bool" where
  "status_doc W \<longleftrightarrow> (\<forall>t v. w_jsonParse W t = Inr v \<longrightarrow> \<not> not_text v ''status'')"

text \<open>
  What the probe of the FDC says about the executor: when it ends with code 0, the hash it was
  given is a transaction id, and whatever the account, a client of the executor with its defaults that
  asks the same verifier about that transaction, for a proof anyone may use, is given an encoded
  request of more than the prefix or is told to try again; and the probe has spent nothing.
\<close>

theorem verify_fdc_predicts:
  assumes "fetch_doc W" and "status_doc W" and "snd (verify_fdc W hash s) = Inl (Exit 0)"
  shows "\<exists>h tx. hash = Some h \<and> h \<noteq> [] \<and> normalizeXrplTxId h = Inr tx \<and>
    (\<forall>account. let r = act_value (prepareRequest W tx (Some ZERO_ADDRESS)) (new_FdcClient account None None None None)
      in (\<exists>req. r = Inr req \<and> 2 < length req) \<or> (\<exists>m. r = Inl (VerifierNotReadyError m))) \<and>
    ss_posted (fst (verify_fdc W hash s)) = ss_posted s \<and> ss_sent (fst (verify_fdc W hash s)) = ss_sent s"
proof -
  obtain s' where run: "verify_fdc W hash s = (s', Inl (Exit 0))"
    using assms(3) by (cases "verify_fdc W hash s") simp
  then obtain tx aty src res v st encoded where
    f: "given hash" "normalizeXrplTxId (the hash) = Inr tx" "w_toHex32 W ATTESTATION_TYPE_XRP_PAYMENT = Inr aty"
      "w_toHex32 W XRP_SOURCE_ID_TESTNET = Inr src" "w_fetch W (fdc_probe_request aty src tx) = Inr res"
      "w_jsonParse W (http_text res) = Inr v" "read_text v ''status'' = Inr st"
      "read_text v ''abiEncodedRequest'' = Inr encoded" "fdc_probe_ok res encoded"
    by (auto simp: verify_fdc_def sc_ends split: if_splits)
  have "v \<noteq> JNull" using f(7) by (auto simp: read_text_def)
  then obtain d where d: "read_text v ''errorMessage'' = Inr d" by (simp add: read_text_def)
  have ok: "http_ok res" "2 < length encoded" "encoded \<noteq> []"
    using assms(1) f(5,9) by (auto simp: fetch_doc_def fdc_probe_ok_def)
  have "act_value (prepareRequest W tx (Some ZERO_ADDRESS)) (new_FdcClient account None None None None) =
      (if lag_status st then Inl (verifier_not_ready st d) else Inr encoded)" for account
  proof -
    have src: "fc_sourceId (new_FdcClient account None None None None) = XRP_SOURCE_ID_TESTNET"
      by (simp add: new_FdcClient_def)
    show ?thesis
      using f(3-8) d ok assms(2)
      by (simp add: status_doc_def prepareRequest_value src fdc_probe_same [of _ _ _ account, symmetric] classify_verifier_def lag_status_def)
  qed
  then have "let r = act_value (prepareRequest W tx (Some ZERO_ADDRESS)) (new_FdcClient account None None None None)
      in (\<exists>req. r = Inr req \<and> 2 < length req) \<or> (\<exists>m. r = Inl (VerifierNotReadyError m))" for account
    using ok by (simp add: verifier_not_ready_def)
  moreover obtain h where "hash = Some h" "h \<noteq> []" using f(1) by (cases hash) auto
  ultimately show ?thesis
    using f(2) run quietD [OF verify_fdc_quiet run] by auto
qed

lemma verify_fdc_predicts_witness:
  "\<exists>tx. normalizeXrplTxId (replicate 64 (CHR ''A'')) = Inr tx \<and>
    ss_sent (fst (verify_fdc demo_world (Some (replicate 64 (CHR ''A''))) gate_session)) = ss_sent gate_session"
proof -
  let ?h = "replicate 64 (CHR ''A'')"
  have h: "given (Some ?h)" by simp
  have "snd (verify_fdc demo_world (Some ?h) gate_session) = Inl (Exit 0)"
    using gate_normalized
    by (simp add: verify_fdc_def h sc_bind_def sc_exit_if_def sc_return_def sc_await_def sc_stop_def demo_response_def
        read_text_def fdc_probe_ok_def del: given.simps)
  moreover have "fetch_doc demo_world" "status_doc demo_world"
    by (simp_all add: fetch_doc_def status_doc_def demo_response_def not_text_def)
  ultimately show ?thesis using verify_fdc_predicts [of demo_world "Some ?h" gate_session] by auto
qed

text \<open>
  The status of the answer is printed and not tested: an answer that the executor takes for not ready
  passes the probe.
\<close>

lemma verify_fdc_ignores_status:
  "\<exists>W m. fetch_doc W \<and> snd (verify_fdc W (Some (replicate 64 (CHR ''A''))) gate_session) = Inl (Exit 0) \<and>
    act_value (prepareRequest W (''0x'' @ replicate 64 (CHR ''A'')) (Some ZERO_ADDRESS)) demo_fdc = Inl (VerifierNotReadyError m)"
proof -
  let ?v = "JObj [(''status'', JStr ''INVALID''), (''abiEncodedRequest'', JStr ''0x5265'')]"
  let ?W = "demo_world\<lparr>w_jsonParse := (\<lambda>t. Inr ?v)\<rparr>" and ?h = "replicate 64 (CHR ''A'')"
  have h: "given (Some ?h)" by simp
  have w: "w_toHex32 ?W t = Inr (''0x'' @ t)" "w_fetch ?W q = Inr \<lparr>http_ok = True, http_status = 200, http_text = ''{}''\<rparr>"
    "w_jsonParse ?W t = Inr ?v" for t q
    by (simp_all add: demo_world_def)
  have "snd (verify_fdc ?W (Some ?h) gate_session) = Inl (Exit 0)"
    using gate_normalized
    by (simp add: verify_fdc_def h w sc_bind_def sc_exit_if_def sc_return_def sc_await_def sc_stop_def
        read_text_def fdc_probe_ok_def del: given.simps)
  moreover have "\<exists>m. act_value (prepareRequest ?W (''0x'' @ ?h) (Some ZERO_ADDRESS)) demo_fdc = Inl (VerifierNotReadyError m)"
    by (simp add: prepareRequest_value w classify_verifier_def read_text_def not_text_def verifier_not_ready_def js_startsWith_def)
  moreover have "fetch_doc ?W" by (simp add: fetch_doc_def w)
  ultimately show ?thesis by blast
qed

subsection \<open>\<open>verify-xaman.ts\<close>\<close>

text \<open>\<open>vx_net n\<close> is the wallet service at the \<open>n\<close>-th of the three calls.\<close>

record xaman_probe =
  vx_env :: xaman_env
  vx_net :: "nat \<Rightarrow> xaman_net"
  vx_parse :: json_parser
  vx_seed :: "js_str option"
  vx_fromSeed :: "js_str \<Rightarrow> js_error + js_str"
  vx_viem :: viem
  vx_chain :: flare_chain
  vx_encode :: abi_encoder

definition xaman_probe_calls :: "abi_encoder \<Rightarrow> js_error + call list" where
  "xaman_probe_calls enc = bind_err (enc ''deposit'' [ArgUint 10000000]) (\<lambda>d.
    Inr [\<lparr>target = DEPLOYED_MockVault, val = 0, data = d\<rparr>])"

definition xaman_probe_input :: "js_str \<Rightarrow> prepared_request \<Rightarrow> sign_request_input" where
  "xaman_probe_input address req =
    \<lparr>si_account = Some address, si_destination = Destination (xrplPayment req),
     si_amount = Amount (xrplPayment req), si_memoData = MemoData (xrplPayment req),
     si_instruction = pr_label req, si_identifier = Some (userOpHash req), si_signers = None,
     si_expireMinutes = Some 10\<rparr>"

definition verify_xaman :: "xaman_probe \<Rightarrow> unit script" where
  "verify_xaman X =
    sc_bind (sc_await (new_XamanClient (vx_env X) None None None)) (\<lambda>x.
    sc_bind (sc_await (ping (vx_net X 0) (vx_parse X) x)) (\<lambda>_.
    sc_bind (sc_await (if given (vx_seed X) then Inr (the (vx_seed X))
      else Inl (JsError ''XRPL_SEED not set''))) (\<lambda>seed.
    sc_bind (sc_await (vx_fromSeed X seed)) (\<lambda>address.
    sc_bind (sc_await (xaman_probe_calls (vx_encode X))) (\<lambda>calls.
    sc_bind (sc_prepare (vx_viem X) (vx_chain X) (deposit_params address calls WEB_LABEL)) (\<lambda>req.
    sc_bind (sc_await (createSignRequest (vx_net X 1) (vx_parse X) x (xaman_probe_input address req))) (\<lambda>sign.
    sc_bind (sc_await (getSignRequest (vx_net X 2) (vx_parse X) x (sign_uuid sign))) (\<lambda>_.
    sc_return ()))))))))"

lemma verify_xaman_quiet: "quiet (verify_xaman X)"
  by (auto simp: verify_xaman_def intro!: quiet_intros)

text \<open>
  A probe that comes to its end has asked the wallet for one payment, that of the request the library
  prepared for the account of the seed; it does not name the signers, so the payload does not bind them.
\<close>

lemma verify_xaman_asks:
  assumes "verify_xaman X s = (s', Inr u)"
  obtains x address calls req sg where "new_XamanClient (vx_env X) None None None = Inr x"
    "vx_fromSeed X (the (vx_seed X)) = Inr address" "xaman_probe_calls (vx_encode X) = Inr calls"
    "snd (prepare (vx_viem X) (vx_chain X) (ss_client s) (deposit_params address calls WEB_LABEL)) = Inr req"
    "createSignRequest (vx_net X 1) (vx_parse X) x (xaman_probe_input address req) = Inr sg"
    "payload_field (sign_payload (xaman_probe_input address req)) ''options'' ''signers'' = None"
    "ss_posted s' = ss_posted s" "ss_sent s' = ss_sent s"
proof -
  have n: "payload_field (sign_payload (xaman_probe_input address req)) ''options'' ''signers'' = None" for address req
    by (simp add: payload_field_def sign_payload_def xaman_probe_input_def)
  from assms that [OF _ _ _ _ _ n] quietD [OF verify_xaman_quiet assms] show thesis
    by (auto simp: verify_xaman_def sc_ends split: if_splits)
qed

subsection \<open>\<open>seed-mock-fxrp.ts\<close>\<close>

record mint_tx =
  mt_contract :: js_str
  mt_to :: js_str
  mt_amount :: bigint

record seed_env =
  sd_to :: "js_str option"
  sd_executor :: executor_env
  sd_writeContract :: "mint_tx \<Rightarrow> js_error + js_str"
  sd_waitForReceipt :: "js_str \<Rightarrow> js_error + unit"
  sd_balanceOf :: "js_str \<Rightarrow> js_error + bigint"

text \<open>The transactions it sends, and the balance it prints.\<close>

definition seed_mock_fxrp :: "seed_env \<Rightarrow> mint_tx list \<times> (script_end + bigint)" where
  "seed_mock_fxrp S =
    (if \<not> given (sd_to S) then ([], Inl (Exit 1))
     else case makeClients (sd_executor S) None None of
       Inl e \<Rightarrow> ([], Inl (Threw e))
     | Inr _ \<Rightarrow>
        (let tx = \<lparr>mt_contract = DEPLOYED_MockFXRP, mt_to = the (sd_to S), mt_amount = 1000000000\<rparr>
         in ([tx], lift_err Threw
           (bind_err (sd_writeContract S tx) (\<lambda>hash.
            bind_err (sd_waitForReceipt S hash) (\<lambda>_. sd_balanceOf S (the (sd_to S))))))))"

lemma seed_mints_once: "length (fst (seed_mock_fxrp S)) \<le> 1 \<and>
  (snd (seed_mock_fxrp S) = Inr b \<longrightarrow> (\<exists>tx. fst (seed_mock_fxrp S) = [tx] \<and> Some (mt_to tx) = sd_to S))"
  by (cases "sd_to S") (auto simp: seed_mock_fxrp_def Let_def split: sum.split)

end
