(* ===== verification/TeeNode.thy ===== *)
theory TeeNode
  imports Encoding Platform
begin

text \<open>
  \<open>extension/typescript/src/base/node.ts\<close>: the client of the signing node, and the base64 text of its
  payloads. The node itself is an argument, a function from the request to what \<open>fetch\<close> gives; that a
  request was aborted by the timer is one of its answers.
\<close>

subsection \<open>Base64\<close>

text \<open>\<open>Buffer.from(bytes).toString("base64")\<close>.\<close>

definition b64_digit :: "nat \<Rightarrow> char" where
  "b64_digit n = (if n < 26 then char_of (65 + n) else if n < 52 then char_of (71 + n)
     else if n < 62 then char_of (n - 4) else if n = 62 then CHR ''+'' else CHR ''/'')"

fun base64_encode :: "bytes \<Rightarrow> js_str" where
  "base64_encode [] = []"
| "base64_encode [a] = (let n = unat a * 16 in [b64_digit (n div 64), b64_digit (n mod 64), CHR ''='', CHR ''=''])"
| "base64_encode [a, b] = (let n = (unat a * 256 + unat b) * 4
     in [b64_digit (n div 4096), b64_digit (n div 64 mod 64), b64_digit (n mod 64), CHR ''=''])"
| "base64_encode (a # b # c # r) = (let n = (unat a * 256 + unat b) * 256 + unat c
     in [b64_digit (n div 262144), b64_digit (n div 4096 mod 64), b64_digit (n div 64 mod 64), b64_digit (n mod 64)]
       @ base64_encode r)"

text \<open>
  \<open>Buffer.from(text, "base64")\<close>: reading stops at the first sign of equality, characters outside of the
  alphabet are skipped, the two characters of the alphabet for addresses are read too, and digits too
  few for a byte are dropped.
\<close>

definition b64_val :: "char \<Rightarrow> nat option" where
  "b64_val c = (let n = of_char c :: nat in
     if 65 \<le> n \<and> n \<le> 90 then Some (n - 65)
     else if 97 \<le> n \<and> n \<le> 122 then Some (n - 71)
     else if 48 \<le> n \<and> n \<le> 57 then Some (n + 4)
     else if c = CHR ''+'' \<or> c = CHR ''-'' then Some 62
     else if c = CHR ''/'' \<or> c = CHR ''_'' then Some 63
     else None)"

fun b64_bytes :: "nat list \<Rightarrow> bytes" where
  "b64_bytes (p # q # r # s # t) = (let n = ((p * 64 + q) * 64 + r) * 64 + s
     in [of_nat (n div 65536), of_nat (n div 256 mod 256), of_nat (n mod 256)] @ b64_bytes t)"
| "b64_bytes [p, q, r] = (let n = ((p * 64 + q) * 64 + r) div 4 in [of_nat (n div 256), of_nat (n mod 256)])"
| "b64_bytes [p, q] = [of_nat ((p * 64 + q) div 16)]"
| "b64_bytes _ = []"

definition buffer_from_base64 :: "js_str \<Rightarrow> bytes" where
  "buffer_from_base64 t = b64_bytes (List.map_filter b64_val (takeWhile (\<lambda>c. c \<noteq> CHR ''='') t))"

lemma b64_val_digit [simp]: "n < 64 \<Longrightarrow> b64_val (b64_digit n) = Some n"
  by (auto simp: b64_digit_def b64_val_def Let_def)

lemma b64_digit_no_pad [simp]: "n < 64 \<Longrightarrow> b64_digit n \<noteq> CHR ''=''"
proof
  assume "n < 64" and "b64_digit n = CHR ''=''"
  moreover have "b64_val (CHR ''='') = None" by code_simp
  ultimately show False using b64_val_digit [of n] by simp
qed

text \<open>The digits of a text, in front of what follows them.\<close>

lemma b64_read_digits:
  assumes "list_all (\<lambda>n. n < 64) ns"
  shows "List.map_filter b64_val (takeWhile (\<lambda>c. c \<noteq> CHR ''='') (map b64_digit ns @ t)) =
    ns @ List.map_filter b64_val (takeWhile (\<lambda>c. c \<noteq> CHR ''='') t)"
  using assms by (induction ns) (simp_all add: map_filter_simps)

lemma byte_unat: "unat (b :: byte) < 256"
  using unsigned_less [of b, where 'a = nat] by simp

lemma b64_digits_value:
  fixes n :: nat
  shows "(n div 4096 * 64 + n div 64 mod 64) * 64 + n mod 64 = n"
    and "((n div 262144 * 64 + n div 4096 mod 64) * 64 + n div 64 mod 64) * 64 + n mod 64 = n"
proof -
  have d: "n div 4096 = n div 64 div 64" "n div 262144 = n div 64 div 64 div 64" by (simp_all flip: div_mult2_eq)
  show "(n div 4096 * 64 + n div 64 mod 64) * 64 + n mod 64 = n"
    "((n div 262144 * 64 + n div 4096 mod 64) * 64 + n div 64 mod 64) * 64 + n mod 64 = n"
    unfolding d div_mult_mod_eq by (rule refl)+
qed

lemma byte_digits_value:
  fixes a b c :: nat
  assumes "b < 256" and "c < 256"
  shows "((a * 256 + b) * 256 + c) div 65536 = a" and "((a * 256 + b) * 256 + c) div 256 mod 256 = b"
    and "((a * 256 + b) * 256 + c) mod 256 = c"
proof -
  have d: "n div 65536 = n div 256 div 256" for n :: nat by (simp flip: div_mult2_eq)
  have step: "(m * 256 + r) div 256 = m" "(m * 256 + r) mod 256 = r" if "r < 256" for m r :: nat using that by simp_all
  show "((a * 256 + b) * 256 + c) div 65536 = a" "((a * 256 + b) * 256 + c) div 256 mod 256 = b"
    "((a * 256 + b) * 256 + c) mod 256 = c"
    unfolding d using step [OF assms(1), of a] step [OF assms(2), of "a * 256 + b"] by (simp_all only:)
qed

lemma b64_bounds:
  fixes a b c :: nat
  assumes "a < 256" and "b < 256" and "c < 256"
  shows "((a * 256 + b) * 256 + c) div 262144 < 64" and "(a * 256 + b) * 4 div 4096 < 64"
proof -
  have "a * 256 + b < 65536" using assms by simp
  then have "(a * 256 + b) * 256 + c < 16777216" "(a * 256 + b) * 4 < 262144" using assms by simp_all
  then show "((a * 256 + b) * 256 + c) div 262144 < 64" "(a * 256 + b) * 4 div 4096 < 64"
    by (simp_all add: less_mult_imp_div_less)
qed

lemma b64_group:
  fixes a b c :: byte
  defines "n \<equiv> (unat a * 256 + unat b) * 256 + unat c"
  shows "n div 262144 < 64" and "((n div 262144 * 64 + n div 4096 mod 64) * 64 + n div 64 mod 64) * 64 + n mod 64 = n"
    and "of_nat (n div 65536) = a" and "of_nat (n div 256 mod 256) = b" and "of_nat (n mod 256) = c"
proof -
  note bd = byte_unat [of a] byte_unat [of b] byte_unat [of c]
  show "n div 262144 < 64" unfolding n_def using bd by (rule b64_bounds(1))
  show "((n div 262144 * 64 + n div 4096 mod 64) * 64 + n div 64 mod 64) * 64 + n mod 64 = n" by (rule b64_digits_value(2))
  have "n div 65536 = unat a" "n div 256 mod 256 = unat b" "n mod 256 = unat c"
    unfolding n_def using bd(2,3) by (rule byte_digits_value)+
  then show "of_nat (n div 65536) = a" "of_nat (n div 256 mod 256) = b" "of_nat (n mod 256) = c" by simp_all
qed

lemma base64_roundtrip: "buffer_from_base64 (base64_encode bs) = bs"
proof (induction bs rule: base64_encode.induct)
  case 1
  then show ?case by (simp add: buffer_from_base64_def map_filter_simps)
next
  case (2 a)
  note bd = byte_unat [of a]
  let ?n = "unat a * 16"
  have "base64_encode [a] = map b64_digit [?n div 64, ?n mod 64] @ ''==''" by (simp add: Let_def)
  moreover have "list_all (\<lambda>n. n < 64) [?n div 64, ?n mod 64]" using bd by (simp add: less_mult_imp_div_less)
  ultimately have "buffer_from_base64 (base64_encode [a]) = b64_bytes [?n div 64, ?n mod 64]"
    unfolding buffer_from_base64_def by (simp only: b64_read_digits) (simp add: map_filter_simps)
  moreover have "(?n div 64 * 64 + ?n mod 64) div 16 = unat a" by (simp only: div_mult_mod_eq)
  ultimately show ?case by (simp only: b64_bytes.simps) simp
next
  case (3 a b)
  note bd = byte_unat [of a] byte_unat [of b]
  let ?n = "(unat a * 256 + unat b) * 4"
  let ?ns = "[?n div 4096, ?n div 64 mod 64, ?n mod 64]"
  have "base64_encode [a, b] = map b64_digit ?ns @ ''=''" by (simp add: Let_def)
  moreover have "list_all (\<lambda>n. n < 64) ?ns" using b64_bounds(2) [OF bd(1,2,2)] by simp
  ultimately have r: "buffer_from_base64 (base64_encode [a, b]) = b64_bytes ?ns"
    unfolding buffer_from_base64_def by (simp only: b64_read_digits) (simp add: map_filter_simps)
  have "((?n div 4096 * 64 + ?n div 64 mod 64) * 64 + ?n mod 64) = ?n" by (rule b64_digits_value(1))
  then have "((?n div 4096 * 64 + ?n div 64 mod 64) * 64 + ?n mod 64) div 4 = unat a * 256 + unat b" by simp
  moreover have "(unat a * 256 + unat b) div 256 = unat a" "(unat a * 256 + unat b) mod 256 = unat b" using bd by simp_all
  ultimately show ?case unfolding r by (simp only: b64_bytes.simps Let_def) simp
next
  case (4 a b c r)
  let ?n = "(unat a * 256 + unat b) * 256 + unat c"
  let ?ns = "[?n div 262144, ?n div 4096 mod 64, ?n div 64 mod 64, ?n mod 64]"
  note g = b64_group [where a = a and b = b and c = c]
  have "base64_encode (a # b # c # r) = map b64_digit ?ns @ base64_encode r" by (simp add: Let_def)
  moreover have "list_all (\<lambda>n. n < 64) ?ns" using g(1) by simp
  ultimately have "buffer_from_base64 (base64_encode (a # b # c # r)) =
      b64_bytes (?ns @ List.map_filter b64_val (takeWhile (\<lambda>c. c \<noteq> CHR ''='') (base64_encode r)))"
    unfolding buffer_from_base64_def by (simp only: b64_read_digits)
  also have "\<dots> = [a, b, c] @ buffer_from_base64 (base64_encode r)"
    unfolding append_Cons append_Nil b64_bytes.simps Let_def g(2-5) buffer_from_base64_def ..
  finally show ?case using 4 by (simp add: Let_def)
qed

subsection \<open>The client\<close>

datatype port_arg = PortText js_str | PortNumber js_number

datatype node_failure = NodeAborted | NodeThrew exn

record node_request =
  nq_url :: js_str
  nq_body :: json

text \<open>Reading the body may fail as the request itself may.\<close>

record node_response =
  nr_ok :: bool
  nr_status :: int
  nr_text :: "node_failure + js_str"

type_synonym node_net = "node_request \<Rightarrow> node_failure + node_response"

record node_client =
  nd_signPort :: js_number
  nd_timeoutMs :: js_number

definition DEFAULT_TIMEOUT_MS :: js_number where
  "DEFAULT_TIMEOUT_MS = Finite 30000"

text \<open>\<open>toNumber\<close> is \<open>Number\<close> on text.\<close>

definition new_NodeClient :: "(js_str \<Rightarrow> js_number) \<Rightarrow> port_arg \<Rightarrow> js_number option \<Rightarrow> node_client" where
  "new_NodeClient toNumber port timeoutMs =
    \<lparr>nd_signPort = (case port of PortText t \<Rightarrow> toNumber t | PortNumber n \<Rightarrow> n),
     nd_timeoutMs = (case timeoutMs of None \<Rightarrow> DEFAULT_TIMEOUT_MS | Some m \<Rightarrow> m)\<rparr>"

definition node_baseUrl :: "platform \<Rightarrow> node_client \<Rightarrow> js_str" where
  "node_baseUrl T c = ''http://localhost:'' @ number_toString T (nd_signPort c)"

text \<open>The block of the \<open>try\<close>, then its \<open>catch\<close>.\<close>

definition node_exchange :: "platform \<Rightarrow> node_net \<Rightarrow> node_client \<Rightarrow> js_str \<Rightarrow> json \<Rightarrow> node_failure + json" where
  "node_exchange T net c path payload =
    bind_err (net \<lparr>nq_url = node_baseUrl T c @ path, nq_body = payload\<rparr>) (\<lambda>res.
    bind_err (nr_text res) (\<lambda>text.
    if \<not> nr_ok res
    then Inl (NodeThrew (Error (''node returned '' @ bigint_toString (nr_status res) @ '' for '' @ path @ '': '' @ text)))
    else map_sum NodeThrew id (json_parse T text)))"

definition node_post :: "platform \<Rightarrow> node_net \<Rightarrow> node_client \<Rightarrow> js_str \<Rightarrow> json \<Rightarrow> exn + json" where
  "node_post T net c path payload = (case node_exchange T net c path payload of
     Inl NodeAborted \<Rightarrow> Inl (Error (''node request to '' @ path @ '' timed out after '' @
       number_toString T (nd_timeoutMs c) @ ''ms''))
   | Inl (NodeThrew e) \<Rightarrow> Inl e
   | Inr v \<Rightarrow> Inr v)"

text \<open>
  The cast to a type with a text is not checked when the program runs: what \<open>Buffer.from\<close> makes of any
  other value is the argument \<open>bufferFrom\<close>.
\<close>

definition node_decrypt ::
    "platform \<Rightarrow> (json \<Rightarrow> exn + bytes) \<Rightarrow> node_net \<Rightarrow> node_client \<Rightarrow> bytes \<Rightarrow> exn + bytes" where
  "node_decrypt T bufferFrom net c ciphertext =
    bind_err (node_post T net c ''/decrypt'' (JObj [(''encryptedMessage'', JStr (base64_encode ciphertext))])) (\<lambda>resp.
    if resp = JNull then Inl (TypeError ''Cannot read properties of null (reading 'decryptedMessage')'')
    else case json_get resp ''decryptedMessage'' of
      None \<Rightarrow> Inl (Error ''node response missing decryptedMessage'')
    | Some (JStr encoded) \<Rightarrow> Inr (buffer_from_base64 encoded)
    | Some v \<Rightarrow> bufferFrom v)"

subsection \<open>Properties\<close>

text \<open>
  A node that decrypts: a request whose text stands for a ciphertext it knows is answered with
  the text of the plain bytes, any other with status 400.
\<close>

definition decrypting_node :: "platform \<Rightarrow> (bytes \<Rightarrow> bytes option) \<Rightarrow> node_net" where
  "decrypting_node T D = (\<lambda>q. case json_get (nq_body q) ''encryptedMessage'' of
     Some (JStr t) \<Rightarrow>
       (case D (buffer_from_base64 t) of
          Some m \<Rightarrow> Inr \<lparr>nr_ok = True, nr_status = 200,
            nr_text = Inr (json_stringify T (JObj [(''decryptedMessage'', JStr (base64_encode m))]))\<rparr>
        | None \<Rightarrow> Inr \<lparr>nr_ok = False, nr_status = 400, nr_text = Inr ''decryption failed''\<rparr>)
   | _ \<Rightarrow> Inr \<lparr>nr_ok = False, nr_status = 400, nr_text = Inr ''bad request''\<rparr>)"

text \<open>
  (C39) Bytes survive the signing node: the base64 text of any bytes reads back as those bytes, so with a
  node that decrypts behind it the client returns exactly the bytes the node decrypted the ciphertext
  to, and what the node rejects is an exception that names the status.
\<close>

theorem node_decrypt_faithful:
  assumes "json_doc T"
  shows "buffer_from_base64 (base64_encode cipher) = cipher \<and>
    node_decrypt T bufferFrom (decrypting_node T D) c cipher = (case D cipher of
      Some m \<Rightarrow> Inr m
    | None \<Rightarrow> Inl (Error ''node returned 400 for /decrypt: decryption failed''))"
proof -
  let ?v = "\<lambda>m. JObj [(''decryptedMessage'', JStr (base64_encode m))]"
  have p: "json_parse T (json_stringify T (?v m)) = Inr (?v m)" for m
    using assms by (simp add: json_doc_def)
  have "bigint_toString 400 = ''400''" by code_simp
  then show ?thesis
    by (simp add: node_decrypt_def node_post_def node_exchange_def decrypting_node_def base64_roundtrip p
        split: option.split)
qed

text \<open>Every way to fail is an exception: an aborted request names the time it was given.\<close>

lemma node_decrypt_times_out:
  assumes "net \<lparr>nq_url = node_baseUrl T c @ ''/decrypt'',
      nq_body = JObj [(''encryptedMessage'', JStr (base64_encode cipher))]\<rparr> = Inl NodeAborted"
  shows "node_decrypt T bufferFrom net c cipher =
    Inl (Error (''node request to /decrypt timed out after '' @ number_toString T (nd_timeoutMs c) @ ''ms''))"
  using assms by (simp add: node_decrypt_def node_post_def node_exchange_def)

lemma node_decrypt_faithful_witness:
  "node_decrypt demo_platform (\<lambda>v. Inl (TypeError ''not text'')) (decrypting_node demo_platform (\<lambda>m. Some (rev m)))
    (new_NodeClient (\<lambda>t. NaN) (PortNumber (Finite 9090)) None) [1, 2, 3, 4] = Inr [4, 3, 2, 1]"
  using node_decrypt_faithful [OF demo_platform_docs(2), of "[1, 2, 3, 4]" _ "\<lambda>m. Some (rev m)"] by simp

end
