(* ===== verification/Overlap.thy ===== *)
theory Overlap
  imports Service Scripts
begin

text \<open>
  Ticks that overlap. \<open>setInterval\<close> starts a tick every \<open>pollMs\<close>, whether or not the one before has
  ended. A step that waits for the network has read the job; what it writes goes to the job as it is when
  the answer arrives, for the jobs are objects the ticks share. Here a step is cut at that await: what it
  asks and what it makes of the answer are separate, and a sequence of events says in which order the
  ticks proceed. The answer is fixed when the question is asked; only the time it arrives is open.
\<close>

subsection \<open>A step in two parts\<close>

datatype answer =
    GotRequest js_str
  | GotRound int
  | RoundFinal bool
  | GotProof
  | Sent js_str "js_error + tx_receipt"

definition suspends :: "job_state \<Rightarrow> bool" where
  "suspends q \<longleftrightarrow> q \<in> {observed, request_prepared, request_submitted, round_finalized, proof_fetched}"

text \<open>Up to the await, in the states that have one.\<close>

definition ask :: "pipeline_options \<Rightarrow> world \<Rightarrow> job \<Rightarrow> (fdc_client, answer) action" where
  "ask P W j = (case j_state j of
     observed \<Rightarrow> act_bind (prepareRequest W (j_xrplTxId j) (Some (pl_account P))) (\<lambda>req. act_result (Inr (GotRequest req)))
   | request_prepared \<Rightarrow> act_bind (submitRequest W (j_abiEncodedRequest j)) (\<lambda>r. act_result (Inr (GotRound r)))
   | request_submitted \<Rightarrow> act_bind (isRoundFinalized W (j_roundId j)) (\<lambda>b. act_result (Inr (RoundFinal b)))
   | round_finalized \<Rightarrow> act_bind (fetchProof W (j_abiEncodedRequest j) (j_roundId j)) (\<lambda>_. act_result (Inr GotProof))
   | _ \<Rightarrow>
      act_bind (fetchProof W (j_abiEncodedRequest j) (j_roundId j)) (\<lambda>pf.
      act_bind (act_result (js_BigInt (j_totalCallValue j))) (\<lambda>v.
      act_bind (act_send W (ExecuteDirectMinting (pl_assetManager P) pf (j_userOpData j) v)) (\<lambda>hash.
      act_result (Inr (Sent hash (w_waitForTransactionReceipt W hash)))))))"

text \<open>From the await to the end of the \<open>try\<close>.\<close>

fun digest :: "world \<Rightarrow> answer \<Rightarrow> job \<Rightarrow> job \<times> (js_error + flow)" where
  "digest W (GotRequest req) j = (j\<lparr>j_abiEncodedRequest := Some req, j_state := request_prepared\<rparr>, Inr Break)"
| "digest W (GotRound r) j = (j\<lparr>j_roundId := Some r, j_state := request_submitted\<rparr>, Inr Break)"
| "digest W (RoundFinal b) j = (if b then (j\<lparr>j_state := round_finalized\<rparr>, Inr Break) else (j, Inr Return))"
| "digest W GotProof j = (j\<lparr>j_state := proof_fetched\<rparr>, Inr Break)"
| "digest W (Sent hash receipt) j = (let j1 = j\<lparr>j_flareTxHash := Some hash\<rparr> in
     case receipt of
       Inl e \<Rightarrow> (j1, Inl e)
     | Inr rc \<Rightarrow>
         if rc_reverted rc
         then (j1, Inl (JsError (''executeDirectMintingWithData reverted (tx '' @ hash @ '')'')))
         else (case findDelayedEvent W (rc_logs rc) of
             Some t \<Rightarrow> (j1\<lparr>j_executionAllowedAt := Some (delay_ms t), j_state := delayed\<rparr>,
               if date_ok (delay_ms t) then Inr Break else Inl invalid_date)
           | None \<Rightarrow> (j1\<lparr>j_state := executed\<rparr>, Inr Break)))"

definition attempt :: "world \<Rightarrow> js_error + answer \<Rightarrow> job \<Rightarrow> job \<times> (js_error + flow)" where
  "attempt W a j = (case a of Inl e \<Rightarrow> (j, Inl e) | Inr ans \<Rightarrow> digest W ans j)"

text \<open>From the await to the end of \<open>step\<close>.\<close>

definition answered :: "step_env \<Rightarrow> js_error + answer \<Rightarrow> job \<Rightarrow> job directory \<Rightarrow> job \<times> job directory \<times> (js_error + unit)" where
  "answered E a j d =
    (let (j1, r) = attempt (se_world E) a j;
         save = (\<lambda>j2. case job_save (se_saveNow E) (se_write E) j2 d of (d', j3, w) \<Rightarrow> (j3, d', w))
     in case r of
          Inr Return \<Rightarrow> (j1, d, Inr ())
        | Inr Break \<Rightarrow> save (j1\<lparr>j_attempts := 0, j_lastError := None\<rparr>)
        | Inl e \<Rightarrow> save (catch_step (se_world E) e j1))"

lemma answered_eq:
  "answered E a j d = (let j1 = fst (attempt (se_world E) a j);
      keep = (\<lambda>j2. (stamp E j2, fst (write_file (se_write E) (job_file (j_id j2)) (stamp E j2) d), write_result E))
    in case snd (attempt (se_world E) a j) of
         Inr Return \<Rightarrow> (j1, d, Inr ())
       | Inr Break \<Rightarrow> keep (settled j1)
       | Inl e \<Rightarrow> keep (catch_step (se_world E) e j1))"
  by (auto simp: answered_def settled_def stamp_def write_result_def job_save_def write_file_result Let_def
      case_prod_beta split: sum.split flow.split)

text \<open>With nothing in between, the two parts are the step.\<close>

lemma execute_minting_asks:
  fixes x :: executor and P W
  defines "j \<equiv> ex_job x" and "m \<equiv> execute_minting P W" and "q \<equiv> ask P W (ex_job x)"
  assumes "j_state j = proof_fetched"
  shows "fst (m x) = x\<lparr>ex_fdc := fst (q (ex_fdc x)),
      ex_job := fst (attempt W (act_value q (ex_fdc x)) j)\<rparr> \<and>
    act_effects m x = act_effects q (ex_fdc x) \<and> act_value m x = snd (attempt W (act_value q (ex_fdc x)) j)"
proof (cases "act_value (fetchProof W (j_abiEncodedRequest j) (j_roundId j)) (ex_fdc x)")
  case (Inl e)
  then show ?thesis
    by (simp add: m_def q_def ask_def assms(4) execute_minting_def attempt_def act_simps j_def [symmetric])
next
  case pf: (Inr pf)
  show ?thesis
  proof (cases "js_BigInt (j_totalCallValue j)")
    case (Inl e)
    with pf show ?thesis
      by (simp add: m_def q_def ask_def assms(4) execute_minting_def attempt_def act_simps j_def [symmetric])
  next
    case v: (Inr v)
    show ?thesis
    proof (cases "w_writeContract W (ExecuteDirectMinting (pl_assetManager P) pf (j_userOpData j) v)")
      case (Inl e)
      with pf v show ?thesis
        by (simp add: m_def q_def ask_def assms(4) execute_minting_def attempt_def act_simps j_def [symmetric])
    next
      case hash: (Inr hash)
      then show ?thesis
        using pf v
        by (cases "w_waitForTransactionReceipt W hash")
          (simp_all add: m_def q_def ask_def assms(4) execute_minting_def attempt_def act_simps j_def [symmetric] Let_def split: option.split)
    qed
  qed
qed

lemma step_in_two:
  assumes "suspends (j_state (ex_job x))"
    and "ask P (se_world E) (ex_job x) (ex_fdc x) = (c, es, a)" and "answered E a (ex_job x) (ex_disk x) = (j, d, r)"
  shows "step P E x = (\<lparr>ex_fdc = c, ex_disk = d, ex_job = j\<rparr>, es, r)"
proof -
  let ?m = "try_step P E (j_state (ex_job x))"
  let ?d = "attempt (se_world E) a (ex_job x)"
  let ?q = "ask P (se_world E) (ex_job x)"
  have q: "fst (?q (ex_fdc x)) = c" "act_effects ?q (ex_fdc x) = es" "act_value ?q (ex_fdc x) = a"
    using assms(2) by (simp_all add: act_effects_def act_value_def)
  have "fst (?m x) = x\<lparr>ex_fdc := c, ex_job := fst ?d\<rparr> \<and> act_effects ?m x = es \<and> act_value ?m x = snd ?d"
    using assms(1) unfolding q [symmetric]
    by (cases "j_state (ex_job x)") (simp_all add: suspends_def ask_def execute_minting_asks attempt_def act_simps split: sum.split)
  then show ?thesis
    using assms(3)
    by (cases "snd ?d") (auto simp: step_eq answered_eq saved_def Let_def split: flow.splits)
qed

subsection \<open>The service between events\<close>

text \<open>A suspended step: the entry of the map it was started for, its object and its answer.\<close>

record open_step =
  su_id :: js_str
  su_obj :: nat
  su_env :: step_env
  su_answer :: "js_error + answer"

record overlap =
  ov_live :: "(js_str \<times> nat) list"
  ov_objects :: "job list"
  ov_fdc :: fdc_client
  ov_disk :: "job directory"
  ov_suspended :: "open_step list"

datatype ov_event =
    Admit tick_env observed_payment pending_user_op
  | Begin js_str step_env
  | Resume nat

text \<open>What follows \<open>step\<close> in the loop: when it throws the map stays as it is.\<close>

definition put_back :: "js_str \<Rightarrow> nat \<Rightarrow> job \<Rightarrow> js_error + unit \<Rightarrow> (js_str \<times> nat) list \<Rightarrow> (js_str \<times> nat) list" where
  "put_back i a j r live = (case r of Inl _ \<Rightarrow> live
     | Inr _ \<Rightarrow> if terminal (j_state j) then AList.delete i (AList.update i a live) else AList.update i a live)"

definition finish_step :: "js_str \<Rightarrow> nat \<Rightarrow> job \<Rightarrow> job directory \<Rightarrow> js_error + unit \<Rightarrow> overlap \<Rightarrow> overlap" where
  "finish_step i a j d r s = s\<lparr>ov_live := put_back i a j r (ov_live s), ov_objects := (ov_objects s)[a := j], ov_disk := d\<rparr>"

text \<open>A transaction is tagged with the object of the job that sent it.\<close>

fun ov_do :: "pipeline_options \<Rightarrow> ov_event \<Rightarrow> overlap \<Rightarrow> overlap \<times> (nat \<times> tx_request) list" where
  "ov_do P (Admit E p r) s =
    (if xrplTxId p \<in> fst ` set (ov_live s) then (s, [])
     else case create_from E p r (ov_disk s) of
       (d, Inl e) \<Rightarrow> (s\<lparr>ov_disk := d\<rparr>, [])
     | (d, Inr j) \<Rightarrow> (s\<lparr>ov_disk := d, ov_objects := ov_objects s @ [j],
         ov_live := AList.update (xrplTxId p) (length (ov_objects s)) (ov_live s)\<rparr>, []))"
| "ov_do P (Begin i E) s = (case map_of (ov_live s) i of
     None \<Rightarrow> (s, [])
   | Some a \<Rightarrow>
      (let j = ov_objects s ! a in
       if suspends (j_state j)
       then (case ask P (se_world E) j (ov_fdc s) of (c, es, ans) \<Rightarrow>
         (s\<lparr>ov_fdc := c, ov_suspended := ov_suspended s @ [\<lparr>su_id = i, su_obj = a, su_env = E, su_answer = ans\<rparr>]\<rparr>,
          map (Pair a) es))
       else (case step P E \<lparr>ex_fdc = ov_fdc s, ex_disk = ov_disk s, ex_job = j\<rparr> of (x, es, r) \<Rightarrow>
         (finish_step i a (ex_job x) (ex_disk x) r (s\<lparr>ov_fdc := ex_fdc x\<rparr>), map (Pair a) es))))"
| "ov_do P (Resume k) s = (if k < length (ov_suspended s)
     then (let p = ov_suspended s ! k; rest = take k (ov_suspended s) @ drop (Suc k) (ov_suspended s)
       in case answered (su_env p) (su_answer p) (ov_objects s ! su_obj p) (ov_disk s) of (j, d, r) \<Rightarrow>
         (finish_step (su_id p) (su_obj p) j d r (s\<lparr>ov_suspended := rest\<rparr>), []))
     else (s, []))"

fun ov_run :: "pipeline_options \<Rightarrow> ov_event list \<Rightarrow> overlap \<Rightarrow> overlap \<times> (nat \<times> tx_request) list" where
  "ov_run P [] s = (s, [])"
| "ov_run P (ev # evs) s = (let (s1, es) = ov_do P ev s; (s2, es2) = ov_run P evs s1 in (s2, es @ es2))"

lemma ov_run_append: "ov_run P (evs @ evs') s =
    (let (s1, es) = ov_run P evs s; (s2, es2) = ov_run P evs' s1 in (s2, es @ es2))"
  by (induction evs arbitrary: s) (simp_all add: case_prod_beta Let_def)

subsection \<open>What no overlap can break\<close>

lemma digest_identity: "job_identity (fst (digest W ans j)) = job_identity j"
  by (cases ans) (simp_all add: Let_def split: sum.split option.split)

lemma catch_identity: "job_identity (catch_step W e j) = job_identity j"
  by (simp add: catch_step_def Let_def)

lemma answered_identity: "job_identity (fst (answered E a j d)) = job_identity j"
proof -
  have "job_identity (fst (attempt W a j)) = job_identity j" for W
    by (cases a) (simp_all add: attempt_def digest_identity)
  then show ?thesis
    by (simp add: answered_eq Let_def catch_identity split: sum.split flow.split)
qed

text \<open>What a question sends is what the step would send.\<close>

lemma ask_allowed:
  fixes E :: step_env
  assumes "suspends (j_state j)" and "ask P (se_world E) j c0 = (c, es, a)"
  shows "allowed_effects P j es"
proof -
  obtain j' d r where "answered E a j [] = (j', d, r)" by (metis prod_cases3)
  then have "step P E \<lparr>ex_fdc = c0, ex_disk = [], ex_job = j\<rparr> = (\<lparr>ex_fdc = c, ex_disk = d, ex_job = j'\<rparr>, es, r)"
    using assms by (intro step_in_two) simp_all
  then show ?thesis using step_refines job_step_effects by fastforce
qed

lemma allowed_pays: "allowed_effects P j es \<Longrightarrow> q \<in> set es \<Longrightarrow> pays_for P (job_identity j) q"
  by (auto simp: allowed_effects_def job_identity_def)

text \<open>The addresses in use are those of objects, and an entry of the map stands once.\<close>

definition below :: "nat \<Rightarrow> (js_str \<times> nat) list \<Rightarrow> bool" where
  "below n live \<longleftrightarrow> (\<forall>i a. (i, a) \<in> set live \<longrightarrow> a < n) \<and> distinct (map fst live)"

definition ov_ok :: "overlap \<Rightarrow> bool" where
  "ov_ok s \<longleftrightarrow> below (length (ov_objects s)) (ov_live s) \<and>
     (\<forall>p \<in> set (ov_suspended s). su_obj p < length (ov_objects s))"

lemma in_update: "(k, b) \<in> set (AList.update i a al) \<Longrightarrow> b = a \<or> (k, b) \<in> set al"
  by (induction al) (auto split: if_splits)

lemma below_update: "below n live \<Longrightarrow> a < n \<Longrightarrow> below n (AList.update i a live)"
  by (auto simp: below_def distinct_update dest: in_update)

lemma below_delete: "below n live \<Longrightarrow> below n (AList.delete i live)"
  using distinct_delete [of live i] by (auto simp: below_def AList.delete_eq)

lemma below_Suc: "below n live \<Longrightarrow> below (Suc n) live"
  by (fastforce simp: below_def)

lemma put_back_ok: "below n live \<Longrightarrow> a < n \<Longrightarrow> below n (put_back i a j r live)"
  by (simp add: put_back_def below_update below_delete split: sum.split)

text \<open>One event: the objects keep their identity, and what is sent pays for the object it is tagged with.\<close>

definition extends :: "overlap \<Rightarrow> overlap \<Rightarrow> bool" where
  "extends s s' \<longleftrightarrow> length (ov_objects s) \<le> length (ov_objects s') \<and>
     (\<forall>a < length (ov_objects s). job_identity (ov_objects s' ! a) = job_identity (ov_objects s ! a))"

lemma extends_refl [simp]: "extends s s"
  by (simp add: extends_def)

lemma extends_trans: "extends s s1 \<Longrightarrow> extends s1 s2 \<Longrightarrow> extends s s2"
  by (simp add: extends_def)

lemma finish_step_facts:
  assumes "ov_ok s" and "a < length (ov_objects s)" and "job_identity j = job_identity (ov_objects s ! a)"
  shows "ov_ok (finish_step i a j d r s)" and "extends s (finish_step i a j d r s)"
  using put_back_ok [of "length (ov_objects s)" "ov_live s" a i j r] assms
  by (auto simp: finish_step_def ov_ok_def extends_def nth_list_update)

lemma live_obj: "ov_ok s \<Longrightarrow> map_of (ov_live s) i = Some a \<Longrightarrow> a < length (ov_objects s)"
  by (auto simp: ov_ok_def below_def dest: map_of_SomeD)

lemma ov_begin_ok:
  assumes ok: "ov_ok s" and live: "map_of (ov_live s) i = Some a" and do: "ov_do P (Begin i E) s = (s', es)"
  shows "ov_ok s' \<and> extends s s' \<and>
    (\<forall>(a, q) \<in> set es. a < length (ov_objects s) \<and> pays_for P (job_identity (ov_objects s ! a)) q)"
proof (cases "suspends (j_state (ov_objects s ! a))")
  case True
  obtain c es' ans where q: "ask P (se_world E) (ov_objects s ! a) (ov_fdc s) = (c, es', ans)" by (metis prod_cases3)
  with True do live have "s' = s\<lparr>ov_fdc := c, ov_suspended := ov_suspended s @
      [\<lparr>su_id = i, su_obj = a, su_env = E, su_answer = ans\<rparr>]\<rparr>" "es = map (Pair a) es'"
    by simp_all
  with live_obj [OF ok live] ok allowed_pays [OF ask_allowed [OF True q]] show ?thesis
    by (auto simp: ov_ok_def extends_def)
next
  case False
  obtain x es' r where st: "step P E \<lparr>ex_fdc = ov_fdc s, ex_disk = ov_disk s, ex_job = ov_objects s ! a\<rparr> = (x, es', r)"
    by (metis prod_cases3)
  with False do live have s': "s' = finish_step i a (ex_job x) (ex_disk x) r (s\<lparr>ov_fdc := ex_fdc x\<rparr>)"
    "es = map (Pair a) es'" by simp_all
  have js: "job_step P E (ov_objects s ! a) es' (ex_job x)" using step_refines [OF st] by simp
  have ok': "ov_ok (s\<lparr>ov_fdc := ex_fdc x\<rparr>)" "extends s (s\<lparr>ov_fdc := ex_fdc x\<rparr>)"
    using ok by (simp_all add: ov_ok_def extends_def)
  have "ov_ok s'" "extends s s'"
    using finish_step_facts [OF ok'(1), of a "ex_job x"] live_obj [OF ok live] job_step_identity [OF js] extends_trans [OF ok'(2)]
    by (simp_all add: s')
  with live_obj [OF ok live] allowed_pays [OF job_step_effects [OF js]] show ?thesis by (auto simp: s'(2))
qed

lemma ov_resume_ok:
  assumes ok: "ov_ok s" and k: "k < length (ov_suspended s)" and do: "ov_do P (Resume k) s = (s', es)"
  shows "ov_ok s' \<and> extends s s' \<and> es = []"
proof -
  let ?p = "ov_suspended s ! k" and ?rest = "take k (ov_suspended s) @ drop (Suc k) (ov_suspended s)"
  obtain j d r where an: "answered (su_env ?p) (su_answer ?p) (ov_objects s ! su_obj ?p) (ov_disk s) = (j, d, r)"
    by (metis prod_cases3)
  have s': "s' = finish_step (su_id ?p) (su_obj ?p) j d r (s\<lparr>ov_suspended := ?rest\<rparr>)" "es = []"
    using do k an by (simp_all add: Let_def)
  have a: "su_obj ?p < length (ov_objects s)" using ok k by (simp add: ov_ok_def)
  have ok': "ov_ok (s\<lparr>ov_suspended := ?rest\<rparr>)" "extends s (s\<lparr>ov_suspended := ?rest\<rparr>)"
    using ok by (auto simp: ov_ok_def extends_def dest: in_set_takeD in_set_dropD)
  have "ov_ok s'" "extends s s'"
    using finish_step_facts [OF ok'(1), of "su_obj ?p" j] a answered_identity an extends_trans [OF ok'(2)]
    by (auto simp: s') (metis fst_conv)+
  then show ?thesis by (simp add: s'(2))
qed

lemma ov_do_ok:
  assumes "ov_ok s" and "ov_do P ev s = (s', es)"
  shows "ov_ok s' \<and> extends s s' \<and>
    (\<forall>(a, q) \<in> set es. a < length (ov_objects s) \<and> pays_for P (job_identity (ov_objects s ! a)) q)"
proof (cases ev)
  case (Admit E p r)
  obtain d x where c: "create_from E p r (ov_disk s) = (d, x)" by (rule prod.exhaust)
  show ?thesis
    using assms unfolding Admit
    by (cases x) (auto simp: c ov_ok_def extends_def nth_append below_update below_Suc less_Suc_eq
        simp del: image_iff split: if_splits)
next
  case (Begin i E)
  show ?thesis
  proof (cases "map_of (ov_live s) i")
    case None
    with assms show ?thesis by (simp add: Begin)
  next
    case (Some a)
    from ov_begin_ok [OF assms(1) this assms(2) [unfolded Begin]] show ?thesis .
  qed
next
  case (Resume k)
  show ?thesis
  proof (cases "k < length (ov_suspended s)")
    case True
    from ov_resume_ok [OF assms(1) this assms(2) [unfolded Resume]] show ?thesis by simp
  next
    case False
    with assms show ?thesis by (simp add: Resume)
  qed
qed

definition fresh_overlap :: "fdc_client \<Rightarrow> job directory \<Rightarrow> overlap" where
  "fresh_overlap c d = \<lparr>ov_live = [], ov_objects = [], ov_fdc = c, ov_disk = d, ov_suspended = []\<rparr>"

text \<open>The jobs the events admit: whatever object there is was created from a registered payment.\<close>

definition admitted :: "ov_event list \<Rightarrow> job \<Rightarrow> bool" where
  "admitted evs j \<longleftrightarrow> (\<exists>E p r d d'. Admit E p r \<in> set evs \<and> create_from E p r d = (d', Inr j))"

lemma admitted_mono: "admitted evs j \<Longrightarrow> set evs \<subseteq> set evs' \<Longrightarrow> admitted evs' j"
  unfolding admitted_def by blast

lemma admitted_before: "admitted evs j \<Longrightarrow> admitted (evs @ evs') j"
  by (rule admitted_mono, assumption, simp)

lemma admitted_after: "admitted evs' j \<Longrightarrow> admitted (evs @ evs') j"
  by (rule admitted_mono, assumption, simp)

lemma admittedI: "Admit E p r \<in> set evs \<Longrightarrow> create_from E p r d = (d', Inr j) \<Longrightarrow> admitted evs j"
  unfolding admitted_def by blast

lemma ov_do_objects:
  assumes "ov_do P ev s = (s', es)"
  shows "length (ov_objects s') = length (ov_objects s) \<or>
    (\<exists>j. admitted [ev] j \<and> ov_objects s' = ov_objects s @ [j] \<and> ov_suspended s' = ov_suspended s \<and> es = [])"
proof (cases ev)
  case (Admit E p r)
  obtain d x where c: "create_from E p r (ov_disk s) = (d, x)" by (rule prod.exhaust)
  show ?thesis
    using assms c unfolding Admit
    by (cases x) (auto simp: admitted_def split: if_splits)
qed (use assms in \<open>auto simp: finish_step_def Let_def split: option.splits prod.splits if_splits\<close>)

lemma ov_run_snoc: "ov_run P (evs @ [ev]) s =
    (let (s1, es) = ov_run P evs s; (s2, es2) = ov_do P ev s1 in (s2, es @ es2))"
  by (simp add: ov_run_append case_prod_beta Let_def)

lemma ov_run_ok:
  assumes "ov_run P evs (fresh_overlap c d) = (s', es)"
  shows "ov_ok s' \<and> (\<forall>a < length (ov_objects s'). \<exists>j. admitted evs j \<and> job_identity (ov_objects s' ! a) = job_identity j) \<and>
    (\<forall>(a, q) \<in> set es. a < length (ov_objects s') \<and> pays_for P (job_identity (ov_objects s' ! a)) q)"
  using assms
proof (induction evs arbitrary: s' es rule: rev_induct)
  case Nil
  then show ?case by (auto simp: fresh_overlap_def ov_ok_def below_def)
next
  case (snoc ev evs)
  obtain s1 es1 where r1: "ov_run P evs (fresh_overlap c d) = (s1, es1)" by (rule prod.exhaust)
  obtain s2 es2 where "ov_do P ev s1 = (s2, es2)" by (rule prod.exhaust)
  with snoc.prems have r2: "ov_do P ev s1 = (s', es2)" and es: "es = es1 @ es2" by (simp_all add: ov_run_snoc r1)
  note ih = snoc.IH [OF r1]
  note step = ov_do_ok [OF conjunct1 [OF ih] r2]
  note mono = admitted_before [of evs _ "[ev]"] admitted_after [of "[ev]" _ evs]
  have "\<exists>j. admitted (evs @ [ev]) j \<and> job_identity (ov_objects s' ! a) = job_identity j" if "a < length (ov_objects s')" for a
  proof (cases "a < length (ov_objects s1)")
    case True
    then obtain j where "admitted evs j" "job_identity (ov_objects s1 ! a) = job_identity j" using ih by blast
    moreover have "job_identity (ov_objects s' ! a) = job_identity (ov_objects s1 ! a)"
      using True step by (simp add: extends_def)
    ultimately show ?thesis using mono(1) by metis
  next
    case False
    with that ov_do_objects [OF r2] obtain j where "admitted [ev] j" "ov_objects s' = ov_objects s1 @ [j]" by auto
    with False that mono(2) show ?thesis by (auto simp: nth_append less_Suc_eq)
  qed
  moreover have "a < length (ov_objects s') \<and> pays_for P (job_identity (ov_objects s' ! a)) q" if "(a, q) \<in> set es" for a q
  proof -
    have "a < length (ov_objects s1) \<and> pays_for P (job_identity (ov_objects s1 ! a)) q"
      using that ih step by (auto simp: es)
    with step show ?thesis by (auto simp: extends_def)
  qed
  ultimately show ?case using step by auto
qed

text \<open>
  Whatever the ticks do to one another, money goes where it should: in every order of events every
  transaction that is sent belongs to the job of a payment that was admitted, and if it mints it goes to
  the AssetManager with the bytes and the value the job had when it was created, or found on disk.
\<close>

theorem overlap_pays_as_registered:
  assumes "ov_run P evs (fresh_overlap c d) = (s', es)" and "(a, q) \<in> set es"
  shows "\<exists>E p r d1 d2 j. Admit E p r \<in> set evs \<and> create_from E p r d1 = (d2, Inr j) \<and>
    job_identity (ov_objects s' ! a) = job_identity j \<and> pays_for P (job_identity j) q"
proof -
  have "a < length (ov_objects s')" "pays_for P (job_identity (ov_objects s' ! a)) q"
    using ov_run_ok [OF assms(1)] assms(2) by auto
  moreover from this(1) obtain j where "admitted evs j" "job_identity (ov_objects s' ! a) = job_identity j"
    using ov_run_ok [OF assms(1)] by blast
  ultimately show ?thesis unfolding admitted_def by metis
qed

subsection \<open>When overlap does no harm\<close>

text \<open>No step is started for a job while another of it is suspended.\<close>

fun starts_alone :: "ov_event \<Rightarrow> overlap \<Rightarrow> bool" where
  "starts_alone (Begin i E) s \<longleftrightarrow> (\<forall>p \<in> set (ov_suspended s). map_of (ov_live s) i \<noteq> Some (su_obj p))"
| "starts_alone _ s \<longleftrightarrow> True"

fun alone :: "pipeline_options \<Rightarrow> ov_event list \<Rightarrow> overlap \<Rightarrow> bool" where
  "alone P [] s \<longleftrightarrow> True"
| "alone P (ev # evs) s \<longleftrightarrow> starts_alone ev s \<and> alone P evs (fst (ov_do P ev s))"

lemma alone_snoc: "alone P (evs @ [ev]) s \<longleftrightarrow> alone P evs s \<and> starts_alone ev (fst (ov_run P evs s))"
  by (induction evs arbitrary: s) (simp_all add: case_prod_beta Let_def)

definition sent_by :: "nat \<Rightarrow> (nat \<times> tx_request) list \<Rightarrow> tx_request list" where
  "sent_by a es = map snd (filter (\<lambda>x. fst x = a) es)"

lemma sent_by_simps [simp]:
  "sent_by a [] = []" "sent_by a (es @ es') = sent_by a es @ sent_by a es'"
  "sent_by a (map (Pair b) qs) = (if a = b then qs else [])"
  by (auto simp: sent_by_def filter_map o_def)

text \<open>The specification of a job, one step after the other.\<close>

definition job_trans :: "pipeline_options \<Rightarrow> job \<Rightarrow> tx_request list \<Rightarrow> job \<Rightarrow> bool" where
  "job_trans P j es j' \<longleftrightarrow> (\<exists>E. job_step P E j es j')"

interpretation jb: transition_system "job_trans P" for P .

text \<open>
  The object at \<open>a\<close> has gone through a run of the specification that sent what was sent for it, but
  for the question of a step that is suspended.
\<close>

definition asked :: "pipeline_options \<Rightarrow> open_step \<Rightarrow> job \<Rightarrow> tx_request list \<Rightarrow> bool" where
  "asked P p j qs \<longleftrightarrow> suspends (j_state j) \<and> (\<exists>c c'. ask P (se_world (su_env p)) j c = (c', qs, su_answer p))"

definition followed :: "pipeline_options \<Rightarrow> ov_event list \<Rightarrow> overlap \<Rightarrow> (nat \<times> tx_request) list \<Rightarrow> nat \<Rightarrow> bool" where
  "followed P evs s es a \<longleftrightarrow> (\<exists>j0 ls. admitted evs j0 \<and> jb.run P j0 ls (ov_objects s ! a) \<and>
     ((\<forall>p \<in> set (ov_suspended s). su_obj p \<noteq> a) \<longrightarrow> sent_by a es = concat ls) \<and>
     (\<forall>p \<in> set (ov_suspended s). su_obj p = a \<longrightarrow>
       (\<exists>qs. asked P p (ov_objects s ! a) qs \<and> sent_by a es = concat ls @ qs)))"

lemma followed_other:
  assumes "followed P evs s es a" and "ov_objects s' ! a = ov_objects s ! a" and "sent_by a es' = sent_by a es"
    and "\<And>p. su_obj p = a \<Longrightarrow> p \<in> set (ov_suspended s') \<longleftrightarrow> p \<in> set (ov_suspended s)"
    and "\<And>j. admitted evs j \<Longrightarrow> admitted evs' j"
  shows "followed P evs' s' es' a"
proof -
  obtain j0 ls where "admitted evs j0" "jb.run P j0 ls (ov_objects s ! a)"
    "(\<forall>p \<in> set (ov_suspended s). su_obj p \<noteq> a) \<longrightarrow> sent_by a es = concat ls"
    "\<forall>p \<in> set (ov_suspended s). su_obj p = a \<longrightarrow>
      (\<exists>qs. asked P p (ov_objects s ! a) qs \<and> sent_by a es = concat ls @ qs)"
    using assms(1) unfolding followed_def by blast
  with assms(2-5) show ?thesis
    unfolding followed_def by (intro exI [of _ j0] exI [of _ ls]) auto
qed

lemma followed_step:
  assumes "followed P evs s es a" and "\<forall>p \<in> set (ov_suspended s). su_obj p \<noteq> a"
    and "job_trans P (ov_objects s ! a) qs (ov_objects s' ! a)" and "sent_by a es' = sent_by a es @ qs"
    and "\<forall>p \<in> set (ov_suspended s'). su_obj p \<noteq> a" and "\<And>j. admitted evs j \<Longrightarrow> admitted evs' j"
  shows "followed P evs' s' es' a"
proof -
  obtain j0 ls where "admitted evs j0" "jb.run P j0 ls (ov_objects s ! a)" "sent_by a es = concat ls"
    using assms(1,2) unfolding followed_def by blast
  with assms(3-6) show ?thesis
    unfolding followed_def by (intro exI [of _ j0] exI [of _ "ls @ [qs]"]) (auto intro: jb.run_snoc)
qed

lemma followed_suspend:
  assumes "followed P evs s es a" and "\<forall>p \<in> set (ov_suspended s). su_obj p \<noteq> a"
    and "ov_objects s' = ov_objects s" and "ov_suspended s' = ov_suspended s @ [p]" and "su_obj p = a"
    and "asked P p (ov_objects s ! a) qs" and "sent_by a es' = sent_by a es @ qs" and "\<And>j. admitted evs j \<Longrightarrow> admitted evs' j"
  shows "followed P evs' s' es' a"
proof -
  obtain j0 ls where "admitted evs j0" "jb.run P j0 ls (ov_objects s ! a)" "sent_by a es = concat ls"
    using assms(1,2) unfolding followed_def by blast
  with assms(2-8) show ?thesis
    unfolding followed_def by (intro exI [of _ j0] exI [of _ ls]) auto
qed

lemma followed_resume:
  assumes "followed P evs s es a" and "p \<in> set (ov_suspended s)" and "su_obj p = a"
    and "answered (su_env p) (su_answer p) (ov_objects s ! a) (ov_disk s) = (ov_objects s' ! a, d, r)"
    and "sent_by a es' = sent_by a es" and "\<forall>p \<in> set (ov_suspended s'). su_obj p \<noteq> a"
    and "\<And>j. admitted evs j \<Longrightarrow> admitted evs' j"
  shows "followed P evs' s' es' a"
proof -
  obtain j0 ls qs where j0: "admitted evs j0" "jb.run P j0 ls (ov_objects s ! a)"
    and q: "asked P p (ov_objects s ! a) qs" "sent_by a es = concat ls @ qs"
    using assms(1-3) unfolding followed_def by blast
  obtain c c' where "ask P (se_world (su_env p)) (ov_objects s ! a) c = (c', qs, su_answer p)" "suspends (j_state (ov_objects s ! a))"
    using q(1) by (auto simp: asked_def)
  with assms(4) have "step P (su_env p) \<lparr>ex_fdc = c, ex_disk = ov_disk s, ex_job = ov_objects s ! a\<rparr> =
      (\<lparr>ex_fdc = c', ex_disk = d, ex_job = ov_objects s' ! a\<rparr>, qs, r)"
    by (intro step_in_two) simp_all
  then have "job_trans P (ov_objects s ! a) qs (ov_objects s' ! a)"
    using step_refines unfolding job_trans_def by fastforce
  with j0 q(2) assms(5-7) show ?thesis
    unfolding followed_def by (intro exI [of _ j0] exI [of _ "ls @ [qs]"]) (auto intro: jb.run_snoc)
qed

lemma distinct_without:
  assumes "distinct (map f (xs @ p # ys))"
  shows "\<forall>x \<in> set (xs @ ys). f x \<noteq> f p" and "distinct (map f (xs @ ys))"
proof -
  have "f p \<notin> f ` set (xs @ ys)" and d: "distinct (map f (xs @ ys))" using assms by auto
  then show "\<forall>x \<in> set (xs @ ys). f x \<noteq> f p" by (metis imageI)
  show "distinct (map f (xs @ ys))" by (rule d)
qed

lemma sent_by_none: "\<forall>(b, q) \<in> set es. b < n \<Longrightarrow> \<not> a < n \<Longrightarrow> sent_by a es = []"
  by (auto simp: sent_by_def filter_empty_conv)

text \<open>An event touches one object at most: what holds of that one and of the others before holds of all after.\<close>

lemma followed_all:
  assumes "\<forall>b < length (ov_objects s). followed P evs s es b" and "followed P (evs @ [ev]) s' (es @ es') a"
    and "length (ov_objects s') = length (ov_objects s)"
    and "\<And>b. b \<noteq> a \<Longrightarrow> ov_objects s' ! b = ov_objects s ! b" and "\<And>b. b \<noteq> a \<Longrightarrow> sent_by b es' = []"
    and "\<And>p. su_obj p \<noteq> a \<Longrightarrow> p \<in> set (ov_suspended s') \<longleftrightarrow> p \<in> set (ov_suspended s)"
  shows "\<forall>b < length (ov_objects s'). followed P (evs @ [ev]) s' (es @ es') b"
proof (intro allI impI)
  fix b assume b: "b < length (ov_objects s')"
  show "followed P (evs @ [ev]) s' (es @ es') b"
  proof (cases "b = a")
    case True with assms(2) show ?thesis by simp
  next
    case False
    show ?thesis
    proof (rule followed_other)
      show "followed P evs s es b" using assms(1,3) b by simp
    qed (use False assms(4-6) admitted_before [of evs _ "[ev]"] in auto)
  qed
qed

lemma followed_unmoved:
  assumes "\<forall>a < length (ov_objects s). followed P evs s es a"
    and "ov_objects s' = ov_objects s" and "ov_suspended s' = ov_suspended s"
  shows "\<forall>a < length (ov_objects s'). followed P (evs @ [ev]) s' es a"
  using assms admitted_before [of evs _ "[ev]"] by (auto intro: followed_other)

lemma followed_admit:
  assumes "ov_ok s" and "\<forall>(b, q) \<in> set es. b < length (ov_objects s)"
    and "\<forall>a < length (ov_objects s). followed P evs s es a" and "create_from E p r d = (d', Inr j)"
    and "ov_disk s = d" and "ov_objects s' = ov_objects s @ [j]" and "ov_suspended s' = ov_suspended s"
  shows "\<forall>a < length (ov_objects s'). followed P (evs @ [Admit E p r]) s' es a"
proof (intro allI impI)
  fix a assume "a < length (ov_objects s')"
  then consider "a < length (ov_objects s)" | "a = length (ov_objects s)" using assms(6) by fastforce
  then show "followed P (evs @ [Admit E p r]) s' es a"
  proof cases
    case 1
    with assms(3,6,7) admitted_before [of evs _ "[Admit E p r]"] show ?thesis
      by (auto simp: nth_append intro: followed_other)
  next
    case 2
    have "admitted (evs @ [Admit E p r]) j" using assms(4,5) by (intro admittedI) simp_all
    moreover have "\<forall>p \<in> set (ov_suspended s'). su_obj p \<noteq> a" using assms(1,7) 2 by (auto simp: ov_ok_def)
    moreover have "sent_by a es = []" using assms(2) by (rule sent_by_none) (simp add: 2)
    ultimately show ?thesis
      unfolding followed_def by (intro exI [of _ j] exI [of _ "[]"]) (auto simp: assms(6) 2 jb.run_refl)
  qed
qed

lemma followed_begin:
  assumes fol: "\<forall>b < length (ov_objects s). followed P evs s es b" and dis: "distinct (map su_obj (ov_suspended s))"
    and live: "map_of (ov_live s) i = Some a" and a: "a < length (ov_objects s)"
    and free: "\<forall>p \<in> set (ov_suspended s). su_obj p \<noteq> a" and do: "ov_do P (Begin i E) s = (s', es')"
  shows "(\<forall>b < length (ov_objects s'). followed P (evs @ [Begin i E]) s' (es @ es') b) \<and> distinct (map su_obj (ov_suspended s'))"
proof (cases "suspends (j_state (ov_objects s ! a))")
  case True
  obtain c qs ans where q: "ask P (se_world E) (ov_objects s ! a) (ov_fdc s) = (c, qs, ans)" by (metis prod_cases3)
  let ?p = "\<lparr>su_id = i, su_obj = a, su_env = E, su_answer = ans\<rparr>"
  have s': "ov_objects s' = ov_objects s" "ov_suspended s' = ov_suspended s @ [?p]" "es' = map (Pair a) qs"
    using True do live q by auto
  have "asked P ?p (ov_objects s ! a) qs" using True q by (auto simp: asked_def)
  then have "followed P (evs @ [Begin i E]) s' (es @ es') a"
    using fol a free s' admitted_before [of evs _ "[Begin i E]"] by (intro followed_suspend [of P evs s es a s' ?p qs]) simp_all
  with fol have "\<forall>b < length (ov_objects s'). followed P (evs @ [Begin i E]) s' (es @ es') b"
    by (rule followed_all) (auto simp: s')
  moreover have "distinct (map su_obj (ov_suspended s'))" using dis free by (auto simp: s'(2))
  ultimately show ?thesis ..
next
  case False
  obtain x qs r where st: "step P E \<lparr>ex_fdc = ov_fdc s, ex_disk = ov_disk s, ex_job = ov_objects s ! a\<rparr> = (x, qs, r)"
    by (metis prod_cases3)
  have s': "ov_objects s' = (ov_objects s)[a := ex_job x]" "ov_suspended s' = ov_suspended s" "es' = map (Pair a) qs"
    using False do live st by (auto simp: finish_step_def)
  have "job_trans P (ov_objects s ! a) qs (ov_objects s' ! a)"
    using step_refines [OF st] a by (auto simp: job_trans_def s'(1))
  then have "followed P (evs @ [Begin i E]) s' (es @ es') a"
    using fol a free s' admitted_before [of evs _ "[Begin i E]"] by - (rule followed_step [of P evs s es a qs], simp_all)
  with fol have "\<forall>b < length (ov_objects s'). followed P (evs @ [Begin i E]) s' (es @ es') b"
    by (rule followed_all) (auto simp: s')
  with dis show ?thesis by (simp only: s'(2))
qed

lemma followed_resumed:
  assumes ok: "ov_ok s" and fol: "\<forall>b < length (ov_objects s). followed P evs s es b"
    and dis: "distinct (map su_obj (ov_suspended s))"
    and k: "k < length (ov_suspended s)" and do: "ov_do P (Resume k) s = (s', es')"
  shows "(\<forall>b < length (ov_objects s'). followed P (evs @ [Resume k]) s' (es @ es') b) \<and> distinct (map su_obj (ov_suspended s'))"
proof -
  let ?p = "ov_suspended s ! k" and ?rest = "take k (ov_suspended s) @ drop (Suc k) (ov_suspended s)"
  let ?a = "su_obj ?p"
  obtain j d r where an: "answered (su_env ?p) (su_answer ?p) (ov_objects s ! ?a) (ov_disk s) = (j, d, r)"
    by (metis prod_cases3)
  have s': "ov_objects s' = (ov_objects s)[?a := j]" "ov_suspended s' = ?rest" "es' = []"
    using do k an by (auto simp: finish_step_def Let_def)
  have p: "?p \<in> set (ov_suspended s)" and a: "?a < length (ov_objects s)"
    using ok k by (simp_all add: ov_ok_def)
  have split: "ov_suspended s = take k (ov_suspended s) @ ?p # drop (Suc k) (ov_suspended s)"
    using k by (rule id_take_nth_drop)
  with dis have "distinct (map su_obj (take k (ov_suspended s) @ ?p # drop (Suc k) (ov_suspended s)))" by simp
  then have free: "\<forall>p \<in> set ?rest. su_obj p \<noteq> ?a" and dist: "distinct (map su_obj ?rest)"
    by (rule distinct_without)+
  have "set (ov_suspended s) = insert ?p (set ?rest)" by (subst split) auto
  then have others: "p \<in> set ?rest \<longleftrightarrow> p \<in> set (ov_suspended s)" if "su_obj p \<noteq> ?a" for p using that by auto
  have "followed P (evs @ [Resume k]) s' (es @ es') ?a"
    using fol a p an s' free admitted_before [of evs _ "[Resume k]"]
    by (intro followed_resume [of P evs s es ?a ?p s' d r]) simp_all
  with fol have "\<forall>b < length (ov_objects s'). followed P (evs @ [Resume k]) s' (es @ es') b"
    by (rule followed_all) (use others in \<open>auto simp: s'\<close>)
  with dist show ?thesis by (simp only: s'(2))
qed

lemma followed_do:
  assumes "ov_ok s" and "\<forall>(b, q) \<in> set es. b < length (ov_objects s)"
    and "\<forall>a < length (ov_objects s). followed P evs s es a" and "distinct (map su_obj (ov_suspended s))"
    and "starts_alone ev s" and "ov_do P ev s = (s', es')"
  shows "(\<forall>a < length (ov_objects s'). followed P (evs @ [ev]) s' (es @ es') a) \<and> distinct (map su_obj (ov_suspended s'))"
proof -
  have same: ?thesis if "ov_objects s' = ov_objects s" "ov_suspended s' = ov_suspended s" "es' = []"
    using followed_unmoved [OF assms(3) that(1,2)] assms(4) that by simp
  show ?thesis
  proof (cases ev)
    case (Admit E p r)
    obtain d x where c: "create_from E p r (ov_disk s) = (d, x)" by (rule prod.exhaust)
    show ?thesis
    proof (cases "xrplTxId p \<in> fst ` set (ov_live s) \<or> isl x")
      case True
      with assms(6) c same show ?thesis by (auto simp: Admit split: sum.splits if_splits)
    next
      case False
      then obtain j where j: "x = Inr j" by (cases x) auto
      with False assms(6) c have s': "ov_objects s' = ov_objects s @ [j]" "ov_suspended s' = ov_suspended s" "es' = []"
        by (auto simp: Admit)
      from followed_admit [OF assms(1-3) c [unfolded j] refl s'(1,2)] s' assms(4) show ?thesis by (simp add: Admit)
    qed
  next
    case (Begin i E)
    show ?thesis
    proof (cases "map_of (ov_live s) i")
      case None
      with assms(6) same show ?thesis by (simp add: Begin)
    next
      case (Some a)
      with assms(5) have "\<forall>p \<in> set (ov_suspended s). su_obj p \<noteq> a" by (auto simp: Begin)
      from followed_begin [OF assms(3,4) Some live_obj [OF assms(1) Some] this assms(6) [unfolded Begin]]
      show ?thesis by (simp add: Begin)
    qed
  next
    case (Resume k)
    show ?thesis
    proof (cases "k < length (ov_suspended s)")
      case True
      from followed_resumed [OF assms(1,3,4) this assms(6) [unfolded Resume]] show ?thesis by (simp add: Resume)
    next
      case False
      with assms(6) same show ?thesis by (simp add: Resume)
    qed
  qed
qed

lemma followed_run:
  assumes "ov_run P evs (fresh_overlap c d) = (s', es)" and "alone P evs (fresh_overlap c d)"
  shows "(\<forall>a < length (ov_objects s'). followed P evs s' es a) \<and> distinct (map su_obj (ov_suspended s'))"
  using assms
proof (induction evs arbitrary: s' es rule: rev_induct)
  case Nil
  then show ?case by (auto simp: fresh_overlap_def)
next
  case (snoc ev evs)
  obtain s1 es1 where r1: "ov_run P evs (fresh_overlap c d) = (s1, es1)" by (rule prod.exhaust)
  obtain s2 es2 where "ov_do P ev s1 = (s2, es2)" by (rule prod.exhaust)
  with snoc.prems(1) have r2: "ov_do P ev s1 = (s', es2)" and es: "es = es1 @ es2" by (simp_all add: ov_run_snoc r1)
  have al: "alone P evs (fresh_overlap c d)" "starts_alone ev s1" using snoc.prems(2) r1 by (simp_all add: alone_snoc)
  from ov_run_ok [OF r1] have "ov_ok s1" "\<forall>(b, q) \<in> set es1. b < length (ov_objects s1)" by auto
  then show ?case using followed_do [of s1 es1 P evs ev s' es2] snoc.IH [OF r1 al(1)] al(2) r2 by (simp add: es)
qed

text \<open>
  (C12) Ticks that overlap do no harm as long as no step is started for a job while another of the same job
  waits: then, in whatever order steps of different jobs begin and end, each job has gone through a
  sequence of whole steps of its specification from the state it was created in, and has sent exactly
  the transactions of those steps.
\<close>

theorem overlap_alone_is_sequential:
  assumes "ov_run P evs (fresh_overlap c d) = (s', es)" and "alone P evs (fresh_overlap c d)"
    and "a < length (ov_objects s')" and "a \<notin> su_obj ` set (ov_suspended s')"
  shows "\<exists>j0 ls. admitted evs j0 \<and> jb.run P j0 ls (ov_objects s' ! a) \<and> sent_by a es = concat ls"
proof -
  have "\<forall>p \<in> set (ov_suspended s'). su_obj p \<noteq> a" using assms(4) by auto
  moreover have "followed P evs s' es a" using followed_run [OF assms(1,2)] assms(3) by blast
  ultimately show ?thesis unfolding followed_def by blast
qed

subsection \<open>Ticks that do not overlap\<close>

lemma whole_step:
  assumes "map_of (ov_live s) i = Some a"
    and "step P E \<lparr>ex_fdc = ov_fdc s, ex_disk = ov_disk s, ex_job = ov_objects s ! a\<rparr> = (x, es, r)"
  shows "ov_run P [Begin i E, Resume (length (ov_suspended s))] s =
    (finish_step i a (ex_job x) (ex_disk x) r (s\<lparr>ov_fdc := ex_fdc x\<rparr>), map (Pair a) es)"
proof (cases "suspends (j_state (ov_objects s ! a))")
  case True
  let ?j = "ov_objects s ! a"
  obtain c qs ans where q: "ask P (se_world E) ?j (ov_fdc s) = (c, qs, ans)" by (metis prod_cases3)
  obtain j d w where an: "answered E ans ?j (ov_disk s) = (j, d, w)" by (metis prod_cases3)
  have "step P E \<lparr>ex_fdc = ov_fdc s, ex_disk = ov_disk s, ex_job = ?j\<rparr> =
      (\<lparr>ex_fdc = c, ex_disk = d, ex_job = j\<rparr>, qs, w)"
    using True q an by (intro step_in_two) simp_all
  with assms have "x = \<lparr>ex_fdc = c, ex_disk = d, ex_job = j\<rparr>" "es = qs" "r = w" by simp_all
  with True assms(1) q an show ?thesis by (simp add: finish_step_def)
next
  case False
  with assms show ?thesis by (simp add: finish_step_def)
qed

text \<open>The map of live jobs as the service of \<open>Service\<close> has it: the jobs in the place of their addresses.\<close>

definition live_view :: "overlap \<Rightarrow> (js_str \<times> job) list" where
  "live_view s = map (\<lambda>(i, a). (i, ov_objects s ! a)) (ov_live s)"

definition at_rest :: "overlap \<Rightarrow> service \<Rightarrow> bool" where
  "at_rest s sv \<longleftrightarrow> ov_ok s \<and> distinct (map snd (ov_live s)) \<and> ov_suspended s = [] \<and>
     live_view s = sv_live sv \<and> ov_fdc s = sv_fdc sv \<and> ov_disk s = sv_jobs sv"

lemma update_same: "map_of al i = Some a \<Longrightarrow> AList.update i a al = al"
  by (induction al) auto

lemma view_update:
  assumes "map_of live i = Some a" and "distinct (map snd live)" and "\<forall>b \<in> snd ` set live. b < length objs"
  shows "map (\<lambda>(i, b). (i, objs[a := j] ! b)) live = AList.update i j (map (\<lambda>(i, b). (i, objs ! b)) live)"
  using assms
proof (induction live)
  case (Cons x live)
  obtain k b where x: "x = (k, b)" by force
  show ?case
  proof (cases "k = i")
    case True
    with Cons.prems x have b: "b = a" and others: "\<forall>(k, c) \<in> set live. c \<noteq> a" by force+
    then have "map (\<lambda>(i, b). (i, objs[a := j] ! b)) live = map (\<lambda>(i, b). (i, objs ! b)) live" by auto
    with True b Cons.prems(3) show ?thesis by (simp add: x)
  next
    case False
    with Cons.prems x have "map_of live i = Some a" by simp
    moreover from this have "a \<in> snd ` set live" by (force dest: map_of_SomeD)
    with Cons.prems(2) x have "b \<noteq> a" by auto
    ultimately show ?thesis using Cons False by (simp add: x)
  qed
qed simp

lemma view_delete: "map (\<lambda>(i, b). (i, objs ! b)) (AList.delete i live) =
    AList.delete i (map (\<lambda>(i, b). (i, objs ! b)) live)"
  by (induction live) (auto simp: AList.delete_eq)

lemma view_lookup:
  assumes "map_of (live_view s) i = Some j"
  obtains a where "map_of (ov_live s) i = Some a" "ov_objects s ! a = j"
proof -
  have "map_of (map (\<lambda>(i, b). (i, objs ! b)) live) i = map_option ((!) objs) (map_of live i)" for objs :: "job list" and live
    by (induction live) auto
  with assms that show thesis by (auto simp: live_view_def)
qed

lemma step_at_rest:
  assumes "at_rest s sv" and "map_of (sv_live sv) i = Some j"
  shows "\<exists>s' es. ov_run (so_pipeline Opt) [Begin i (te_step E i), Resume 0] s = (s', es) \<and>
    at_rest s' (fst (drive_one Opt E i j sv)) \<and> map snd es = snd (drive_one Opt E i j sv)"
proof -
  obtain a where a: "map_of (ov_live s) i = Some a" "ov_objects s ! a = j"
    using assms by (metis view_lookup at_rest_def)
  obtain x es r where st: "step (so_pipeline Opt) (te_step E i)
      \<lparr>ex_fdc = ov_fdc s, ex_disk = ov_disk s, ex_job = j\<rparr> = (x, es, r)" by (metis prod_cases3)
  let ?s' = "finish_step i a (ex_job x) (ex_disk x) r (s\<lparr>ov_fdc := ex_fdc x\<rparr>)"
  have run: "ov_run (so_pipeline Opt) [Begin i (te_step E i), Resume 0] s = (?s', map (Pair a) es)"
    using whole_step [of s i a "so_pipeline Opt" "te_step E i" x es r] a st assms(1) by (simp add: at_rest_def del: ov_run.simps)
  note rest = assms(1) [unfolded at_rest_def]
  have ok: "ov_ok s" "a < length (ov_objects s)" using rest a(1) live_obj by blast+
  have below: "\<forall>b \<in> snd ` set (ov_live s). b < length (ov_objects s)" using ok(1) by (auto simp: ov_ok_def below_def)
  have "job_identity (ex_job x) = job_identity (ov_objects s ! a)"
    using step_refines [OF st] a(2) by (simp add: job_step_identity)
  with ok have ok': "ov_ok ?s'" using finish_step_facts(1) [of "s\<lparr>ov_fdc := ex_fdc x\<rparr>" a "ex_job x"] by (simp add: ov_ok_def)
  have v: "map (\<lambda>(i, b). (i, (ov_objects s)[a := ex_job x] ! b)) (ov_live s) = AList.update i (ex_job x) (sv_live sv)"
    using view_update [OF a(1) _ below, of "ex_job x"] rest by (simp add: live_view_def)
  have d: "distinct (map snd (AList.delete i (ov_live s)))" using rest by (simp add: AList.delete_eq distinct_map_filter)
  have "at_rest ?s' (fst (drive_one Opt E i j sv))"
    using ok' rest st v d a(1)
    by (auto simp: at_rest_def live_view_def drive_one_def finish_step_def put_back_def update_same view_delete Let_def
        split: sum.split)
  moreover have "snd (drive_one Opt E i j sv) = es"
    using st rest by (auto simp: drive_one_def Let_def split: sum.split)
  moreover have "map snd (map (Pair a) es) = es" by (simp add: o_def)
  ultimately show ?thesis
    using run by - (intro exI [of _ ?s'] exI [of _ "map (Pair a) es"] conjI, simp_all only:)
qed

definition one_after_another :: "tick_env \<Rightarrow> (js_str \<times> job) list \<Rightarrow> ov_event list" where
  "one_after_another E js = concat (map (\<lambda>(i, j). [Begin i (te_step E i), Resume 0]) js)"

lemma drive_at_rest:
  assumes "at_rest s sv" and "distinct (map fst js)" and "\<forall>(i, j) \<in> set js. map_of (sv_live sv) i = Some j"
  shows "\<exists>s' es. ov_run (so_pipeline Opt) (one_after_another E js) s = (s', es) \<and>
    at_rest s' (fst (drive Opt E js sv)) \<and> map snd es = snd (drive Opt E js sv)"
  using assms
proof (induction js arbitrary: s sv)
  case Nil
  then show ?case by (simp add: one_after_another_def)
next
  case (Cons x js)
  obtain i j where x: "x = (i, j)" by force
  let ?sv1 = "fst (drive_one Opt E i j sv)"
  have l: "map_of (sv_live sv) i = Some j" using Cons.prems(3) by (simp add: x)
  obtain s1 es1 where r1: "ov_run (so_pipeline Opt) [Begin i (te_step E i), Resume 0] s = (s1, es1)"
    "at_rest s1 ?sv1" "map snd es1 = snd (drive_one Opt E i j sv)"
    using step_at_rest [OF Cons.prems(1) l] by blast
  have same: "map_of (sv_live ?sv1) k = map_of (sv_live sv) k" if "k \<noteq> i" for k
  proof (rule drive_one_step [of Opt E i j sv])
    fix j' assume "map_of (sv_live ?sv1) = (map_of (sv_live sv))(i \<mapsto> j') \<or>
      terminal (j_state j') \<and> map_of (sv_live ?sv1) = (map_of (sv_live sv))(i := None)"
    with that show ?thesis by (elim disjE conjE) simp_all
  qed
  have "map_of (sv_live ?sv1) k = Some j'" if "(k, j') \<in> set js" for k j'
  proof -
    have "k \<in> fst ` set js" using that by (rule image_eqI [rotated]) simp
    then have "k \<noteq> i" using Cons.prems(2) by (auto simp: x)
    with that Cons.prems(3) show ?thesis by (auto simp: same)
  qed
  then have "\<forall>(k, j') \<in> set js. map_of (sv_live ?sv1) k = Some j'" by blast
  moreover have "distinct (map fst js)" using Cons.prems(2) by simp
  ultimately obtain s' es where
    r2: "ov_run (so_pipeline Opt) (one_after_another E js) s1 = (s', es)"
    "at_rest s' (fst (drive Opt E js ?sv1))" "map snd es = snd (drive Opt E js ?sv1)"
    using Cons.IH [OF r1(2)] by blast
  have "one_after_another E (x # js) = [Begin i (te_step E i), Resume 0] @ one_after_another E js"
    by (simp add: one_after_another_def x)
  then have "ov_run (so_pipeline Opt) (one_after_another E (x # js)) s = (s', es1 @ es)"
    using r1(1) r2(1) by (simp only: ov_run_append Let_def prod.case)
  with r1(3) r2(2,3) show ?case by (simp add: x case_prod_beta Let_def)
qed

text \<open>
  Ticks that do not overlap are the ticks of the service: from a state without suspended steps, the
  events that start a step for each live job and end it before the next are the second loop of a tick,
  with the same transactions in the same order, the same jobs live afterwards, the same disk and cache.
\<close>

theorem overlap_apart_is_tick:
  assumes "at_rest s sv"
  shows "\<exists>s' es. ov_run (so_pipeline Opt) (one_after_another E (sv_live sv)) s = (s', es) \<and>
    at_rest s' (fst (drive Opt E (sv_live sv) sv)) \<and> map snd es = snd (drive Opt E (sv_live sv) sv)"
proof (rule drive_at_rest [OF assms])
  have "map fst (sv_live sv) = map fst (ov_live s)"
    using assms by (auto simp: at_rest_def live_view_def o_def split_def dest: sym)
  with assms show d: "distinct (map fst (sv_live sv))" by (simp add: at_rest_def ov_ok_def below_def)
  then show "\<forall>(i, j) \<in> set (sv_live sv). map_of (sv_live sv) i = Some j" by auto
qed

subsection \<open>What overlap breaks\<close>

text \<open>The state an answer moves a job to, when it moves it anywhere before its minting.\<close>

fun answer_state :: "answer \<Rightarrow> job_state option" where
  "answer_state (GotRequest _) = Some request_prepared"
| "answer_state (GotRound _) = Some request_submitted"
| "answer_state (RoundFinal f) = (if f then Some round_finalized else None)"
| "answer_state GotProof = Some proof_fetched"
| "answer_state (Sent _ _) = None"

text \<open>
  (C35) An answer that comes late takes a job back: when a step that asked for the attestation request, for
  the submission of it, whether the round is final or for the proof is told what it hoped for, the job is put
  into the state after that answer, whatever state other ticks have brought it to since and whatever becomes
  of the write of its file; and when the write goes well it is put into the map of live jobs, although it may
  have been executed and dropped from the map. When the write fails the map stays as it is.
\<close>

theorem late_answer_revives:
  assumes "k < length (ov_suspended s)" and "p = ov_suspended s ! k" and "su_answer p = Inr ans"
    and "answer_state ans = Some q" and "su_obj p < length (ov_objects s)" and "ov_do P (Resume k) s = (s', es)"
  shows "j_state (ov_objects s' ! su_obj p) = q \<and>
    ov_live s' = (if se_write (su_env p) = Written then AList.update (su_id p) (su_obj p) (ov_live s) else ov_live s)"
proof -
  let ?j = "ov_objects s ! su_obj p"
  obtain j d r where an: "answered (su_env p) (su_answer p) ?j (ov_disk s) = (j, d, r)" by (metis prod_cases3)
  have "j_state j = q \<and> \<not> terminal q \<and> is_ok r = (se_write (su_env p) = Written)"
    using an assms(3,4) by (cases ans; cases "se_write (su_env p)")
      (auto simp: answered_eq attempt_def Let_def write_result_def terminal_def split: if_splits)
  with an assms show ?thesis
    by (auto simp: finish_step_def put_back_def Let_def split: sum.split)
qed

text \<open>One job, admitted from the registration of the store's witness, and its steps in an undisturbed network.\<close>

definition late_id :: js_str where
  "late_id = xrplTxId demo_observed"

lemma late_admitted:
  "\<exists>s j. ov_run demo_options [Admit demo_tick_env demo_observed (pending_record 7 demo_commitment demo_entry)]
      (fresh_overlap demo_fdc []) = (s, []) \<and>
    ov_objects s = [j] \<and> ov_live s = [(late_id, 0)] \<and> ov_suspended s = [] \<and> j_state j = observed \<and>
    js_BigInt (j_totalCallValue j) = Inr 0"
proof -
  let ?r = "pending_record 7 demo_commitment demo_entry"
  obtain d j where "create_from demo_tick_env demo_observed ?r [] = (d, Inr j)" "j_state j = observed"
    "js_BigInt (j_totalCallValue j) = Inr 0"
    by (simp add: create_from_def pending_record_def demo_entry_def demo_BigInt job_create_def job_save_def
        demo_observed_def observe_def demo_normalize_bare job_load_def read_json_def demo_tick_env_def new_job_def Let_def)
  then show ?thesis by (simp add: fresh_overlap_def late_id_def)
qed

definition sits :: "overlap \<Rightarrow> job \<Rightarrow> bool" where
  "sits s k \<longleftrightarrow> ov_objects s = [k] \<and> ov_live s = (if terminal (j_state k) then [] else [(late_id, 0)])"

lemma late_whole:
  assumes "sits s k" and "\<not> terminal (j_state k)"
    and "\<And>x. ex_job x = k \<Longrightarrow> \<exists>x' es. step demo_options demo_env x = (x', es, Inr ()) \<and> ex_job x' = k'"
  shows "\<exists>s' es. ov_run demo_options [Begin late_id demo_env, Resume (length (ov_suspended s))] s = (s', es) \<and>
    sits s' k' \<and> ov_suspended s' = ov_suspended s"
proof -
  obtain x es where "step demo_options demo_env \<lparr>ex_fdc = ov_fdc s, ex_disk = ov_disk s, ex_job = ov_objects s ! 0\<rparr> = (x, es, Inr ())"
    "ex_job x = k'"
    using assms(3) [of "\<lparr>ex_fdc = ov_fdc s, ex_disk = ov_disk s, ex_job = k\<rparr>"] assms(1) by (auto simp: sits_def)
  moreover have "map_of (ov_live s) late_id = Some 0" using assms(1,2) by (simp add: sits_def)
  ultimately show ?thesis
    using whole_step [of s late_id 0 demo_options demo_env x es "Inr ()"] assms(1,2)
    by (auto simp: sits_def finish_step_def put_back_def simp del: ov_run.simps)
qed

lemma late_slow_question:
  assumes "sits s k" and "j_state k = request_submitted" and "j_roundId k = Some 10"
  shows "\<exists>s' p. ov_run demo_options [Begin late_id demo_env] s = (s', []) \<and> sits s' k \<and>
    ov_suspended s' = ov_suspended s @ [p] \<and> su_id p = late_id \<and> su_obj p = 0 \<and> su_env p = demo_env \<and>
    su_answer p = Inr (RoundFinal True)"
proof -
  let ?q = "ask demo_options demo_world k"
  have "act_value ?q c = Inr (RoundFinal True)" "act_effects ?q c = []" for c
    using assms(2,3) by (simp_all add: ask_def act_simps demo_finalized_any)
  then obtain c where "?q (ov_fdc s) = (c, [], Inr (RoundFinal True))"
    unfolding act_value_def act_effects_def by (metis prod.collapse)
  with assms(1,2) show ?thesis by (simp add: sits_def terminal_def suspends_def)
qed

text \<open>
  The events: admission and two ticks; a tick that asks whether the round is final and waits; three ticks
  that ask again, fetch the proof and mint; then the answer of the tick that waited.
\<close>

definition late_events :: "ov_event list" where
  "late_events =
    [Admit demo_tick_env demo_observed (pending_record 7 demo_commitment demo_entry)] @
    [Begin late_id demo_env, Resume 0] @ [Begin late_id demo_env, Resume 0] @ [Begin late_id demo_env] @
    [Begin late_id demo_env, Resume 1] @ [Begin late_id demo_env, Resume 1] @ [Begin late_id demo_env, Resume 1]"

definition late_at :: "ov_event list \<Rightarrow> job \<Rightarrow> open_step list \<Rightarrow> bool" where
  "late_at evs k q \<longleftrightarrow> (\<exists>s es. ov_run demo_options evs (fresh_overlap demo_fdc []) = (s, es) \<and> sits s k \<and> ov_suspended s = q)"

lemma late_at_step:
  assumes "late_at evs k q" and "\<not> terminal (j_state k)" and "n = length q"
    and "\<And>x. ex_job x = k \<Longrightarrow> \<exists>x' es. step demo_options demo_env x = (x', es, Inr ()) \<and> ex_job x' = k'"
  shows "late_at (evs @ [Begin late_id demo_env, Resume n]) k' q"
proof -
  obtain s es where s: "ov_run demo_options evs (fresh_overlap demo_fdc []) = (s, es)" "sits s k" "ov_suspended s = q"
    using assms(1) by (auto simp: late_at_def)
  obtain s' es' where s': "ov_run demo_options [Begin late_id demo_env, Resume (length (ov_suspended s))] s = (s', es')"
    "sits s' k'" "ov_suspended s' = ov_suspended s"
    using late_whole [OF s(2) assms(2,4)] by blast
  have "ov_run demo_options (evs @ [Begin late_id demo_env, Resume n]) (fresh_overlap demo_fdc []) = (s', es @ es')"
    using s(1) s'(1) unfolding s(3) by (simp only: ov_run_append assms(3) Let_def prod.case)
  with s'(2,3) s(3) show ?thesis by (auto simp: late_at_def)
qed

lemma late_at_ask:
  assumes "late_at evs k q" and "j_state k = request_submitted" and "j_roundId k = Some 10"
  shows "\<exists>p. late_at (evs @ [Begin late_id demo_env]) k (q @ [p]) \<and> su_id p = late_id \<and> su_obj p = 0 \<and>
    su_env p = demo_env \<and> su_answer p = Inr (RoundFinal True)"
proof -
  obtain s es where s: "ov_run demo_options evs (fresh_overlap demo_fdc []) = (s, es)" "sits s k" "ov_suspended s = q"
    using assms(1) by (auto simp: late_at_def)
  obtain s' p where s': "ov_run demo_options [Begin late_id demo_env] s = (s', [])" "sits s' k" "ov_suspended s' = q @ [p]"
    and p: "su_id p = late_id" "su_obj p = 0" "su_env p = demo_env" "su_answer p = Inr (RoundFinal True)"
    using late_slow_question [OF s(2) assms(2,3)] s(3) by blast
  have "ov_run demo_options (evs @ [Begin late_id demo_env]) (fresh_overlap demo_fdc []) = (s', es @ [])"
    using s(1) s'(1) unfolding ov_run_append by (simp only: Let_def prod.case)
  with s'(2,3) p show ?thesis unfolding late_at_def by blast
qed

text \<open>The job as the two first ticks leave it: its attestation is asked for and it waits for the round.\<close>

lemma late_opening:
  "\<exists>k. late_at ([Admit demo_tick_env demo_observed (pending_record 7 demo_commitment demo_entry)] @
      [Begin late_id demo_env, Resume 0] @ [Begin late_id demo_env, Resume 0]) k [] \<and>
    j_state k = request_submitted \<and> j_roundId k = Some 10 \<and> j_abiEncodedRequest k = Some ''0x5265'' \<and>
    js_BigInt (j_totalCallValue k) = Inr 0"
proof -
  let ?admit = "[Admit demo_tick_env demo_observed (pending_record 7 demo_commitment demo_entry)]"
  obtain j where a0: "late_at ?admit j []" "j_state j = observed" "js_BigInt (j_totalCallValue j) = Inr 0"
    using late_admitted by (auto simp: late_at_def sits_def terminal_def simp del: ov_run.simps)
  note st = smooth_steps [OF demo_smooth_any [OF a0(3), where P = demo_options]]
  let ?j1 = "next_job demo_env (j\<lparr>j_abiEncodedRequest := Some ''0x5265'', j_state := request_prepared\<rparr>)"
  let ?j2 = "next_job demo_env (?j1\<lparr>j_roundId := Some 10, j_state := request_submitted\<rparr>)"
  have f: "j_state ?j1 = request_prepared" "j_abiEncodedRequest ?j1 = Some ''0x5265''" by (simp_all add: next_job_def)
  have a1: "late_at (?admit @ [Begin late_id demo_env, Resume 0]) ?j1 []"
    using a0(1)
  proof (rule late_at_step)
    fix x :: executor assume "ex_job x = j"
    from st(1) [OF this a0(2)] show "\<exists>x' es. step demo_options demo_env x = (x', es, Inr ()) \<and> ex_job x' = ?j1" by blast
  qed (simp_all add: a0(2) terminal_def)
  have "late_at ((?admit @ [Begin late_id demo_env, Resume 0]) @ [Begin late_id demo_env, Resume 0]) ?j2 []"
    using a1
  proof (rule late_at_step)
    fix x :: executor assume "ex_job x = ?j1"
    from st(2) [OF this f] show "\<exists>x' es. step demo_options demo_env x = (x', es, Inr ()) \<and> ex_job x' = ?j2" by blast
  qed (simp_all add: f terminal_def)
  then have "late_at (?admit @ [Begin late_id demo_env, Resume 0] @ [Begin late_id demo_env, Resume 0]) ?j2 []"
    unfolding append_assoc .
  moreover have "j_state ?j2 = request_submitted" "j_roundId ?j2 = Some 10" "j_abiEncodedRequest ?j2 = Some ''0x5265''"
    "js_BigInt (j_totalCallValue ?j2) = Inr 0" using a0(3) by (simp_all add: next_job_def stamp_def settled_def)
  ultimately show ?thesis by blast
qed

lemma late_reached:
  "\<exists>k p. late_at late_events k [p] \<and> j_state k = executed \<and> su_id p = late_id \<and> su_obj p = 0 \<and> su_env p = demo_env \<and>
    su_answer p = Inr (RoundFinal True)"
proof -
  let ?evs = "[Admit demo_tick_env demo_observed (pending_record 7 demo_commitment demo_entry)] @
      [Begin late_id demo_env, Resume 0] @ [Begin late_id demo_env, Resume 0]"
  let ?again = "[Begin late_id demo_env, Resume 1]"
  obtain k where a2: "late_at ?evs k []" and k: "j_state k = request_submitted" "j_roundId k = Some 10"
    "j_abiEncodedRequest k = Some ''0x5265''" "js_BigInt (j_totalCallValue k) = Inr 0"
    using late_opening by blast
  note st = smooth_steps [OF demo_smooth_any [OF k(4), where P = demo_options]]
  let ?j3 = "next_job demo_env (k\<lparr>j_state := round_finalized\<rparr>)"
  let ?j4 = "next_job demo_env (?j3\<lparr>j_state := proof_fetched\<rparr>)"
  let ?j5 = "next_job demo_env (?j4\<lparr>j_flareTxHash := Some ''0xhash'', j_state := executed\<rparr>)"
  have f: "j_state ?j3 = round_finalized" "j_state ?j4 = proof_fetched" "j_state ?j5 = executed"
    "j_abiEncodedRequest ?j3 = Some ''0x5265''" "j_abiEncodedRequest ?j4 = Some ''0x5265''"
    "j_roundId ?j3 = Some 10" "j_roundId ?j4 = Some 10" "job_identity ?j4 = job_identity k"
    by (simp_all add: next_job_def k)
  obtain p where p: "su_id p = late_id" "su_obj p = 0" "su_env p = demo_env" "su_answer p = Inr (RoundFinal True)"
    and "late_at (?evs @ [Begin late_id demo_env]) k [p]"
    using late_at_ask [OF a2 k(1,2)] by (metis append_Nil)
  from this(5) have "late_at ((?evs @ [Begin late_id demo_env]) @ ?again) ?j3 [p]"
  proof (rule late_at_step)
    fix x :: executor assume "ex_job x = k"
    from st(3) [OF this k(1,2)] show "\<exists>x' es. step demo_options demo_env x = (x', es, Inr ()) \<and> ex_job x' = ?j3" by blast
  qed (simp_all add: k terminal_def)
  then have "late_at (((?evs @ [Begin late_id demo_env]) @ ?again) @ ?again) ?j4 [p]"
  proof (rule late_at_step)
    fix x :: executor assume "ex_job x = ?j3"
    from st(4) [OF this f(1,4,6)] show "\<exists>x' es. step demo_options demo_env x = (x', es, Inr ()) \<and> ex_job x' = ?j4" by blast
  qed (simp_all add: f terminal_def)
  then have "late_at ((((?evs @ [Begin late_id demo_env]) @ ?again) @ ?again) @ ?again) ?j5 [p]"
  proof (rule late_at_step)
    fix x :: executor assume "ex_job x = ?j4"
    from st(5) [OF this f(2,5,7,8)] show "\<exists>x' es. step demo_options demo_env x = (x', es, Inr ()) \<and> ex_job x' = ?j5" by blast
  qed (simp_all add: f terminal_def)
  then have "late_at late_events ?j5 [p]" by (simp only: late_events_def append_assoc)
  with f(3) p show ?thesis by blast
qed

lemma late_answer_revives_witness:
  "\<exists>s es s'. ov_run demo_options late_events (fresh_overlap demo_fdc []) = (s, es) \<and>
    j_state (ov_objects s ! 0) = executed \<and> ov_live s = [] \<and> ov_do demo_options (Resume 0) s = (s', []) \<and>
    j_state (ov_objects s' ! 0) = round_finalized \<and> map_of (ov_live s') late_id = Some 0"
proof -
  obtain k p s es where s: "ov_run demo_options late_events (fresh_overlap demo_fdc []) = (s, es)" "sits s k"
    "ov_suspended s = [p]" "j_state k = executed"
    and p: "su_id p = late_id" "su_obj p = 0" "su_env p = demo_env" "su_answer p = Inr (RoundFinal True)"
    using late_reached unfolding late_at_def by blast
  obtain s' es' where r: "ov_do demo_options (Resume 0) s = (s', es')" by (rule prod.exhaust)
  have "es' = []" using r s(3) by (auto simp: Let_def split: prod.splits)
  moreover have o: "ov_objects s = [k]" "ov_live s = []" using s(2,4) by (simp_all add: sits_def terminal_def)
  moreover have "j_state (ov_objects s' ! su_obj p) = round_finalized \<and>
      ov_live s' = (if se_write (su_env p) = Written then AList.update (su_id p) (su_obj p) (ov_live s) else ov_live s)"
    by (rule late_answer_revives [OF _ _ p(4) _ _ r]) (simp_all add: s(3) o(1) p)
  then have "j_state (ov_objects s' ! su_obj p) = round_finalized" "map_of (ov_live s') (su_id p) = Some (su_obj p)"
    by (simp_all add: p demo_env_def)
  ultimately have "ov_do demo_options (Resume 0) s = (s', [])" "j_state (ov_objects s ! 0) = executed" "ov_live s = []"
    "j_state (ov_objects s' ! 0) = round_finalized" "map_of (ov_live s') late_id = Some 0"
    using r s(4) p by (simp_all del: ov_do.simps)
  with s(1) show ?thesis by blast
qed

text \<open>Two ticks that find the job before its request is submitted submit it twice.\<close>

lemma submit_asks:
  assumes "j_state j = request_prepared" and "\<And>c. act_value (submitRequest W (j_abiEncodedRequest j)) c = Inr r"
  shows "\<exists>c hub fee. ask P W j c0 = (c, [RequestAttestation hub (j_abiEncodedRequest j) fee], Inr (GotRound r))"
proof -
  obtain hub fee where "act_effects (submitRequest W (j_abiEncodedRequest j)) c0 = [RequestAttestation hub (j_abiEncodedRequest j) fee]"
    using assms(2) [of c0] by (auto elim: submitRequest_InrE)
  then have "act_effects (ask P W j) c0 = [RequestAttestation hub (j_abiEncodedRequest j) fee]"
    "act_value (ask P W j) c0 = Inr (GotRound r)"
    using assms by (simp_all add: ask_def act_simps)
  then show ?thesis unfolding act_effects_def act_value_def by (metis prod.collapse)
qed

lemma overlap_attests_twice:
  assumes "map_of (ov_live s) i = Some a" and "j_state (ov_objects s ! a) = request_prepared"
    and "\<And>c. act_value (submitRequest (se_world E) (j_abiEncodedRequest (ov_objects s ! a))) c = Inr r"
  shows "\<exists>hub fee hub' fee'. snd (ov_run P [Begin i E, Begin i E] s) =
    [(a, RequestAttestation hub (j_abiEncodedRequest (ov_objects s ! a)) fee),
     (a, RequestAttestation hub' (j_abiEncodedRequest (ov_objects s ! a)) fee')]"
proof -
  let ?j = "ov_objects s ! a"
  obtain c hub fee where q: "ask P (se_world E) ?j (ov_fdc s) = (c, [RequestAttestation hub (j_abiEncodedRequest ?j) fee], Inr (GotRound r))"
    using submit_asks [OF assms(2,3)] by blast
  obtain c' hub' fee' where "ask P (se_world E) ?j c = (c', [RequestAttestation hub' (j_abiEncodedRequest ?j) fee'], Inr (GotRound r))"
    using submit_asks [OF assms(2,3)] by blast
  with q assms(1,2) show ?thesis by (simp add: suspends_def)
qed

subsection \<open>Witnesses\<close>

text \<open>A job that was left on disk before its minting transaction, found when its payment is admitted.\<close>

definition left_job :: job where
  "left_job = (new_job 1 (''0x'' @ replicate 64 (CHR ''A'')) demo_create)\<lparr>j_state := proof_fetched,
     j_abiEncodedRequest := Some ''0x5265'', j_roundId := Some 10\<rparr>"

definition left_disk :: "job directory" where
  "left_disk = [(job_file (replicate 64 (CHR ''A'')), JsonFile left_job)]"

definition left_admit :: ov_event where
  "left_admit = Admit demo_tick_env demo_observed (pending_record 7 demo_commitment demo_entry)"

lemma left_created: "create_from demo_tick_env demo_observed (pending_record 7 demo_commitment demo_entry) left_disk =
    (left_disk, Inr left_job)"
  by (simp add: create_from_def pending_record_def demo_entry_def demo_BigInt job_create_def demo_observed_def observe_def
      demo_normalize_bare job_load_def read_json_def left_disk_def Let_def)

lemma left_mints: "\<exists>s. ov_run demo_options [left_admit, Begin late_id demo_env] (fresh_overlap demo_fdc left_disk) =
    (s, [(0, ExecuteDirectMinting ''0xmanager'' demo_proof ''0xab'' 5)])"
proof -
  have f: "j_state left_job = proof_fetched" "j_abiEncodedRequest left_job = Some ''0x5265''" "j_roundId left_job = Some 10"
    "j_userOpData left_job = ''0xab''" "js_BigInt (j_totalCallValue left_job) = Inr 5"
    by (simp_all add: left_job_def new_job_def demo_create_def)
  have p: "act_value (fetchProof demo_world (Some ''0x5265'') (Some 10)) c = Inr demo_proof" for c
    by (simp add: fetchProof_value demo_proof_def)
  have "act_effects (ask demo_options demo_world left_job) demo_fdc = [ExecuteDirectMinting ''0xmanager'' demo_proof ''0xab'' 5]"
    by (simp add: ask_def f act_simps p)
  then obtain c a where "ask demo_options demo_world left_job demo_fdc = (c, [ExecuteDirectMinting ''0xmanager'' demo_proof ''0xab'' 5], a)"
    unfolding act_effects_def by (metis prod.collapse)
  then show ?thesis
    by (simp add: left_admit_def left_created fresh_overlap_def late_id_def [symmetric] suspends_def f(1))
qed

lemma overlap_pays_as_registered_witness:
  "\<exists>s' j. ov_run demo_options [left_admit, Begin late_id demo_env] (fresh_overlap demo_fdc left_disk) =
      (s', [(0, ExecuteDirectMinting ''0xmanager'' demo_proof ''0xab'' 5)]) \<and>
    job_identity (ov_objects s' ! 0) = job_identity j \<and>
    pays_for demo_options (job_identity j) (ExecuteDirectMinting ''0xmanager'' demo_proof ''0xab'' 5)"
proof -
  obtain s where s: "ov_run demo_options [left_admit, Begin late_id demo_env] (fresh_overlap demo_fdc left_disk) =
      (s, [(0, ExecuteDirectMinting ''0xmanager'' demo_proof ''0xab'' 5)])"
    using left_mints by blast
  from overlap_pays_as_registered [OF s, of 0 "ExecuteDirectMinting ''0xmanager'' demo_proof ''0xab'' 5"] s
  show ?thesis by (auto simp del: ov_run.simps pays_for.simps)
qed

lemma overlap_alone_is_sequential_witness:
  "\<exists>s es j0 ls. ov_run demo_options [left_admit, Begin late_id demo_env, Resume 0] (fresh_overlap demo_fdc left_disk) = (s, es) \<and>
    jb.run demo_options j0 ls (ov_objects s ! 0) \<and> sent_by 0 es = concat ls"
proof -
  let ?s0 = "fresh_overlap demo_fdc left_disk" and ?evs = "[left_admit, Begin late_id demo_env, Resume 0]"
  obtain s es where s: "ov_run demo_options ?evs ?s0 = (s, es)" by (rule prod.exhaust)
  have "alone demo_options ?evs ?s0"
    by (simp add: left_admit_def left_created fresh_overlap_def)
  moreover have "length (ov_objects s) = 1" "ov_suspended s = []"
    using s by (auto simp: left_admit_def left_created fresh_overlap_def late_id_def [symmetric] finish_step_def
        Let_def case_prod_beta split: if_splits)
  ultimately show ?thesis
    using overlap_alone_is_sequential [OF s, of 0] s by (auto simp del: ov_run.simps alone.simps)
qed

lemma overlap_apart_is_tick_witness:
  "\<exists>s sv s' es. at_rest s sv \<and> sv_live sv = [(late_id, left_job)] \<and>
    ov_run (so_pipeline demo_service_options) (one_after_another demo_tick_env (sv_live sv)) s = (s', es) \<and>
    map snd es = snd (drive demo_service_options demo_tick_env (sv_live sv) sv)"
proof -
  let ?s = "\<lparr>ov_live = [(late_id, 0)], ov_objects = [left_job], ov_fdc = demo_fdc, ov_disk = left_disk, ov_suspended = []\<rparr>"
  let ?sv = "demo_service\<lparr>sv_live := [(late_id, left_job)], sv_fdc := demo_fdc, sv_jobs := left_disk\<rparr>"
  have r: "at_rest ?s ?sv" by (simp add: at_rest_def ov_ok_def below_def live_view_def)
  show ?thesis using overlap_apart_is_tick [OF r, of demo_service_options demo_tick_env] r by fastforce
qed

end
