(* ===== verification/Crowd.thy ===== *)
theory Crowd
  imports Overlap
begin

text \<open>
  Whole ticks that overlap. \<open>Overlap\<close> cuts the second loop of a tick at its awaits and takes the admission
  of a payment for one event. Here the first loop is cut as well: the poll waits for \<open>account_tx\<close> and for
  every lookup in the store, and the admission of a payment for another lookup, for the file of the job and
  for its first write. Any number of ticks are at any of these places while registrations arrive and steps
  go on.
\<close>

subsection \<open>The poll in two parts\<close>

text \<open>One round of the loop of \<open>poll\<close> up to the lookup, with the commitment to look up, and from it on.\<close>

definition poll_filter :: "account_tx_entry \<Rightarrow> watcher \<Rightarrow> watcher \<times> js_str option" where
  "poll_filter entry w =
    (if e_validated entry = Some False \<or> \<not> is_payment (entry_tx entry) then (w, None)
     else
       let tx = the (entry_tx entry);
           w1 = (if entry_ledger entry > w_lastLedger w
                 then w\<lparr>w_lastLedger := entry_ledger entry\<rparr> else w)
       in (case entry_hash entry tx of
             Some h \<Rightarrow> if h \<noteq> [] \<and> h \<in> w_seen w1 then (w1, None) else (w1, commitmentFromMemos tx)
           | None \<Rightarrow> (w1, commitmentFromMemos tx)))"

definition poll_report ::
    "account_tx_entry \<Rightarrow> js_str \<Rightarrow> pending_user_op option \<Rightarrow> watcher \<Rightarrow> watcher \<times> observed_payment option" where
  "poll_report entry c pending w =
    (let tx = the (entry_tx entry) in
     case pending of
       None \<Rightarrow> (w, None)
     | Some _ \<Rightarrow>
        (case entry_hash entry tx of
           None \<Rightarrow> (w, None)
         | Some h \<Rightarrow> if h = [] then (w, None)
             else (w\<lparr>w_seen := insert h (w_seen w)\<rparr>, Some (observe h c entry tx))))"

lemma poll_entry_in_two:
  "poll_entry e w s = (case poll_filter e w of
     (w1, None) \<Rightarrow> (w1, s, None)
   | (w1, Some c) \<Rightarrow>
      (let (s1, pending) = ps_get c s; (w2, found) = poll_report e c pending w1 in (w2, s1, found)))"
  by (auto simp: poll_entry_def poll_filter_def poll_report_def Let_def case_prod_beta split: option.split)

text \<open>The entries that are passed over before the next lookup.\<close>

fun scan :: "account_tx_entry list \<Rightarrow> watcher \<Rightarrow> watcher \<times> (account_tx_entry \<times> js_str \<times> account_tx_entry list) option" where
  "scan [] w = (w, None)"
| "scan (e # es) w = (case poll_filter e w of
     (w1, None) \<Rightarrow> scan es w1
   | (w1, Some c) \<Rightarrow> (w1, Some (e, c, es)))"

subsection \<open>Where a tick is\<close>

text \<open>
  The awaits of the first loop: \<open>account_tx\<close>; the lookup of a poll, with the payments it has found; the
  lookup of \<open>#tick\<close>; \<open>load\<close> and \<open>save\<close> of \<open>create\<close>. \<open>Past\<close>: the loop is over, with the exception that
  ended it, if one did.
\<close>

datatype tick_phase =
    Asking account_tx_params
  | Looking account_tx_entry js_str "account_tx_entry list" "observed_payment list"
  | Fetching observed_payment "observed_payment list"
  | Loading observed_payment js_str create_params "observed_payment list"
  | Saving int observed_payment job "observed_payment list"
  | Past "js_error option"

record crowd =
  cr_watcher :: watcher
  cr_store :: pending_store
  cr_over :: overlap
  cr_ticks :: "tick_phase list"

fun next_payment :: "observed_payment list \<Rightarrow> js_str list \<Rightarrow> tick_phase" where
  "next_payment [] live = Past None"
| "next_payment (p # ps) live = (if xrplTxId p \<in> set live then next_payment ps live else Fetching p ps)"

definition live_keys :: "crowd \<Rightarrow> js_str list" where
  "live_keys s = map fst (ov_live (cr_over s))"

definition in_phase :: "nat \<Rightarrow> tick_phase \<Rightarrow> crowd \<Rightarrow> crowd" where
  "in_phase k ph s = s\<lparr>cr_ticks := (cr_ticks s)[k := ph]\<rparr>"

definition go_on :: "nat \<Rightarrow> observed_payment list \<Rightarrow> crowd \<Rightarrow> crowd" where
  "go_on k ps s = in_phase k (next_payment ps (live_keys s)) s"

definition poll_on :: "nat \<Rightarrow> account_tx_entry list \<Rightarrow> observed_payment list \<Rightarrow> crowd \<Rightarrow> crowd" where
  "poll_on k es found s = (case scan es (cr_watcher s) of
     (w, Some (e, c, rest)) \<Rightarrow> in_phase k (Looking e c rest found) (s\<lparr>cr_watcher := w\<rparr>)
   | (w, None) \<Rightarrow> go_on k found (s\<lparr>cr_watcher := w\<rparr>))"

text \<open>The arguments of \<open>create\<close> and the name it gives the job, computed before its first await.\<close>

definition create_begin :: "observed_payment \<Rightarrow> pending_user_op \<Rightarrow> js_error + js_str \<times> create_params" where
  "create_begin p r =
    bind_err (js_BigInt (po_totalCallValue r)) (\<lambda>v.
    bind_err (js_BigInt (po_nonce r)) (\<lambda>n.
    bind_err (normalizeXrplTxId (xrplTxId p)) (\<lambda>txId.
    Inr (txId, \<lparr>cp_xrplTxId = xrplTxId p, cp_userOpData = po_userOpData r, cp_totalCallValue = v,
      cp_personalAccount = po_personalAccount r, cp_nonce = n\<rparr>))))"

definition enter_job :: "observed_payment \<Rightarrow> job \<Rightarrow> overlap \<Rightarrow> overlap" where
  "enter_job p j s = s\<lparr>ov_objects := ov_objects s @ [j],
     ov_live := AList.update (xrplTxId p) (length (ov_objects s)) (ov_live s)\<rparr>"

subsection \<open>What can happen\<close>

text \<open>
  A tick starts; \<open>account_tx\<close> answers a tick; a lookup, a \<open>load\<close> (with the clock read after it) or a write
  of a tick ends; a step starts or ends; an operation is registered.
\<close>

datatype crowd_event =
    Started
  | Replied nat "account_tx_params \<Rightarrow> js_error + account_tx_entry list option"
  | LookedUp nat
  | Loaded nat int
  | Wrote nat write_outcome
  | StepBegins js_str step_env
  | StepEnds nat
  | Registers int write_outcome registration

definition phase_of :: "nat \<Rightarrow> crowd \<Rightarrow> tick_phase" where
  "phase_of k s = (if k < length (cr_ticks s) then cr_ticks s ! k else Past None)"

fun replied :: "nat \<Rightarrow> (account_tx_params \<Rightarrow> js_error + account_tx_entry list option) \<Rightarrow> tick_phase \<Rightarrow> crowd \<Rightarrow> crowd" where
  "replied k rpc (Asking q) s = (case rpc q of
     Inl e \<Rightarrow> in_phase k (Past (Some e)) s
   | Inr transactions \<Rightarrow> poll_on k (case transactions of None \<Rightarrow> [] | Some es \<Rightarrow> es) [] s)"
| "replied k rpc _ s = s"

fun looked_up :: "nat \<Rightarrow> tick_phase \<Rightarrow> crowd \<Rightarrow> crowd" where
  "looked_up k (Looking e c rest found) s =
    (let (st, pending) = ps_get c (cr_store s);
         (w, f) = poll_report e c pending (cr_watcher s)
     in poll_on k rest (case f of None \<Rightarrow> found | Some p \<Rightarrow> found @ [p]) (s\<lparr>cr_watcher := w, cr_store := st\<rparr>))"
| "looked_up k (Fetching p ps) s =
    (let (st, pending) = ps_get (ob_commitment p) (cr_store s); s1 = s\<lparr>cr_store := st\<rparr>
     in case pending of
          None \<Rightarrow> go_on k ps s1
        | Some r \<Rightarrow> (case create_begin p r of
            Inl e \<Rightarrow> in_phase k (Past (Some e)) s1
          | Inr (txId, cp) \<Rightarrow> in_phase k (Loading p txId cp ps) s1))"
| "looked_up k _ s = s"

fun loaded :: "nat \<Rightarrow> int \<Rightarrow> tick_phase \<Rightarrow> crowd \<Rightarrow> crowd" where
  "loaded k now (Loading p txId cp ps) s =
    (case job_load (js_slice_from 2 txId) (ov_disk (cr_over s)) of
       Some existing \<Rightarrow> go_on k ps (s\<lparr>cr_over := enter_job p existing (cr_over s)\<rparr>)
     | None \<Rightarrow> in_phase k (Saving now p (new_job now txId cp) ps) s)"
| "loaded k now _ s = s"

fun wrote :: "nat \<Rightarrow> write_outcome \<Rightarrow> tick_phase \<Rightarrow> crowd \<Rightarrow> crowd" where
  "wrote k w (Saving now p j ps) s =
    (case job_save now w j (ov_disk (cr_over s)) of
       (d, j', Inl e) \<Rightarrow> in_phase k (Past (Some e)) (s\<lparr>cr_over := (cr_over s)\<lparr>ov_disk := d\<rparr>\<rparr>)
     | (d, j', Inr _) \<Rightarrow> go_on k ps (s\<lparr>cr_over := enter_job p j' ((cr_over s)\<lparr>ov_disk := d\<rparr>)\<rparr>))"
| "wrote k w _ s = s"

fun crowd_do :: "service_options \<Rightarrow> crowd_event \<Rightarrow> crowd \<Rightarrow> crowd \<times> (nat \<times> tx_request) list" where
  "crowd_do Opt Started s =
    (s\<lparr>cr_ticks := cr_ticks s @ [Asking (poll_params (so_coreVaultAddress Opt) POLL_LIMIT (cr_watcher s))]\<rparr>, [])"
| "crowd_do Opt (Replied k rpc) s = (replied k rpc (phase_of k s) s, [])"
| "crowd_do Opt (LookedUp k) s = (looked_up k (phase_of k s) s, [])"
| "crowd_do Opt (Loaded k now) s = (loaded k now (phase_of k s) s, [])"
| "crowd_do Opt (Wrote k w) s = (wrote k w (phase_of k s) s, [])"
| "crowd_do Opt (StepBegins i E) s =
    (case ov_do (so_pipeline Opt) (Begin i E) (cr_over s) of (v, es) \<Rightarrow> (s\<lparr>cr_over := v\<rparr>, es))"
| "crowd_do Opt (StepEnds n) s =
    (case ov_do (so_pipeline Opt) (Resume n) (cr_over s) of (v, es) \<Rightarrow> (s\<lparr>cr_over := v\<rparr>, es))"
| "crowd_do Opt (Registers now w entry) s =
    (s\<lparr>cr_store := fst (ps_register (so_viem Opt) now w entry (cr_store s))\<rparr>, [])"

fun crowd_run :: "service_options \<Rightarrow> crowd_event list \<Rightarrow> crowd \<Rightarrow> crowd \<times> (nat \<times> tx_request) list" where
  "crowd_run Opt [] s = (s, [])"
| "crowd_run Opt (ev # evs) s =
    (let (s1, es) = crowd_do Opt ev s; (s2, es2) = crowd_run Opt evs s1 in (s2, es @ es2))"

lemma crowd_run_append: "crowd_run Opt (evs @ evs') s =
    (let (s1, es) = crowd_run Opt evs s; (s2, es2) = crowd_run Opt evs' s1 in (s2, es @ es2))"
  by (induction evs arbitrary: s) (simp_all add: case_prod_beta Let_def)

lemma in_phase_simps [simp]:
  "cr_watcher (in_phase k ph s) = cr_watcher s" "cr_store (in_phase k ph s) = cr_store s"
  "cr_over (in_phase k ph s) = cr_over s" "length (cr_ticks (in_phase k ph s)) = length (cr_ticks s)"
  "in_phase k ph (in_phase k ph' s) = in_phase k ph s"
  "in_phase k ph (in_phase k ph' s\<lparr>cr_watcher := w, cr_store := st\<rparr>) = in_phase k ph (s\<lparr>cr_watcher := w, cr_store := st\<rparr>)"
  "in_phase k ph (in_phase k ph' s\<lparr>cr_store := st\<rparr>) = in_phase k ph (s\<lparr>cr_store := st\<rparr>)"
  "in_phase k ph (in_phase k ph' s\<lparr>cr_over := v\<rparr>) = in_phase k ph (s\<lparr>cr_over := v\<rparr>)"
  "k < length (cr_ticks s) \<Longrightarrow> phase_of k (in_phase k ph s) = ph"
  by (simp_all add: in_phase_def phase_of_def)

subsection \<open>A tick on its own\<close>

text \<open>The event that takes the first loop of a tick to its next await, with the answers of one environment.\<close>

fun own_event :: "tick_env \<Rightarrow> nat \<Rightarrow> tick_phase \<Rightarrow> crowd_event option" where
  "own_event E k (Asking _) = Some (Replied k (te_rpc E))"
| "own_event E k (Looking _ _ _ _) = Some (LookedUp k)"
| "own_event E k (Fetching _ _) = Some (LookedUp k)"
| "own_event E k (Loading _ _ _ _) = Some (Loaded k (te_createNow E))"
| "own_event E k (Saving _ p _ _) = Some (Wrote k (te_createWrite E (xrplTxId p)))"
| "own_event E k (Past _) = None"

text \<open>The events of a tick that has the process to itself, from the place where it is.\<close>

fun own_events :: "service_options \<Rightarrow> tick_env \<Rightarrow> nat \<Rightarrow> nat \<Rightarrow> crowd \<Rightarrow> crowd_event list" where
  "own_events Opt E k 0 s = []"
| "own_events Opt E k (Suc n) s = (case own_event E k (phase_of k s) of
     None \<Rightarrow> []
   | Some ev \<Rightarrow> ev # own_events Opt E k n (fst (crowd_do Opt ev s)))"

definition gets_to :: "service_options \<Rightarrow> tick_env \<Rightarrow> nat \<Rightarrow> crowd \<Rightarrow> crowd \<Rightarrow> bool" where
  "gets_to Opt E k s t \<longleftrightarrow> (\<exists>n. crowd_run Opt (own_events Opt E k n s) s = (t, []))"

lemma gets_to_refl: "gets_to Opt E k s s"
  unfolding gets_to_def by (rule exI [of _ 0]) simp

lemma gets_to_step:
  assumes "own_event E k (phase_of k s) = Some ev" and "crowd_do Opt ev s = (s1, [])" and "gets_to Opt E k s1 t"
  shows "gets_to Opt E k s t"
proof -
  obtain n where "crowd_run Opt (own_events Opt E k n s1) s1 = (t, [])" using assms(3) by (auto simp: gets_to_def)
  with assms(1,2) have "crowd_run Opt (own_events Opt E k (Suc n) s) s = (t, [])" by (simp del: crowd_do.simps)
  then show ?thesis unfolding gets_to_def by blast
qed

lemma own_event_silent: "own_event E k ph = Some ev \<Longrightarrow> snd (crowd_do Opt ev s) = []"
  by (cases ph) auto

text \<open>The rest of a poll: the entries to come, after the payments found so far.\<close>

lemma poll_on_pass: "poll_filter e (cr_watcher s) = (w, None) \<Longrightarrow>
    poll_on k (e # es) found s = poll_on k es found (s\<lparr>cr_watcher := w\<rparr>)"
  by (simp add: poll_on_def)

lemma poll_on_phase: "poll_on k es found (in_phase k ph s) = poll_on k es found s"
  by (simp add: poll_on_def go_on_def live_keys_def in_phase_def split: prod.split option.split)

lemma poll_alone:
  assumes "k < length (cr_ticks s)" and "poll_loop es (cr_watcher s) (cr_store s) = (w, st, f)"
    and "gets_to Opt E k (go_on k (found @ f) (s\<lparr>cr_watcher := w, cr_store := st\<rparr>)) t"
  shows "gets_to Opt E k (poll_on k es found s) t"
  using assms
proof (induction es arbitrary: found s f)
  case Nil
  then have "s\<lparr>cr_watcher := w, cr_store := st\<rparr> = s\<lparr>cr_watcher := cr_watcher s\<rparr>" "f = []"
    by (cases s; simp)+
  with Nil.prems(3) show ?case by (simp add: poll_on_def)
next
  case (Cons e es)
  obtain w1 c where pf: "poll_filter e (cr_watcher s) = (w1, c)" by (rule prod.exhaust)
  show ?case
  proof (cases c)
    case None
    with pf Cons.prems(2) have "poll_loop es w1 (cr_store s) = (w, st, f)"
      by (simp add: poll_entry_in_two Let_def case_prod_beta)
    with Cons.prems(1,3) have "gets_to Opt E k (poll_on k es found (s\<lparr>cr_watcher := w1\<rparr>)) t"
      by (intro Cons.IH [of "s\<lparr>cr_watcher := w1\<rparr>" f]) simp_all
    with pf None show ?thesis by (simp add: poll_on_pass)
  next
    case (Some c)
    obtain s1 pending where g: "ps_get c (cr_store s) = (s1, pending)" by (rule prod.exhaust)
    obtain w2 r where r: "poll_report e c pending w1 = (w2, r)" by (rule prod.exhaust)
    define found' where "found' = (case r of None \<Rightarrow> found | Some p \<Rightarrow> found @ [p])"
    have pe: "poll_entry e (cr_watcher s) (cr_store s) = (w2, s1, r)"
      using pf Some g r by (simp add: poll_entry_in_two)
    obtain wx sx f1 where l: "poll_loop es w2 s1 = (wx, sx, f1)" by (rule prod_cases3)
    then have f1: "poll_loop es w2 s1 = (w, st, f1)" "found @ f = found' @ f1"
      using Cons.prems(2) pe by (auto simp: found'_def split: option.splits)
    let ?s1 = "s\<lparr>cr_watcher := w2, cr_store := s1\<rparr>"
    have "gets_to Opt E k (poll_on k es found' ?s1) t"
      using Cons.prems(1,3) f1 by (intro Cons.IH [of ?s1 f1]) simp_all
    moreover have e: "poll_on k (e # es) found s = in_phase k (Looking e c es found) (s\<lparr>cr_watcher := w1\<rparr>)"
      using pf Some by (simp add: poll_on_def)
    moreover have "poll_on k es found' (in_phase k ph s'\<lparr>cr_watcher := w2, cr_store := s1\<rparr>) =
        poll_on k es found' (s'\<lparr>cr_watcher := w2, cr_store := s1\<rparr>)" for ph s'
      by (simp add: poll_on_def go_on_def live_keys_def in_phase_def split: prod.split option.split)
    then have "crowd_do Opt (LookedUp k) (in_phase k (Looking e c es found) (s\<lparr>cr_watcher := w1\<rparr>)) =
        (poll_on k es found' ?s1, [])"
      using Cons.prems(1) g r by (simp add: found'_def)
    ultimately show ?thesis
      using Cons.prems(1)
      by - (rule gets_to_step [of E k _ "LookedUp k" Opt "poll_on k es found' ?s1"], simp_all del: crowd_do.simps)
  qed
qed

text \<open>The crowd and a service: the same watcher and store, the same jobs live, no step suspended.\<close>

definition crowd_rest :: "crowd \<Rightarrow> service \<Rightarrow> bool" where
  "crowd_rest s sv \<longleftrightarrow> at_rest (cr_over s) sv \<and> cr_watcher s = sv_watcher sv \<and> cr_store s = sv_store sv"

lemma create_from_begin: "create_from E p r d = (case create_begin p r of
    Inl e \<Rightarrow> (d, Inl e)
  | Inr (txId, cp) \<Rightarrow> (case job_load (js_slice_from 2 txId) d of
      Some existing \<Rightarrow> (d, Inr existing)
    | None \<Rightarrow> (case job_save (te_createNow E) (te_createWrite E (xrplTxId p)) (new_job (te_createNow E) txId cp) d of
        (d', j', w) \<Rightarrow> (d', bind_err w (\<lambda>_. Inr j')))))"
  by (auto simp: create_from_def create_begin_def job_create_def Let_def split: sum.split option.split)

lemma rest_keys: "at_rest v sv \<Longrightarrow> map fst (sv_live sv) = map fst (ov_live v)"
  by (auto simp: at_rest_def live_view_def o_def split_def dest: sym)

lemma enter_at_rest:
  assumes "at_rest v sv" and "xrplTxId p \<notin> fst ` set (sv_live sv)"
  shows "at_rest (enter_job p j (v\<lparr>ov_disk := d\<rparr>))
    (sv\<lparr>sv_jobs := d, sv_live := AList.update (xrplTxId p) j (sv_live sv)\<rparr>)"
proof -
  note r = assms(1) [unfolded at_rest_def]
  have keys: "fst ` set (sv_live sv) = fst ` set (ov_live v)"
    using rest_keys [OF assms(1)] by (metis set_map)
  have new: "xrplTxId p \<notin> fst ` set (ov_live v)" using assms(2) unfolding keys .
  have up: "AList.update i x al = al @ [(i, x)]" if "i \<notin> fst ` set al" for i :: js_str and x :: 'x and al
    using that by (induction al) auto
  have "a < length (ov_objects v)" if "(i, a) \<in> set (ov_live v)" for i a
    using r that by (auto simp: ov_ok_def below_def)
  then have "live_view (enter_job p j (v\<lparr>ov_disk := d\<rparr>)) = live_view v @ [(xrplTxId p, j)]"
    using new by (auto simp: live_view_def enter_job_def up nth_append)
  moreover have "ov_ok (enter_job p j (v\<lparr>ov_disk := d\<rparr>))"
    using r by (auto simp: ov_ok_def enter_job_def intro: below_update below_Suc)
  moreover have "length (ov_objects v) \<notin> snd ` set (ov_live v)"
    using r by (fastforce simp: ov_ok_def below_def)
  ultimately show ?thesis
    using r assms(2) new by (auto simp: at_rest_def up enter_job_def)
qed

text \<open>The rest of the first loop.\<close>

lemma rest_store: "crowd_rest s sv \<Longrightarrow> crowd_rest (s\<lparr>cr_store := st\<rparr>) (sv\<lparr>sv_store := st\<rparr>)"
  by (simp add: crowd_rest_def at_rest_def)

lemma rest_phase [simp]: "crowd_rest (in_phase k ph s) sv \<longleftrightarrow> crowd_rest s sv"
  by (simp add: crowd_rest_def)

lemma own_step:
  assumes "k < length (cr_ticks s)" and "own_event E k ph = Some ev" and "crowd_do Opt ev (in_phase k ph s) = (s1, [])"
    and "gets_to Opt E k s1 t"
  shows "gets_to Opt E k (in_phase k ph s) t"
  using assms by - (rule gets_to_step [of E k _ ev Opt s1], simp_all del: crowd_do.simps)

text \<open>Where \<open>create\<close> takes the loop: on with the job entered, or out of it.\<close>

definition created_to :: "nat \<Rightarrow> observed_payment \<Rightarrow> observed_payment list \<Rightarrow> job directory \<times> (js_error + job) \<Rightarrow> crowd \<Rightarrow> crowd" where
  "created_to k p ps c s = (case c of
     (d, Inl e) \<Rightarrow> in_phase k (Past (Some e)) (s\<lparr>cr_over := (cr_over s)\<lparr>ov_disk := d\<rparr>\<rparr>)
   | (d, Inr j) \<Rightarrow> go_on k ps (s\<lparr>cr_over := enter_job p j ((cr_over s)\<lparr>ov_disk := d\<rparr>)\<rparr>))"

lemma create_alone:
  assumes "k < length (cr_ticks s)" and "create_begin p r = Inr (txId, cp)"
    and "gets_to Opt E k (created_to k p ps (create_from E p r (ov_disk (cr_over s))) s) t"
  shows "gets_to Opt E k (in_phase k (Loading p txId cp ps) s) t"
proof (cases "job_load (js_slice_from 2 txId) (ov_disk (cr_over s))")
  case (Some j)
  have "crowd_do Opt (Loaded k (te_createNow E)) (in_phase k (Loading p txId cp ps) s) =
      (created_to k p ps (create_from E p r (ov_disk (cr_over s))) s, [])"
    using assms(1,2) Some by (simp add: created_to_def create_from_begin go_on_def live_keys_def)
  then show ?thesis using assms(3) by - (rule own_step [OF assms(1)], simp_all del: crowd_do.simps)
next
  case None
  let ?j = "new_job (te_createNow E) txId cp" and ?w = "te_createWrite E (xrplTxId p)"
  obtain d' j' w where sv: "job_save (te_createNow E) ?w ?j (ov_disk (cr_over s)) = (d', j', w)" by (rule prod_cases3)
  have "crowd_do Opt (Loaded k (te_createNow E)) (in_phase k (Loading p txId cp ps) s) =
      (in_phase k (Saving (te_createNow E) p ?j ps) s, [])"
    using assms(1) None by simp
  moreover have "crowd_do Opt (Wrote k ?w) (in_phase k (Saving (te_createNow E) p ?j ps) s) =
      (created_to k p ps (create_from E p r (ov_disk (cr_over s))) s, [])"
    using assms(1,2) None sv
    by (cases w) (simp_all add: created_to_def create_from_begin go_on_def live_keys_def)
  then have "gets_to Opt E k (in_phase k (Saving (te_createNow E) p ?j ps) s) t"
    using assms(3) by - (rule own_step [OF assms(1)], simp_all del: crowd_do.simps)
  ultimately show ?thesis by - (rule own_step [OF assms(1)], simp_all del: crowd_do.simps)
qed

lemma admit_alone:
  fixes s :: crowd
  assumes "k < length (cr_ticks s)" and "ps_get (ob_commitment p) (cr_store s) = (st, r)"
    and "gets_to Opt E k (case r of None \<Rightarrow> go_on k ps (s\<lparr>cr_store := st\<rparr>)
      | Some rec \<Rightarrow> created_to k p ps (create_from E p rec (ov_disk (cr_over s))) (s\<lparr>cr_store := st\<rparr>)) t"
  shows "gets_to Opt E k (in_phase k (Fetching p ps) s) t"
proof (cases r)
  case None
  then have "crowd_do Opt (LookedUp k) (in_phase k (Fetching p ps) s) = (go_on k ps (s\<lparr>cr_store := st\<rparr>), [])"
    using assms(1,2) by (simp add: go_on_def live_keys_def)
  then show ?thesis using None assms(3) by - (rule own_step [OF assms(1)], simp_all del: crowd_do.simps)
next
  case (Some rec)
  show ?thesis
  proof (cases "create_begin p rec")
    case (Inl e)
    let ?t = "in_phase k (Past (Some e)) (s\<lparr>cr_store := st\<rparr>)"
    have "crowd_do Opt (LookedUp k) (in_phase k (Fetching p ps) s) = (?t, [])" using assms(1,2) Some Inl by simp
    moreover have "gets_to Opt E k ?t t" using assms(3) Some Inl by (simp add: created_to_def create_from_begin)
    ultimately show ?thesis by - (rule own_step [OF assms(1)], simp_all del: crowd_do.simps)
  next
    case (Inr b)
    obtain txId cp where b: "b = (txId, cp)" by (rule prod.exhaust)
    have "crowd_do Opt (LookedUp k) (in_phase k (Fetching p ps) s) =
        (in_phase k (Loading p txId cp ps) (s\<lparr>cr_store := st\<rparr>), [])"
      using assms(1,2) Some Inr b by simp
    moreover have "gets_to Opt E k (in_phase k (Loading p txId cp ps) (s\<lparr>cr_store := st\<rparr>)) t"
      by (rule create_alone [of k _ p rec]) (use assms(1,3) Some Inr b in simp_all)
    ultimately show ?thesis by - (rule own_step [OF assms(1)], simp_all del: crowd_do.simps)
  qed
qed

lemma created_rest:
  assumes "crowd_rest s sv" and "xrplTxId p \<notin> fst ` set (sv_live sv)"
  shows "crowd_rest (s\<lparr>cr_over := enter_job p j ((cr_over s)\<lparr>ov_disk := d\<rparr>)\<rparr>)
      (sv\<lparr>sv_jobs := d, sv_live := AList.update (xrplTxId p) j (sv_live sv)\<rparr>)"
    and "crowd_rest (s\<lparr>cr_over := (cr_over s)\<lparr>ov_disk := d\<rparr>\<rparr>) (sv\<lparr>sv_jobs := d\<rparr>)"
  using assms enter_at_rest [of "cr_over s" sv p j d]
  by (simp_all add: crowd_rest_def at_rest_def ov_ok_def live_view_def)

text \<open>What the pass of one tick over new payments comes to when no other tick moves.\<close>

definition takes_in :: "service_options \<Rightarrow> tick_env \<Rightarrow> nat \<Rightarrow> crowd \<Rightarrow> service \<times> (js_error + unit) \<Rightarrow> bool" where
  "takes_in Opt E k s out \<longleftrightarrow> (\<exists>t. gets_to Opt E k s t \<and> crowd_rest t (fst out) \<and>
    phase_of k t = Past (case snd out of Inl e \<Rightarrow> Some e | Inr _ \<Rightarrow> None))"

lemma created_alone:
  assumes rest: "crowd_rest s sv" and k: "k < length (cr_ticks s)" and new: "xrplTxId p \<notin> fst ` set (sv_live sv)"
    and on: "\<And>s' sv'. crowd_rest s' sv' \<Longrightarrow> k < length (cr_ticks s') \<Longrightarrow> takes_in Opt E k (go_on k ps s') (intake E ps sv')"
  shows "takes_in Opt E k (created_to k p ps (d, x) s) (case x of
      Inl e \<Rightarrow> (sv\<lparr>sv_jobs := d\<rparr>, Inl e)
    | Inr j \<Rightarrow> intake E ps (sv\<lparr>sv_jobs := d, sv_live := AList.update (xrplTxId p) j (sv_live sv)\<rparr>))"
proof (cases x)
  case (Inl e)
  then show ?thesis
    using created_rest(2) [OF rest new, of d] k gets_to_refl
    by (auto simp: takes_in_def created_to_def intro!: exI [of _ "created_to k p ps (d, Inl e) s"])
next
  case (Inr j)
  let ?s' = "s\<lparr>cr_over := enter_job p j ((cr_over s)\<lparr>ov_disk := d\<rparr>)\<rparr>"
  have "created_to k p ps (d, x) s = go_on k ps ?s'" by (simp add: created_to_def Inr)
  with on [OF created_rest(1) [OF rest new, of j d]] k show ?thesis by (simp add: Inr)
qed

lemma intake_takes_in:
  assumes "crowd_rest s sv" and "k < length (cr_ticks s)"
  shows "takes_in Opt E k (go_on k ps s) (intake E ps sv)"
  using assms
proof (induction ps arbitrary: s sv)
  case Nil
  then show ?case unfolding takes_in_def by (intro exI [of _ "go_on k [] s"]) (simp add: gets_to_refl go_on_def)
next
  case (Cons p ps)
  have mem: "xrplTxId p \<in> set (live_keys s) \<longleftrightarrow> xrplTxId p \<in> fst ` set (sv_live sv)"
    using rest_keys [of "cr_over s" sv] Cons.prems(1) by (metis crowd_rest_def live_keys_def set_map)
  show ?case
  proof (cases "xrplTxId p \<in> fst ` set (sv_live sv)")
    case True
    then have "go_on k (p # ps) s = go_on k ps s" "intake E (p # ps) sv = intake E ps sv"
      using mem by (simp_all add: go_on_def intake.simps(2))
    with Cons.IH [OF Cons.prems] show ?thesis by simp
  next
    case new: False
    obtain st r where g: "ps_get (ob_commitment p) (cr_store s) = (st, r)" by (rule prod.exhaust)
    let ?s1 = "s\<lparr>cr_store := st\<rparr>" and ?sv1 = "sv\<lparr>sv_store := st\<rparr>"
    have rest: "crowd_rest ?s1 ?sv1" by (rule rest_store [OF Cons.prems(1)])
    have eq: "sv_store sv = cr_store s" "sv_jobs sv = ov_disk (cr_over s)"
      using Cons.prems(1) by (simp_all add: crowd_rest_def at_rest_def)
    have "go_on k (p # ps) s = in_phase k (Fetching p ps) s" using new mem by (simp add: go_on_def)
    then have to: "takes_in Opt E k (go_on k (p # ps) s) out" if "takes_in Opt E k (case r of None \<Rightarrow> go_on k ps ?s1
        | Some rec \<Rightarrow> created_to k p ps (create_from E p rec (ov_disk (cr_over s))) ?s1) out" for out
      using admit_alone [OF Cons.prems(2) g] that unfolding takes_in_def by metis
    show ?thesis
    proof (cases r)
      case None
      then have "intake E (p # ps) sv = intake E ps ?sv1" using new g eq by (simp add: intake.simps(2))
      with None to Cons.IH [OF rest] Cons.prems(2) show ?thesis by auto
    next
      case (Some rec)
      obtain d x where c: "create_from E p rec (ov_disk (cr_over s)) = (d, x)" by (rule prod.exhaust)
      have "intake E (p # ps) sv = (case x of Inl e \<Rightarrow> (?sv1\<lparr>sv_jobs := d\<rparr>, Inl e)
          | Inr j \<Rightarrow> intake E ps (?sv1\<lparr>sv_jobs := d, sv_live := AList.update (xrplTxId p) j (sv_live ?sv1)\<rparr>))"
        using new g eq Some c by (simp add: intake.simps(2) split: sum.split)
      with created_alone [OF rest _ _ Cons.IH, of p d x] new Cons.prems(2) to Some c show ?thesis by simp
    qed
  qed
qed

lemma intake_alone:
  assumes "crowd_rest s sv" and "k < length (cr_ticks s)"
  shows "\<exists>t. gets_to Opt E k (go_on k ps s) t \<and> crowd_rest t (fst (intake E ps sv)) \<and>
    phase_of k t = Past (case snd (intake E ps sv) of Inl e \<Rightarrow> Some e | Inr _ \<Rightarrow> None)"
  using intake_takes_in [OF assms, of Opt E ps] unfolding takes_in_def .

lemma watch_alone:
  assumes "crowd_rest s sv"
  defines "k \<equiv> length (cr_ticks s)"
  shows "\<exists>t. gets_to Opt E k (fst (crowd_do Opt Started s)) t \<and> crowd_rest t (fst (watch Opt E sv))"
proof -
  let ?q = "poll_params (so_coreVaultAddress Opt) POLL_LIMIT (cr_watcher s)"
  let ?s0 = "s\<lparr>cr_ticks := cr_ticks s @ [Past None]\<rparr>"
  have s0: "fst (crowd_do Opt Started s) = in_phase k (Asking ?q) ?s0" by (simp add: in_phase_def k_def)
  have k0: "k < length (cr_ticks ?s0)" by (simp add: k_def)
  have r0: "crowd_rest ?s0 sv" and eq: "sv_watcher sv = cr_watcher s" "sv_store sv = cr_store s"
    using assms(1) by (simp_all add: crowd_rest_def)
  show ?thesis
  proof (cases "te_rpc E ?q")
    case (Inl e)
    let ?t = "in_phase k (Past (Some e)) ?s0"
    have "crowd_do Opt (Replied k (te_rpc E)) (in_phase k (Asking ?q) ?s0) = (?t, [])" using k0 Inl by simp
    then have "gets_to Opt E k (in_phase k (Asking ?q) ?s0) ?t"
      using gets_to_refl by - (rule own_step [OF k0], simp_all del: crowd_do.simps)
    moreover have "fst (watch Opt E sv) = sv" using Inl eq by (simp add: watch_def poll_def)
    ultimately show ?thesis using s0 r0 by (intro exI [of _ ?t]) simp
  next
    case (Inr tr)
    let ?es = "case tr of None \<Rightarrow> [] | Some es \<Rightarrow> es"
    obtain w st f where l: "poll_loop ?es (cr_watcher ?s0) (cr_store ?s0) = (w, st, f)" by (rule prod_cases3)
    let ?s1 = "?s0\<lparr>cr_watcher := w, cr_store := st\<rparr>" and ?sv1 = "sv\<lparr>sv_watcher := w, sv_store := st\<rparr>"
    have "crowd_rest ?s1 ?sv1" using r0 by (simp add: crowd_rest_def at_rest_def)
    from intake_alone [OF this, of k Opt E f] k0
    obtain t where t: "gets_to Opt E k (go_on k f ?s1) t" "crowd_rest t (fst (intake E f ?sv1))" by auto
    have "gets_to Opt E k (poll_on k ?es [] ?s0) t" by (rule poll_alone [OF k0 l]) (simp add: t(1))
    moreover have "crowd_do Opt (Replied k (te_rpc E)) (in_phase k (Asking ?q) ?s0) = (poll_on k ?es [] ?s0, [])"
      using k0 Inr by (simp add: poll_on_phase)
    ultimately have "gets_to Opt E k (in_phase k (Asking ?q) ?s0) t"
      by - (rule own_step [OF k0], simp_all del: crowd_do.simps)
    moreover have "fst (watch Opt E sv) = fst (intake E f ?sv1)"
      using Inr eq l by (simp add: watch_def poll_def)
    ultimately show ?thesis using s0 t(2) by auto
  qed
qed

text \<open>The second loop, as events of the crowd.\<close>

fun step_event :: "ov_event \<Rightarrow> crowd_event" where
  "step_event (Begin i E) = StepBegins i E"
| "step_event (Resume n) = StepEnds n"
| "step_event (Admit E p r) = Started"

fun is_step :: "ov_event \<Rightarrow> bool" where
  "is_step (Admit _ _ _) \<longleftrightarrow> False"
| "is_step _ \<longleftrightarrow> True"

lemma crowd_steps:
  assumes "list_all is_step evs" and "ov_run (so_pipeline Opt) evs (cr_over s) = (v, es)"
  shows "crowd_run Opt (map step_event evs) s = (s\<lparr>cr_over := v\<rparr>, es)"
  using assms
proof (induction evs arbitrary: s es)
  case (Cons ev evs)
  obtain v1 es1 where d: "ov_do (so_pipeline Opt) ev (cr_over s) = (v1, es1)" by (rule prod.exhaust)
  obtain v2 es2 where "ov_run (so_pipeline Opt) evs v1 = (v2, es2)" by (rule prod.exhaust)
  with Cons.prems(2) d have r: "ov_run (so_pipeline Opt) evs v1 = (v, es2)" "es = es1 @ es2"
    by (simp_all del: ov_do.simps)
  have "crowd_do Opt (step_event ev) s = (s\<lparr>cr_over := v1\<rparr>, es1)"
    using Cons.prems(1) d by (cases ev) (simp_all del: ov_do.simps)
  with Cons.IH [of "s\<lparr>cr_over := v1\<rparr>" es2] Cons.prems(1) r show ?case by (simp del: crowd_do.simps)
qed simp

lemma drive_keeps: "sv_watcher (fst (drive Opt E js sv)) = sv_watcher sv \<and> sv_store (fst (drive Opt E js sv)) = sv_store sv"
proof (induction js arbitrary: sv)
  case (Cons x js)
  obtain i j where x: "x = (i, j)" by force
  have "sv_watcher (fst (drive_one Opt E i j sv)) = sv_watcher sv \<and> sv_store (fst (drive_one Opt E i j sv)) = sv_store sv"
    by (auto simp: drive_one_def Let_def split: prod.split sum.split)
  with Cons.IH show ?case by (simp add: x case_prod_beta Let_def)
qed simp

lemma rest_jobs:
  assumes "at_rest v sv"
  shows "distinct (map fst (sv_live sv))" and "\<forall>(i, j) \<in> set (sv_live sv). map_of (sv_live sv) i = Some j"
  using assms rest_keys [OF assms] by (auto simp: at_rest_def ov_ok_def below_def)

text \<open>
  A tick on its own is the tick of the service: from a state at rest, the events of a tick that starts,
  goes through every await of its poll and of its admissions and then steps each live job, with nothing in
  between, leave the watcher, the store, the jobs and the disk as \<open>tick\<close> does and send what it sends.
\<close>

theorem crowd_alone_is_tick:
  assumes "crowd_rest s sv"
  shows "\<exists>n s' es. crowd_run Opt
      (Started # own_events Opt E (length (cr_ticks s)) n (fst (crowd_do Opt Started s)) @
       map step_event (one_after_another E (sv_live (fst (watch Opt E sv))))) s = (s', es) \<and>
    crowd_rest s' (fst (tick Opt E sv)) \<and> map snd es = snd (tick Opt E sv)"
proof -
  let ?s1 = "fst (crowd_do Opt Started s)" and ?sv1 = "fst (watch Opt E sv)"
  obtain n t where t: "crowd_run Opt (own_events Opt E (length (cr_ticks s)) n ?s1) ?s1 = (t, [])" "crowd_rest t ?sv1"
    using watch_alone [OF assms, of Opt E] unfolding gets_to_def by blast
  let ?js = "sv_live ?sv1"
  have r: "at_rest (cr_over t) ?sv1" using t(2) by (simp add: crowd_rest_def)
  obtain v es where v: "ov_run (so_pipeline Opt) (one_after_another E ?js) (cr_over t) = (v, es)"
    "at_rest v (fst (drive Opt E ?js ?sv1))" "map snd es = snd (drive Opt E ?js ?sv1)"
    using drive_at_rest [OF r rest_jobs [OF r]] by blast
  have "list_all is_step (one_after_another E ?js)" by (auto simp: one_after_another_def list_all_iff)
  note run = crowd_steps [OF this v(1)]
  have "crowd_run Opt (Started # own_events Opt E (length (cr_ticks s)) n ?s1 @ map step_event (one_after_another E ?js)) s =
      (t\<lparr>cr_over := v\<rparr>, es)"
    using t(1) run by (simp add: crowd_run_append Let_def del: own_events.simps)
  moreover have "crowd_rest (t\<lparr>cr_over := v\<rparr>) (fst (drive Opt E ?js ?sv1))"
    using v(2) t(2) drive_keeps [of Opt E ?js ?sv1] by (simp add: crowd_rest_def)
  ultimately show ?thesis using v(3) by (auto simp: tick_def Let_def)
qed

lemma crowd_alone_is_tick_witness:
  "\<exists>s sv evs s' es. crowd_rest s sv \<and> sv_live sv = [(late_id, left_job)] \<and>
    crowd_run demo_service_options (Started # evs) s = (s', es) \<and>
    crowd_rest s' (fst (tick demo_service_options demo_tick_env sv)) \<and>
    map snd es = snd (tick demo_service_options demo_tick_env sv)"
proof -
  let ?v = "\<lparr>ov_live = [(late_id, 0)], ov_objects = [left_job], ov_fdc = demo_fdc, ov_disk = left_disk, ov_suspended = []\<rparr>"
  let ?sv = "(new_ExecutorService demo_store demo_fdc left_disk)\<lparr>sv_live := [(late_id, left_job)]\<rparr>"
  let ?s = "\<lparr>cr_watcher = new_Watcher, cr_store = demo_store, cr_over = ?v, cr_ticks = []\<rparr>"
  have r: "crowd_rest ?s ?sv"
    by (simp add: crowd_rest_def at_rest_def ov_ok_def below_def live_view_def new_ExecutorService_def)
  show ?thesis using crowd_alone_is_tick [OF r, of demo_service_options demo_tick_env] r by fastforce
qed

end
