(* ===== verification/Vouch.thy ===== *)
theory Vouch
  imports Crowd
begin

text \<open>
  What the crowd of \<open>Crowd\<close> can mint: an invariant that ties every job, in memory, on its way to the map or
  on disk, to a payment the ledger reported and the bytes its memo commits to.
\<close>

subsection \<open>Where a job can come from\<close>

definition committed_to :: "account_tx_entry \<Rightarrow> js_str \<Rightarrow> js_str \<Rightarrow> bool" where
  "committed_to e h c \<longleftrightarrow> considered e \<and> entry_hash e (the (entry_tx e)) = Some h \<and>
     commitmentFromMemos (the (entry_tx e)) = Some c"

definition ledger_said :: "crowd_event list \<Rightarrow> js_str \<Rightarrow> js_str \<Rightarrow> bool" where
  "ledger_said evs h c \<longleftrightarrow> (\<exists>k rpc q es e. Replied k rpc \<in> set evs \<and> rpc q = Inr (Some es) \<and> e \<in> set es \<and>
     committed_to e h c)"

definition from_reply :: "crowd_event list \<Rightarrow> account_tx_entry \<Rightarrow> bool" where
  "from_reply evs e \<longleftrightarrow> (\<exists>k rpc q es. Replied k rpc \<in> set evs \<and> rpc q = Inr (Some es) \<and> e \<in> set es)"

abbreviation said :: "crowd_event list \<Rightarrow> observed_payment \<Rightarrow> bool" where
  "said evs p \<equiv> ledger_said evs (xrplTxId p) (ob_commitment p)"

text \<open>\<open>d0\<close> is the directory the process found when it started.\<close>

definition backed :: "viem \<Rightarrow> crowd_event list \<Rightarrow> job directory \<Rightarrow> job \<Rightarrow> bool" where
  "backed V evs d0 j \<longleftrightarrow>
     (\<exists>h c. ledger_said evs h c \<and> normalizeXrplTxId h = Inr (j_xrplTxId j) \<and> keccak256 V (j_userOpData j) = Inr c) \<or>
     (\<exists>f j0. read_json f d0 = Some j0 \<and> job_identity j = job_identity j0)"

definition disk_backed :: "viem \<Rightarrow> crowd_event list \<Rightarrow> job directory \<Rightarrow> job directory \<Rightarrow> bool" where
  "disk_backed V evs d0 d \<longleftrightarrow> (\<forall>f j. read_json f d = Some j \<longrightarrow> backed V evs d0 j)"

fun phase_ok :: "viem \<Rightarrow> crowd_event list \<Rightarrow> job directory \<Rightarrow> tick_phase \<Rightarrow> bool" where
  "phase_ok V evs d0 (Asking q) \<longleftrightarrow> True"
| "phase_ok V evs d0 (Looking e c rest found) \<longleftrightarrow> considered e \<and> commitmentFromMemos (the (entry_tx e)) = Some c \<and>
     from_reply evs e \<and> list_all (from_reply evs) rest \<and> list_all (said evs) found"
| "phase_ok V evs d0 (Fetching p ps) \<longleftrightarrow> said evs p \<and> list_all (said evs) ps"
| "phase_ok V evs d0 (Loading p txId cp ps) \<longleftrightarrow> said evs p \<and> normalizeXrplTxId (xrplTxId p) = Inr txId \<and>
     keccak256 V (cp_userOpData cp) = Inr (ob_commitment p) \<and> list_all (said evs) ps"
| "phase_ok V evs d0 (Saving now p j ps) \<longleftrightarrow> backed V evs d0 j \<and> list_all (said evs) ps"
| "phase_ok V evs d0 (Past e) \<longleftrightarrow> True"

definition crowd_ok :: "viem \<Rightarrow> crowd_event list \<Rightarrow> job directory \<Rightarrow> crowd \<Rightarrow> bool" where
  "crowd_ok V evs d0 s \<longleftrightarrow> sound_hash_inv V (cr_store s) \<and> ov_ok (cr_over s) \<and>
     list_all (backed V evs d0) (ov_objects (cr_over s)) \<and> disk_backed V evs d0 (ov_disk (cr_over s)) \<and>
     list_all (phase_ok V evs d0) (cr_ticks s)"

subsection \<open>More events, more said\<close>

lemma said_mono: "set evs \<subseteq> set evs' \<Longrightarrow> ledger_said evs h c \<Longrightarrow> ledger_said evs' h c"
  unfolding ledger_said_def by blast

lemma from_reply_mono: "set evs \<subseteq> set evs' \<Longrightarrow> from_reply evs e \<Longrightarrow> from_reply evs' e"
  unfolding from_reply_def by blast

lemma backed_mono: "set evs \<subseteq> set evs' \<Longrightarrow> backed V evs d0 j \<Longrightarrow> backed V evs' d0 j"
  unfolding backed_def using said_mono by blast

lemma phase_ok_mono: "set evs \<subseteq> set evs' \<Longrightarrow> phase_ok V evs d0 ph \<Longrightarrow> phase_ok V evs' d0 ph"
  by (cases ph) (auto simp: list_all_iff intro: said_mono from_reply_mono backed_mono)

lemma crowd_ok_mono:
  assumes "set evs \<subseteq> set evs'" and "crowd_ok V evs d0 s"
  shows "crowd_ok V evs' d0 s"
  using assms(2) backed_mono [OF assms(1)] phase_ok_mono [OF assms(1)]
  by (auto simp: crowd_ok_def list_all_iff disk_backed_def)

lemma backed_identity: "job_identity j' = job_identity j \<Longrightarrow> backed V evs d0 j \<Longrightarrow> backed V evs d0 j'"
  unfolding backed_def by (simp add: job_identity_def)

lemma backed_found: "read_json f d0 = Some j \<Longrightarrow> backed V evs d0 j"
  unfolding backed_def by blast

lemma reply_said: "from_reply evs e \<Longrightarrow> committed_to e h c \<Longrightarrow> ledger_said evs h c"
  unfolding from_reply_def ledger_said_def by blast

subsection \<open>The steps of the pipeline\<close>

lemma disk_write:
  assumes "disk_backed V evs d0 d" and "backed V evs d0 j"
  shows "disk_backed V evs d0 (fst (write_file w f j d))"
  using assms by (auto simp: disk_backed_def read_json_write split: if_splits write_outcome.splits)

lemma disk_step:
  assumes "step P E x = (x', es, r)" and "disk_backed V evs d0 (ex_disk x)" and "backed V evs d0 (ex_job x)"
  shows "disk_backed V evs d0 (ex_disk x')"
proof -
  have id: "job_identity (ex_job x') = job_identity (ex_job x)"
    using step_refines [OF assms(1)] job_step_identity by blast
  have "ex_disk x' = ex_disk x \<or> (\<exists>w f. ex_disk x' = fst (write_file w f (ex_job x') (ex_disk x)))"
    using step_saves [OF assms(1)] by blast
  with disk_write [OF assms(2) backed_identity [OF id assms(3)]] assms(2) show ?thesis by auto
qed

lemma disk_answered:
  assumes "answered E a j d = (j', d', r)" and "disk_backed V evs d0 d" and "backed V evs d0 j"
  shows "disk_backed V evs d0 d'"
proof -
  have id: "job_identity j' = job_identity j" using answered_identity [of E a j d] assms(1) by simp
  have "d' = d \<or> (\<exists>w f. d' = fst (write_file w f j' d))"
    using assms(1) by (auto simp: answered_eq Let_def split: sum.splits flow.splits)
  with disk_write [OF assms(2) backed_identity [OF id assms(3)]] assms(2) show ?thesis by auto
qed

lemma over_disk:
  assumes ok: "ov_ok v" and b: "\<And>a. a < length (ov_objects v) \<Longrightarrow> backed V evs d0 (ov_objects v ! a)"
    and disk: "disk_backed V evs d0 (ov_disk v)" and ev: "is_step ev" and do: "ov_do P ev v = (v', es)"
  shows "disk_backed V evs d0 (ov_disk v')"
proof (cases ev)
  case (Begin i E)
  show ?thesis
  proof (cases "map_of (ov_live v) i")
    case None
    with disk do show ?thesis by (auto simp: Begin)
  next
    case (Some a)
    note ba = b [OF live_obj [OF ok Some]]
    show ?thesis
    proof (cases "suspends (j_state (ov_objects v ! a))")
      case True
      with disk do Some show ?thesis by (auto simp: Begin split: prod.splits)
    next
      case False
      obtain x qs r where st: "step P E \<lparr>ex_fdc = ov_fdc v, ex_disk = ov_disk v, ex_job = ov_objects v ! a\<rparr> = (x, qs, r)"
        by (rule prod_cases3)
      have "ov_disk v' = ex_disk x" using do Some False st by (auto simp: Begin finish_step_def)
      with disk_step [OF st, of V evs d0] disk ba show ?thesis by simp
    qed
  qed
next
  case (Resume k)
  show ?thesis
  proof (cases "k < length (ov_suspended v)")
    case True
    let ?p = "ov_suspended v ! k"
    obtain j d r where an: "answered (su_env ?p) (su_answer ?p) (ov_objects v ! su_obj ?p) (ov_disk v) = (j, d, r)"
      by (rule prod_cases3)
    have "ov_disk v' = d" using do True an by (auto simp: Resume Let_def finish_step_def)
    moreover have "su_obj ?p < length (ov_objects v)" using ok True by (simp add: ov_ok_def)
    ultimately show ?thesis using disk_answered [OF an disk] b by simp
  next
    case False
    with disk do show ?thesis by (auto simp: Resume)
  qed
next
  case (Admit E p r)
  with ev show ?thesis by simp
qed

lemma over_ok:
  assumes "ov_ok v" and "list_all (backed V evs d0) (ov_objects v)" and "disk_backed V evs d0 (ov_disk v)"
    and "is_step ev" and "ov_do P ev v = (v', es)"
  shows "ov_ok v' \<and> list_all (backed V evs d0) (ov_objects v') \<and> disk_backed V evs d0 (ov_disk v')"
proof -
  note ok = ov_do_ok [OF assms(1,5)]
  have b: "backed V evs d0 (ov_objects v ! a)" if "a < length (ov_objects v)" for a
    using assms(2) that by (simp add: list_all_length)
  have len: "length (ov_objects v') = length (ov_objects v)"
    using assms(4,5) by (cases ev) (auto simp: finish_step_def Let_def split: option.splits prod.splits if_splits)
  have "list_all (backed V evs d0) (ov_objects v')"
    unfolding list_all_length len
    using ok b backed_identity unfolding extends_def by blast
  with ok over_disk [OF assms(1) b assms(3-5)] show ?thesis by simp
qed

subsection \<open>The first loop\<close>

lemma ok_phase:
  assumes "crowd_ok V evs d0 s" and "phase_ok V evs d0 ph"
  shows "crowd_ok V evs d0 (in_phase k ph s)"
  using assms set_update_subset_insert [of "cr_ticks s" k ph]
  by (auto simp: crowd_ok_def list_all_iff in_phase_def)

lemma ok_store: "crowd_ok V evs d0 s \<Longrightarrow> sound_hash_inv V st \<Longrightarrow> crowd_ok V evs d0 (s\<lparr>cr_store := st\<rparr>)"
  by (simp add: crowd_ok_def)

lemma ok_watcher [simp]: "crowd_ok V evs d0 (s\<lparr>cr_watcher := w\<rparr>) \<longleftrightarrow> crowd_ok V evs d0 s"
  by (simp add: crowd_ok_def)

lemma next_payment_ok: "list_all (said evs) ps \<Longrightarrow> phase_ok V evs d0 (next_payment ps live)"
  by (induction ps) auto

lemma go_on_ok: "crowd_ok V evs d0 s \<Longrightarrow> list_all (said evs) ps \<Longrightarrow> crowd_ok V evs d0 (go_on k ps s)"
  by (simp add: go_on_def ok_phase next_payment_ok)

lemma poll_filter_Some:
  "poll_filter e w = (w', Some c) \<Longrightarrow> considered e \<and> commitmentFromMemos (the (entry_tx e)) = Some c"
  by (auto simp: poll_filter_def considered_def Let_def split: if_splits option.splits)

lemma scan_Some:
  "scan es w = (w', Some (e, c, rest)) \<Longrightarrow> e \<in> set es \<and> set rest \<subseteq> set es \<and>
    considered e \<and> commitmentFromMemos (the (entry_tx e)) = Some c"
  by (induction es arbitrary: w) (auto split: prod.splits option.splits dest: poll_filter_Some)

lemma poll_on_ok:
  assumes "crowd_ok V evs d0 s" and "list_all (from_reply evs) es" and "list_all (said evs) found"
  shows "crowd_ok V evs d0 (poll_on k es found s)"
proof -
  obtain w r where sc: "scan es (cr_watcher s) = (w, r)" by (rule prod.exhaust)
  show ?thesis
  proof (cases r)
    case None
    with sc assms(1,3) show ?thesis by (simp add: poll_on_def go_on_ok)
  next
    case (Some x)
    obtain e c rest where x: "x = (e, c, rest)" by (rule prod_cases3)
    with sc Some have "e \<in> set es \<and> set rest \<subseteq> set es \<and> considered e \<and> commitmentFromMemos (the (entry_tx e)) = Some c"
      using scan_Some by simp
    with assms(2,3) have "phase_ok V evs d0 (Looking e c rest found)" by (auto simp: list_all_iff)
    with sc Some x assms(1) show ?thesis by (simp add: poll_on_def ok_phase)
  qed
qed

lemma poll_report_said:
  assumes "poll_report e c pending w = (w', Some p)" and "considered e"
    and "commitmentFromMemos (the (entry_tx e)) = Some c" and "from_reply evs e"
  shows "said evs p"
proof -
  have "entry_hash e (the (entry_tx e)) = Some (xrplTxId p)" "ob_commitment p = c"
    using assms(1) by (auto simp: poll_report_def Let_def observe_def split: option.splits if_splits)
  with assms(2-4) show ?thesis by (intro reply_said [of evs e]) (simp_all add: committed_to_def)
qed

lemma said_canonical: "ledger_said evs h c \<Longrightarrow> canonical_commitment c"
  using commitmentFromMemos_canonical by (auto simp: ledger_said_def committed_to_def)

lemma create_begin_ok:
  assumes "create_begin p r = Inr (txId, cp)"
  shows "normalizeXrplTxId (xrplTxId p) = Inr txId \<and> cp_userOpData cp = po_userOpData r"
  using assms
  by (cases "js_BigInt (po_totalCallValue r)"; cases "js_BigInt (po_nonce r)"; cases "normalizeXrplTxId (xrplTxId p)")
    (auto simp: create_begin_def)

lemma replied_ok:
  assumes "crowd_ok V evs d0 s" and "Replied k rpc \<in> set evs"
  shows "crowd_ok V evs d0 (replied k rpc ph s)"
proof (cases ph)
  case (Asking q)
  show ?thesis
  proof (cases "rpc q")
    case (Inl e)
    with assms(1) show ?thesis by (simp add: Asking ok_phase)
  next
    case (Inr tr)
    have "list_all (from_reply evs) (case tr of None \<Rightarrow> [] | Some es \<Rightarrow> es)"
      using Inr assms(2) by (cases tr) (auto simp: list_all_iff from_reply_def)
    with Inr assms(1) show ?thesis by (simp add: Asking poll_on_ok)
  qed
qed (simp_all add: assms(1))

lemma looked_up_ok:
  assumes "crowd_ok V evs d0 s" and "phase_ok V evs d0 ph"
  shows "crowd_ok V evs d0 (looked_up k ph s)"
proof (cases ph)
  case (Looking e c rest found)
  obtain st pending where g: "ps_get c (cr_store s) = (st, pending)" by (rule prod.exhaust)
  obtain w f where r: "poll_report e c pending (cr_watcher s) = (w, f)" by (rule prod.exhaust)
  have "sound_hash_inv V st" using assms(1) g ps.inv_lookup [of V "cr_store s" c] by (simp add: crowd_ok_def)
  with assms(1) have ok: "crowd_ok V evs d0 (s\<lparr>cr_watcher := w, cr_store := st\<rparr>)"
    by (simp add: crowd_ok_def)
  have "list_all (said evs) (case f of None \<Rightarrow> found | Some p \<Rightarrow> found @ [p])"
    using assms(2) r poll_report_said [of e c pending "cr_watcher s" w _ evs]
    by (cases f) (auto simp: Looking)
  with ok g r assms(2) show ?thesis by (simp add: Looking poll_on_ok)
next
  case (Fetching p ps)
  obtain st pending where g: "ps_get (ob_commitment p) (cr_store s) = (st, pending)" by (rule prod.exhaust)
  have inv: "sound_hash_inv V (cr_store s)" using assms(1) by (simp add: crowd_ok_def)
  then have ok: "crowd_ok V evs d0 (s\<lparr>cr_store := st\<rparr>)"
    using assms(1) g ps.inv_lookup [of V "cr_store s" "ob_commitment p"] by (simp add: ok_store)
  have p: "said evs p" "list_all (said evs) ps" using assms(2) by (simp_all add: Fetching)
  show ?thesis
  proof (cases pending)
    case None
    with g ok p show ?thesis by (simp add: Fetching go_on_ok)
  next
    case (Some r)
    have key: "keccak256 V (po_userOpData r) = Inr (ob_commitment p)"
      using ps.lookup_binds [OF inv said_canonical [OF p(1)], of r] g Some by (simp add: payload_of_def)
    show ?thesis
    proof (cases "create_begin p r")
      case (Inl e)
      with g Some ok show ?thesis by (simp add: Fetching ok_phase)
    next
      case (Inr b)
      obtain txId cp where b: "b = (txId, cp)" by (rule prod.exhaust)
      then have "phase_ok V evs d0 (Loading p txId cp ps)"
        using create_begin_ok [of p r txId cp] Inr p key by simp
      with g Some Inr b ok show ?thesis by (simp add: Fetching ok_phase)
    qed
  qed
qed (simp_all add: assms(1))

lemma enter_ok:
  assumes "crowd_ok V evs d0 s" and "backed V evs d0 j" and "disk_backed V evs d0 d"
  shows "crowd_ok V evs d0 (s\<lparr>cr_over := enter_job p j ((cr_over s)\<lparr>ov_disk := d\<rparr>)\<rparr>)"
  using assms
  by (auto simp: crowd_ok_def enter_job_def ov_ok_def intro: below_update below_Suc)

lemma loaded_ok:
  assumes "crowd_ok V evs d0 s" and "phase_ok V evs d0 ph"
  shows "crowd_ok V evs d0 (loaded k now ph s)"
proof (cases ph)
  case (Loading p txId cp ps)
  note p = assms(2) [unfolded Loading phase_ok.simps]
  have disk: "disk_backed V evs d0 (ov_disk (cr_over s))" using assms(1) by (simp add: crowd_ok_def)
  show ?thesis
  proof (cases "job_load (js_slice_from 2 txId) (ov_disk (cr_over s))")
    case (Some j)
    then have "backed V evs d0 j" using disk by (auto simp: disk_backed_def job_load_def)
    with enter_ok [OF assms(1) _ disk, of j p] p Some show ?thesis by (simp add: Loading go_on_ok)
  next
    case None
    have "backed V evs d0 (new_job now txId cp)" using p by (auto simp: backed_def new_job_def)
    with None p assms(1) show ?thesis by (simp add: Loading ok_phase)
  qed
qed (simp_all add: assms(1))

lemma wrote_ok:
  assumes "crowd_ok V evs d0 s" and "phase_ok V evs d0 ph"
  shows "crowd_ok V evs d0 (wrote k w ph s)"
proof (cases ph)
  case (Saving now p j ps)
  obtain d j' r where sv: "job_save now w j (ov_disk (cr_over s)) = (d, j', r)" by (rule prod_cases3)
  have "job_identity j' = job_identity j" "d = fst (write_file w (job_file (j_id j')) j' (ov_disk (cr_over s)))"
    using sv by (auto simp: job_save_def Let_def job_identity_def case_prod_beta)
  moreover have disk: "disk_backed V evs d0 (ov_disk (cr_over s))" using assms(1) by (simp add: crowd_ok_def)
  moreover have j: "backed V evs d0 j" and ps: "list_all (said evs) ps" using assms(2) by (simp_all add: Saving)
  ultimately have j': "backed V evs d0 j'" and d: "disk_backed V evs d0 d"
    using backed_identity [of j' j] disk_write by auto
  show ?thesis
  proof (cases r)
    case (Inl e)
    have "crowd_ok V evs d0 (s\<lparr>cr_over := (cr_over s)\<lparr>ov_disk := d\<rparr>\<rparr>)"
      using assms(1) d by (simp add: crowd_ok_def ov_ok_def)
    with sv Inl show ?thesis by (simp add: Saving ok_phase)
  next
    case (Inr u)
    with sv enter_ok [OF assms(1) j' d, of p] ps show ?thesis by (simp add: Saving go_on_ok)
  qed
qed (simp_all add: assms(1))

subsection \<open>Any run\<close>

lemma phase_of_ok: "crowd_ok V evs d0 s \<Longrightarrow> phase_ok V evs d0 (phase_of k s)"
  by (simp add: crowd_ok_def phase_of_def list_all_length)

lemma crowd_do_ok:
  assumes "crowd_ok (so_viem Opt) evs d0 s" and "ev \<in> set evs" and "crowd_do Opt ev s = (s', es)"
  shows "crowd_ok (so_viem Opt) evs d0 s'"
proof -
  note ph = phase_of_ok [OF assms(1)]
  have step: "crowd_ok (so_viem Opt) evs d0 (s\<lparr>cr_over := v\<rparr>)"
    if "is_step e" and "ov_do (so_pipeline Opt) e (cr_over s) = (v, qs)" for e v qs
    using over_ok [OF _ _ _ that, of "so_viem Opt" evs d0] assms(1) by (simp add: crowd_ok_def)
  show ?thesis
  proof (cases ev)
    case Started
    with assms(1,3) show ?thesis by (auto simp: crowd_ok_def)
  next
    case (Replied k rpc)
    with assms replied_ok [OF assms(1), of k rpc] show ?thesis by auto
  next
    case (LookedUp k)
    with assms(3) looked_up_ok [OF assms(1) ph] show ?thesis by auto
  next
    case (Loaded k now)
    with assms(3) loaded_ok [OF assms(1) ph] show ?thesis by auto
  next
    case (Wrote k w)
    with assms(3) wrote_ok [OF assms(1) ph] show ?thesis by auto
  next
    case (StepBegins i E)
    with assms(3) step [of "Begin i E"] show ?thesis by (auto simp del: ov_do.simps split: prod.splits)
  next
    case (StepEnds n)
    with assms(3) step [of "Resume n"] show ?thesis by (auto simp del: ov_do.simps split: prod.splits)
  next
    case (Registers now w entry)
    have "sound_hash_inv (so_viem Opt) (fst (ps_register (so_viem Opt) now w entry (cr_store s)))"
      using assms(1) store_inv_register by (simp add: crowd_ok_def sound_hash_inv_def)
    with Registers assms(1,3) show ?thesis by (auto simp: ok_store)
  qed
qed

text \<open>Objects stay, and what is sent pays for the object it is tagged with.\<close>

lemma first_half_extends:
  "extends (cr_over s) (cr_over (replied k rpc ph s))" "extends (cr_over s) (cr_over (looked_up k ph s))"
  "extends (cr_over s) (cr_over (loaded k now ph s))" "extends (cr_over s) (cr_over (wrote k w ph s))"
proof -
  have on: "cr_over (poll_on k es found t) = cr_over t" "cr_over (go_on k ps t) = cr_over t" for es found ps t
    by (simp_all add: poll_on_def go_on_def split: prod.split option.split)
  have enter: "extends v (enter_job p j (v\<lparr>ov_disk := d\<rparr>))" "extends v (enter_job p j v)" for v p j d
    by (simp_all add: extends_def enter_job_def nth_append)
  show "extends (cr_over s) (cr_over (replied k rpc ph s))" by (cases ph) (simp_all add: on split: sum.split)
  show "extends (cr_over s) (cr_over (looked_up k ph s))"
    by (cases ph) (simp_all add: on case_prod_beta Let_def split: option.split sum.split)
  show "extends (cr_over s) (cr_over (loaded k now ph s))" by (cases ph) (simp_all add: on enter split: option.split)
  show "extends (cr_over s) (cr_over (wrote k w ph s))"
    by (cases ph) (simp_all add: on enter extends_def [of _ "_\<lparr>ov_disk := _\<rparr>"] split: prod.split sum.split)
qed

lemma crowd_do_sends:
  assumes "ov_ok (cr_over s)" and "crowd_do Opt ev s = (s', es)"
  shows "extends (cr_over s) (cr_over s') \<and> (\<forall>(a, q) \<in> set es. a < length (ov_objects (cr_over s)) \<and>
    pays_for (so_pipeline Opt) (job_identity (ov_objects (cr_over s) ! a)) q)"
proof (cases ev)
  case (StepBegins i E)
  obtain v qs where "ov_do (so_pipeline Opt) (Begin i E) (cr_over s) = (v, qs)" by (rule prod.exhaust)
  with assms ov_do_ok [OF assms(1) this] show ?thesis by (auto simp: StepBegins simp del: ov_do.simps)
next
  case (StepEnds n)
  obtain v qs where "ov_do (so_pipeline Opt) (Resume n) (cr_over s) = (v, qs)" by (rule prod.exhaust)
  with assms ov_do_ok [OF assms(1) this] show ?thesis by (auto simp: StepEnds simp del: ov_do.simps)
qed (use assms(2) in \<open>auto simp: first_half_extends\<close>)

definition fresh_crowd :: "watcher \<Rightarrow> pending_store \<Rightarrow> fdc_client \<Rightarrow> job directory \<Rightarrow> crowd" where
  "fresh_crowd w st c d = \<lparr>cr_watcher = w, cr_store = st, cr_over = fresh_overlap c d, cr_ticks = []\<rparr>"

lemma crowd_run_snoc: "crowd_run Opt (evs @ [ev]) s =
    (let (s1, es) = crowd_run Opt evs s; (s2, es2) = crowd_do Opt ev s1 in (s2, es @ es2))"
  by (simp add: crowd_run_append case_prod_beta Let_def)

lemma crowd_run_ok:
  assumes "sound_hash_inv (so_viem Opt) st" and "crowd_run Opt evs (fresh_crowd w st c d0) = (s', es)"
  shows "crowd_ok (so_viem Opt) evs d0 s' \<and> (\<forall>(a, q) \<in> set es. a < length (ov_objects (cr_over s')) \<and>
    pays_for (so_pipeline Opt) (job_identity (ov_objects (cr_over s') ! a)) q)"
  using assms(2)
proof (induction evs arbitrary: s' es rule: rev_induct)
  case Nil
  with assms(1) show ?case
    by (auto simp: fresh_crowd_def fresh_overlap_def crowd_ok_def ov_ok_def below_def disk_backed_def intro: backed_found)
next
  case (snoc ev evs)
  obtain s1 es1 where r1: "crowd_run Opt evs (fresh_crowd w st c d0) = (s1, es1)" by (rule prod.exhaust)
  obtain s2 es2 where "crowd_do Opt ev s1 = (s2, es2)" by (rule prod.exhaust)
  with snoc.prems have r2: "crowd_do Opt ev s1 = (s', es2)" and es: "es = es1 @ es2" by (simp_all add: crowd_run_snoc r1)
  note ih = snoc.IH [OF r1]
  have "crowd_ok (so_viem Opt) (evs @ [ev]) d0 s1"
    by (rule crowd_ok_mono [OF _ conjunct1 [OF ih]]) auto
  then have ok: "crowd_ok (so_viem Opt) (evs @ [ev]) d0 s'" by (rule crowd_do_ok [OF _ _ r2]) simp
  have "ov_ok (cr_over s1)" using ih by (simp add: crowd_ok_def)
  note sends = crowd_do_sends [OF this r2]
  have "a < length (ov_objects (cr_over s1)) \<and> pays_for (so_pipeline Opt) (job_identity (ov_objects (cr_over s1) ! a)) q"
    if "(a, q) \<in> set es" for a q
    using that ih sends by (auto simp: es)
  with sends ok show ?case by (fastforce simp: extends_def)
qed

text \<open>
  (C3) Nobody's bytes but the payer's: however polls, registrations, admissions and steps interleave, every
  minting transaction the executor sends goes to the AssetManager and carries bytes whose hash is the
  commitment in the memo of a payment to the vault the ledger reported, and it is sent for the job named
  after that payment; or both were in a job file the process found when it started.
\<close>

theorem crowd_mints_committed:
  assumes "keccak256_doc (so_viem Opt)" and "store_inv (so_viem Opt) st"
    and "crowd_run Opt evs (fresh_crowd w st c d0) = (s', es)" and "(a, ExecuteDirectMinting am pf u v) \<in> set es"
  shows "am = pl_assetManager (so_pipeline Opt) \<and> a < length (ov_objects (cr_over s')) \<and>
    ((\<exists>h cm. ledger_said evs h cm \<and> normalizeXrplTxId h = Inr (j_xrplTxId (ov_objects (cr_over s') ! a)) \<and>
        keccak256 (so_viem Opt) u = Inr cm) \<or>
     (\<exists>f j0. read_json f d0 = Some j0 \<and> j_xrplTxId (ov_objects (cr_over s') ! a) = j_xrplTxId j0 \<and> u = j_userOpData j0))"
proof -
  let ?j = "ov_objects (cr_over s') ! a"
  have "sound_hash_inv (so_viem Opt) st" using assms(1,2) by (simp add: sound_hash_inv_def)
  note ok = crowd_run_ok [OF this assms(3)]
  have a: "a < length (ov_objects (cr_over s'))"
    "pays_for (so_pipeline Opt) (job_identity ?j) (ExecuteDirectMinting am pf u v)"
    using ok assms(4) by auto
  from a(2) have "am = pl_assetManager (so_pipeline Opt)" "u = j_userOpData ?j" by (simp_all add: job_identity_def)
  moreover have "backed (so_viem Opt) evs d0 ?j" using ok a(1) by (simp add: crowd_ok_def list_all_length)
  ultimately show ?thesis using a(1) by (auto simp: backed_def job_identity_def)
qed

subsection \<open>One payment, two jobs\<close>

text \<open>
  Two ticks get the transactions of the ledger before either has read the record of the payment they are both
  told of. Each passes the test of the seen set, which is filled after that read, and each admits the payment.
  The events are in an order the event loop allows when the record is on disk and not in memory, as after a
  restart: the two answers of the ledger, the read of the record by each tick, which goes on at once to its
  second lookup, now in memory, and to the read of the job file; then the two job files.
\<close>

definition twice :: "account_tx_entry \<Rightarrow> int \<Rightarrow> int \<Rightarrow> crowd_event list" where
  "twice e n0 n1 = (let rpc = (\<lambda>q. Inr (Some [e])) in
     [Started, Started, Replied 0 rpc, Replied 1 rpc, LookedUp 0, LookedUp 0, LookedUp 1, LookedUp 1,
      Loaded 0 n0, Loaded 1 n1, Wrote 0 Written, Wrote 1 Written])"

lemma poll_filter_committed:
  assumes "committed_to e h c" and "h \<notin> w_seen w"
  shows "\<exists>w'. poll_filter e w = (w', Some c) \<and> w_seen w' = w_seen w"
  using assms by (auto simp: poll_filter_def committed_to_def considered_def Let_def)

lemma poll_report_committed:
  assumes "committed_to e h c" and "h \<noteq> []"
  shows "\<exists>w'. poll_report e c (Some r) w = (w', Some (observe h c e (the (entry_tx e))))"
  using assms by (auto simp: poll_report_def committed_to_def Let_def)

lemmas crowd_moves = phase_of_def in_phase_def poll_on_def go_on_def live_keys_def

lemma ps_get_again:
  assumes "canonical_commitment c" and "snd (ps_get c s) = Some r"
  obtains st where "ps_get c s = (st, Some r)" "snd (ps_get c st) = Some r"
  using assms ps_get_stable [OF assms(1,1), of s] by (metis prod.collapse)

lemma crowd_run_trans:
  "crowd_run Opt evs s = (s1, es1) \<Longrightarrow> crowd_run Opt evs' s1 = (s2, es2) \<Longrightarrow>
    crowd_run Opt (evs @ evs') s = (s2, es1 @ es2)"
  by (simp add: crowd_run_append)

text \<open>
  (C10) A payment can become two jobs: from any state without ticks in flight in which it is new to the watcher,
  its record is on disk and not in memory and no job file is there, there is a schedule of two ticks, both told
  of the payment before either has read the record, in which both report it and the process ends up with two
  objects for it in the state \<open>observed\<close>, of which the map holds the second.
\<close>

theorem crowd_reports_twice:
  assumes "cr_ticks s = []" and "committed_to e h c" and "h \<noteq> []" and "h \<notin> w_seen (cr_watcher s)"
    and "ps_memory (cr_store s) (js_toLowerCase c) = None"
    and "snd (ps_get c (cr_store s)) = Some r" and "h \<notin> fst ` set (ov_live (cr_over s))"
    and "create_begin (observe h c e (the (entry_tx e))) r = Inr (t, cp)"
    and "job_load (js_slice_from 2 t) (ov_disk (cr_over s)) = None"
  shows "\<exists>s'. crowd_run Opt (twice e n0 n1) s = (s', []) \<and>
    ov_objects (cr_over s') = ov_objects (cr_over s) @ [new_job n0 t cp, new_job n1 t cp] \<and>
    map_of (ov_live (cr_over s')) h = Some (length (ov_objects (cr_over s)) + 1)"
proof -
  let ?p = "observe h c e (the (entry_tx e))" and ?v = "cr_over s"
  let ?q = "poll_params (so_coreVaultAddress Opt) POLL_LIMIT (cr_watcher s)"
  have can: "canonical_commitment c" using assms(2) commitmentFromMemos_canonical by (auto simp: committed_to_def)
  have p: "xrplTxId ?p = h" "ob_commitment ?p = c" by (simp_all add: observe_def)
  obtain w1 where w1: "poll_filter e (cr_watcher s) = (w1, Some c)" "h \<notin> w_seen w1"
    using poll_filter_committed [OF assms(2,4)] assms(4) by auto
  obtain w2 where w2: "poll_filter e w1 = (w2, Some c)" using poll_filter_committed [OF assms(2) w1(2)] by auto
  obtain w3 where w3: "poll_report e c (Some r) w2 = (w3, Some ?p)" using poll_report_committed [OF assms(2,3)] by blast
  obtain w4 where w4: "poll_report e c (Some r) w3 = (w4, Some ?p)" using poll_report_committed [OF assms(2,3)] by blast
  obtain st1 where st1: "ps_get c (cr_store s) = (st1, Some r)" "snd (ps_get c st1) = Some r"
    by (rule ps_get_again [OF can assms(6)])
  obtain st2 where st2: "ps_get c st1 = (st2, Some r)" "snd (ps_get c st2) = Some r" by (rule ps_get_again [OF can st1(2)])
  obtain st3 where st3: "ps_get c st2 = (st3, Some r)" "snd (ps_get c st3) = Some r" by (rule ps_get_again [OF can st2(2)])
  obtain st4 where st4: "ps_get c st3 = (st4, Some r)" by (rule ps_get_again [OF can st3(2)])
  define told where "told = s\<lparr>cr_watcher := w2, cr_ticks := [Looking e c [] [], Looking e c [] []]\<rparr>"
  define first where "first = s\<lparr>cr_watcher := w3, cr_store := st2, cr_ticks := [Loading ?p t cp [], Looking e c [] []]\<rparr>"
  define load2 where "load2 = s\<lparr>cr_watcher := w4, cr_store := st4, cr_ticks := [Loading ?p t cp [], Loading ?p t cp []]\<rparr>"
  define save2 where "save2 = load2\<lparr>cr_ticks := [Saving n0 ?p (new_job n0 t cp) [], Saving n1 ?p (new_job n1 t cp) []]\<rparr>"
  have 1: "crowd_run Opt [Started, Started, Replied 0 (\<lambda>q. Inr (Some [e])), Replied 1 (\<lambda>q. Inr (Some [e]))] s = (told, [])"
    using assms(1) w1(1) w2 by (simp add: told_def crowd_moves)
  have 2: "crowd_run Opt [LookedUp 0, LookedUp 0] told = (first, [])"
    using assms(7,8) w3 st1(1) st2(1) by (simp add: told_def first_def crowd_moves p)
  have 3: "crowd_run Opt [LookedUp 1, LookedUp 1] first = (load2, [])"
    using assms(7,8) w4 st3(1) st4 by (simp add: first_def load2_def crowd_moves p)
  have 4: "crowd_run Opt [Loaded 0 n0, Loaded 1 n1] load2 = (save2, [])"
    using assms(9) by (simp add: load2_def save2_def crowd_moves)
  have j: "(new_job n t cp)\<lparr>j_updatedAt := n\<rparr> = new_job n t cp" for n by (simp add: new_job_def)
  obtain s' where 5: "crowd_run Opt [Wrote 0 Written, Wrote 1 Written] save2 = (s', [])"
    and "ov_objects (cr_over s') = ov_objects ?v @ [new_job n0 t cp, new_job n1 t cp]"
    and "map_of (ov_live (cr_over s')) h = Some (length (ov_objects ?v) + 1)"
    by (simp add: save2_def load2_def crowd_moves job_save_def Let_def enter_job_def j p update_conv')
  moreover have "twice e n0 n1 = [Started, Started, Replied 0 (\<lambda>q. Inr (Some [e])), Replied 1 (\<lambda>q. Inr (Some [e]))] @
      [LookedUp 0, LookedUp 0] @ [LookedUp 1, LookedUp 1] @ [Loaded 0 n0, Loaded 1 n1] @ [Wrote 0 Written, Wrote 1 Written]"
    by (simp add: twice_def Let_def)
  then have "crowd_run Opt (twice e n0 n1) s = (s', [])"
    using crowd_run_trans [OF 1 crowd_run_trans [OF 2 crowd_run_trans [OF 3 crowd_run_trans [OF 4 5]]]]
    by (simp only: append_Nil)
  ultimately show ?thesis by blast
qed

subsection \<open>Who sets the price\<close>

lemma register_then_get:
  assumes "keccak256_doc V" and "keccak256 V (rg_userOpData entry) = Inr c" and "\<not> claims_other (rg_commitment entry) c"
  shows "snd (ps_get c (fst (ps_register V now w entry st))) = Some (pending_record now c entry)"
  using assms keccak256_docD(3) [OF assms(1,2)]
  by (cases w) (simp_all add: ps_register_def ps_get_def Let_def)

text \<open>
  (C11) The hash does not cover the price: what a registration claims as the sum of the call values is what the
  executor sends with the minting transaction of a payment that has no job yet, whatever calls the bytes hold,
  and whatever the store held for the same bytes before, so the last to register them sets the value. No run
  from the job created for the payment sends another value, and when the servers answer the run sends this one.
\<close>

theorem register_sets_the_price:
  assumes "keccak256_doc V" and "keccak256 V (rg_userOpData entry) = Inr c" and "\<not> claims_other (rg_commitment entry) c"
    and "js_BigInt (rg_totalCallValue entry) = Inr v" and "js_BigInt (rg_nonce entry) = Inr n"
    and "normalizeXrplTxId (xrplTxId p) = Inr t" and "job_load (js_slice_from 2 t) d = None"
    and "te_createWrite E (xrplTxId p) = Written"
  shows "\<exists>r d' j. snd (ps_get c (fst (ps_register V now w entry st))) = Some r \<and> create_from E p r d = (d', Inr j) \<and>
    (\<forall>P x ls x' am pf u value. ex_job x = j \<and> pl.run P x ls x' \<and> ExecuteDirectMinting am pf u value \<in> set (concat ls) \<longrightarrow>
      am = pl_assetManager P \<and> u = rg_userOpData entry \<and> value = v) \<and>
    (\<forall>P F req rd pf hash rc x. ex_job x = j \<and> smooth P F j req rd pf v hash rc \<longrightarrow>
      (\<exists>x' hub fee. run 6 P (\<lambda>_. 0) (\<lambda>_. F) 0 None x = Some (x', [RequestAttestation hub (Some req) fee,
        ExecuteDirectMinting (pl_assetManager P) pf (rg_userOpData entry) v], Inr ())))"
proof -
  let ?r = "pending_record now c entry"
  obtain d' j where j: "create_from E p ?r d = (d', Inr j)" "j_userOpData j = rg_userOpData entry" "j_state j = observed"
    "job_identity j = (js_slice_from 2 t, t, rg_userOpData entry, bigint_toString v, rg_personalAccount entry, bigint_toString n)"
    using assms(4-8) by (simp add: create_from_def pending_record_def job_create_def job_save_def Let_def new_job_def job_identity_def)
  have "am = pl_assetManager P \<and> u = rg_userOpData entry \<and> y = v"
    if "ex_job x = j" "pl.run P x ls x'" "ExecuteDirectMinting am pf u y \<in> set (concat ls)" for P x ls x' am pf u y
  proof -
    have "\<forall>q \<in> set (concat ls). pays_for P (job_identity j) q"
      using pl_pays.inv_run_label(2) [OF that(2), of "job_identity j"] that(1) by (simp add: list_all_iff)
    with that(3) j(4) show ?thesis by fastforce
  qed
  moreover have "\<exists>x' hub fee. run 6 P (\<lambda>_. 0) (\<lambda>_. F) 0 None x = Some (x', [RequestAttestation hub (Some req) fee,
        ExecuteDirectMinting (pl_assetManager P) pf (rg_userOpData entry) v], Inr ())"
    if "ex_job x = j" "smooth P F j req rd pf v hash rc" for P F req rd pf hash rc x
    using run_loop_smooth [of P F x req rd pf v hash rc "\<lambda>_. 0" "30 * 60000" 0 0] that j(2,3)
    by (auto simp: run_def simp del: run_loop.simps)
  ultimately show ?thesis using register_then_get [OF assms(1-3), of now w st] j(1) by blast
qed

subsection \<open>Witnesses\<close>

text \<open>An executor that was restarted: the registration of \<open>demo_store\<close> is on disk and not in memory.\<close>

definition restarted_store :: pending_store where
  "restarted_store = new_PendingStore (ps_disk demo_store)"

lemma restarted_get: "snd (ps_get demo_commitment restarted_store) = Some (pending_record 7 demo_commitment demo_entry)"
  by (simp add: restarted_store_def new_PendingStore_def ps_get_def demo_store_def ps_register_def demo_entry_def
      demo_commitment_hash claims_other_def read_json_def Let_def)

lemma restarted_inv: "store_inv demo_viem restarted_store"
  using store_inv_restart [OF demo_store_inv] by (simp add: restarted_store_def)

definition paid_entry :: account_tx_entry where
  "paid_entry = demo_entry_tx\<lparr>e_hash := Some late_id\<rparr>"

lemma paid_committed: "committed_to paid_entry late_id demo_commitment"
  using demo_commitment_from_memos demo_reportable
  by (simp add: committed_to_def paid_entry_def reportable_def considered_def entry_tx_def entry_hash_def)

lemma paid_create: "\<exists>cp. create_begin (observe late_id demo_commitment paid_entry (the (entry_tx paid_entry)))
    (pending_record 7 demo_commitment demo_entry) = Inr (''0x'' @ replicate 64 (CHR ''A''), cp)"
  by (simp add: create_begin_def observe_def late_id_def demo_observed_def demo_normalize_bare pending_record_def
      demo_entry_def demo_BigInt)

lemma late_id_not_empty: "late_id \<noteq> []"
  by (simp add: late_id_def demo_observed_def observe_def)

lemma crowd_reports_twice_witness:
  "\<exists>s' i j. crowd_run demo_service_options (twice paid_entry 1 2) (fresh_crowd new_Watcher restarted_store demo_fdc []) = (s', []) \<and>
    ov_objects (cr_over s') = [i, j] \<and> j_state i = observed \<and> j_state j = observed \<and> j_xrplTxId i = j_xrplTxId j \<and>
    map_of (ov_live (cr_over s')) late_id = Some 1"
proof -
  let ?s = "fresh_crowd new_Watcher restarted_store demo_fdc []"
  obtain cp where cp: "create_begin (observe late_id demo_commitment paid_entry (the (entry_tx paid_entry)))
    (pending_record 7 demo_commitment demo_entry) = Inr (''0x'' @ replicate 64 (CHR ''A''), cp)"
    using paid_create by blast
  have f: "cr_ticks ?s = []" "late_id \<notin> w_seen (cr_watcher ?s)" "snd (ps_get demo_commitment (cr_store ?s)) = Some (pending_record 7 demo_commitment demo_entry)"
    "ov_objects (cr_over ?s) = []" "late_id \<notin> fst ` set (ov_live (cr_over ?s))"
    "job_load (js_slice_from 2 (''0x'' @ replicate 64 (CHR ''A''))) (ov_disk (cr_over ?s)) = None"
    "ps_memory (cr_store ?s) (js_toLowerCase demo_commitment) = None"
    using restarted_get by (simp_all add: fresh_crowd_def fresh_overlap_def new_Watcher_def job_load_def read_json_def
        restarted_store_def new_PendingStore_def)
  from crowd_reports_twice [OF f(1) paid_committed late_id_not_empty f(2,7,3,5) cp f(6),
      of demo_service_options 1 2] f(4)
  obtain s' where "crowd_run demo_service_options (twice paid_entry 1 2) ?s = (s', [])"
    "ov_objects (cr_over s') = [new_job 1 (''0x'' @ replicate 64 (CHR ''A'')) cp, new_job 2 (''0x'' @ replicate 64 (CHR ''A'')) cp]"
    "map_of (ov_live (cr_over s')) late_id = Some 1" by auto
  then show ?thesis by (auto simp: new_job_def)
qed

text \<open>A payment that is found, admitted with the job of \<open>left_disk\<close>, and minted.\<close>

definition found_events :: "crowd_event list" where
  "found_events = [Started, Replied 0 (\<lambda>q. Inr (Some [paid_entry])), LookedUp 0, LookedUp 0, Loaded 0 1, StepBegins late_id demo_env]"

lemma found_mints: "\<exists>s. crowd_run demo_service_options found_events (fresh_crowd new_Watcher restarted_store demo_fdc left_disk) =
    (s, [(0, ExecuteDirectMinting ''0xmanager'' demo_proof ''0xab'' 5)])"
proof -
  let ?p = "observe late_id demo_commitment paid_entry (the (entry_tx paid_entry))"
  let ?t = "''0x'' @ replicate 64 (CHR ''A'')" and ?r = "pending_record 7 demo_commitment demo_entry"
  let ?s = "fresh_crowd new_Watcher restarted_store demo_fdc left_disk"
  obtain cp where cp: "create_begin ?p ?r = Inr (?t, cp)" using paid_create by blast
  obtain w1 where w1: "poll_filter paid_entry new_Watcher = (w1, Some demo_commitment)"
    using poll_filter_committed [OF paid_committed, of new_Watcher] by (auto simp: new_Watcher_def)
  obtain w2 where w2: "poll_report paid_entry demo_commitment (Some ?r) w1 = (w2, Some ?p)"
    using poll_report_committed [OF paid_committed late_id_not_empty] by blast
  obtain st1 where st1: "ps_get demo_commitment restarted_store = (st1, Some ?r)" "snd (ps_get demo_commitment st1) = Some ?r"
    by (rule ps_get_again [OF demo_commitment_canonical restarted_get])
  obtain st2 where st2: "ps_get demo_commitment st1 = (st2, Some ?r)" by (rule ps_get_again [OF demo_commitment_canonical st1(2)])
  have p: "xrplTxId ?p = late_id" "ob_commitment ?p = demo_commitment" by (simp_all add: observe_def)
  have l: "job_load (js_slice_from 2 ?t) left_disk = Some left_job" by (simp add: job_load_def read_json_def left_disk_def)
  let ?v = "\<lparr>ov_live = [(late_id, 0)], ov_objects = [left_job], ov_fdc = demo_fdc, ov_disk = left_disk, ov_suspended = []\<rparr>"
  let ?s1 = "\<lparr>cr_watcher = w2, cr_store = st2, cr_over = ?v, cr_ticks = [Past None]\<rparr>"
  have 1: "crowd_run demo_service_options [Started, Replied 0 (\<lambda>q. Inr (Some [paid_entry])), LookedUp 0, LookedUp 0] ?s =
      (\<lparr>cr_watcher = w2, cr_store = st2, cr_over = fresh_overlap demo_fdc left_disk, cr_ticks = [Loading ?p ?t cp []]\<rparr>, [])"
    using w1 w2 st1(1) st2 cp by (simp add: fresh_crowd_def fresh_overlap_def crowd_moves p)
  have 2: "crowd_run demo_service_options [Loaded 0 1]
      \<lparr>cr_watcher = w2, cr_store = st2, cr_over = fresh_overlap demo_fdc left_disk, cr_ticks = [Loading ?p ?t cp []]\<rparr> = (?s1, [])"
    using l by (simp add: fresh_overlap_def crowd_moves enter_job_def p)
  obtain v where "ov_do demo_options (Begin late_id demo_env) ?v = (v, [(0, ExecuteDirectMinting ''0xmanager'' demo_proof ''0xab'' 5)])"
    using left_mints by (auto simp: left_admit_def left_created fresh_overlap_def late_id_def [symmetric] case_prod_beta Let_def simp del: ov_do.simps(2,3))
  moreover have "so_pipeline demo_service_options = demo_options" by (simp add: demo_service_options_def demo_options_def)
  ultimately have 3: "crowd_run demo_service_options [StepBegins late_id demo_env] ?s1 =
      (?s1\<lparr>cr_over := v\<rparr>, [(0, ExecuteDirectMinting ''0xmanager'' demo_proof ''0xab'' 5)])"
    by (simp del: ov_do.simps)
  have "found_events = [Started, Replied 0 (\<lambda>q. Inr (Some [paid_entry])), LookedUp 0, LookedUp 0] @ [Loaded 0 1] @
      [StepBegins late_id demo_env]" by (simp add: found_events_def)
  with crowd_run_trans [OF 1 crowd_run_trans [OF 2 3]] show ?thesis by (intro exI) (simp only: append_Nil)
qed

lemma crowd_mints_committed_witness:
  "\<exists>s'. crowd_run demo_service_options found_events (fresh_crowd new_Watcher restarted_store demo_fdc left_disk) =
      (s', [(0, ExecuteDirectMinting ''0xmanager'' demo_proof ''0xab'' 5)]) \<and>
    ((\<exists>h cm. ledger_said found_events h cm \<and> keccak256 demo_viem ''0xab'' = Inr cm) \<or>
     (\<exists>f j0. read_json f left_disk = Some j0 \<and> ''0xab'' = j_userOpData j0))"
proof -
  obtain s' where s: "crowd_run demo_service_options found_events (fresh_crowd new_Watcher restarted_store demo_fdc left_disk) =
      (s', [(0, ExecuteDirectMinting ''0xmanager'' demo_proof ''0xab'' 5)])"
    using found_mints by blast
  have v: "so_viem demo_service_options = demo_viem" by (simp add: demo_service_options_def)
  have "(0, ExecuteDirectMinting ''0xmanager'' demo_proof ''0xab'' 5) \<in>
      set [(0, ExecuteDirectMinting ''0xmanager'' demo_proof ''0xab'' 5)]" by simp
  from crowd_mints_committed [OF _ _ s this] demo_viem_docs(3) restarted_inv s show ?thesis by (auto simp: v)
qed

text \<open>The operation of \<open>demo_store\<close>, registered again with a price of its own.\<close>

definition dear_entry :: registration where
  "dear_entry = demo_entry\<lparr>rg_totalCallValue := ''1000''\<rparr>"

lemma register_sets_the_price_witness:
  "\<exists>r d' j hub fee x'. snd (ps_get demo_commitment (fst (ps_register demo_viem 9 Written dear_entry demo_store))) = Some r \<and>
    create_from demo_tick_env demo_observed r [] = (d', Inr j) \<and>
    run 6 demo_options (\<lambda>_. 0) (\<lambda>_. demo_env) 0 None \<lparr>ex_fdc = demo_fdc, ex_disk = d', ex_job = j\<rparr> =
      Some (x', [RequestAttestation hub (Some ''0x5265'') fee, ExecuteDirectMinting ''0xmanager'' demo_proof ''0xab'' 1000], Inr ())"
proof -
  have k: "keccak256 demo_viem (rg_userOpData dear_entry) = Inr demo_commitment"
    and c: "\<not> claims_other (rg_commitment dear_entry) demo_commitment"
    and n: "js_BigInt (rg_nonce dear_entry) = Inr 4"
    by (simp_all add: dear_entry_def demo_entry_def demo_commitment_hash claims_other_def demo_BigInt)
  have v: "js_BigInt (rg_totalCallValue dear_entry) = Inr 1000"
    by (simp add: dear_entry_def) code_simp
  have t: "normalizeXrplTxId (xrplTxId demo_observed) = Inr (''0x'' @ replicate 64 (CHR ''A''))"
    by (simp add: demo_observed_def observe_def demo_normalize_bare)
  have f: "job_load (js_slice_from 2 (''0x'' @ replicate 64 (CHR ''A''))) [] = None"
    "te_createWrite demo_tick_env (xrplTxId demo_observed) = Written"
    by (simp_all add: job_load_def read_json_def demo_tick_env_def)
  have u: "rg_userOpData dear_entry = ''0xab''" "pl_assetManager demo_options = ''0xmanager''"
    by (simp_all add: dear_entry_def demo_entry_def demo_options_def)
  from register_sets_the_price [OF demo_viem_docs(3) k c v n t f, of 9 Written demo_store] obtain r d' j where
    r: "snd (ps_get demo_commitment (fst (ps_register demo_viem 9 Written dear_entry demo_store))) = Some r"
    "create_from demo_tick_env demo_observed r [] = (d', Inr j)"
    and all: "\<forall>P F req rd pf hash rc x. ex_job x = j \<and> smooth P F j req rd pf 1000 hash rc \<longrightarrow>
      (\<exists>x' hub fee. run 6 P (\<lambda>_. 0) (\<lambda>_. F) 0 None x = Some (x', [RequestAttestation hub (Some req) fee,
        ExecuteDirectMinting (pl_assetManager P) pf (rg_userOpData dear_entry) 1000], Inr ()))"
    by (elim exE conjE)
  have "js_BigInt (j_totalCallValue j) = Inr 1000"
    using r register_then_get [OF demo_viem_docs(3) k c, of 9 Written demo_store] v n t f
    by (auto simp: create_from_def pending_record_def job_create_def job_save_def Let_def new_job_def)
  then have "smooth demo_options demo_env j ''0x5265'' 10 demo_proof 1000 ''0xhash'' demo_receipt"
    by (rule demo_smooth_any)
  then have s: "ex_job \<lparr>ex_fdc = demo_fdc, ex_disk = d', ex_job = j\<rparr> = j \<and>
    smooth demo_options demo_env j ''0x5265'' 10 demo_proof 1000 ''0xhash'' demo_receipt" by simp
  from r all [rule_format, OF s, unfolded u] show ?thesis by blast
qed

end
