(* ===== verification/Spec2Isabelle.thy ===== *)
theory Spec2Isabelle
  imports Wire Entry Config Recover Demo Relay Checks TeeNode Vouch
begin

text \<open>
  ONESIG: one signature on the XRP Ledger runs a batch of calls on Flare. An app asks the SDK to
  prepare a request (\<open>packages/sdk\<close>): the calls become a user operation, its hash the memo of an
  ordinary XRP payment to the Core Vault. The bytes themselves go to an executor
  (\<open>packages/executor\<close>), which keeps them, watches the vault for a payment that carries their hash,
  has the payment attested by the FDC and mints with the bytes. An enclave
  (\<open>extension/typescript\<close>) can hold the bytes of an intent back until a price or time trigger fires.
  The programs of \<open>scripts/\<close> put these parts together. The library models all of this and its
  theorems say that the parts keep what they promise each other; the properties \<open>paid_is_executed\<close> and
  \<open>paid_is_delivered\<close> below follow one request through them, the first whatever happens to it, the
  second when the servers answer for it.

  \<^bold>\<open>Shared theories.\<close> \<open>Prelude\<close>: JavaScript values (text as lists of code units below 256, numbers as exact
  rationals with NaN and the infinities, JSON), errors as sums, the string methods the sources call.
  \<open>Numbers\<close>, \<open>Hex\<close>: decimal and hexadecimal text, big-endian bytes on 8-bit words. \<open>Viem\<close>: the package
  viem as a record of functions with its documented behaviour as named predicates (\<open>isHex_doc\<close>,
  \<open>keccak256_doc\<close>, ...). \<open>Platform\<close>: a concrete platform (UTF-8, JSON text) for the witnesses.
  \<open>Transitions\<close>: locales for labelled transitions, invariants, histories and bisimulations, each
  interpreted on the pipeline or the enclave. Two further locales are contracts between components:
  \<open>address_cache\<close> (the caches of the SDK's client and of the FDC client) and \<open>payload_store\<close> (the
  store of the executor); \<open>registry\<close> is that of the handlers of the enclave.

  \<^bold>\<open>SDK.\<close> \<open>Memo\<close> (\<open>memo.ts\<close>: seven encoders and the decoder, with round trips both ways), \<open>Fassets\<close>
  (\<open>fassets.ts\<close>: fees and the amount to pay), \<open>Userop\<close> (\<open>userop.ts\<close>: batch, operation, hash), \<open>Prepare\<close>
  (\<open>prepare.ts\<close>: the client with its caches; when \<open>prepare\<close> succeeds, what its result satisfies, that
  the caches are invisible), \<open>Config\<close> (\<open>config.ts\<close>: its tables, well formed and in agreement with the
  constants the other parts use).

  \<^bold>\<open>Executor.\<close> \<open>Store\<close> (\<open>store.ts\<close>: memory and directory, failing and torn writes, restarts; every payload
  found hashes to its commitment), \<open>Watcher\<close> (\<open>watcher.ts\<close>: cursor, seen set, the filters of a poll),
  \<open>Fdc\<close> (\<open>fdc.ts\<close>), \<open>Pipeline\<close> and \<open>Delivery\<close> (\<open>pipeline.ts\<close>: the state machine of a job as code, an
  inductive relation it refines, invariants over any run, the undisturbed run, the loop \<open>run\<close>),
  \<open>Xrpl\<close> (\<open>xrpl.ts\<close>), \<open>Xaman\<close> (\<open>xaman.ts\<close>), \<open>Service\<close> (\<open>service.ts\<close>: every route and the two loops of
  a tick), and in \<open>Scripts\<close> the clients of \<open>client.ts\<close>. \<open>Relay\<close> puts ticks in a row: a payment that was
  found is delivered after five of them. \<open>Overlap\<close> cuts a step at its await, so that ticks started by the
  timer before the last one ended interleave: what they keep in every order, the condition under which
  they are as good as ticks in a row, and what they break. \<open>Crowd\<close> cuts the first loop too, at the await of
  \<open>account_tx\<close>, of every lookup in the store and of the load and the write of \<open>create\<close>, and lets registrations
  come in between: alone, such a tick is the tick of \<open>Service\<close>. \<open>Vouch\<close> carries an invariant through every
  interleaving (a job comes from bytes that hash to the memo of a reported payment), shows how one payment
  becomes two jobs, and that the hash does not cover the value that is sent.

  \<^bold>\<open>Enclave.\<close> \<open>Encoding\<close>, \<open>Framework\<close>, \<open>Server\<close> (\<open>base/\<close>: identifiers, the table of handlers, the HTTP
  surface), \<open>Triggers\<close> and \<open>Latch\<close> (\<open>app/\<close>: conditions, price feed, the four commands and the tick over
  an explicit heap of intents), \<open>Enclave\<close>, \<open>Release\<close> and \<open>Sealed\<close> (commands interleaved with ticks cut
  at their await: the gate before a release, confidentiality, and where interleaving breaks a
  comment), \<open>Extension\<close> (all of it behind HTTP, with \<open>packages/executor/src/latch.ts\<close> as its client),
  \<open>Wire\<close> (the types \<open>base/types.ts\<close> declares for what goes over the wire, as predicates on JSON), \<open>Entry\<close>
  (\<open>main.ts\<close>: the process of the container, without a timer, and how it ends; a rejection nobody handles
  ends it with code 1, the default of Node), \<open>TeeNode\<close> (\<open>base/node.ts\<close>: the client of the signing node and
  its base64 text).

  \<^bold>\<open>Programs.\<close> \<open>Scripts\<close> has the monad of a program: a session of clients and disk that records what was
  posted to the ledger and sent to the chain, and ends early with an exit code or an exception.
  \<open>Gate\<close> (\<open>gate1.ts\<close>, \<open>resume-job.ts\<close>), \<open>Signing\<close> (the waits for a phone), \<open>Recover\<close>
  (\<open>recover-mint.ts\<close>), \<open>Web\<close> (\<open>run-executor.ts\<close>) and \<open>Demo\<close> (\<open>demo-deposit.ts\<close>, \<open>demo-xaman.ts\<close>, run
  against the service of \<open>Service\<close>) say when money moves, what it pays for, and what exit code 0 means.
  \<open>Checks\<close> (\<open>verify-prepare.ts\<close>, \<open>verify-fdc.ts\<close>, \<open>verify-xaman.ts\<close>, \<open>seed-mock-fxrp.ts\<close>) says what a
  passing probe lets one conclude.

  \<^bold>\<open>State and effects.\<close> Objects are records, updated and returned. What the network, the chain, the clock
  and the disk answer is an argument of the operation that asks: a record of functions or a function
  of the round, with no law assumed unless a theorem names it. Exceptions are the left side of a sum.
  A transaction that is sent is a value of \<open>tx_request\<close> in the result.

  \<^bold>\<open>Loops.\<close> The loop \<open>run\<close> of the pipeline and the waits of the programs have no bound but the clock, so
  they run on fuel. \<open>pipeline_run_returns\<close>, \<open>signature_wait_ends\<close> and \<open>phone_demo_ends\<close> show that fuel
  until the clock passes the deadline is enough. All other loops are structural.

  \<^bold>\<open>Not modelled.\<close> In \<open>Service\<close> and \<open>Relay\<close> a tick ends before the next one starts, which \<open>setInterval\<close>
  does not promise; \<open>Overlap\<close> drops that assumption for the steps and \<open>Crowd\<close> for the whole tick. There a step
  has one await, in the states that ask the network, and its answer is fixed when it is asked for; a lookup
  in the memory of the store may be overtaken like one on disk, which allows more orders than the event loop
  has; \<open>crowd_reports_twice\<close>, which claims that an order exists, names one the event loop has. A step saves
  its job in one go, where the source waits for the directory first. Sockets beyond the events of \<open>Entry\<close>, log lines and printed text. Characters above 255. Rounding of
  doubles: prices and amounts for display are exact rationals; an integer the source turns into a number
  (\<open>Number(...)\<close> of a feed or of the time of a delayed mint) is rounded as it is. The ABI constants of the SDK and of the
  scripts: they only name functions of contracts, and the contracts are parameters. The Solidity contracts,
  the same framework in Go and Python, the deployment tools and the demo page: none is TypeScript, and the
  modelled code meets them only through the parameters above. The two \<open>index.ts\<close>, which only re-export.
\<close>

section \<open>From the wallet to the vault\<close>

lemma created_identity:
  assumes "create_from E p (pending_record now h (registration_of req)) d = (d', Inr j)"
    and "\<And>t. normalizeXrplTxId (xrplTxId p) = Inr t \<Longrightarrow> job_load (js_slice_from 2 t) d = None"
  obtains t where "job_identity j = (js_slice_from 2 t, t, userOpData req,
    bigint_toString (totalCallValue req), personalAccount req, bigint_toString (pr_nonce req))"
proof -
  let ?cp = "\<lparr>cp_xrplTxId = xrplTxId p, cp_userOpData = userOpData req, cp_totalCallValue = totalCallValue req,
    cp_personalAccount = personalAccount req, cp_nonce = pr_nonce req\<rparr>"
  have "job_create (te_createNow E) (te_createWrite E (xrplTxId p)) ?cp d = (d', Inr j)"
    using assms(1) by (simp add: create_from_def pending_record_def registration_of_def)
  then obtain t where t: "normalizeXrplTxId (cp_xrplTxId ?cp) = Inr t"
    and "job_load (js_slice_from 2 t) d = Some j \<and> d' = d \<or>
      job_load (js_slice_from 2 t) d = None \<and> te_createWrite E (xrplTxId p) = Written \<and>
      j = new_job (te_createNow E) t ?cp \<and>
      d' = AList.update (job_file (js_slice_from 2 t)) (JsonFile j) d"
    by (rule job_create_Inr)
  with assms(2) have "j = new_job (te_createNow E) t ?cp" by auto
  with that show ?thesis by (simp add: new_job_identity)
qed

text \<open>
  (C1) The whole journey: for a request the SDK prepared and the executor registered, the payment that
  carries the request's memo is recognised as paying for exactly that registration, and whatever becomes
  of the job created from it, in any number of steps, restarts of the network and errors, every minting
  transaction it sends goes to the AssetManager with the prepared user operation and the sum of its
  call values.
\<close>

theorem paid_is_executed:
  assumes "isHex_doc V" and "keccak256_doc V" and "encodeAbiParameters_doc V"
    and "snd (prepare V R c params) = Inr req"
    and "ps_register V now w (registration_of req) store = (store', Inr h)"
    and "json_get tx ''Memos'' = Some (JArr (memo_json (MemoData (xrplPayment req)) # ws))"
    and "create_from E p (pending_record now h (registration_of req)) d = (d', Inr j)"
    and "\<And>t. normalizeXrplTxId (xrplTxId p) = Inr t \<Longrightarrow> job_load (js_slice_from 2 t) d = None"
    and "pl.run P x ls x'" and "ex_job x = j"
  shows "commitmentFromMemos tx = Some (userOpHash req) \<and>
    snd (ps_get (userOpHash req) store') = Some (pending_record now h (registration_of req)) \<and>
    (\<forall>am pf bytes v. ExecuteDirectMinting am pf bytes v \<in> set (concat ls) \<longrightarrow>
      am = pl_assetManager P \<and> bytes = userOpData req \<and> v = totalCallValue req)"
proof -
  note k = prepared_commitment [OF assms(1-4)]
  have h: "h = userOpHash req"
    using ps_register_Inr(1) [OF assms(5)] k(1) by (simp add: registration_of_def)
  have "commitmentFromMemos tx = Some (userOpHash req)"
    using assms(6) k(3) by (simp add: commitmentFromMemos_def)
  moreover have "snd (ps_get (userOpHash req) store') = Some (pending_record now h (registration_of req))"
    by (rule ps_get_registered(1) [OF assms(5)]) (simp add: h)
  moreover obtain t where "job_identity j = (js_slice_from 2 t, t, userOpData req,
      bigint_toString (totalCallValue req), personalAccount req, bigint_toString (pr_nonce req))"
    using assms(7,8) by (rule created_identity)
  moreover have "\<forall>q \<in> set (concat ls). pays_for P (job_identity j) q"
    using pl_pays.inv_run_label(2) [OF assms(9), of "job_identity j"] assms(10)
    by (simp add: list_all_iff)
  ultimately show ?thesis by fastforce
qed

text \<open>The journey of the increment request of the demo page, up to the creation of its job.\<close>

definition demo_memos :: json where
  "demo_memos = JObj [(''Memos'', JArr [memo_json (MemoData (xrplPayment demo_request))])]"

lemma paid_is_executed_witness:
  "\<exists>store' d' j. ps_register demo_viem 7 Written (registration_of demo_request) (new_PendingStore []) =
      (store', Inr (userOpHash demo_request)) \<and>
    create_from demo_tick_env demo_observed
      (pending_record 7 (userOpHash demo_request) (registration_of demo_request)) [] = (d', Inr j) \<and>
    commitmentFromMemos demo_memos = Some (userOpHash demo_request)"
proof -
  let ?r = "pending_record 7 (userOpHash demo_request) (registration_of demo_request)"
  obtain store' where s: "ps_register demo_viem 7 Written (registration_of demo_request) (new_PendingStore []) =
      (store', Inr (userOpHash demo_request))"
    using registered_request [OF demo_viem_docs(1,3,4) demo_prepared] by blast
  obtain d' j where j: "create_from demo_tick_env demo_observed ?r [] = (d', Inr j)"
    by (simp add: create_from_def pending_record_def registration_of_def job_create_def job_save_def
        demo_observed_def observe_def demo_normalize_bare job_load_def read_json_def demo_tick_env_def Let_def)
  have m: "json_get demo_memos ''Memos'' = Some (JArr (memo_json (MemoData (xrplPayment demo_request)) # []))"
    by (simp add: demo_memos_def)
  have "commitmentFromMemos demo_memos = Some (userOpHash demo_request)"
    using paid_is_executed [OF demo_viem_docs(1,3,4) demo_prepared s m j _ pl.run_refl,
        of "\<lparr>ex_fdc = demo_fdc, ex_disk = d', ex_job = j\<rparr>"]
    by (simp add: job_load_def read_json_def)
  with s j show ?thesis by blast
qed

text \<open>
  (C2) The whole journey, forwards: when a prepared request is registered with a service and the ledger
  reports a payment with its memo, among whatever else the poll brings, a first tick that takes in its
  payments without an error creates the job of the payment, and if the servers answer for that job the
  second tick asks for its attestation and the fifth sends the minting transaction with the prepared
  operation and the sum of its call values, whatever the ticks do for other jobs and whatever later polls
  bring. The other entries of the poll only have to be other transactions; that the tick takes in its
  payments without an error is needed, as \<open>service_drops_failed_intake\<close> shows.
\<close>

theorem paid_is_delivered:
  assumes "isHex_doc V" and "keccak256_doc V" and "encodeAbiParameters_doc V"
    and "snd (prepare V R c params) = Inr req"
    and "ps_register V now w (registration_of req) store = (sv_store s, Inr h)"
    and "distinct (map fst (sv_live s))" and "i \<notin> fst ` set (sv_live s)" and "i \<notin> w_seen (sv_watcher s)"
    and "te_rpc E1 (poll_params (so_coreVaultAddress Opt) POLL_LIMIT (sv_watcher s)) = Inr (Some entries)"
    and "entry \<in> set entries" and "considered entry" and "entry_hash entry (the (entry_tx entry)) = Some i"
    and "json_get (the (entry_tx entry)) ''Memos'' = Some (JArr (memo_json (MemoData (xrplPayment req)) # ws))"
    and "normalizeXrplTxId i = Inr txId" and "job_load (js_slice_from 2 txId) (sv_jobs s) = None"
    and "\<forall>e \<in> set entries. \<forall>k. e \<noteq> entry \<and> considered e \<and> entry_hash e (the (entry_tx e)) = Some k \<longrightarrow>
      normalizeXrplTxId k \<noteq> Inr txId"
    and "snd (watch Opt E1 s) = Inr ()"
    and "j = new_job (te_createNow E1) txId \<lparr>cp_xrplTxId = i, cp_userOpData = userOpData req,
      cp_totalCallValue = totalCallValue req, cp_personalAccount = personalAccount req, cp_nonce = pr_nonce req\<rparr>"
    and "list_all (\<lambda>E. smooth (so_pipeline Opt) (te_step E i) j abi rd pf (totalCallValue req) hash rc) [E1, E2, E3, E4, E5]"
  shows "\<exists>s' es1 es2 es3 es4 es5 hub fee. ticks Opt [E1, E2, E3, E4, E5] s = (s', [es1, es2, es3, es4, es5]) \<and>
    RequestAttestation hub (Some abi) fee \<in> set es2 \<and>
    ExecuteDirectMinting (pl_assetManager (so_pipeline Opt)) pf (userOpData req) (totalCallValue req) \<in> set es5"
proof -
  let ?r = "pending_record now h (registration_of req)"
  let ?p = "observe i h entry (the (entry_tx entry))"
  note k = prepared_commitment [OF assms(1-4)]
  have h: "h = userOpHash req" using ps_register_Inr(1) [OF assms(5)] k(1) by (simp add: registration_of_def)
  have m: "commitmentFromMemos (the (entry_tx entry)) = Some h"
    using assms(13) k(3) by (simp add: commitmentFromMemos_def h)
  have g: "snd (ps_get h (sv_store s)) = Some ?r" by (rule ps_get_registered(1) [OF assms(5)]) (simp add: h k(2))
  have ne: "i \<noteq> []" using assms(14) by (auto simp: normalizeXrplTxId_def Let_def strip_0x_def js_slice_from_def split: if_splits)
  have rep: "reportable (sv_store s) entry i h" using assms(11,12) ne m g by (simp add: reportable_def)
  obtain w' st found where p: "poll (te_rpc E1) (so_coreVaultAddress Opt) POLL_LIMIT (sv_watcher s) (sv_store s) = (w', st, Inr found)"
    using assms(9) by (simp add: poll_def case_prod_beta Let_def)
  have others: "q = ?p" if "q \<in> set found" "normalizeXrplTxId (xrplTxId q) = Inr txId" for q
    using poll_found_sound [OF p that(1)] that(2) assms(9,12,16) m
    by (fastforce simp: answer_entries_def reportable_def observe_def)
  have "i \<in> xrplTxId ` set found"
    by (rule poll_found_complete [OF p _ rep assms(8)]) (simp add: answer_entries_def assms(9,10))
  then have pin: "?p \<in> set found" using others assms(14) by (auto simp: image_iff)
  have i: "xrplTxId ?p = i" "ob_commitment ?p = h" by (simp_all add: observe_def)
  have v: "js_BigInt (po_totalCallValue ?r) = Inr (totalCallValue req)" "js_BigInt (po_nonce ?r) = Inr (pr_nonce req)"
    "po_userOpData ?r = userOpData req" "po_personalAccount ?r = personalAccount req"
    by (simp_all add: pending_record_def registration_of_def)
  have a: "xrplTxId ?p \<notin> fst ` set (sv_live s)" "normalizeXrplTxId (xrplTxId ?p) = Inr txId"
    "snd (ps_get (ob_commitment ?p) (sv_store s)) = Some ?r"
    "j = new_job (te_createNow E1) txId \<lparr>cp_xrplTxId = xrplTxId ?p, cp_userOpData = po_userOpData ?r,
      cp_totalCallValue = totalCallValue req, cp_personalAccount = po_personalAccount ?r, cp_nonce = pr_nonce req\<rparr>"
    "list_all (\<lambda>E. smooth (so_pipeline Opt) (te_step E (xrplTxId ?p)) j abi rd pf (totalCallValue req) hash rc) [E1, E2, E3, E4, E5]"
    unfolding i v by (rule assms g)+
  have o: "\<forall>q \<in> set found. q \<noteq> ?p \<longrightarrow> normalizeXrplTxId (xrplTxId q) \<noteq> Inr txId" using others by blast
  show ?thesis
    using service_delivers [OF assms(6) p pin assms(17) o a(3,1,2) assms(15) v(1,2) a(4,5)] unfolding v by blast
qed

text \<open>A poll with the payment of the increment request of the demo page behind an entry that is no payment.\<close>

definition journey_tx :: json where
  "journey_tx = JObj [(''TransactionType'', JStr ''Payment''), (''Memos'', JArr [memo_json (MemoData (xrplPayment demo_request))])]"

definition journey_entry :: account_tx_entry where
  "journey_entry = relay_entry\<lparr>e_tx_json := Some journey_tx\<rparr>"

definition other_entry :: account_tx_entry where
  "other_entry = relay_entry\<lparr>e_tx_json := Some (JObj [(''TransactionType'', JStr ''TrustSet'')])\<rparr>"

definition journey_env :: tick_env where
  "journey_env = demo_tick_env\<lparr>te_rpc := (\<lambda>q. Inr (Some [other_entry, journey_entry]))\<rparr>"

lemma journey_watched:
  assumes "ps_register demo_viem 7 Written (registration_of demo_request) (new_PendingStore []) =
      (store', Inr (userOpHash demo_request))"
  shows "snd (watch demo_service_options journey_env (demo_service\<lparr>sv_store := store'\<rparr>)) = Inr ()"
proof -
  let ?s = "demo_service\<lparr>sv_store := store'\<rparr>" and ?h = "replicate 64 (CHR ''A'')" and ?c = "userOpHash demo_request"
  let ?r = "pending_record 7 ?c (registration_of demo_request)"
  let ?p = "observe ?h ?c journey_entry journey_tx"
  note k = prepared_commitment [OF demo_viem_docs(1,3,4) demo_prepared]
  have sv: "sv_store ?s = store'" "sv_watcher ?s = new_Watcher" "sv_jobs ?s = []"
    by (simp_all add: demo_service_def new_ExecutorService_def)
  have tx: "entry_tx journey_entry = Some journey_tx" "considered journey_entry" "entry_hash journey_entry journey_tx = Some ?h"
    "\<not> considered other_entry"
    by (simp_all add: considered_def is_payment_def journey_entry_def journey_tx_def relay_entry_def demo_entry_tx_def
        entry_tx_def nullish_def entry_hash_def other_entry_def)
  have c: "commitmentFromMemos journey_tx = Some ?c" using k(3) by (simp add: commitmentFromMemos_def journey_tx_def)
  have g: "snd (ps_get ?c store') = Some ?r" by (rule ps_get_registered(1) [OF assms]) (simp add: k(2))
  have "poll_entry other_entry new_Watcher store' = (new_Watcher, store', None)"
    using tx(4) by (auto simp: poll_entry_def considered_def)
  moreover have "snd (snd (poll_entry journey_entry new_Watcher store')) = Some ?p"
    unfolding poll_entry_found using tx c g by (auto simp: reportable_def new_Watcher_def)
  ultimately obtain w st where p: "poll (te_rpc journey_env) (so_coreVaultAddress demo_service_options) POLL_LIMIT
      (sv_watcher ?s) (sv_store ?s) = (w, st, Inr [?p])"
    by (simp add: poll_def journey_env_def sv case_prod_beta Let_def)
  have "ps.same_answers store' st" using poll_found_Inr(2) [OF p] poll_loop_store(1) by (simp add: sv)
  then have g': "snd (ps_get (ob_commitment ?p) st) = Some ?r"
    using ps.same_answersD [OF _ conjunct1 [OF commitmentFromMemos_canonical [OF c]]] g by (simp add: observe_def)
  have r: "js_BigInt (po_totalCallValue ?r) = Inr (totalCallValue demo_request)" "js_BigInt (po_nonce ?r) = Inr (pr_nonce demo_request)"
    by (simp_all add: pending_record_def registration_of_def)
  have "\<exists>j. snd (create_from journey_env ?p ?r (sv_jobs ?s)) = Inr j"
    unfolding create_from_def r sum.case
    by (simp add: job_create_def observe_def demo_normalize_bare sv job_load_def read_json_def job_save_def Let_def
        journey_env_def demo_tick_env_def)
  with watch_one_ok [OF p g'] show ?thesis by blast
qed

lemma paid_is_delivered_witness:
  "\<exists>s s' es1 es2 es3 es4 es5. ticks demo_service_options [journey_env, journey_env, journey_env, journey_env, journey_env] s =
      (s', [es1, es2, es3, es4, es5]) \<and>
    ExecuteDirectMinting ''0xmanager'' demo_proof (userOpData demo_request) (totalCallValue demo_request) \<in> set es5"
proof -
  let ?h = "replicate 64 (CHR ''A'')"
  obtain store' where r: "ps_register demo_viem 7 Written (registration_of demo_request) (new_PendingStore []) =
      (store', Inr (userOpHash demo_request))"
    using registered_request [OF demo_viem_docs(1,3,4) demo_prepared] by blast
  let ?s = "demo_service\<lparr>sv_store := store'\<rparr>"
  have sv: "sv_store ?s = store'" "sv_watcher ?s = new_Watcher" "sv_live ?s = []" "sv_jobs ?s = []"
    by (simp_all add: demo_service_def new_ExecutorService_def)
  have e: "te_rpc journey_env q = Inr (Some [other_entry, journey_entry])" "te_step journey_env i = demo_env"
    "te_createWrite journey_env i = Written" "te_createNow journey_env = 1" for q i
    by (simp_all add: journey_env_def demo_tick_env_def demo_env_def)
  have tx: "entry_tx journey_entry = Some journey_tx" "considered journey_entry" "entry_hash journey_entry journey_tx = Some ?h"
    "\<not> considered other_entry"
    by (simp_all add: considered_def is_payment_def journey_entry_def journey_tx_def relay_entry_def demo_entry_tx_def
        entry_tx_def nullish_def entry_hash_def other_entry_def)
  let ?e = journey_env and ?Opt = demo_service_options
  let ?cp = "\<lparr>cp_xrplTxId = ?h, cp_userOpData = userOpData demo_request, cp_totalCallValue = totalCallValue demo_request,
    cp_personalAccount = personalAccount demo_request, cp_nonce = pr_nonce demo_request\<rparr>"
  let ?j = "new_job (te_createNow ?e) (''0x'' @ ?h) ?cp"
  have "js_BigInt (j_totalCallValue ?j) = Inr (totalCallValue demo_request)" by (simp add: new_job_def)
  then have sm: "list_all (\<lambda>E. smooth (so_pipeline ?Opt) (te_step E ?h) ?j ''0x5265'' 10 demo_proof
      (totalCallValue demo_request) ''0xhash'' demo_receipt) [?e, ?e, ?e, ?e, ?e]"
    by (simp add: e demo_smooth_any)
  have P: "pl_assetManager (so_pipeline ?Opt) = ''0xmanager''" by (simp add: demo_service_options_def)
  have r': "ps_register demo_viem 7 Written (registration_of demo_request) (new_PendingStore []) =
      (sv_store ?s, Inr (userOpHash demo_request))" by (simp only: r sv)
  have a: "distinct (map fst (sv_live ?s))" "?h \<notin> fst ` set (sv_live ?s)" "?h \<notin> w_seen (sv_watcher ?s)"
    "te_rpc ?e (poll_params (so_coreVaultAddress ?Opt) POLL_LIMIT (sv_watcher ?s)) = Inr (Some [other_entry, journey_entry])"
    "journey_entry \<in> set [other_entry, journey_entry]"
    "entry_hash journey_entry (the (entry_tx journey_entry)) = Some ?h"
    "json_get (the (entry_tx journey_entry)) ''Memos'' = Some (JArr (memo_json (MemoData (xrplPayment demo_request)) # []))"
    "job_load (js_slice_from 2 (''0x'' @ ?h)) (sv_jobs ?s) = None"
    by (simp_all add: sv e tx new_Watcher_def job_load_def read_json_def) (simp add: journey_tx_def)
  have o: "\<forall>e \<in> set [other_entry, journey_entry]. \<forall>k. e \<noteq> journey_entry \<and> considered e \<and>
      entry_hash e (the (entry_tx e)) = Some k \<longrightarrow> normalizeXrplTxId k \<noteq> Inr (''0x'' @ ?h)"
    using tx(4) by auto
  have ok: "snd (watch ?Opt ?e ?s) = Inr ()"
    using journey_watched [OF r] .
  from paid_is_delivered [OF demo_viem_docs(1,3,4) demo_prepared r' a(1-5) tx(2) a(6,7)
      demo_normalize_bare a(8) o ok refl sm]
  show ?thesis unfolding P by blast
qed

end
